(* ===== verification/Go_Prelude.thy ===== *)
theory Go_Prelude
  imports Main "HOL-Library.AList" "HOL-Library.Sublist" "HOL-Library.List_Lexorder" "HOL-Library.Char_ord"
begin

text \<open>
  Shared vocabulary of the development: the parts of the Go language and of its standard
  library that every component uses.

  \<^item> Go strings are byte sequences, modelled by the type string (a list of 8-bit characters).
    The case functions act on the ASCII letters, and the white space is the ASCII one; a
    byte of 128 or above is left alone. Configurations, requests and tokens of this server
    are ASCII except for display names, which are only copied.
  \<^item> An error return is a value of a sum type, \<open>Inl\<close> for the error; \<open>ebind\<close> is the
    \<open>if err != nil { return err }\<close> idiom.
  \<^item> A loop that visits a slice, may keep a set of names seen so far and may stop with an
    error is \<open>map_err\<close>.
  \<^item> A Go map that is iterated is an association list (\<open>AList.update\<close>), one that is only
    looked up is a HOL map.
\<close>

named_theorems str_simps \<open>facts about the string functions of the Go library\<close>
named_theorems err_simps \<open>facts about error results\<close>

section \<open>Error results\<close>

definition ebind :: "'e + 'a \<Rightarrow> ('a \<Rightarrow> 'e + 'b) \<Rightarrow> 'e + 'b" where
  "ebind m f = (case m of Inl e \<Rightarrow> Inl e | Inr x \<Rightarrow> f x)"

lemma ebind_simps [simp]: "ebind (Inl e) f = Inl e" "ebind (Inr x) f = f x"
  by (simp_all add: ebind_def)

lemma ebind_eq_Inr_iff [err_simps]: "ebind m f = Inr y \<longleftrightarrow> (\<exists>x. m = Inr x \<and> f x = Inr y)"
  by (cases m) simp_all

lemma ebind_eq_Inl_iff [err_simps]:
  "ebind m f = Inl e \<longleftrightarrow> m = Inl e \<or> (\<exists>x. m = Inr x \<and> f x = Inl e)"
  by (cases m) simp_all

lemma if_Inl_eq_Inr [err_simps]: "(if b then Inl e else m) = Inr y \<longleftrightarrow> \<not> b \<and> m = Inr y"
  by simp

lemma ebind_cong [fundef_cong]:
  "m = m' \<Longrightarrow> (\<And>x. m' = Inr x \<Longrightarrow> f x = g x) \<Longrightarrow> ebind m f = ebind m' g"
  by (cases m') simp_all

definition is_ok :: "'e + 'a \<Rightarrow> bool" where
  "is_ok r = (case r of Inl _ \<Rightarrow> False | Inr _ \<Rightarrow> True)"

lemma is_ok_simps [simp]: "is_ok (Inl e) = False" "is_ok (Inr x) = True"
  by (simp_all add: is_ok_def)

lemma is_ok_iff: "is_ok r \<longleftrightarrow> (\<exists>x. r = Inr x)"
  by (cases r) simp_all

text \<open>
  \<open>map_err f s i xs\<close> runs \<open>f\<close> over the elements from left to right: \<open>f\<close> gets the loop
  state (names seen so far), the index and the element, and returns the new state and
  element, or the error that ends the loop.
\<close>

fun map_err :: "('s \<Rightarrow> nat \<Rightarrow> 'a \<Rightarrow> 'e + ('s \<times> 'b)) \<Rightarrow> 's \<Rightarrow> nat \<Rightarrow> 'a list \<Rightarrow> 'e + ('s \<times> 'b list)" where
  "map_err f s i [] = Inr (s, [])"
| "map_err f s i (x # xs) =
     ebind (f s i x) (\<lambda>(s', y). ebind (map_err f s' (Suc i) xs) (\<lambda>(s'', ys). Inr (s'', y # ys)))"

lemma map_err_length: "map_err f s i xs = Inr (s', ys) \<Longrightarrow> length ys = length xs"
  by (induction xs arbitrary: s i s' ys) (auto simp: err_simps)

text \<open>
  The two loop laws. A loop whose step rejects a key it has seen and records the key of
  what it returns yields elements with the step's guarantee and pairwise different keys;
  on elements that already have the guarantee it changes nothing. The primed versions are
  for loops without a \<open>seen\<close> map.
\<close>

lemma map_err_unique:
  assumes step: "\<And>s i x s' y. f s i x = Inr (s', y) \<Longrightarrow> Q y \<and> key y \<notin> set s \<and> s' = key y # s"
    and run: "map_err f s i xs = Inr (s', ys)"
  shows "list_all Q ys \<and> distinct (map key ys) \<and> set (map key ys) \<inter> set s = {} \<and>
         set s' = set (map key ys) \<union> set s"
  using run
proof (induction xs arbitrary: s i s' ys)
  case (Cons x xs)
  from Cons.prems obtain s1 y zs where f: "f s i x = Inr (s1, y)"
    and r: "map_err f s1 (Suc i) xs = Inr (s', zs)" and ys: "ys = y # zs"
    by (auto simp: err_simps)
  note st = step[OF f] and ih = Cons.IH[OF r]
  show ?case using st ih ys by auto
qed simp

lemma map_err_unique_fix:
  assumes step: "\<And>s i x. x \<in> set xs \<Longrightarrow> Q x \<Longrightarrow> key x \<notin> set s \<Longrightarrow> f s i x = Inr (key x # s, x)"
    and "list_all Q xs" and "distinct (map key xs)" and "set (map key xs) \<inter> set s = {}"
  shows "map_err f s i xs = Inr (rev (map key xs) @ s, xs)"
  using assms
proof (induction xs arbitrary: s i)
  case (Cons x xs)
  have "f s i x = Inr (key x # s, x)" using Cons.prems by auto
  moreover have "map_err f (key x # s) (Suc i) xs = Inr (rev (map key xs) @ key x # s, xs)"
    using Cons.prems by (intro Cons.IH) auto
  ultimately show ?case by simp
qed simp

lemma map_err_all:
  assumes step: "\<And>i x y. x \<in> set xs \<Longrightarrow> f () i x = Inr ((), y) \<Longrightarrow> R x y"
    and run: "map_err f () i xs = Inr (u, ys)"
  shows "list_all2 R xs ys"
  using assms
proof (induction xs arbitrary: i ys)
  case (Cons x xs)
  from Cons.prems(2) obtain y zs where f: "f () i x = Inr ((), y)"
    and r: "map_err f () (Suc i) xs = Inr (u, zs)" and ys: "ys = y # zs"
    by (auto simp: err_simps)
  have "list_all2 R xs zs" using Cons.prems(1) r by (intro Cons.IH) auto
  with Cons.prems(1)[OF _ f] ys show ?case by simp
qed simp

lemma map_err_all_fix:
  assumes "\<And>i x. x \<in> set xs \<Longrightarrow> f () i x = Inr ((), x)"
  shows "map_err f () i xs = Inr ((), xs)"
  using assms by (induction xs arbitrary: i) simp_all

section \<open>Machine integers\<close>

text \<open>Go's \<open>int\<close> and \<open>int64\<close> are 64-bit two's complement; \<open>wrap64\<close> is the wrap-around.\<close>

definition wrap64 :: "int \<Rightarrow> int" where
  "wrap64 x = (x + 2 ^ 63) mod 2 ^ 64 - 2 ^ 63"

lemma wrap64_id: "- (2 ^ 63) \<le> x \<Longrightarrow> x < 2 ^ 63 \<Longrightarrow> wrap64 x = x"
  by (simp add: wrap64_def)

section \<open>Characters\<close>

text \<open>
  The upper-case letters are the codes 0x41 to 0x5A; lower case sets bit 5. The tests are
  written on the bits, so that they compute on character literals.
\<close>

fun is_upper :: "char \<Rightarrow> bool" where
  "is_upper (Char b0 b1 b2 b3 b4 b5 b6 b7) \<longleftrightarrow>
     \<not> b7 \<and> b6 \<and> \<not> b5 \<and> (b0 \<or> b1 \<or> b2 \<or> b3 \<or> b4) \<and> \<not> (b4 \<and> b3 \<and> (b2 \<or> b1 \<and> b0))"

fun lower_char :: "char \<Rightarrow> char" where
  "lower_char (Char b0 b1 b2 b3 b4 b5 b6 b7) =
     (if is_upper (Char b0 b1 b2 b3 b4 b5 b6 b7) then Char b0 b1 b2 b3 b4 True b6 b7
      else Char b0 b1 b2 b3 b4 b5 b6 b7)"

lemma is_upper_set: "is_upper c \<longleftrightarrow> c \<in> set ''ABCDEFGHIJKLMNOPQRSTUVWXYZ''"
proof (cases c rule: is_upper.cases)
  case (1 b0 b1 b2 b3 b4 b5 b6 b7)
  then show ?thesis
    by (cases b7; cases b6; cases b5; cases b4; cases b3; cases b2; cases b1; cases b0) simp_all
qed

definition is_digit :: "char \<Rightarrow> bool" where
  "is_digit c \<longleftrightarrow> c \<in> set ''0123456789''"

definition is_hex :: "char \<Rightarrow> bool" where
  "is_hex c \<longleftrightarrow> c \<in> set ''0123456789abcdef''"

definition is_word_char :: "char \<Rightarrow> bool" where
  "is_word_char c \<longleftrightarrow>
     c \<in> set ''ABCDEFGHIJKLMNOPQRSTUVWXYZabcdefghijklmnopqrstuvwxyz0123456789_-''"

definition is_space :: "char \<Rightarrow> bool" where
  "is_space c \<longleftrightarrow> c \<in> {CHR '' '', CHR 0x09, CHR 0x0A, CHR 0x0B, CHR 0x0C, CHR 0x0D}"

lemma lower_char_idem [simp]: "lower_char (lower_char c) = lower_char c"
  by (cases c rule: lower_char.cases) simp

lemma lower_char_space [simp]: "is_space (lower_char c) = is_space c"
  by (cases c rule: lower_char.cases) (auto simp: is_space_def)

lemma hex_word_char: "is_hex c \<Longrightarrow> is_word_char c"
  by (auto simp: is_hex_def is_word_char_def)

lemma hex_lower: "is_hex c \<Longrightarrow> lower_char c = c"
  by (auto simp: is_hex_def)

lemma word_char_not_space: "is_word_char c \<Longrightarrow> \<not> is_space c"
  by (auto simp: is_word_char_def is_space_def)

lemma hex_not_space: "is_hex c \<Longrightarrow> \<not> is_space c"
  by (rule word_char_not_space[OF hex_word_char])

section \<open>Package strings\<close>

definition to_lower :: "string \<Rightarrow> string" where
  "to_lower s = map lower_char s"

definition equal_fold :: "string \<Rightarrow> string \<Rightarrow> bool" where
  "equal_fold a b \<longleftrightarrow> to_lower a = to_lower b"

definition trim_by :: "(char \<Rightarrow> bool) \<Rightarrow> string \<Rightarrow> string" where
  "trim_by p s = rev (dropWhile p (rev (dropWhile p s)))"

definition trim_space :: "string \<Rightarrow> string" where
  "trim_space s = trim_by is_space s"

definition trim_slash :: "string \<Rightarrow> string" where
  "trim_slash s = trim_by (\<lambda>c. c = CHR ''/'') s"

definition has_prefix :: "string \<Rightarrow> string \<Rightarrow> bool" where
  "has_prefix s p \<longleftrightarrow> take (length p) s = p"

definition has_suffix :: "string \<Rightarrow> string \<Rightarrow> bool" where
  "has_suffix s p \<longleftrightarrow> has_prefix (rev s) (rev p)"

fun str_index :: "string \<Rightarrow> string \<Rightarrow> nat option" where
  "str_index [] sub = (if sub = [] then Some 0 else None)"
| "str_index (c # cs) sub =
     (if has_prefix (c # cs) sub then Some 0 else map_option Suc (str_index cs sub))"

definition str_contains :: "string \<Rightarrow> string \<Rightarrow> bool" where
  "str_contains s sub \<longleftrightarrow> str_index s sub \<noteq> None"

definition cut_prefix :: "string \<Rightarrow> string \<Rightarrow> string option" where
  "cut_prefix s p = (if has_prefix s p then Some (drop (length p) s) else None)"

definition trim_prefix :: "string \<Rightarrow> string \<Rightarrow> string" where
  "trim_prefix s p = (case cut_prefix s p of Some r \<Rightarrow> r | None \<Rightarrow> s)"

definition cut_suffix :: "string \<Rightarrow> string \<Rightarrow> string option" where
  "cut_suffix s p = (if has_suffix s p then Some (take (length s - length p) s) else None)"

text \<open>\<open>strings.Cut\<close>: the parts around the first separator, and whether it was found.\<close>

definition str_cut :: "string \<Rightarrow> string \<Rightarrow> string \<times> string \<times> bool" where
  "str_cut s sep = (case str_index s sep of
       None \<Rightarrow> (s, [], False)
     | Some i \<Rightarrow> (take i s, drop (i + length sep) s, True))"

text \<open>\<open>strings.Split\<close> for a non-empty separator (the only use in the program).\<close>

function str_split :: "string \<Rightarrow> string \<Rightarrow> string list" where
  "str_split s sep =
     (if sep = [] then [s]
      else case str_index s sep of
             None \<Rightarrow> [s]
           | Some i \<Rightarrow> take i s # str_split (drop (i + length sep) s) sep)"
  by pat_completeness auto

lemma str_index_bound: "str_index s sub = Some i \<Longrightarrow> i + length sub \<le> length s"
proof (induction s arbitrary: i)
  case Nil
  then show ?case by (simp split: if_splits)
next
  case (Cons c cs)
  show ?case
  proof (cases "has_prefix (c # cs) sub")
    case True
    then have "take (length sub) (c # cs) = sub" by (simp add: has_prefix_def)
    then have "length (take (length sub) (c # cs)) = length sub" by simp
    then have "length sub \<le> length (c # cs)" by simp
    with True Cons.prems show ?thesis by simp
  next
    case False
    with Cons show ?thesis by auto
  qed
qed

termination str_split
proof (relation "measure (\<lambda>(s, sep). length s)", goal_cases)
  case 1
  show ?case by simp
next
  case (2 s sep i)
  from str_index_bound[OF 2(2)] 2(1) show ?case by (cases sep) auto
qed

declare str_split.simps [simp del]

fun str_join :: "string list \<Rightarrow> string \<Rightarrow> string" where
  "str_join [] sep = []"
| "str_join [x] sep = x"
| "str_join (x # y # zs) sep = x @ sep @ str_join (y # zs) sep"

text \<open>\<open>strings.Fields\<close>: the maximal runs of non-space characters.\<close>

function str_fields :: "string \<Rightarrow> string list" where
  "str_fields s =
     (let t = dropWhile is_space s
      in if t = [] then []
         else takeWhile (\<lambda>c. \<not> is_space c) t # str_fields (dropWhile (\<lambda>c. \<not> is_space c) t))"
  by pat_completeness auto
termination
proof (relation "measure length", goal_cases)
  case 1
  show ?case by simp
next
  case (2 s t)
  obtain c cs where t: "t = c # cs" using 2(2) by (cases t) simp_all
  then have "\<not> is_space c" using 2(1) hd_dropWhile[of is_space s] by auto
  then have "length (dropWhile (\<lambda>c. \<not> is_space c) t) \<le> length cs"
    using t length_dropWhile_le[of "\<lambda>c. \<not> is_space c" cs] by simp
  moreover have "length t \<le> length s"
    using 2(1) length_dropWhile_le[of is_space s] by simp
  ultimately show ?case using t by simp
qed

declare str_fields.simps [simp del]

subsection \<open>Laws of the string functions\<close>

lemma trim_Nil [simp]: "trim_space [] = []" "trim_slash [] = []" "to_lower [] = []"
  by (simp_all add: trim_space_def trim_slash_def trim_by_def to_lower_def)

lemma to_lower_idem [simp]: "to_lower (to_lower s) = to_lower s"
  by (simp add: to_lower_def comp_def)

lemma length_to_lower [simp]: "length (to_lower s) = length s"
  by (simp add: to_lower_def)

lemma to_lower_Nil_iff [simp]: "to_lower s = [] \<longleftrightarrow> s = []" "[] = to_lower s \<longleftrightarrow> s = []"
  by (simp_all add: to_lower_def)

lemma equal_fold_refl [simp]: "equal_fold s s"
  by (simp add: equal_fold_def)

lemma equal_fold_lower [simp]:
  "equal_fold (to_lower a) b = equal_fold a b" "equal_fold a (to_lower b) = equal_fold a b"
  by (simp_all add: equal_fold_def)

lemma dropWhile_rev_dropWhile:
  "dropWhile p (rev (dropWhile p (rev (dropWhile p s)))) = rev (dropWhile p (rev (dropWhile p s)))"
proof (cases "dropWhile p s")
  case Nil
  show ?thesis unfolding Nil by simp
next
  case (Cons c cs)
  then have nc: "\<not> p c" by (simp add: dropWhile_eq_Cons_conv)
  then have "rev (dropWhile p (rev cs @ [c])) = c # rev (dropWhile p (rev cs))"
    by (simp add: dropWhile_append3 dropWhile_append1 dropWhile_append)
  then show ?thesis using Cons nc by simp
qed

lemma trim_by_idem [simp]: "trim_by p (trim_by p s) = trim_by p s"
  unfolding trim_by_def by (simp add: dropWhile_rev_dropWhile dropWhile_idem)

lemma trim_space_idem [simp]: "trim_space (trim_space s) = trim_space s"
  by (simp add: trim_space_def)

lemma trim_slash_idem [simp]: "trim_slash (trim_slash s) = trim_slash s"
  by (simp add: trim_slash_def)

lemma dropWhile_to_lower: "dropWhile is_space (to_lower s) = to_lower (dropWhile is_space s)"
  by (induction s) (simp_all add: to_lower_def)

lemma rev_to_lower: "rev (to_lower s) = to_lower (rev s)"
  by (simp add: to_lower_def rev_map)

lemma trim_space_to_lower: "trim_space (to_lower s) = to_lower (trim_space s)"
  by (simp add: trim_space_def trim_by_def dropWhile_to_lower rev_to_lower)

lemma lower_trim_idem [simp]:
  "to_lower (trim_space (to_lower (trim_space s))) = to_lower (trim_space s)"
  by (simp add: trim_space_to_lower)

lemma trim_by_id: "list_all (\<lambda>c. \<not> p c) s \<Longrightarrow> trim_by p s = s"
proof -
  assume a: "list_all (\<lambda>c. \<not> p c) s"
  then have "dropWhile p s = s" by (cases s) simp_all
  moreover from a have "dropWhile p (rev s) = rev s" by (cases "rev s") (auto simp: list_all_iff)
  ultimately show ?thesis by (simp add: trim_by_def)
qed

lemma trim_space_word: "list_all is_word_char s \<Longrightarrow> trim_space s = s"
  unfolding trim_space_def
  by (rule trim_by_id) (auto simp: list_all_iff dest: word_char_not_space)

lemma slash_not_word_char [simp]: "\<not> is_word_char (CHR ''/'')"
  by (simp add: is_word_char_def)

lemma trim_slash_word: "list_all is_word_char s \<Longrightarrow> trim_slash s = s"
  unfolding trim_slash_def
  by (rule trim_by_id) (auto simp: list_all_iff)

lemma lower_char_not_upper: "\<not> is_upper c \<Longrightarrow> lower_char c = c"
  by (cases c rule: lower_char.cases) simp

lemma lower_char_upper: "is_upper c \<Longrightarrow> is_word_char (lower_char c)"
proof -
  have "\<forall>c\<in>set ''ABCDEFGHIJKLMNOPQRSTUVWXYZ''. is_word_char (lower_char c)"
    by (simp add: is_word_char_def)
  then show "is_upper c \<Longrightarrow> is_word_char (lower_char c)" unfolding is_upper_set by blast
qed

lemma lower_word_char: "is_word_char c \<Longrightarrow> is_word_char (lower_char c)"
  by (cases "is_upper c") (simp_all add: lower_char_upper lower_char_not_upper)

lemma to_lower_word: "list_all is_word_char s \<Longrightarrow> list_all is_word_char (to_lower s)"
  by (auto simp: to_lower_def list_all_iff lower_word_char)

lemma has_prefix_append [simp]: "has_prefix (p @ s) p"
  by (simp add: has_prefix_def)

lemma has_prefix_Nil [simp]: "has_prefix s []"
  by (simp add: has_prefix_def)

lemma has_prefix_Cons [simp]:
  "has_prefix (c # s) (d # p) \<longleftrightarrow> c = d \<and> has_prefix s p" "\<not> has_prefix [] (d # p)"
  by (simp_all add: has_prefix_def)

lemma has_prefix_iff: "has_prefix s p \<longleftrightarrow> (\<exists>r. s = p @ r)"
  by (auto simp: has_prefix_def intro: append_take_drop_id[symmetric]) (metis append_take_drop_id)

lemma has_suffix_iff: "has_suffix s p \<longleftrightarrow> (\<exists>r. s = r @ p)"
proof
  assume "has_suffix s p"
  then obtain r where "rev s = rev p @ r" by (auto simp: has_suffix_def has_prefix_iff)
  then have "s = rev (rev p @ r)" by (metis rev_rev_ident)
  then show "\<exists>r. s = r @ p" by auto
next
  assume "\<exists>r. s = r @ p"
  then show "has_suffix s p" by (auto simp: has_suffix_def)
qed

lemma cut_prefix_append [simp]: "cut_prefix (p @ s) p = Some s"
  by (simp add: cut_prefix_def)

lemma cut_suffix_append [simp]: "cut_suffix (s @ p) p = Some s"
  by (auto simp: cut_suffix_def has_suffix_iff)

lemma str_index_char_None: "str_index s [c] = None \<longleftrightarrow> c \<notin> set s"
  by (induction s) (auto simp: has_prefix_def)

lemma str_index_char_append: "c \<notin> set a \<Longrightarrow> str_index (a @ c # b) [c] = Some (length a)"
  by (induction a) (auto simp: has_prefix_def)

lemma str_split_char_none: "c \<notin> set s \<Longrightarrow> str_split s [c] = [s]"
  by (subst str_split.simps) (simp add: str_index_char_None[THEN iffD2])

lemma str_split_char_cons: "c \<notin> set a \<Longrightarrow> str_split (a @ c # b) [c] = a # str_split b [c]"
  by (subst str_split.simps) (simp add: str_index_char_append)

lemma str_split_nonempty: "str_split s sep \<noteq> []"
  by (subst str_split.simps) (simp split: option.splits)

lemma str_split_join:
  assumes "xs \<noteq> []" and "\<forall>x\<in>set xs. c \<notin> set x"
  shows "str_split (str_join xs [c]) [c] = xs"
  using assms
proof (induction xs rule: induct_list012)
  case (3 x y zs)
  then show ?case by (simp add: str_split_char_cons)
qed (simp_all add: str_split_char_none)

section \<open>Association lists as Go maps\<close>

type_synonym ('k, 'v) gomap = "('k \<times> 'v) list"

text \<open>\<open>m[k] = v\<close>, \<open>delete(m, k)\<close> and \<open>m[k]\<close> with its presence flag.\<close>

definition map_put :: "'k \<Rightarrow> 'v \<Rightarrow> ('k, 'v) gomap \<Rightarrow> ('k, 'v) gomap" where
  "map_put k v m = AList.update k v m"

definition map_del :: "'k \<Rightarrow> ('k, 'v) gomap \<Rightarrow> ('k, 'v) gomap" where
  "map_del k m = filter (\<lambda>(k', _). k' \<noteq> k) m"

definition map_get :: "('k, 'v) gomap \<Rightarrow> 'k \<Rightarrow> 'v option" where
  "map_get m k = map_of m k"

lemma map_get_Nil [simp]: "map_get [] k = None"
  by (simp add: map_get_def)

lemma map_get_put [simp]: "map_get (map_put k v m) k' = (if k' = k then Some v else map_get m k')"
  by (simp add: map_get_def map_put_def update_conv')

lemma map_get_filter:
  "map_get (filter (\<lambda>(k, _). P k) m) k = (if P k then map_get m k else None)"
  by (induction m) (auto simp: map_get_def)

lemma map_get_del [simp]: "map_get (map_del k m) k' = (if k' = k then None else map_get m k')"
  by (simp add: map_del_def map_get_filter)

lemma distinct_map_put: "distinct (map fst m) \<Longrightarrow> distinct (map fst (map_put k v m))"
  by (simp add: map_put_def distinct_update)

lemma distinct_map_filter: "distinct (map fst m) \<Longrightarrow> distinct (map fst (filter P m))"
  by (simp add: distinct_map_filter)

section \<open>Slices\<close>

text \<open>
  The loop that keeps a \<open>seen\<close> map and appends each name the first time it is met.
\<close>

fun uniq_from :: "'a list \<Rightarrow> 'a list \<Rightarrow> 'a list" where
  "uniq_from seen [] = []"
| "uniq_from seen (x # xs) =
     (if x \<in> set seen then uniq_from seen xs else x # uniq_from (x # seen) xs)"

lemma set_uniq_from: "set (uniq_from seen xs) = set xs - set seen"
proof (induction xs arbitrary: seen)
  case (Cons x xs)
  show ?case
  proof (cases "x \<in> set seen")
    case False
    then have "set (uniq_from seen (x # xs)) = insert x (set xs - insert x (set seen))"
      by (simp add: Cons.IH)
    also have "\<dots> = set (x # xs) - set seen" using False by auto
    finally show ?thesis .
  qed (auto simp: Cons.IH)
qed simp

lemma distinct_uniq_from: "distinct (uniq_from seen xs)"
  by (induction seen xs rule: uniq_from.induct) (simp_all add: set_uniq_from)

lemma find_SomeD: "find P xs = Some x \<Longrightarrow> x \<in> set xs \<and> P x"
  by (induction xs) (auto split: if_splits)

lemma find_None_iff_ball: "find P xs = None \<longleftrightarrow> (\<forall>x\<in>set xs. \<not> P x)"
  by (induction xs) auto

lemma find_unique:
  assumes "x \<in> set xs" and "P x" and "\<And>y. y \<in> set xs \<Longrightarrow> P y \<Longrightarrow> y = x"
  shows "find P xs = Some x"
proof (cases "find P xs")
  case None
  with assms(1,2) show ?thesis by (auto simp: find_None_iff_ball)
next
  case (Some y)
  with find_SomeD[OF Some] assms(3) show ?thesis by simp
qed

end
