(* ===== verification/Entra_Types.thy ===== *)
theory Entra_Types
  imports Go_Prelude
begin

text \<open>
  The configuration of Entra mode (internal/entra/config.go, graphconfig.go), the compiled
  form of a membership rule (rule.go) and the derived object identifiers (uuid.go).

  Every struct is a record with its fields in the order of the source; a pointer field
  (\<open>*bool\<close>, \<open>*int64\<close>, \<open>*GraphConfig\<close>) is an option, and a nil slice and an empty slice are
  both the empty list. SHA-1 and SHA-256 are arguments (\<open>sha1\<close>, \<open>sha256\<close>) of the
  definitions that use them.
\<close>

section \<open>Compiled membership rules (rule.go)\<close>

text \<open>
  \<open>StringCompare\<close> holds the lower-cased attribute name instead of the accessor function that
  \<open>userAttrs\<close> maps it to; \<open>None\<close> as its value is the source's nil pointer (null).
\<close>

datatype rule =
    OrRule "rule list"
  | AndRule "rule list"
  | NotRule rule
  | DirectReportsRule string
  | StringCompare string string "string option" "string list"
  | BoolCompare bool bool

section \<open>Configuration records (config.go, graphconfig.go)\<close>

record graph_config =
  g_enabled :: "bool option"
  g_base_path :: string
  g_overage_endpoint :: string
  g_user_info :: "bool option"
  g_app_only :: bool
  g_default_page_size :: int
  g_max_page_size :: int
  g_clock_skew :: "int option"

record claim_mapping =
  cm_name :: string
  cm_source :: string

record app =
  a_client_id :: string
  a_tid :: string
  a_roles :: "string list"
  a_claims :: "claim_mapping list"

record group =
  gr_name :: string
  gr_description :: string
  gr_mail_nickname :: string
  gr_mail :: string
  gr_oid :: string
  gr_security_enabled :: "bool option"
  gr_mail_enabled :: "bool option"
  gr_membership_rule :: string
  gr_rule :: "rule option"

definition group_dynamic :: "group \<Rightarrow> bool" where
  "group_dynamic g \<longleftrightarrow> gr_membership_rule g \<noteq> []"

record tenant =
  t_tid :: string
  t_name :: string
  t_domains :: "string list"
  t_group_claim_format :: string
  t_group_limit :: int
  t_consent_required :: bool
  t_groups :: "group list"

record consent =
  cs_client_id :: string
  cs_tid :: string

record ext_attrs =
  ext1 :: string
  ext2 :: string
  ext3 :: string

record user =
  u_username :: string
  u_tid :: string
  u_oid :: string
  u_name :: string
  u_email :: string
  u_email_verified :: "bool option"
  u_groups :: "string list"
  u_amr :: "string list"
  u_admin :: bool
  u_error :: string
  u_mfa :: string
  u_given_name :: string
  u_surname :: string
  u_upn :: string
  u_account_enabled :: "bool option"
  u_job_title :: string
  u_office_location :: string
  u_business_phones :: "string list"
  u_mobile_phone :: string
  u_preferred_language :: string
  u_roles :: "string list"
  u_wids :: "string list"
  u_manager :: string
  u_department :: string
  u_company_name :: string
  u_employee_id :: string
  u_ext :: ext_attrs
  u_dynamic_groups :: "string list"

record config =
  c_base_path :: string
  c_default_group_limit :: int
  c_token_expiry :: int
  c_ignore_login_hint :: bool
  c_graph :: "graph_config option"
  c_tenants :: "tenant list"
  c_consents :: "consent list"
  c_apps :: "app list"
  c_users :: "user list"

section \<open>Constants\<close>

definition format_name :: string where "format_name = ''name''"
definition format_object_id :: string where "format_object_id = ''object_id''"
definition err_interaction_required :: string where
  "err_interaction_required = ''interaction_required''"
definition err_access_denied :: string where "err_access_denied = ''access_denied''"
definition err_invalid_grant :: string where "err_invalid_grant = ''invalid_grant''"
definition mfa_passkey :: string where "mfa_passkey = ''passkey''"
definition scope_organizations :: string where "scope_organizations = ''organizations''"
definition scope_common :: string where "scope_common = ''common''"
definition test_api_segment :: string where "test_api_segment = ''_entra''"
definition overage_self :: string where "overage_self = ''self''"
definition overage_microsoft :: string where "overage_microsoft = ''microsoft''"

lemmas entra_consts = format_name_def format_object_id_def err_interaction_required_def
  err_access_denied_def err_invalid_grant_def mfa_passkey_def scope_organizations_def
  scope_common_def test_api_segment_def overage_self_def overage_microsoft_def

text \<open>
  The source lists its path patterns as regular expressions; \<open>guid_re\<close> is five groups of
  8, 4, 4, 4 and 12 lower-case hexadecimal digits separated by dashes, \<open>base_path_re\<close> one or
  more characters of \<open>[A-Za-z0-9_-]\<close>.
\<close>

definition guid_lengths :: "nat list" where
  "guid_lengths = [8, 4, 4, 4, 12]"

definition guid_re :: "string \<Rightarrow> bool" where
  "guid_re s \<longleftrightarrow> (let gs = str_split s ''-''
     in map length gs = guid_lengths \<and> list_all (list_all is_hex) gs)"

definition base_path_re :: "string \<Rightarrow> bool" where
  "base_path_re s \<longleftrightarrow> s \<noteq> [] \<and> list_all is_word_char s"

definition default_graph_base_path :: string where "default_graph_base_path = ''graph''"
definition default_graph_page_size :: int where "default_graph_page_size = 100"
definition default_graph_max_page_size :: int where "default_graph_max_page_size = 999"
definition default_graph_clock_skew :: int where "default_graph_clock_skew = 60"

definition reserved_graph_base :: "string \<Rightarrow> bool" where
  "reserved_graph_base s \<longleftrightarrow> s \<in> {test_api_segment, scope_organizations, scope_common}"

section \<open>Object identifiers (uuid.go)\<close>

definition nibble_char :: "bool \<Rightarrow> bool \<Rightarrow> bool \<Rightarrow> bool \<Rightarrow> char" where
  "nibble_char b3 b2 b1 b0 =
     (if b3 then if b2 then if b1 then if b0 then CHR ''f'' else CHR ''e''
                            else if b0 then CHR ''d'' else CHR ''c''
                 else if b1 then if b0 then CHR ''b'' else CHR ''a''
                            else if b0 then CHR ''9'' else CHR ''8''
      else if b2 then if b1 then if b0 then CHR ''7'' else CHR ''6''
                            else if b0 then CHR ''5'' else CHR ''4''
                 else if b1 then if b0 then CHR ''3'' else CHR ''2''
                            else if b0 then CHR ''1'' else CHR ''0'')"

fun hex_byte :: "char \<Rightarrow> string" where
  "hex_byte (Char b0 b1 b2 b3 b4 b5 b6 b7) = [nibble_char b7 b6 b5 b4, nibble_char b3 b2 b1 b0]"

definition hex_bytes :: "string \<Rightarrow> string" where
  "hex_bytes bs = concat (map hex_byte bs)"

text \<open>
  \<open>copy(u[:], sum[:16])\<close> into the zeroed 16-byte array, then
  \<open>(b & 0x0f) | 0x50\<close> and \<open>(b & 0x3f) | 0x80\<close>: version 5, RFC variant.
\<close>

fun uuid_version5 :: "char \<Rightarrow> char" where
  "uuid_version5 (Char b0 b1 b2 b3 b4 b5 b6 b7) = Char b0 b1 b2 b3 True False True False"

fun uuid_variant :: "char \<Rightarrow> char" where
  "uuid_variant (Char b0 b1 b2 b3 b4 b5 b6 b7) = Char b0 b1 b2 b3 b4 b5 False True"

definition oid_namespace :: string where
  "oid_namespace =
     [CHR 0x5d, CHR 0x1c, CHR 0x3b, CHR 0x36, CHR 0x6f, CHR 0x0e, CHR 0x4d, CHR 0x4e,
      CHR 0x9a, CHR 0x39, CHR 0x2d, CHR 0x2f, CHR 0x1f, CHR 0x5e, CHR 0x0c, CHR 0x01]"

definition group_namespace :: string where
  "group_namespace =
     [CHR 0x8f, CHR 0x6a, CHR 0x3c, CHR 0x52, CHR 0x1b, CHR 0x7e, CHR 0x4a, CHR 0x55,
      CHR 0x9d, CHR 0x0e, CHR 0x6c, CHR 0x1a, CHR 0x9b, CHR 0x0e, CHR 0x2f, CHR 0x11]"

definition uuid_v5 :: "(string \<Rightarrow> string) \<Rightarrow> string \<Rightarrow> string \<Rightarrow> string" where
  "uuid_v5 sha1 ns name =
     (let sum = sha1 (ns @ name);
          u0 = take 16 (sum @ replicate 16 (CHR 0x00));
          u1 = u0[6 := uuid_version5 (u0 ! 6)];
          u = u1[8 := uuid_variant (u1 ! 8)]
      in str_join [hex_bytes (take 4 u), hex_bytes (take 2 (drop 4 u)), hex_bytes (take 2 (drop 6 u)),
                   hex_bytes (take 2 (drop 8 u)), hex_bytes (take 6 (drop 10 u))] ''-'')"

definition group_object_id :: "(string \<Rightarrow> string) \<Rightarrow> string \<Rightarrow> string \<Rightarrow> string" where
  "group_object_id sha1 tid name = uuid_v5 sha1 group_namespace (to_lower tid @ '':'' @ name)"

subsection \<open>Every derived identifier is a GUID\<close>

lemma is_hex_nibble [simp]: "is_hex (nibble_char a b c d)"
  by (simp add: nibble_char_def is_hex_def)

lemma length_hex_byte [simp]: "length (hex_byte c) = 2"
  by (cases c rule: hex_byte.cases) simp

lemma hex_byte_is_hex [simp]: "list_all is_hex (hex_byte c)"
  by (cases c rule: hex_byte.cases) simp

lemma length_hex_bytes [simp]: "length (hex_bytes bs) = 2 * length bs"
  by (induction bs) (simp_all add: hex_bytes_def)

lemma hex_bytes_is_hex [simp]: "list_all is_hex (hex_bytes bs)"
  by (induction bs) (simp_all add: hex_bytes_def)

lemma hex_no_dash: "list_all is_hex s \<Longrightarrow> CHR ''-'' \<notin> set s"
proof -
  have "\<not> is_hex (CHR ''-'')" by (simp add: is_hex_def)
  then show "list_all is_hex s \<Longrightarrow> CHR ''-'' \<notin> set s" by (auto simp: list_all_iff)
qed

lemma guid_re_join:
  assumes "map length gs = guid_lengths" and "list_all (list_all is_hex) gs"
  shows "guid_re (str_join gs ''-'')"
proof -
  have "gs \<noteq> []" using assms(1) by (auto simp: guid_lengths_def)
  moreover have "\<forall>g\<in>set gs. CHR ''-'' \<notin> set g"
    using assms(2) by (auto simp: list_all_iff[of "list_all is_hex"] hex_no_dash)
  ultimately have "str_split (str_join gs ''-'') ''-'' = gs" by (rule str_split_join)
  then show ?thesis using assms by (simp add: guid_re_def)
qed

lemma uuid_v5_guid [simp]: "guid_re (uuid_v5 sha1 ns name)"
  unfolding uuid_v5_def Let_def
  by (rule guid_re_join) (simp_all add: guid_lengths_def)

subsection \<open>Characters of a GUID\<close>

lemma str_join_split: "str_join (str_split s sep) sep = s"
proof (induction s sep rule: str_split.induct)
  case (1 s sep)
  show ?case
  proof (cases "sep = [] \<or> str_index s sep = None")
    case True
    then show ?thesis by (subst str_split.simps) auto
  next
    case False
    then obtain i where i: "sep \<noteq> []" "str_index s sep = Some i" by auto
    have "has_prefix (drop i s) sep" using i(2)
    proof (induction s arbitrary: i)
      case Nil
      then show ?case by (simp split: if_splits)
    next
      case (Cons c cs)
      then show ?case by (auto split: if_splits)
    qed
    then have d: "drop i s = sep @ drop (i + length sep) s"
      by (auto simp: has_prefix_iff) (metis append_eq_conv_conj drop_drop add.commute)
    obtain y ys where y: "str_split (drop (i + length sep) s) sep = y # ys"
      by (metis list.exhaust str_split_nonempty)
    have "str_join (str_split (drop (i + length sep) s) sep) sep = drop (i + length sep) s"
      using "1.IH" i by simp
    then show ?thesis using i y d
      by (subst str_split.simps) (simp, metis append_take_drop_id)
  qed
qed

lemma guid_chars: "guid_re s \<Longrightarrow> c \<in> set s \<Longrightarrow> is_hex c \<or> c = CHR ''-''"
proof -
  have j: "\<And>xs c. c \<in> set (str_join xs ''-'') \<Longrightarrow> (\<exists>x\<in>set xs. c \<in> set x) \<or> c = CHR ''-''"
  proof -
    fix xs c
    show "c \<in> set (str_join xs ''-'') \<Longrightarrow> (\<exists>x\<in>set xs. c \<in> set x) \<or> c = CHR ''-''"
      by (induction xs rule: induct_list012) auto
  qed
  assume g: "guid_re s" and c: "c \<in> set s"
  from c have "c \<in> set (str_join (str_split s ''-'') ''-'')" by (simp add: str_join_split)
  from j[OF this] g show ?thesis by (auto simp: guid_re_def Let_def list_all_iff)
qed

lemma guid_char_cases: "is_hex c \<or> c = CHR ''-'' \<Longrightarrow> lower_char c = c \<and> \<not> is_space c \<and> c \<noteq> CHR ''|'' \<and> c \<noteq> CHR ''/''"
proof -
  have "\<not> is_hex (CHR ''|'')" "\<not> is_hex (CHR ''/'')" "\<not> is_space (CHR ''-'')"
    by (simp_all add: is_hex_def is_space_def)
  then show "is_hex c \<or> c = CHR ''-'' \<Longrightarrow> lower_char c = c \<and> \<not> is_space c \<and> c \<noteq> CHR ''|'' \<and> c \<noteq> CHR ''/''"
    by (auto simp: hex_lower hex_not_space)
qed

lemma guid_lower [simp]: "guid_re s \<Longrightarrow> to_lower s = s"
  by (auto simp: to_lower_def intro!: map_idI dest!: guid_chars guid_char_cases)

lemma guid_trim [simp]: "guid_re s \<Longrightarrow> trim_space s = s"
  unfolding trim_space_def
  by (rule trim_by_id) (auto simp: list_all_iff dest!: guid_chars guid_char_cases)

lemma guid_no_slash: "guid_re s \<Longrightarrow> CHR ''/'' \<notin> set s"
  by (auto dest!: guid_chars guid_char_cases)

lemma guid_nonempty [simp]: "\<not> guid_re []"
  by (simp add: guid_re_def guid_lengths_def str_split.simps)

end
