(* ===== verification/Entra_Directory.thy ===== *)
theory Entra_Directory
  imports Entra_Types "HOL-Library.Multiset"
begin

text \<open>
  The read side of the Entra configuration: the lookups of config.go and the directory view
  of directory.go (users, groups, memberships, managers), which the Graph surface, the
  claims and the sign-in pages use.

  A \<open>*Tenant\<close> or \<open>*User\<close> result is an option. \<open>sort.Slice\<close> is \<open>sort_key\<close>: Go's sort is
  not stable, so the order of entries with equal keys is one of the orders the code may give.
\<close>

section \<open>Lookups (config.go)\<close>

definition tenant_by_id :: "config \<Rightarrow> string \<Rightarrow> tenant option" where
  "tenant_by_id c tid = find (\<lambda>t. t_tid t = to_lower tid) (c_tenants c)"

definition user_by_name :: "config \<Rightarrow> string \<Rightarrow> string \<Rightarrow> user option" where
  "user_by_name c tid username =
     find (\<lambda>u. u_tid u = to_lower tid \<and> u_username u = username) (c_users c)"

definition users_in :: "config \<Rightarrow> string \<Rightarrow> user list" where
  "users_in c tid = filter (\<lambda>u. to_lower tid = [] \<or> u_tid u = to_lower tid) (c_users c)"

section \<open>Accounts (directory.go)\<close>

definition user_enabled :: "user \<Rightarrow> bool" where
  "user_enabled u \<longleftrightarrow> u_account_enabled u = None \<or> u_account_enabled u = Some True"

definition preferred_username :: "tenant \<Rightarrow> user \<Rightarrow> string" where
  "preferred_username t u =
     (if u_email u \<noteq> [] then u_email u
      else case t_domains t of
             d # _ \<Rightarrow> u_username u @ ''@'' @ d
           | [] \<Rightarrow> u_username u)"

definition principal_name :: "tenant \<Rightarrow> user \<Rightarrow> string" where
  "principal_name t u = (if u_upn u \<noteq> [] then u_upn u else preferred_username t u)"

definition member_groups :: "user \<Rightarrow> string list" where
  "member_groups u =
     (if u_dynamic_groups u = [] then u_groups u
      else uniq_from [] (u_groups u @ u_dynamic_groups u))"

definition mail_nickname :: "string \<Rightarrow> string" where
  "mail_nickname name = map lower_char (filter (\<lambda>c. is_upper c \<or> is_digit c \<or>
      c \<in> set ''abcdefghijklmnopqrstuvwxyz'') name)"

definition user_by_oid :: "config \<Rightarrow> string \<Rightarrow> string \<Rightarrow> user option" where
  "user_by_oid c tid oid =
     (let oid' = to_lower (trim_space oid)
      in if oid' = [] then None else find (\<lambda>u. u_oid u = oid') (users_in c (to_lower tid)))"

definition user_by_upn_or_oid :: "config \<Rightarrow> string \<Rightarrow> string \<Rightarrow> user option" where
  "user_by_upn_or_oid c tid key =
     (case user_by_oid c tid key of
        Some u \<Rightarrow> Some u
      | None \<Rightarrow>
          let key' = trim_space key
          in if key' = [] then None
             else case tenant_by_id c tid of
                    None \<Rightarrow> None
                  | Some t \<Rightarrow>
                      find (\<lambda>u. to_lower (principal_name t u) = to_lower key' \<or> u_username u = key')
                        (users_in c (t_tid t)))"

definition manager_of :: "config \<Rightarrow> user \<Rightarrow> user option" where
  "manager_of c u = (if u_manager u = [] then None else user_by_name c (u_tid u) (u_manager u))"

definition sort_users :: "user list \<Rightarrow> user list" where
  "sort_users us = sort_key u_oid us"

definition users_ordered_in :: "config \<Rightarrow> string \<Rightarrow> user list" where
  "users_ordered_in c tid = sort_users (users_in c tid)"

definition direct_reports :: "config \<Rightarrow> user \<Rightarrow> user list" where
  "direct_reports c u =
     sort_users (filter (\<lambda>v. u_manager v = u_username u) (users_in c (u_tid u)))"

section \<open>Groups (directory.go)\<close>

record dir_group =
  dg_oid :: string
  dg_name :: string
  dg_description :: string
  dg_mail_nickname :: string
  dg_mail :: string
  dg_security_enabled :: bool
  dg_mail_enabled :: bool
  dg_membership_rule :: string

definition group_meta :: "tenant \<Rightarrow> string \<Rightarrow> group option" where
  "group_meta t name = find (\<lambda>g. gr_name g = name) (t_groups t)"

definition dir_group_of :: "(string \<Rightarrow> string) \<Rightarrow> tenant \<Rightarrow> string \<Rightarrow> dir_group" where
  "dir_group_of sha1 t name =
     (let g = \<lparr>dg_oid = group_object_id sha1 (t_tid t) name, dg_name = name, dg_description = [],
               dg_mail_nickname = mail_nickname name, dg_mail = [],
               dg_security_enabled = True, dg_mail_enabled = False, dg_membership_rule = []\<rparr>
      in case group_meta t name of
           None \<Rightarrow> g
         | Some m \<Rightarrow>
             g\<lparr>dg_oid := (if gr_oid m \<noteq> [] then gr_oid m else dg_oid g),
               dg_description := gr_description m,
               dg_mail := gr_mail m,
               dg_membership_rule := gr_membership_rule m,
               dg_mail_nickname :=
                 (if gr_mail_nickname m \<noteq> [] then gr_mail_nickname m else dg_mail_nickname g),
               dg_security_enabled :=
                 (case gr_security_enabled m of Some b \<Rightarrow> b | None \<Rightarrow> dg_security_enabled g),
               dg_mail_enabled :=
                 (case gr_mail_enabled m of Some b \<Rightarrow> b | None \<Rightarrow> dg_mail_enabled g)\<rparr>)"

definition sort_groups :: "dir_group list \<Rightarrow> dir_group list" where
  "sort_groups gs = sort_key dg_oid gs"

text \<open>
  The \<open>add\<close> closure skips the empty name and every name already seen: \<open>uniq_from\<close> started
  with the empty name as seen.
\<close>

definition groups_in :: "(string \<Rightarrow> string) \<Rightarrow> config \<Rightarrow> string \<Rightarrow> dir_group list" where
  "groups_in sha1 c tid =
     (case tenant_by_id c tid of
        None \<Rightarrow> []
      | Some t \<Rightarrow>
          sort_groups (map (dir_group_of sha1 t)
            (uniq_from [ [] ] (map gr_name (t_groups t) @
               concat (map member_groups (users_in c (t_tid t)))))))"

definition group_by_id :: "(string \<Rightarrow> string) \<Rightarrow> config \<Rightarrow> string \<Rightarrow> string \<Rightarrow> dir_group option" where
  "group_by_id sha1 c tid i =
     (let i' = trim_space i
      in if i' = [] then None
         else find (\<lambda>g. to_lower (dg_oid g) = to_lower i' \<or> dg_name g = i') (groups_in sha1 c tid))"

definition groups_of :: "(string \<Rightarrow> string) \<Rightarrow> config \<Rightarrow> user \<Rightarrow> dir_group list" where
  "groups_of sha1 c u =
     (case tenant_by_id c (u_tid u) of
        None \<Rightarrow> []
      | Some t \<Rightarrow> sort_groups (map (dir_group_of sha1 t) (uniq_from [ [] ] (member_groups u))))"

definition group_ids_of :: "(string \<Rightarrow> string) \<Rightarrow> config \<Rightarrow> user \<Rightarrow> string list" where
  "group_ids_of sha1 c u = map dg_oid (groups_of sha1 c u)"

definition members_of :: "(string \<Rightarrow> string) \<Rightarrow> config \<Rightarrow> string \<Rightarrow> string \<Rightarrow> user list" where
  "members_of sha1 c tid gid =
     (case group_by_id sha1 c tid gid of
        None \<Rightarrow> []
      | Some g \<Rightarrow>
          sort_users (filter (\<lambda>u. dg_name g \<in> set (member_groups u)) (users_in c tid)))"

section \<open>Laws of the directory\<close>

lemma tenant_by_idD: "tenant_by_id c tid = Some t \<Longrightarrow> t \<in> set (c_tenants c) \<and> t_tid t = to_lower tid"
  by (auto simp: tenant_by_id_def dest: find_SomeD)

lemma user_by_nameD:
  "user_by_name c tid n = Some u \<Longrightarrow> u \<in> set (c_users c) \<and> u_tid u = to_lower tid \<and> u_username u = n"
  by (auto simp: user_by_name_def dest: find_SomeD)

lemma users_in_lower [simp]: "users_in c (to_lower tid) = users_in c tid"
  by (simp add: users_in_def)

lemma user_by_oidD:
  "user_by_oid c tid oid = Some u \<Longrightarrow> u \<in> set (users_in c tid) \<and> u_oid u = to_lower (trim_space oid)"
  by (auto simp: user_by_oid_def Let_def split: if_splits dest!: find_SomeD)

lemma set_member_groups: "set (member_groups u) = set (u_groups u) \<union> set (u_dynamic_groups u)"
  by (auto simp: member_groups_def set_uniq_from)

lemma distinct_member_groups: "u_dynamic_groups u \<noteq> [] \<Longrightarrow> distinct (member_groups u)"
  by (simp add: member_groups_def distinct_uniq_from)

lemma dir_group_of_name [simp]: "dg_name (dir_group_of sha1 t name) = name"
  by (simp add: dir_group_of_def Let_def split: option.splits)

lemma sort_groups_set [simp]: "set (sort_groups gs) = set gs"
  by (simp add: sort_groups_def)

lemma sort_users_set [simp]: "set (sort_users us) = set us"
  by (simp add: sort_users_def)

lemma sorted_sort_groups: "sorted (map dg_oid (sort_groups gs))"
  by (simp add: sort_groups_def)

lemma sorted_sort_users: "sorted (map u_oid (sort_users us))"
  by (simp add: sort_users_def)

lemma names_groups_in:
  "tenant_by_id c tid = Some t \<Longrightarrow>
   dg_name ` set (groups_in sha1 c tid) =
     (gr_name ` set (t_groups t) \<union> (\<Union>u\<in>set (users_in c tid). set (member_groups u))) - {[]}"
  by (frule tenant_by_idD)
    (auto simp: groups_in_def set_uniq_from image_image)

lemma names_groups_of:
  "tenant_by_id c (u_tid u) = Some t \<Longrightarrow>
   dg_name ` set (groups_of sha1 c u) = set (member_groups u) - {[]}"
  by (auto simp: groups_of_def set_uniq_from image_image)

lemma mset_map_sort_groups: "mset (map f (sort_groups gs)) = mset (map f gs)"
  unfolding sort_groups_def mset_map mset_sort by (rule refl)

lemma distinct_names_groups_in: "distinct (map dg_name (groups_in sha1 c tid))"
proof (cases "tenant_by_id c tid")
  case (Some t)
  let ?ns = "uniq_from [ [] ] (map gr_name (t_groups t) @ concat (map member_groups (users_in c (t_tid t))))"
  have "mset (map dg_name (groups_in sha1 c tid)) = mset ?ns"
    using Some by (simp only: groups_in_def option.case mset_map_sort_groups map_map comp_def
        dir_group_of_name map_ident)
  moreover have "distinct ?ns" by (rule distinct_uniq_from)
  ultimately show ?thesis by (metis mset_eq_imp_distinct_iff)
qed (simp add: groups_in_def)

lemma groups_in_form:
  "tenant_by_id c tid = Some t \<Longrightarrow> g \<in> set (groups_in sha1 c tid) \<Longrightarrow> g = dir_group_of sha1 t (dg_name g)"
  by (auto simp: groups_in_def)

lemma groups_of_subset:
  assumes "tenant_by_id c (u_tid u) = Some t" and "u \<in> set (c_users c)"
    and "to_lower (u_tid u) = u_tid u"
  shows "set (groups_of sha1 c u) \<subseteq> set (groups_in sha1 c (u_tid u))"
proof -
  have "u \<in> set (users_in c (t_tid t))"
    using assms tenant_by_idD[OF assms(1)] by (auto simp: users_in_def)
  then show ?thesis using assms(1)
    by (auto simp: groups_of_def groups_in_def set_uniq_from)
qed

end
