(* ===== verification/Entra_Rule.thy ===== *)
theory Entra_Rule
  imports Entra_Directory
begin

text \<open>
  Dynamic membership rules (internal/entra/rule.go): the attributes a rule reads, the
  evaluation of a compiled rule, the lexer and the recursive-descent parser.

  The parser's state (a token slice and a position) is the list of tokens still to read.
  \<open>or\<close>, \<open>and\<close> and \<open>unary\<close> call each other and loop, so they carry fuel; \<open>rule_parse_fuel\<close>
  is enough for every input (\<open>rule_or_total\<close>), so \<open>RuleOutOfFuel\<close> is never returned.
\<close>

section \<open>Attributes\<close>

definition user_attrs :: "(string \<times> (tenant \<Rightarrow> user \<Rightarrow> string)) list" where
  "user_attrs =
     [(''department'', \<lambda>_ u. u_department u),
      (''companyname'', \<lambda>_ u. u_company_name u),
      (''employeeid'', \<lambda>_ u. u_employee_id u),
      (''jobtitle'', \<lambda>_ u. u_job_title u),
      (''officelocation'', \<lambda>_ u. u_office_location u),
      (''displayname'', \<lambda>_ u. u_name u),
      (''mail'', \<lambda>_ u. u_email u),
      (''userprincipalname'', \<lambda>t u. principal_name t u),
      (''extensionattribute1'', \<lambda>_ u. ext1 (u_ext u)),
      (''extensionattribute2'', \<lambda>_ u. ext2 (u_ext u)),
      (''extensionattribute3'', \<lambda>_ u. ext3 (u_ext u))]"

definition claim_sources :: "(string \<times> (tenant \<Rightarrow> user \<Rightarrow> string)) list" where
  "claim_sources =
     map (\<lambda>name. (''user.'' @ name, case map_of user_attrs name of Some f \<Rightarrow> f | None \<Rightarrow> (\<lambda>_ _. [])))
       [''department'', ''companyname'', ''employeeid'', ''jobtitle'', ''officelocation'',
        ''extensionattribute1'', ''extensionattribute2'', ''extensionattribute3'']"

definition user_attr :: "string \<Rightarrow> tenant \<Rightarrow> user \<Rightarrow> string" where
  "user_attr name t u = (case map_of user_attrs name of Some f \<Rightarrow> f t u | None \<Rightarrow> [])"

section \<open>Evaluation\<close>

text \<open>
  \<open>*r.value\<close> in the prefix and substring operators is never nil: the parser only builds a
  null value for \<open>eq\<close> and \<open>ne\<close> (\<open>parse_rule_wf\<close>), so the default of \<open>deref\<close> is not read.
\<close>

definition deref :: "string option \<Rightarrow> string" where
  "deref v = (case v of Some s \<Rightarrow> s | None \<Rightarrow> [])"

definition string_compare_match :: "string \<Rightarrow> string option \<Rightarrow> string list \<Rightarrow> string \<Rightarrow> bool" where
  "string_compare_match op v vs got =
     (let lower = to_lower got in
      if op = ''eq'' \<or> op = ''ne'' then
        (case v of
           None \<Rightarrow> (got = []) = (op = ''eq'')
         | Some s \<Rightarrow> (got \<noteq> [] \<and> equal_fold got s) = (op = ''eq''))
      else if op = ''startswith'' then got \<noteq> [] \<and> has_prefix lower (to_lower (deref v))
      else if op = ''notstartswith'' then \<not> has_prefix lower (to_lower (deref v)) \<or> got = []
      else if op = ''contains'' then got \<noteq> [] \<and> str_contains lower (to_lower (deref v))
      else if op = ''notcontains'' then \<not> str_contains lower (to_lower (deref v)) \<or> got = []
      else (list_ex (\<lambda>x. got \<noteq> [] \<and> lower = x) vs) = (op = ''in''))"

fun rule_match :: "config \<Rightarrow> tenant \<Rightarrow> user \<Rightarrow> rule \<Rightarrow> bool" where
  "rule_match c t u (OrRule rs) = list_ex (rule_match c t u) rs"
| "rule_match c t u (AndRule rs) = list_all (rule_match c t u) rs"
| "rule_match c t u (NotRule r) = (\<not> rule_match c t u r)"
| "rule_match c t u (DirectReportsRule oid) =
     (case manager_of c u of None \<Rightarrow> False | Some m \<Rightarrow> u_oid m = oid)"
| "rule_match c t u (StringCompare attr op v vs) = string_compare_match op v vs (user_attr attr t u)"
| "rule_match c t u (BoolCompare eq b) = ((user_enabled u = b) = eq)"

section \<open>Lexer\<close>

datatype rule_error =
    RuleEmpty
  | RuleDirectReportsNotGuid string
  | RuleUnterminated
  | RuleUnexpected string
  | RuleExpectedClose
  | RuleExpectedProperty string
  | RuleUnsupportedProperty string
  | RuleExpectedOperator string
  | RuleUnsupportedOperator string
  | RuleOnlyEqNe string
  | RuleTrueOrFalse string
  | RuleExpectedValue string
  | RuleNeedsString string
  | RuleExpectedValueGot string string
  | RuleNeedsArray string
  | RuleArrayNotStrings string
  | RuleArrayExpected string
  | RuleOutOfFuel

datatype rule_tok_kind = TokWord | TokString | TokPunct

type_synonym rule_tok = "rule_tok_kind \<times> string"

abbreviation quote_char :: char where "quote_char \<equiv> CHR 0x22"
abbreviation backslash_char :: char where "backslash_char \<equiv> CHR 0x5C"

definition rule_punct_char :: "char \<Rightarrow> bool" where
  "rule_punct_char c \<longleftrightarrow> c \<in> set ''()[],''"

fun lex_quoted :: "string \<Rightarrow> (string \<times> string) option" where
  "lex_quoted [] = None"
| "lex_quoted [c] = (if c = quote_char then Some ([], []) else None)"
| "lex_quoted (c # d # cs) =
     (if c = backslash_char then map_option (apfst ((#) d)) (lex_quoted cs)
      else if c = quote_char then Some ([], d # cs)
      else map_option (apfst ((#) c)) (lex_quoted (d # cs)))"

lemma lex_quoted_length: "lex_quoted s = Some (b, r) \<Longrightarrow> length r < length s"
proof (induction s arbitrary: b r rule: lex_quoted.induct)
  case (3 c d cs)
  show ?case
  proof (cases "c = backslash_char")
    case True
    with 3 show ?thesis by (fastforce simp: less_Suc_eq)
  next
    case False
    with 3 show ?thesis by (cases "c = quote_char") (fastforce simp: less_Suc_eq)+
  qed
qed (auto split: if_splits)

definition rule_word_char :: "char \<Rightarrow> bool" where
  "rule_word_char c \<longleftrightarrow> \<not> is_space c \<and> \<not> rule_punct_char c \<and> c \<noteq> quote_char"

function lex_rule :: "string \<Rightarrow> rule_error + rule_tok list" where
  "lex_rule [] = Inr []"
| "lex_rule (r # rs) =
     (if is_space r then lex_rule rs
      else if rule_punct_char r then ebind (lex_rule rs) (\<lambda>ts. Inr ((TokPunct, [r]) # ts))
      else if r = quote_char then
        (case lex_quoted rs of
           None \<Rightarrow> Inl RuleUnterminated
         | Some (b, rest) \<Rightarrow> ebind (lex_rule rest) (\<lambda>ts. Inr ((TokString, b) # ts)))
      else ebind (lex_rule (dropWhile rule_word_char rs))
             (\<lambda>ts. Inr ((TokWord, r # takeWhile rule_word_char rs) # ts)))"
  by pat_completeness auto
termination
  by (relation "measure length")
    (auto simp: less_Suc_eq_le length_dropWhile_le intro: less_imp_le dest!: lex_quoted_length[OF sym] lex_quoted_length)

section \<open>Parser\<close>

definition rule_peek :: "rule_tok list \<Rightarrow> rule_tok" where
  "rule_peek ts = (case ts of [] \<Rightarrow> (TokPunct, []) | t # _ \<Rightarrow> t)"

definition rule_keyword :: "string \<Rightarrow> rule_tok list \<Rightarrow> rule_tok list option" where
  "rule_keyword w ts =
     (case ts of (TokWord, x) # r \<Rightarrow> if equal_fold x w then Some r else None | _ \<Rightarrow> None)"

definition rule_punct :: "string \<Rightarrow> rule_tok list \<Rightarrow> rule_tok list option" where
  "rule_punct w ts =
     (case ts of (TokPunct, x) # r \<Rightarrow> if x = w then Some r else None | _ \<Rightarrow> None)"

definition rule_ops :: "string list" where
  "rule_ops = [''eq'', ''ne'', ''startswith'', ''notstartswith'', ''contains'', ''notcontains'',
               ''in'', ''notin'']"

fun rule_array_items :: "string \<Rightarrow> string list \<Rightarrow> rule_tok list \<Rightarrow> rule_error + (string list \<times> rule_tok list)" where
  "rule_array_items op out ((TokString, v) # ts) =
     (case rule_punct '']'' ts of
        Some r \<Rightarrow> Inr (out @ [to_lower v], r)
      | None \<Rightarrow>
          (case ts of
             (TokPunct, p) # r \<Rightarrow>
               if p = '','' then rule_array_items op (out @ [to_lower v]) r
               else Inl (RuleArrayExpected op)
           | _ \<Rightarrow> Inl (RuleArrayExpected op)))"
| "rule_array_items op out ts = Inl (RuleArrayNotStrings op)"

definition rule_array :: "string \<Rightarrow> rule_tok list \<Rightarrow> rule_error + (string list \<times> rule_tok list)" where
  "rule_array op ts =
     (case rule_punct ''['' ts of
        None \<Rightarrow> Inl (RuleNeedsArray op)
      | Some r \<Rightarrow> rule_array_items op [] r)"

definition rule_value ::
  "string \<Rightarrow> string \<Rightarrow> string \<Rightarrow> rule_tok list \<Rightarrow> rule_error + (rule \<times> rule_tok list)" where
  "rule_value name op op_text ts =
     (case ts of
        [] \<Rightarrow> Inl (RuleExpectedValue op_text)
      | (k, x) # r \<Rightarrow>
          if k = TokString then Inr (StringCompare name op (Some x) [], r)
          else if k = TokWord \<and> equal_fold x ''null'' then
            (if op \<noteq> ''eq'' \<and> op \<noteq> ''ne'' then Inl (RuleNeedsString op_text)
             else Inr (StringCompare name op None [], r))
          else Inl (RuleExpectedValueGot op_text x))"

definition rule_comparison :: "rule_tok list \<Rightarrow> rule_error + (rule \<times> rule_tok list)" where
  "rule_comparison ts =
     (case ts of
        (TokWord, prop) # r1 \<Rightarrow>
          (let name_opt = cut_prefix (to_lower prop) ''user.'';
               name = (case name_opt of Some n \<Rightarrow> n | None \<Rightarrow> to_lower prop);
               is_string = (map_of user_attrs name \<noteq> None)
           in if name_opt = None \<or> (\<not> is_string \<and> name \<noteq> ''accountenabled'')
              then Inl (RuleUnsupportedProperty prop)
              else
                (case r1 of
                   (TokWord, op_text) # r2 \<Rightarrow>
                     (let op = to_lower (trim_prefix op_text ''-'')
                      in if \<not> has_prefix op_text ''-'' then Inl (RuleExpectedOperator prop)
                         else if op \<notin> set rule_ops then Inl (RuleUnsupportedOperator op_text)
                         else if name = ''accountenabled'' then
                           (if op \<noteq> ''eq'' \<and> op \<noteq> ''ne'' then Inl (RuleOnlyEqNe prop)
                            else
                              (case r2 of
                                 (TokWord, x) # r3 \<Rightarrow>
                                   if equal_fold x ''true'' \<or> equal_fold x ''false''
                                   then Inr (BoolCompare (op = ''eq'') (equal_fold x ''true''), r3)
                                   else Inl (RuleTrueOrFalse prop)
                               | _ \<Rightarrow> Inl (RuleTrueOrFalse prop)))
                         else if op = ''in'' \<or> op = ''notin'' then
                           ebind (rule_array op_text r2)
                             (\<lambda>(vs, r3). Inr (StringCompare name op None vs, r3))
                         else rule_value name op op_text r2)
                 | _ \<Rightarrow> Inl (RuleExpectedOperator prop)))
      | _ \<Rightarrow> Inl (RuleExpectedProperty (snd (rule_peek ts))))"

function (sequential) rule_or :: "nat \<Rightarrow> rule_tok list \<Rightarrow> rule_error + (rule \<times> rule_tok list)"
and rule_or_rest :: "nat \<Rightarrow> rule list \<Rightarrow> rule_tok list \<Rightarrow> rule_error + (rule \<times> rule_tok list)"
and rule_and :: "nat \<Rightarrow> rule_tok list \<Rightarrow> rule_error + (rule \<times> rule_tok list)"
and rule_and_rest :: "nat \<Rightarrow> rule list \<Rightarrow> rule_tok list \<Rightarrow> rule_error + (rule \<times> rule_tok list)"
and rule_unary :: "nat \<Rightarrow> rule_tok list \<Rightarrow> rule_error + (rule \<times> rule_tok list)"
where
  "rule_or 0 ts = Inl RuleOutOfFuel"
| "rule_or (Suc n) ts = ebind (rule_and n ts) (\<lambda>(r, ts'). rule_or_rest n [r] ts')"
| "rule_or_rest 0 out ts = Inl RuleOutOfFuel"
| "rule_or_rest (Suc n) out ts =
     (case rule_keyword ''-or'' ts of
        Some ts1 \<Rightarrow> ebind (rule_and n ts1) (\<lambda>(r, ts2). rule_or_rest n (out @ [r]) ts2)
      | None \<Rightarrow> Inr (if length out = 1 then hd out else OrRule out, ts))"
| "rule_and 0 ts = Inl RuleOutOfFuel"
| "rule_and (Suc n) ts = ebind (rule_unary n ts) (\<lambda>(r, ts'). rule_and_rest n [r] ts')"
| "rule_and_rest 0 out ts = Inl RuleOutOfFuel"
| "rule_and_rest (Suc n) out ts =
     (case rule_keyword ''-and'' ts of
        Some ts1 \<Rightarrow> ebind (rule_unary n ts1) (\<lambda>(r, ts2). rule_and_rest n (out @ [r]) ts2)
      | None \<Rightarrow> Inr (if length out = 1 then hd out else AndRule out, ts))"
| "rule_unary 0 ts = Inl RuleOutOfFuel"
| "rule_unary (Suc n) ts =
     (case rule_keyword ''-not'' ts of
        Some ts1 \<Rightarrow> ebind (rule_unary n ts1) (\<lambda>(r, ts2). Inr (NotRule r, ts2))
      | None \<Rightarrow>
          (case rule_punct ''('' ts of
             Some ts1 \<Rightarrow>
               ebind (rule_or n ts1)
                 (\<lambda>(r, ts2). case rule_punct '')'' ts2 of
                    Some ts3 \<Rightarrow> Inr (r, ts3)
                  | None \<Rightarrow> Inl RuleExpectedClose)
           | None \<Rightarrow> rule_comparison ts))"
  by pat_completeness simp_all
termination
  by size_change

definition rule_parse_fuel :: "rule_tok list \<Rightarrow> nat" where
  "rule_parse_fuel ts = 3 * length ts + 3"

text \<open>
  The regular expression \<open>(?i)^direct\s+reports\s+for\s+"([^"]*)"$\<close>, matched from left to
  right; the result is its group.
\<close>

definition re_space :: "char \<Rightarrow> bool" where
  "re_space c \<longleftrightarrow> c \<in> {CHR '' '', CHR 0x09, CHR 0x0A, CHR 0x0C, CHR 0x0D}"

definition re_word_spaces :: "string \<Rightarrow> string \<Rightarrow> string option" where
  "re_word_spaces w s =
     (if equal_fold (take (length w) s) w
      then (case drop (length w) s of
              c # cs \<Rightarrow> if re_space c then Some (dropWhile re_space cs) else None
            | [] \<Rightarrow> None)
      else None)"

definition direct_reports_re :: "string \<Rightarrow> string option" where
  "direct_reports_re s =
     (case re_word_spaces ''direct'' s of None \<Rightarrow> None | Some s1 \<Rightarrow>
      case re_word_spaces ''reports'' s1 of None \<Rightarrow> None | Some s2 \<Rightarrow>
      case re_word_spaces ''for'' s2 of None \<Rightarrow> None | Some s3 \<Rightarrow>
      case s3 of [] \<Rightarrow> None | q # s4 \<Rightarrow>
        if q = quote_char \<and> dropWhile (\<lambda>c. c \<noteq> quote_char) s4 = [quote_char]
        then Some (takeWhile (\<lambda>c. c \<noteq> quote_char) s4) else None)"

definition parse_rule :: "string \<Rightarrow> rule_error + rule" where
  "parse_rule src0 =
     (let src = trim_space src0 in
      if src = [] then Inl RuleEmpty
      else case direct_reports_re src of
             Some m \<Rightarrow>
               (let oid = to_lower (trim_space m)
                in if \<not> guid_re oid then Inl (RuleDirectReportsNotGuid m)
                   else Inr (DirectReportsRule oid))
           | None \<Rightarrow>
               ebind (lex_rule src) (\<lambda>toks.
               ebind (rule_or (rule_parse_fuel toks) toks) (\<lambda>(r, rest).
               if rest \<noteq> [] then Inl (RuleUnexpected (snd (rule_peek rest))) else Inr r)))"

end
