(* ===== verification/Entra_Normalize.thy ===== *)
theory Entra_Normalize
  imports Entra_Rule
begin

text \<open>
  Validation and normalization of an Entra configuration: \<open>Config.normalize\<close> of config.go and
  \<open>normalizeGraph\<close> of graphconfig.go, one definition per loop body, in the order of the code.

  The code mutates the configuration in place and returns the first error; a caller that
  gets an error drops the half-normalized value, so the model returns either an error or
  the normalized value. Every error message is a constructor of \<open>cfg_error\<close> with the
  values the message shows. \<open>ErrNilDeref\<close> stands for a nil pointer panic.
\<close>

datatype cfg_error =
    ErrBasePath string
  | ErrGraphBasePath string
  | ErrGraphReserved string
  | ErrGraphGuid string
  | ErrGraphOverage
  | ErrGraphClockSkew
  | ErrNoTenants
  | ErrTidNotGuid string
  | ErrDuplicateTid string
  | ErrGroupClaimFormat string
  | ErrGroupName string nat
  | ErrDuplicateGroup string string
  | ErrGroupOid string string
  | ErrGroupRule string string rule_error
  | ErrAppClientId nat
  | ErrAppTid string string
  | ErrClaimName string nat
  | ErrClaimReserved string string
  | ErrDuplicateClaim string string
  | ErrClaimSource string string string
  | ErrConsent nat
  | ErrUsername nat
  | ErrUserTid string string
  | ErrDuplicateUser string string
  | ErrUserError string
  | ErrUserMfa string string
  | ErrUserOid string
  | ErrUserWid string nat
  | ErrManagerSelf string
  | ErrManagerUnknown string string string
  | ErrDynamicMember string string
  | ErrNilDeref
  | ErrTidChanged
  | ErrTenantNotFound string
  | ErrUserNotFound string string

section \<open>The Graph block (graphconfig.go)\<close>

definition empty_graph :: graph_config where
  "empty_graph = \<lparr>g_enabled = None, g_base_path = [], g_overage_endpoint = [], g_user_info = None,
     g_app_only = False, g_default_page_size = 0, g_max_page_size = 0, g_clock_skew = None\<rparr>"

definition normalize_graph :: "string \<Rightarrow> graph_config option \<Rightarrow> cfg_error + graph_config" where
  "normalize_graph base_path graph =
     (let g0 = (case graph of None \<Rightarrow> empty_graph | Some g \<Rightarrow> g);
          enabled = (case g_enabled g0 of None \<Rightarrow> Some True | Some b \<Rightarrow> Some b);
          user_info = (case g_user_info g0 of None \<Rightarrow> Some True | Some b \<Rightarrow> Some b);
          bp0 = trim_slash (trim_space (g_base_path g0));
          bp = (if bp0 = [] then default_graph_base_path else bp0);
          lower = to_lower bp;
          overage = (if g_overage_endpoint g0 = [] then overage_self else g_overage_endpoint g0);
          max_size = (if g_max_page_size g0 \<le> 0 then default_graph_max_page_size else g_max_page_size g0);
          def_size0 = (if g_default_page_size g0 \<le> 0 then default_graph_page_size else g_default_page_size g0);
          def_size = (if def_size0 > max_size then max_size else def_size0)
      in if \<not> base_path_re bp then Inl (ErrGraphBasePath bp)
         else if reserved_graph_base lower \<or> lower = base_path then Inl (ErrGraphReserved bp)
         else if guid_re lower then Inl (ErrGraphGuid bp)
         else if overage \<noteq> overage_self \<and> overage \<noteq> overage_microsoft then Inl ErrGraphOverage
         else if (case g_clock_skew g0 of None \<Rightarrow> False | Some s \<Rightarrow> s < 0) then Inl ErrGraphClockSkew
         else Inr \<lparr>g_enabled = enabled, g_base_path = lower, g_overage_endpoint = overage,
                   g_user_info = user_info, g_app_only = g_app_only g0,
                   g_default_page_size = def_size, g_max_page_size = max_size,
                   g_clock_skew = (case g_clock_skew g0 of
                      None \<Rightarrow> Some default_graph_clock_skew | Some s \<Rightarrow> Some s)\<rparr>)"

section \<open>Tenants and groups\<close>

definition normalize_group ::
  "string \<Rightarrow> string list \<Rightarrow> nat \<Rightarrow> group \<Rightarrow> cfg_error + (string list \<times> group)" where
  "normalize_group tid seen i g =
     (let name = trim_space (gr_name g);
          oid = to_lower (trim_space (gr_oid g));
          mrule = trim_space (gr_membership_rule g);
          g1 = g\<lparr>gr_name := name, gr_oid := oid, gr_membership_rule := mrule, gr_rule := None\<rparr>
      in if name = [] then Inl (ErrGroupName tid i)
         else if name \<in> set seen then Inl (ErrDuplicateGroup tid name)
         else if oid \<noteq> [] \<and> \<not> guid_re oid then Inl (ErrGroupOid tid name)
         else if group_dynamic g1 then
           (case parse_rule mrule of
              Inl e \<Rightarrow> Inl (ErrGroupRule tid name e)
            | Inr r \<Rightarrow> Inr (name # seen, g1\<lparr>gr_rule := Some r\<rparr>))
         else Inr (name # seen, g1))"

definition normalize_groups :: "tenant \<Rightarrow> cfg_error + tenant" where
  "normalize_groups t =
     ebind (map_err (normalize_group (t_tid t)) [] 0 (t_groups t))
       (\<lambda>(_, gs). Inr (t\<lparr>t_groups := gs\<rparr>))"

definition normalize_tenant ::
  "int \<Rightarrow> string list \<Rightarrow> nat \<Rightarrow> tenant \<Rightarrow> cfg_error + (string list \<times> tenant)" where
  "normalize_tenant default_limit seen i t =
     (let tid = to_lower (trim_space (t_tid t));
          fmt = (if t_group_claim_format t = [] then format_name else t_group_claim_format t);
          lim = (if t_group_limit t \<le> 0 then default_limit else t_group_limit t);
          name = (if t_name t = [] then tid else t_name t)
      in if \<not> guid_re tid then Inl (ErrTidNotGuid tid)
         else if tid \<in> set seen then Inl (ErrDuplicateTid tid)
         else if fmt \<noteq> format_name \<and> fmt \<noteq> format_object_id then Inl (ErrGroupClaimFormat tid)
         else ebind (normalize_groups (t\<lparr>t_tid := tid, t_group_claim_format := fmt,
                                          t_group_limit := lim, t_name := name\<rparr>))
                (\<lambda>t'. Inr (tid # seen, t')))"

section \<open>Apps and consents\<close>

definition reserved_claims :: "string list" where
  "reserved_claims =
     [''iss'', ''aud'', ''iat'', ''nbf'', ''exp'', ''tid'', ''oid'', ''sub'', ''ver'', ''name'',
      ''preferred_username'', ''uti'', ''nonce'', ''email'', ''xms_edov'', ''amr'', ''given_name'',
      ''family_name'', ''roles'', ''wids'', ''groups'', ''_claim_names'', ''_claim_sources'',
      ''scp'', ''azp'', ''appid'', ''idp'']"

definition normalize_claim ::
  "string \<Rightarrow> string list \<Rightarrow> nat \<Rightarrow> claim_mapping \<Rightarrow> cfg_error + (string list \<times> claim_mapping)" where
  "normalize_claim client_id seen i m =
     (let name = trim_space (cm_name m); source = trim_space (cm_source m)
      in if name = [] then Inl (ErrClaimName client_id i)
         else if name \<in> set reserved_claims then Inl (ErrClaimReserved client_id name)
         else if name \<in> set seen then Inl (ErrDuplicateClaim client_id name)
         else if map_of claim_sources (to_lower source) = None
              then Inl (ErrClaimSource client_id name source)
         else Inr (name # seen, m\<lparr>cm_name := name, cm_source := source\<rparr>))"

definition normalize_app :: "string list \<Rightarrow> unit \<Rightarrow> nat \<Rightarrow> app \<Rightarrow> cfg_error + (unit \<times> app)" where
  "normalize_app tids _ i a =
     (let client_id = trim_space (a_client_id a); tid = to_lower (trim_space (a_tid a))
      in if client_id = [] then Inl (ErrAppClientId i)
         else if tid \<noteq> [] \<and> tid \<notin> set tids then Inl (ErrAppTid client_id tid)
         else ebind (map_err (normalize_claim client_id) [] 0 (a_claims a))
                (\<lambda>(_, cms). Inr ((), a\<lparr>a_client_id := client_id, a_tid := tid, a_claims := cms\<rparr>)))"

definition normalize_consent :: "string list \<Rightarrow> unit \<Rightarrow> nat \<Rightarrow> consent \<Rightarrow> cfg_error + (unit \<times> consent)" where
  "normalize_consent tids _ i cs =
     (let tid = to_lower (trim_space (cs_tid cs))
      in if cs_client_id cs = [] \<or> tid \<notin> set tids then Inl (ErrConsent i)
         else Inr ((), cs\<lparr>cs_tid := tid\<rparr>))"

section \<open>Users\<close>

definition user_key :: "string \<Rightarrow> string \<Rightarrow> string" where
  "user_key tid username = tid @ ''/'' @ username"

definition normalize_wid :: "string \<Rightarrow> unit \<Rightarrow> nat \<Rightarrow> string \<Rightarrow> cfg_error + (unit \<times> string)" where
  "normalize_wid username _ i w =
     (let w' = to_lower (trim_space w)
      in if \<not> guid_re w' then Inl (ErrUserWid username i) else Inr ((), w'))"

definition normalize_profile :: "user \<Rightarrow> cfg_error + user" where
  "normalize_profile u =
     ebind (map_err (normalize_wid (u_username u)) () 0 (u_wids u))
       (\<lambda>(_, ws). Inr (u\<lparr>u_upn := to_lower (trim_space (u_upn u)),
                          u_manager := trim_space (u_manager u), u_wids := ws\<rparr>))"

definition normalize_user ::
  "(string \<Rightarrow> string) \<Rightarrow> string list \<Rightarrow> string list \<Rightarrow> nat \<Rightarrow> user \<Rightarrow> cfg_error + (string list \<times> user)" where
  "normalize_user sha1 tids seen i u =
     (let tid = to_lower (trim_space (u_tid u));
          username = u_username u;
          key = user_key tid username;
          oid = to_lower (u_oid u)
      in if username = [] then Inl (ErrUsername i)
         else if tid \<notin> set tids then Inl (ErrUserTid username tid)
         else if key \<in> set seen then Inl (ErrDuplicateUser username tid)
         else if u_error u \<notin> set [ [], err_interaction_required, err_access_denied, err_invalid_grant]
              then Inl (ErrUserError username)
         else if u_mfa u \<noteq> [] \<and> u_mfa u \<noteq> mfa_passkey then Inl (ErrUserMfa username (u_mfa u))
         else if oid \<noteq> [] \<and> \<not> guid_re oid then Inl (ErrUserOid username)
         else ebind (normalize_profile (u\<lparr>u_tid := tid,
                  u_oid := (if oid = [] then uuid_v5 sha1 oid_namespace (tid @ '':'' @ username) else oid),
                  u_name := (if u_name u = [] then username else u_name u)\<rparr>))
                (\<lambda>u'. Inr (key # seen, u')))"

text \<open>
  The second pass resolves managers. It writes only the \<open>Manager\<close> fields, which the lookup
  by object ID, principal name or username does not read, so every iteration may look at
  the configuration before the pass.
\<close>

definition normalize_manager ::
  "config \<Rightarrow> string list \<Rightarrow> unit \<Rightarrow> nat \<Rightarrow> user \<Rightarrow> cfg_error + (unit \<times> user)" where
  "normalize_manager c keys _ i u =
     (if u_manager u = [] then Inr ((), u)
      else
        let u' = (if user_key (u_tid u) (u_manager u) \<in> set keys then u
                  else case user_by_upn_or_oid c (u_tid u) (u_manager u) of
                         Some m \<Rightarrow> u\<lparr>u_manager := u_username m\<rparr>
                       | None \<Rightarrow> u)
        in if u_manager u' = u_username u' then Inl (ErrManagerSelf (u_username u'))
           else if user_key (u_tid u') (u_manager u') \<notin> set keys
                then Inl (ErrManagerUnknown (u_username u') (u_manager u') (u_tid u'))
           else Inr ((), u'))"

section \<open>Dynamic groups\<close>

text \<open>
  The loop writes only \<open>dynamicGroups\<close>, which no rule reads, so every user is evaluated
  against the configuration before the loop. A dynamic group without a compiled rule would
  be a nil interface call; \<open>normalize_group\<close> compiles every rule first.
\<close>

definition static_member_of_dynamic :: "tenant \<Rightarrow> string \<Rightarrow> bool" where
  "static_member_of_dynamic t name =
     (case group_meta t name of Some g \<Rightarrow> group_dynamic g | None \<Rightarrow> False)"

definition matching_groups :: "config \<Rightarrow> tenant \<Rightarrow> user \<Rightarrow> string list" where
  "matching_groups c t u =
     map gr_name (filter (\<lambda>g. group_dynamic g \<and>
        (case gr_rule g of Some r \<Rightarrow> rule_match c t u r | None \<Rightarrow> False)) (t_groups t))"

definition evaluate_user_groups :: "config \<Rightarrow> unit \<Rightarrow> nat \<Rightarrow> user \<Rightarrow> cfg_error + (unit \<times> user)" where
  "evaluate_user_groups c _ i u =
     (case tenant_by_id c (u_tid u) of
        None \<Rightarrow> Inl ErrNilDeref
      | Some t \<Rightarrow>
          (case find (static_member_of_dynamic t) (u_groups u) of
             Some name \<Rightarrow> Inl (ErrDynamicMember (u_username u) name)
           | None \<Rightarrow>
               if list_ex (\<lambda>g. group_dynamic g \<and> gr_rule g = None) (t_groups t) then Inl ErrNilDeref
               else Inr ((), u\<lparr>u_dynamic_groups := matching_groups c t u\<rparr>)))"

definition evaluate_dynamic_groups :: "config \<Rightarrow> cfg_error + config" where
  "evaluate_dynamic_groups c =
     ebind (map_err (evaluate_user_groups c) () 0 (c_users c)) (\<lambda>(_, us). Inr (c\<lparr>c_users := us\<rparr>))"

section \<open>The whole configuration\<close>

definition normalize :: "(string \<Rightarrow> string) \<Rightarrow> config \<Rightarrow> cfg_error + config" where
  "normalize sha1 c =
     (let bp0 = trim_slash (c_base_path c);
          bp = (if bp0 = [] then ''entra'' else bp0);
          lim = (if c_default_group_limit c \<le> 0 then 200 else c_default_group_limit c);
          expiry = (if c_token_expiry c \<le> 0 then 3600 else c_token_expiry c)
      in if \<not> base_path_re bp then Inl (ErrBasePath bp)
         else
           ebind (normalize_graph bp (c_graph c)) (\<lambda>g.
           if c_tenants c = [] then Inl ErrNoTenants else
           ebind (map_err (normalize_tenant lim) [] 0 (c_tenants c)) (\<lambda>(tids, ts).
           ebind (map_err (normalize_app tids) () 0 (c_apps c)) (\<lambda>(_, apps).
           ebind (map_err (normalize_consent tids) () 0 (c_consents c)) (\<lambda>(_, css).
           ebind (map_err (normalize_user sha1 tids) [] 0 (c_users c)) (\<lambda>(keys, us).
           let c1 = \<lparr>c_base_path = bp, c_default_group_limit = lim, c_token_expiry = expiry,
                     c_ignore_login_hint = c_ignore_login_hint c, c_graph = Some g,
                     c_tenants = ts, c_consents = css, c_apps = apps, c_users = us\<rparr>
           in ebind (map_err (normalize_manager c1 keys) () 0 us) (\<lambda>(_, us2).
              evaluate_dynamic_groups (c1\<lparr>c_users := us2\<rparr>))))))))"

section \<open>Well-formed configurations\<close>

text \<open>What \<open>normalize\<close> establishes, stated without reference to how it computes.\<close>

definition graph_wf :: "string \<Rightarrow> graph_config option \<Rightarrow> bool" where
  "graph_wf base_path graph =
     (case graph of None \<Rightarrow> False | Some g \<Rightarrow>
        g_enabled g \<noteq> None \<and> g_user_info g \<noteq> None \<and>
        base_path_re (g_base_path g) \<and> to_lower (g_base_path g) = g_base_path g \<and>
        \<not> reserved_graph_base (g_base_path g) \<and> g_base_path g \<noteq> base_path \<and> \<not> guid_re (g_base_path g) \<and>
        g_overage_endpoint g \<in> set [overage_self, overage_microsoft] \<and>
        0 < g_default_page_size g \<and> g_default_page_size g \<le> g_max_page_size g \<and>
        (case g_clock_skew g of None \<Rightarrow> False | Some s \<Rightarrow> 0 \<le> s))"

definition group_wf :: "group \<Rightarrow> bool" where
  "group_wf g \<longleftrightarrow> gr_name g \<noteq> [] \<and> trim_space (gr_name g) = gr_name g \<and>
     (gr_oid g = [] \<or> guid_re (gr_oid g)) \<and>
     trim_space (gr_membership_rule g) = gr_membership_rule g \<and>
     (if group_dynamic g
      then (case parse_rule (gr_membership_rule g) of Inl _ \<Rightarrow> False | Inr r \<Rightarrow> gr_rule g = Some r)
      else gr_rule g = None)"

definition tenant_wf :: "tenant \<Rightarrow> bool" where
  "tenant_wf t \<longleftrightarrow> guid_re (t_tid t) \<and> t_group_claim_format t \<in> set [format_name, format_object_id] \<and>
     0 < t_group_limit t \<and> t_name t \<noteq> [] \<and> list_all group_wf (t_groups t) \<and>
     distinct (map gr_name (t_groups t))"

definition claim_wf :: "claim_mapping \<Rightarrow> bool" where
  "claim_wf m \<longleftrightarrow> cm_name m \<noteq> [] \<and> trim_space (cm_name m) = cm_name m \<and>
     trim_space (cm_source m) = cm_source m \<and> cm_name m \<notin> set reserved_claims \<and>
     map_of claim_sources (to_lower (cm_source m)) \<noteq> None"

definition app_wf :: "string list \<Rightarrow> app \<Rightarrow> bool" where
  "app_wf tids a \<longleftrightarrow> a_client_id a \<noteq> [] \<and> trim_space (a_client_id a) = a_client_id a \<and>
     (a_tid a = [] \<or> a_tid a \<in> set tids) \<and>
     list_all claim_wf (a_claims a) \<and> distinct (map cm_name (a_claims a))"

definition consent_wf :: "string list \<Rightarrow> consent \<Rightarrow> bool" where
  "consent_wf tids cs \<longleftrightarrow> cs_client_id cs \<noteq> [] \<and> cs_tid cs \<in> set tids"

definition user_wf :: "string list \<Rightarrow> user \<Rightarrow> bool" where
  "user_wf tids u \<longleftrightarrow> u_username u \<noteq> [] \<and> u_tid u \<in> set tids \<and>
     u_error u \<in> set [ [], err_interaction_required, err_access_denied, err_invalid_grant] \<and>
     u_mfa u \<in> set [ [], mfa_passkey] \<and> guid_re (u_oid u) \<and> u_name u \<noteq> [] \<and>
     to_lower (trim_space (u_upn u)) = u_upn u \<and> list_all guid_re (u_wids u)"

definition user_id :: "user \<Rightarrow> string" where
  "user_id u = user_key (u_tid u) (u_username u)"

definition manager_wf :: "user list \<Rightarrow> user \<Rightarrow> bool" where
  "manager_wf us u \<longleftrightarrow> u_manager u = [] \<or>
     u_manager u \<noteq> u_username u \<and> user_key (u_tid u) (u_manager u) \<in> set (map user_id us)"

definition dynamic_wf :: "config \<Rightarrow> user \<Rightarrow> bool" where
  "dynamic_wf c u =
     (case tenant_by_id c (u_tid u) of
        None \<Rightarrow> False
      | Some t \<Rightarrow> list_all (\<lambda>n. \<not> static_member_of_dynamic t n) (u_groups u) \<and>
                  u_dynamic_groups u = matching_groups c t u)"

definition config_wf :: "config \<Rightarrow> bool" where
  "config_wf c \<longleftrightarrow>
     base_path_re (c_base_path c) \<and> 0 < c_default_group_limit c \<and> 0 < c_token_expiry c \<and>
     graph_wf (c_base_path c) (c_graph c) \<and>
     c_tenants c \<noteq> [] \<and> list_all tenant_wf (c_tenants c) \<and> distinct (map t_tid (c_tenants c)) \<and>
     list_all (app_wf (map t_tid (c_tenants c))) (c_apps c) \<and>
     list_all (consent_wf (map t_tid (c_tenants c))) (c_consents c) \<and>
     list_all (user_wf (map t_tid (c_tenants c))) (c_users c) \<and>
     distinct (map user_id (c_users c)) \<and>
     list_all (manager_wf (c_users c)) (c_users c) \<and>
     list_all (dynamic_wf c) (c_users c)"

text \<open>
  \<open>normalize\<close> trims a manager reference but not a username: a username with white space at
  its ends can be resolved (by object ID) and is then not found again.
\<close>

definition usernames_trimmed :: "config \<Rightarrow> bool" where
  "usernames_trimmed c \<longleftrightarrow> list_all (\<lambda>u. trim_space (u_username u) = u_username u) (c_users c)"

end
