(* ===== verification/Entra_Normalize_Laws.thy ===== *)
theory Entra_Normalize_Laws
  imports Entra_Normalize
begin

text \<open>
  What normalization guarantees: every configuration it returns satisfies \<open>config_wf\<close>
  (\<open>normalize_sound_aux\<close>), and a well-formed configuration is returned unchanged
  (\<open>normalize_complete_aux\<close>), provided no username has white space at its ends.
\<close>

section \<open>Rules do not read the evaluated groups\<close>

definition no_dynamic :: "user \<Rightarrow> user" where
  "no_dynamic u = u\<lparr>u_dynamic_groups := []\<rparr>"

lemma no_dynamic_fields:
  assumes "no_dynamic u = no_dynamic v"
  shows "u_tid u = u_tid v" "u_username u = u_username v" "u_oid u = u_oid v"
    "u_manager u = u_manager v" "u_account_enabled u = u_account_enabled v" "u_groups u = u_groups v"
  using assms by (cases u; cases v; simp add: no_dynamic_def)+

lemma user_attr_no_dynamic: "user_attr n t (no_dynamic u) = user_attr n t u"
  by (simp add: user_attr_def user_attrs_def no_dynamic_def principal_name_def preferred_username_def
      split: list.splits)

lemma find_map_rel:
  assumes "map f xs = map f ys" and "\<And>x y. f x = f y \<Longrightarrow> P x = P y"
  shows "map_option f (find P xs) = map_option f (find P ys)"
  using assms(1)
proof (induction xs arbitrary: ys)
  case (Cons x xs)
  then obtain y zs where ys: "ys = y # zs" "f x = f y" "map f xs = map f zs" by auto
  with assms(2)[OF ys(2)] Cons.IH[OF ys(3)] show ?case by auto
qed simp

lemma rule_match_no_dynamic:
  assumes "map no_dynamic (c_users c) = map no_dynamic (c_users c')" and "no_dynamic u = no_dynamic u'"
  shows "rule_match c t u r = rule_match c' t u' r"
proof (induction r)
  case (DirectReportsRule oid)
  have m: "map_option no_dynamic (manager_of c u) = map_option no_dynamic (manager_of c' u')"
    using no_dynamic_fields[OF assms(2)] unfolding manager_of_def user_by_name_def
    by (auto intro!: find_map_rel[OF assms(1)] dest: no_dynamic_fields)
  show ?case
  proof (cases "manager_of c u")
    case None
    with m show ?thesis by simp
  next
    case (Some x)
    with m obtain y where y: "manager_of c' u' = Some y" "no_dynamic x = no_dynamic y"
      by (cases "manager_of c' u'") auto
    show ?thesis using Some y(1) no_dynamic_fields(3)[OF y(2)] by simp
  qed
next
  case (StringCompare attr op v vs)
  have "user_attr attr t u = user_attr attr t u'"
    using assms(2) by (metis user_attr_no_dynamic)
  then show ?case by simp
next
  case (BoolCompare eq b)
  show ?case using no_dynamic_fields[OF assms(2)] by (simp add: user_enabled_def)
next
  case (OrRule rs)
  then show ?case by (simp add: list_ex_iff)
next
  case (AndRule rs)
  then show ?case by (simp add: list_all_iff)
next
  case (NotRule r)
  then show ?case by simp
qed

lemma matching_groups_no_dynamic:
  assumes "map no_dynamic (c_users c) = map no_dynamic (c_users c')" and "no_dynamic u = no_dynamic u'"
  shows "matching_groups c t u = matching_groups c' t u'"
proof -
  have "rule_match c t u = rule_match c' t u'" by (rule ext) (rule rule_match_no_dynamic[OF assms])
  then show ?thesis unfolding matching_groups_def by metis
qed

lemma no_dynamic_update [simp]: "no_dynamic (u\<lparr>u_dynamic_groups := gs\<rparr>) = no_dynamic u"
  by (simp add: no_dynamic_def)

section \<open>Keys\<close>

lemma user_key_inj:
  "guid_re a \<Longrightarrow> guid_re b \<Longrightarrow> user_key a x = user_key b y \<longleftrightarrow> a = b \<and> x = y"
proof -
  assume g: "guid_re a" "guid_re b"
  have "takeWhile (\<lambda>c. c \<noteq> CHR ''/'') (user_key d z) = d" if "guid_re d" for d z
    using guid_no_slash[OF that] unfolding user_key_def
    by (subst takeWhile_append2) auto
  with g show ?thesis unfolding user_key_def by (metis append_Cons append_Nil append_same_eq list.inject same_append_eq)
qed

section \<open>The loop bodies\<close>

lemma graph_wf_intro:
  assumes "\<not> \<not> base_path_re bp" "\<not> (reserved_graph_base (to_lower bp) \<or> to_lower bp = base)"
    "\<not> guid_re (to_lower bp)" "\<not> (ov \<noteq> overage_self \<and> ov \<noteq> overage_microsoft)"
    "e \<noteq> None" "ui \<noteq> None" "0 < ds" "ds \<le> ms"
    "\<not> (case sk of None \<Rightarrow> False | Some s \<Rightarrow> s < 0)"
  shows "graph_wf base (Some \<lparr>g_enabled = e, g_base_path = to_lower bp, g_overage_endpoint = ov,
           g_user_info = ui, g_app_only = ao, g_default_page_size = ds, g_max_page_size = ms,
           g_clock_skew = (case sk of None \<Rightarrow> Some default_graph_clock_skew | Some s \<Rightarrow> Some s)\<rparr>)"
  using assms
  by (auto simp: graph_wf_def base_path_re_def to_lower_word default_graph_clock_skew_def split: option.splits)

lemma normalize_graph_wf:
  "normalize_graph base graph = Inr g \<Longrightarrow> graph_wf base (Some g)"
  unfolding normalize_graph_def Let_def
  apply (simp only: if_Inl_eq_Inr sum.inject)
  apply (elim conjE)
  apply hypsubst
  apply (rule graph_wf_intro, assumption+)
       apply (simp_all add: default_graph_max_page_size_def default_graph_page_size_def split: option.split)
   apply (simp_all add: ex_bool_eq)
  done

lemma normalize_graph_fix: "graph_wf base (Some g) \<Longrightarrow> normalize_graph base (Some g) = Inr g"
  unfolding normalize_graph_def Let_def
  by (cases g) (auto simp: graph_wf_def base_path_re_def trim_space_word trim_slash_word entra_consts
      split: option.splits)

lemma normalize_group_wf:
  "normalize_group tid seen i g = Inr (seen', g') \<Longrightarrow>
   group_wf g' \<and> gr_name g' \<notin> set seen \<and> seen' = gr_name g' # seen"
  unfolding normalize_group_def Let_def
  by (auto simp: group_wf_def group_dynamic_def err_simps split: if_splits sum.splits)

lemma normalize_group_fix:
  "group_wf g \<Longrightarrow> gr_name g \<notin> set seen \<Longrightarrow> normalize_group tid seen i g = Inr (gr_name g # seen, g)"
  unfolding normalize_group_def Let_def
  by (cases g) (auto simp: group_wf_def group_dynamic_def split: if_splits sum.splits)

lemma normalize_tenant_wf:
  assumes "0 < lim" and "normalize_tenant lim seen i t = Inr (seen', t')"
  shows "tenant_wf t' \<and> t_tid t' \<notin> set seen \<and> seen' = t_tid t' # seen"
proof -
  from assms(2) obtain s gs where
    g: "map_err (normalize_group (to_lower (trim_space (t_tid t)))) [] 0 (t_groups t) = Inr (s, gs)"
    and t': "t_groups t' = gs"
    by (auto simp: normalize_tenant_def normalize_groups_def Let_def err_simps split: if_splits)
  have "list_all group_wf gs \<and> distinct (map gr_name gs)"
    using map_err_unique[OF _ g, of group_wf gr_name] normalize_group_wf by blast
  with assms t' show ?thesis
    by (auto simp: normalize_tenant_def normalize_groups_def Let_def err_simps tenant_wf_def split: if_splits)
qed

lemma normalize_tenant_fix:
  assumes "tenant_wf t" and "t_tid t \<notin> set seen"
  shows "normalize_tenant lim seen i t = Inr (t_tid t # seen, t)"
proof -
  have w: "guid_re (t_tid t)" "0 < t_group_limit t" "t_name t \<noteq> []"
    "t_group_claim_format t \<in> set [format_name, format_object_id]"
    and g: "list_all group_wf (t_groups t)" "distinct (map gr_name (t_groups t))"
    using assms(1) by (simp_all add: tenant_wf_def)
  have "map_err (normalize_group (t_tid t)) [] 0 (t_groups t) = Inr (rev (map gr_name (t_groups t)) @ [], t_groups t)"
    by (rule map_err_unique_fix[OF _ g]) (simp_all add: normalize_group_fix)
  with w assms(2) show ?thesis
    by (cases t) (auto simp: normalize_tenant_def normalize_groups_def Let_def entra_consts)
qed

lemma normalize_claim_wf:
  "normalize_claim cid seen i m = Inr (seen', m') \<Longrightarrow>
   claim_wf m' \<and> cm_name m' \<notin> set seen \<and> seen' = cm_name m' # seen"
  unfolding normalize_claim_def Let_def claim_wf_def
  by (simp only: if_Inl_eq_Inr) auto

lemma normalize_claim_fix:
  "claim_wf m \<Longrightarrow> cm_name m \<notin> set seen \<Longrightarrow> normalize_claim cid seen i m = Inr (cm_name m # seen, m)"
  unfolding normalize_claim_def Let_def claim_wf_def by (cases m) (simp del: set_simps)

lemma normalize_app_wf:
  assumes "normalize_app tids u i a = Inr (u', a')"
  shows "app_wf tids a'"
proof -
  from assms obtain s cms where
    m: "map_err (normalize_claim (trim_space (a_client_id a))) [] 0 (a_claims a) = Inr (s, cms)"
    and a': "a_claims a' = cms"
    by (auto simp: normalize_app_def Let_def err_simps split: if_splits)
  have "list_all claim_wf cms \<and> distinct (map cm_name cms)"
    using map_err_unique[OF _ m, of claim_wf cm_name] normalize_claim_wf by blast
  with assms a' show ?thesis
    by (auto simp: normalize_app_def Let_def err_simps app_wf_def split: if_splits)
qed

lemma normalize_app_fix:
  assumes "app_wf tids a" and "\<forall>t\<in>set tids. guid_re t"
  shows "normalize_app tids () i a = Inr ((), a)"
proof -
  have "list_all claim_wf (a_claims a)" "distinct (map cm_name (a_claims a))"
    using assms(1) by (simp_all add: app_wf_def)
  then have "map_err (normalize_claim (a_client_id a)) [] 0 (a_claims a)
      = Inr (rev (map cm_name (a_claims a)) @ [], a_claims a)"
    by (intro map_err_unique_fix) (simp_all add: normalize_claim_fix)
  with assms show ?thesis
    by (cases a) (auto simp: normalize_app_def Let_def app_wf_def)
qed

lemma normalize_consent_wf: "normalize_consent tids u i cs = Inr (u', cs') \<Longrightarrow> consent_wf tids cs'"
  unfolding normalize_consent_def Let_def consent_wf_def by (auto split: if_splits)

lemma normalize_consent_fix:
  "consent_wf tids cs \<Longrightarrow> \<forall>t\<in>set tids. guid_re t \<Longrightarrow> normalize_consent tids () i cs = Inr ((), cs)"
  unfolding normalize_consent_def Let_def consent_wf_def by (cases cs) auto

section \<open>Users\<close>

lemma normalize_wid_wf: "normalize_wid n u i w = Inr (u', w') \<Longrightarrow> guid_re w'"
  by (auto simp: normalize_wid_def Let_def split: if_splits)

lemma normalize_profile_wf:
  assumes "normalize_profile u = Inr u'"
  shows "to_lower (trim_space (u_upn u')) = u_upn u' \<and> list_all guid_re (u_wids u') \<and>
    u_username u' = u_username u \<and> u_tid u' = u_tid u \<and> u_oid u' = u_oid u \<and> u_name u' = u_name u \<and>
    u_error u' = u_error u \<and> u_mfa u' = u_mfa u"
proof -
  from assms obtain s ws where w: "map_err (normalize_wid (u_username u)) () 0 (u_wids u) = Inr (s, ws)"
    and u': "u' = u\<lparr>u_upn := to_lower (trim_space (u_upn u)), u_manager := trim_space (u_manager u), u_wids := ws\<rparr>"
    by (auto simp: normalize_profile_def err_simps)
  have "list_all2 (\<lambda>x y. guid_re y) (u_wids u) ws"
    using normalize_wid_wf by (intro map_err_all[OF _ w]) blast
  then have "list_all guid_re ws" by (auto simp: list_all2_conv_all_nth list_all_length)
  with u' show ?thesis by simp
qed

lemma normalize_profile_fix:
  assumes "to_lower (trim_space (u_upn u)) = u_upn u" "list_all guid_re (u_wids u)"
    "trim_space (u_manager u) = u_manager u"
  shows "normalize_profile u = Inr u"
proof -
  have "map_err (normalize_wid (u_username u)) () 0 (u_wids u) = Inr ((), u_wids u)"
    using assms(2) by (intro map_err_all_fix) (auto simp: normalize_wid_def list_all_iff)
  with assms show ?thesis by (cases u) (simp add: normalize_profile_def)
qed

lemma normalize_user_wf:
  assumes "normalize_user sha1 tids seen i u = Inr (seen', u')"
  shows "user_wf tids u' \<and> user_id u' \<notin> set seen \<and> seen' = user_id u' # seen"
proof -
  let ?tid = "to_lower (trim_space (u_tid u))" and ?key = "user_key (to_lower (trim_space (u_tid u))) (u_username u)"
  let ?oid = "if to_lower (u_oid u) = [] then uuid_v5 sha1 oid_namespace (?tid @ '':'' @ u_username u) else to_lower (u_oid u)"
  from assms have g: "u_username u \<noteq> []" "?tid \<in> set tids" "?key \<notin> set seen"
      "u_error u \<in> set [ [], err_interaction_required, err_access_denied, err_invalid_grant]"
      "\<not> (u_mfa u \<noteq> [] \<and> u_mfa u \<noteq> mfa_passkey)" "\<not> (to_lower (u_oid u) \<noteq> [] \<and> \<not> guid_re (to_lower (u_oid u)))"
    and p: "ebind (normalize_profile (u\<lparr>u_tid := ?tid, u_oid := ?oid,
                  u_name := (if u_name u = [] then u_username u else u_name u)\<rparr>))
                (\<lambda>u'. Inr (?key # seen, u')) = Inr (seen', u')"
    unfolding normalize_user_def Let_def by (simp_all only: if_Inl_eq_Inr) blast+
  from p have s: "seen' = ?key # seen"
    and q: "normalize_profile (u\<lparr>u_tid := ?tid, u_oid := ?oid,
             u_name := (if u_name u = [] then u_username u else u_name u)\<rparr>) = Inr u'"
    by (simp_all only: ebind_eq_Inr_iff) auto
  have o: "guid_re ?oid" using g(6) by auto
  show ?thesis using normalize_profile_wf[OF q] g o s
    by (simp del: set_simps add: user_wf_def user_id_def) simp
qed

lemma normalize_user_fix:
  assumes w: "user_wf tids u" "\<forall>t\<in>set tids. guid_re t" "trim_space (u_manager u) = u_manager u"
    and "user_id u \<notin> set seen"
  shows "normalize_user sha1 tids seen i u = Inr (user_id u # seen, u)"
proof -
  have g: "u_username u \<noteq> []" "u_tid u \<in> set tids" "guid_re (u_tid u)"
    "u_error u \<in> set [ [], err_interaction_required, err_access_denied, err_invalid_grant]"
    "\<not> (u_mfa u \<noteq> [] \<and> u_mfa u \<noteq> mfa_passkey)" "guid_re (u_oid u)" "u_name u \<noteq> []"
    and p: "normalize_profile u = Inr u"
    using w normalize_profile_fix[of u] by (auto simp: user_wf_def simp del: set_simps) (simp_all)
  have "u\<lparr>u_tid := u_tid u, u_oid := u_oid u, u_name := u_name u\<rparr> = u" by (cases u) simp
  moreover have "u_oid u \<noteq> []" using g(6) by auto
  ultimately show ?thesis using g p assms(4)
    unfolding normalize_user_def Let_def
    by (simp del: set_simps add: user_id_def)
qed

section \<open>Managers and dynamic groups\<close>

definition manager_step :: "string list \<Rightarrow> user \<Rightarrow> user \<Rightarrow> bool" where
  "manager_step keys u u' \<longleftrightarrow> (\<exists>m. u' = u\<lparr>u_manager := m\<rparr> \<and>
     (m = [] \<or> m \<noteq> u_username u \<and> user_key (u_tid u) m \<in> set keys))"

definition dynamic_step :: "config \<Rightarrow> user \<Rightarrow> user \<Rightarrow> bool" where
  "dynamic_step c u u' \<longleftrightarrow> (\<exists>t. tenant_by_id c (u_tid u) = Some t \<and>
     list_all (\<lambda>n. \<not> static_member_of_dynamic t n) (u_groups u) \<and>
     u' = u\<lparr>u_dynamic_groups := matching_groups c t u\<rparr>)"

lemma normalize_manager_step:
  "normalize_manager c keys () i u = Inr ((), u') \<Longrightarrow> manager_step keys u u'"
proof -
  assume a: "normalize_manager c keys () i u = Inr ((), u')"
  have id: "u = u\<lparr>u_manager := u_manager u\<rparr>" by simp
  define v where "v = (if user_key (u_tid u) (u_manager u) \<in> set keys then u
     else case user_by_upn_or_oid c (u_tid u) (u_manager u) of
            Some m \<Rightarrow> u\<lparr>u_manager := u_username m\<rparr> | None \<Rightarrow> u)"
  have v: "\<exists>m. v = u\<lparr>u_manager := m\<rparr>" unfolding v_def by (metis id option.case_eq_if)
  show ?thesis
  proof (cases "u_manager u = []")
    case True
    with a have "u' = u" by (simp add: normalize_manager_def)
    with id True show ?thesis unfolding manager_step_def by metis
  next
    case False
    with a have "u' = v" "u_manager v \<noteq> u_username v" "user_key (u_tid v) (u_manager v) \<in> set keys"
      unfolding normalize_manager_def Let_def v_def[symmetric] by (simp_all split: if_splits)
    with v show ?thesis by (auto simp: manager_step_def)
  qed
qed

lemma normalize_manager_fix:
  "u_manager u = [] \<or> u_manager u \<noteq> u_username u \<and> user_key (u_tid u) (u_manager u) \<in> set keys \<Longrightarrow>
   normalize_manager c keys () i u = Inr ((), u)"
  unfolding normalize_manager_def Let_def by auto

lemma evaluate_user_groups_step:
  "evaluate_user_groups c () i u = Inr ((), u') \<Longrightarrow> dynamic_step c u u'"
  unfolding evaluate_user_groups_def dynamic_step_def
  by (auto simp: find_None_iff_ball list_all_iff split: option.splits if_splits)

lemma manager_step_fields:
  assumes "manager_step keys u u'"
  shows "user_id u' = user_id u" "u_tid u' = u_tid u" "user_wf tids u' = user_wf tids u"
  using assms by (auto simp: manager_step_def user_id_def user_wf_def)

lemma dynamic_step_fields:
  assumes "dynamic_step c u u'"
  shows "user_id u' = user_id u" "u_tid u' = u_tid u" "user_wf tids u' = user_wf tids u"
    "no_dynamic u' = no_dynamic u" "u_manager u' = u_manager u" "u_username u' = u_username u"
  using assms by (auto simp: dynamic_step_def user_id_def user_wf_def)

lemma list_all2_map_same: "list_all2 R xs ys \<Longrightarrow> (\<And>x y. R x y \<Longrightarrow> f y = f x) \<Longrightarrow> map f ys = map f xs"
  by (induction rule: list_all2_induct) auto

lemma list_all2_transfer:
  "list_all2 R xs ys \<Longrightarrow> list_all P xs \<Longrightarrow> (\<And>x y. R x y \<Longrightarrow> P x \<Longrightarrow> Q y) \<Longrightarrow> list_all Q ys"
  by (induction rule: list_all2_induct) auto

lemma tenant_by_id_users [simp]: "tenant_by_id (c\<lparr>c_users := us\<rparr>) tid = tenant_by_id c tid"
  by (simp add: tenant_by_id_def)

lemma dynamic_step_wf:
  assumes "dynamic_step c u u'" and "c_users c = us" and "map no_dynamic us' = map no_dynamic us"
  shows "dynamic_wf (c\<lparr>c_users := us'\<rparr>) u'"
proof -
  from assms(1) obtain t where t: "tenant_by_id c (u_tid u) = Some t"
    "list_all (\<lambda>n. \<not> static_member_of_dynamic t n) (u_groups u)"
    and u': "u' = u\<lparr>u_dynamic_groups := matching_groups c t u\<rparr>" by (auto simp: dynamic_step_def)
  have "matching_groups (c\<lparr>c_users := us'\<rparr>) t u' = matching_groups c t u"
    using assms u' by (intro matching_groups_no_dynamic) simp_all
  with t u' show ?thesis by (simp add: dynamic_wf_def)
qed

lemma users_phase_wf:
  assumes us: "list_all (user_wf tids) us" "distinct (map user_id us)" "set keys = set (map user_id us)"
    and m: "list_all2 (manager_step keys) us us2"
    and c2: "c_users c2 = us2" and d: "list_all2 (dynamic_step c2) us2 us3"
  shows "list_all (user_wf tids) us3" "distinct (map user_id us3)"
    "list_all (manager_wf us3) us3" "list_all (dynamic_wf (c2\<lparr>c_users := us3\<rparr>)) us3"
proof -
  have ids: "map user_id us2 = map user_id us" "map user_id us3 = map user_id us2"
    using list_all2_map_same[OF m] list_all2_map_same[OF d]
    by (blast intro: manager_step_fields dynamic_step_fields)+
  have nd: "map no_dynamic us3 = map no_dynamic us2"
    using list_all2_map_same[OF d] by (blast intro: dynamic_step_fields)
  have "list_all (user_wf tids) us2"
    by (rule list_all2_transfer[OF m us(1)]) (simp add: manager_step_fields(3))
  then show "list_all (user_wf tids) us3"
    by (rule list_all2_transfer[OF d]) (simp add: dynamic_step_fields(3))
  show "distinct (map user_id us3)" using us(2) by (simp only: ids)
  have "list_all (manager_wf us3) us2"
  proof (rule list_all2_transfer[OF m us(1)])
    fix x y assume "manager_step keys x y" "user_wf tids x"
    then show "manager_wf us3 y" using us(3) ids by (auto simp: manager_step_def manager_wf_def)
  qed
  then show "list_all (manager_wf us3) us3"
    by (rule list_all2_transfer[OF d])
      (simp add: manager_wf_def dynamic_step_fields)
  show "list_all (dynamic_wf (c2\<lparr>c_users := us3\<rparr>)) us3"
    by (rule list_all2_transfer[OF d \<open>list_all (manager_wf us3) us2\<close>]) (rule dynamic_step_wf[OF _ c2 nd])
qed

lemma group_wf_rule: "group_wf g \<Longrightarrow> group_dynamic g \<Longrightarrow> gr_rule g \<noteq> None"
  by (auto simp: group_wf_def split: sum.splits)

section \<open>Soundness\<close>

lemma normalize_sound_aux:
  assumes "normalize sha1 c = Inr c'"
  shows "config_wf c'"
proof -
  let ?bp = "if trim_slash (c_base_path c) = [] then ''entra'' else trim_slash (c_base_path c)"
  let ?lim = "if c_default_group_limit c \<le> 0 then 200 else c_default_group_limit c"
  from assms obtain g tids ts apps css keys us us2 u1 u2 u3 where
    bp: "base_path_re ?bp" and g: "normalize_graph ?bp (c_graph c) = Inr g"
    and ne: "c_tenants c \<noteq> []"
    and ts: "map_err (normalize_tenant ?lim) [] 0 (c_tenants c) = Inr (tids, ts)"
    and apps: "map_err (normalize_app tids) () 0 (c_apps c) = Inr (u1, apps)"
    and css: "map_err (normalize_consent tids) () 0 (c_consents c) = Inr (u2, css)"
    and us: "map_err (normalize_user sha1 tids) [] 0 (c_users c) = Inr (keys, us)"
    and us2: "map_err (normalize_manager \<lparr>c_base_path = ?bp, c_default_group_limit = ?lim,
        c_token_expiry = (if c_token_expiry c \<le> 0 then 3600 else c_token_expiry c),
        c_ignore_login_hint = c_ignore_login_hint c, c_graph = Some g,
        c_tenants = ts, c_consents = css, c_apps = apps, c_users = us\<rparr> keys) () 0 us = Inr (u3, us2)"
    and ev: "evaluate_dynamic_groups \<lparr>c_base_path = ?bp, c_default_group_limit = ?lim,
        c_token_expiry = (if c_token_expiry c \<le> 0 then 3600 else c_token_expiry c),
        c_ignore_login_hint = c_ignore_login_hint c, c_graph = Some g,
        c_tenants = ts, c_consents = css, c_apps = apps, c_users = us2\<rparr> = Inr c'"
    unfolding normalize_def Let_def
    by (simp only: if_Inl_eq_Inr ebind_eq_Inr_iff split_paired_Ex case_prod_conv config.update_convs not_not)
       blast
  let ?c2 = "\<lparr>c_base_path = ?bp, c_default_group_limit = ?lim,
        c_token_expiry = (if c_token_expiry c \<le> 0 then 3600 else c_token_expiry c),
        c_ignore_login_hint = c_ignore_login_hint c, c_graph = Some g,
        c_tenants = ts, c_consents = css, c_apps = apps, c_users = us2\<rparr>"
  from ev obtain us3 u4 where
    us3: "map_err (evaluate_user_groups ?c2) () 0 us2 = Inr (u4, us3)" and c': "c' = ?c2\<lparr>c_users := us3\<rparr>"
    unfolding evaluate_dynamic_groups_def by (auto simp: ebind_eq_Inr_iff)
  have lim: "0 < ?lim" by simp
  have T: "list_all tenant_wf ts \<and> distinct (map t_tid ts) \<and> set tids = set (map t_tid ts)"
    using map_err_unique[OF normalize_tenant_wf[OF lim] ts] by simp
  have tne: "ts \<noteq> []" using map_err_length[OF ts] ne by auto
  have A: "list_all (app_wf (map t_tid ts)) apps"
  proof -
    have "list_all2 (\<lambda>x y. app_wf tids y) (c_apps c) apps"
      using normalize_app_wf by (intro map_err_all[OF _ apps]) blast
    with T show ?thesis by (auto simp: list_all2_conv_all_nth list_all_length app_wf_def)
  qed
  have C: "list_all (consent_wf (map t_tid ts)) css"
  proof -
    have "list_all2 (\<lambda>x y. consent_wf tids y) (c_consents c) css"
      using normalize_consent_wf by (intro map_err_all[OF _ css]) blast
    with T show ?thesis by (auto simp: list_all2_conv_all_nth list_all_length consent_wf_def)
  qed
  have U: "list_all (user_wf tids) us \<and> distinct (map user_id us) \<and> set keys = set (map user_id us)"
    using map_err_unique[OF normalize_user_wf us] by simp
  have M: "list_all2 (manager_step keys) us us2"
    using normalize_manager_step by (intro map_err_all[OF _ us2]) blast
  have D: "list_all2 (dynamic_step ?c2) us2 us3"
    using evaluate_user_groups_step by (intro map_err_all[OF _ us3]) blast
  have W: "list_all (user_wf tids) us3" "distinct (map user_id us3)"
    "list_all (manager_wf us3) us3" "list_all (dynamic_wf (?c2\<lparr>c_users := us3\<rparr>)) us3"
    using U users_phase_wf[of tids us keys us2 ?c2 us3, OF _ _ _ M _ D] by simp_all
  have W1: "list_all (user_wf (map t_tid ts)) us3"
    using W(1) T by (auto simp: list_all_iff user_wf_def)
  have "graph_wf ?bp (Some g)" using g by (rule normalize_graph_wf)
  with bp lim T tne A C W W1 show ?thesis
    unfolding c' config_wf_def by simp
qed

section \<open>Completeness\<close>

text \<open>
  Everything but the evaluated groups in order (\<open>static_wf\<close>) is enough for success: the only
  effect is then the re-evaluation of the dynamic groups.
\<close>

definition no_static_dynamic :: "config \<Rightarrow> user \<Rightarrow> bool" where
  "no_static_dynamic c u =
     (case tenant_by_id c (u_tid u) of
        None \<Rightarrow> False
      | Some t \<Rightarrow> list_all (\<lambda>n. \<not> static_member_of_dynamic t n) (u_groups u))"

definition static_wf :: "config \<Rightarrow> bool" where
  "static_wf c \<longleftrightarrow>
     base_path_re (c_base_path c) \<and> 0 < c_default_group_limit c \<and> 0 < c_token_expiry c \<and>
     graph_wf (c_base_path c) (c_graph c) \<and>
     c_tenants c \<noteq> [] \<and> list_all tenant_wf (c_tenants c) \<and> distinct (map t_tid (c_tenants c)) \<and>
     list_all (app_wf (map t_tid (c_tenants c))) (c_apps c) \<and>
     list_all (consent_wf (map t_tid (c_tenants c))) (c_consents c) \<and>
     list_all (user_wf (map t_tid (c_tenants c))) (c_users c) \<and>
     distinct (map user_id (c_users c)) \<and>
     list_all (manager_wf (c_users c)) (c_users c) \<and>
     list_all (no_static_dynamic c) (c_users c)"

definition reevaluate :: "config \<Rightarrow> user \<Rightarrow> user" where
  "reevaluate c u = (case tenant_by_id c (u_tid u) of
       None \<Rightarrow> u | Some t \<Rightarrow> u\<lparr>u_dynamic_groups := matching_groups c t u\<rparr>)"

lemma config_wf_static: "config_wf c \<Longrightarrow> static_wf c"
  by (auto simp: config_wf_def static_wf_def list_all_iff dynamic_wf_def no_static_dynamic_def
      split: option.splits)

lemma reevaluate_id: "dynamic_wf c u \<Longrightarrow> reevaluate c u = u"
  by (cases u) (auto simp: reevaluate_def dynamic_wf_def split: option.splits)

lemma map_err_all_map: "(\<And>i x. x \<in> set xs \<Longrightarrow> f () i x = Inr ((), g x)) \<Longrightarrow> map_err f () i xs = Inr ((), map g xs)"
  by (induction xs arbitrary: i) simp_all

lemma evaluate_static:
  assumes "list_all tenant_wf (c_tenants c)" and D: "list_all (no_static_dynamic c) (c_users c)"
  shows "evaluate_dynamic_groups c = Inr (c\<lparr>c_users := map (reevaluate c) (c_users c)\<rparr>)"
proof -
  have "map_err (evaluate_user_groups c) () 0 (c_users c) = Inr ((), map (reevaluate c) (c_users c))"
  proof (rule map_err_all_map)
    fix i u assume u: "u \<in> set (c_users c)"
    then obtain t where t: "tenant_by_id c (u_tid u) = Some t"
      "list_all (\<lambda>n. \<not> static_member_of_dynamic t n) (u_groups u)"
      using D by (auto simp: list_all_iff no_static_dynamic_def split: option.splits)
    have "\<forall>gr\<in>set (t_groups t). group_wf gr"
      using assms(1) tenant_by_idD[OF t(1)] by (auto simp: list_all_iff tenant_wf_def)
    then have "\<not> list_ex (\<lambda>g. group_dynamic g \<and> gr_rule g = None) (t_groups t)"
      using group_wf_rule unfolding list_ex_iff by blast
    moreover have "find (static_member_of_dynamic t) (u_groups u) = None"
      using t(2) by (simp add: find_None_iff_ball list_all_iff)
    ultimately show "evaluate_user_groups c () i u = Inr ((), reevaluate c u)"
      using t by (simp add: evaluate_user_groups_def reevaluate_def)
  qed
  then show ?thesis by (simp add: evaluate_dynamic_groups_def)
qed

lemma normalize_static_aux:
  assumes w: "static_wf c" and trimmed: "usernames_trimmed c"
  shows "normalize sha1 c = Inr (c\<lparr>c_users := map (reevaluate c) (c_users c)\<rparr>)"
proof -
  let ?tids = "map t_tid (c_tenants c)" and ?ids = "map user_id (c_users c)"
  have b: "base_path_re (c_base_path c)" "0 < c_default_group_limit c" "0 < c_token_expiry c" "c_tenants c \<noteq> []"
    and T: "list_all tenant_wf (c_tenants c)" "distinct ?tids"
    and A: "list_all (app_wf ?tids) (c_apps c)" and C: "list_all (consent_wf ?tids) (c_consents c)"
    and U: "list_all (user_wf ?tids) (c_users c)" "distinct ?ids"
    and M: "list_all (manager_wf (c_users c)) (c_users c)" and D: "list_all (no_static_dynamic c) (c_users c)"
    using w by (simp_all add: static_wf_def)
  from w obtain g where g: "c_graph c = Some g" "graph_wf (c_base_path c) (Some g)"
    by (auto simp: static_wf_def graph_wf_def split: option.splits)
  have guids: "\<forall>t\<in>set (rev ?tids). guid_re t" using T(1) by (auto simp: list_all_iff tenant_wf_def)
  have bp: "trim_slash (c_base_path c) = c_base_path c" "c_base_path c \<noteq> []"
    using b(1) by (auto simp: base_path_re_def trim_slash_word)
  have ts: "map_err (normalize_tenant (c_default_group_limit c)) [] 0 (c_tenants c) = Inr (rev ?tids @ [], c_tenants c)"
    by (rule map_err_unique_fix[OF _ T]) (simp_all add: normalize_tenant_fix)
  have apps: "map_err (normalize_app (rev ?tids)) () 0 (c_apps c) = Inr ((), c_apps c)"
  proof (rule map_err_all_fix)
    fix i x assume "x \<in> set (c_apps c)"
    then have "app_wf (rev ?tids) x" using A by (auto simp: list_all_iff app_wf_def)
    then show "normalize_app (rev ?tids) () i x = Inr ((), x)" using guids by (rule normalize_app_fix)
  qed
  have css: "map_err (normalize_consent (rev ?tids)) () 0 (c_consents c) = Inr ((), c_consents c)"
  proof (rule map_err_all_fix)
    fix i x assume "x \<in> set (c_consents c)"
    then have "consent_wf (rev ?tids) x" using C by (auto simp: list_all_iff consent_wf_def)
    then show "normalize_consent (rev ?tids) () i x = Inr ((), x)" using guids by (rule normalize_consent_fix)
  qed
  have tm: "trim_space (u_manager u) = u_manager u" if "u \<in> set (c_users c)" for u
  proof (cases "u_manager u = []")
    case False
    with M that have "user_key (u_tid u) (u_manager u) \<in> set ?ids"
      by (auto simp: list_all_iff manager_wf_def)
    then obtain v where v: "v \<in> set (c_users c)" "user_key (u_tid u) (u_manager u) = user_key (u_tid v) (u_username v)"
      by (auto simp: user_id_def)
    have "guid_re (u_tid u)" "guid_re (u_tid v)"
      using U(1) that v(1) guids by (auto simp: list_all_iff user_wf_def)
    with v(2) have "u_manager u = u_username v" by (simp add: user_key_inj)
    with trimmed v(1) show ?thesis by (simp add: usernames_trimmed_def list_all_iff)
  qed simp
  have us: "map_err (normalize_user sha1 (rev ?tids)) [] 0 (c_users c) = Inr (rev ?ids @ [], c_users c)"
  proof (rule map_err_unique_fix[OF _ _ U(2)])
    fix s i x assume x: "x \<in> set (c_users c)" "user_wf (rev ?tids) x" "user_id x \<notin> set s"
    show "normalize_user sha1 (rev ?tids) s i x = Inr (user_id x # s, x)"
      using x(2) guids tm[OF x(1)] x(3) by (rule normalize_user_fix)
  next
    show "list_all (user_wf (rev ?tids)) (c_users c)" using U(1) by (simp add: user_wf_def list_all_iff)
  qed simp
  have ms: "map_err (normalize_manager c (rev ?ids)) () 0 (c_users c) = Inr ((), c_users c)"
    using M by (intro map_err_all_fix normalize_manager_fix) (auto simp: list_all_iff manager_wf_def)
  note ev = evaluate_static[OF T(1) D]
  have gg: "normalize_graph (c_base_path c) (c_graph c) = Inr g"
    unfolding g(1) using g(2) by (rule normalize_graph_fix)
  have c: "\<lparr>c_base_path = c_base_path c, c_default_group_limit = c_default_group_limit c,
      c_token_expiry = c_token_expiry c, c_ignore_login_hint = c_ignore_login_hint c,
      c_graph = Some g, c_tenants = c_tenants c, c_consents = c_consents c,
      c_apps = c_apps c, c_users = c_users c\<rparr> = c"
    using g(1) by (cases c) simp
  have c2: "c\<lparr>c_users := c_users c\<rparr> = c" by (cases c) simp
  show ?thesis
    using b bp gg ts apps css us ms ev
    by (simp add: normalize_def Let_def c c2)
qed

lemma normalize_complete_aux:
  assumes w: "config_wf c" and trimmed: "usernames_trimmed c"
  shows "normalize sha1 c = Inr c"
proof -
  have "map (reevaluate c) (c_users c) = c_users c"
    using w by (intro map_idI reevaluate_id) (auto simp: config_wf_def list_all_iff)
  then show ?thesis using normalize_static_aux[OF config_wf_static[OF w] trimmed] by simp
qed

section \<open>What normalization keeps\<close>

definition norm_tid :: "string \<Rightarrow> string" where
  "norm_tid tid = to_lower (trim_space tid)"

definition user_ref :: "user \<Rightarrow> string \<times> string" where
  "user_ref u = (norm_tid (u_tid u), u_username u)"

lemma map_err_keep:
  assumes "\<And>s i x s' y. f s i x = Inr (s', y) \<Longrightarrow> h y = k x" and "map_err f s i xs = Inr (s', ys)"
  shows "map h ys = map k xs"
  using assms(2)
proof (induction xs arbitrary: s i s' ys)
  case (Cons x xs)
  from Cons.prems obtain s1 y zs where f: "f s i x = Inr (s1, y)"
    and r: "map_err f s1 (Suc i) xs = Inr (s', zs)" and ys: "ys = y # zs"
    by (auto simp: err_simps)
  show ?case using assms(1)[OF f] Cons.IH[OF r] ys by simp
qed simp

lemma normalize_user_keeps:
  assumes "normalize_user sha1 tids s i x = Inr (s', y)"
  shows "(u_tid y, u_username y) = user_ref x"
proof -
  have p: "normalize_profile x1 = Inr y1 \<Longrightarrow> u_username y1 = u_username x1 \<and> u_tid y1 = u_tid x1" for x1 y1
    by (blast dest: normalize_profile_wf)
  from assms show ?thesis
    unfolding normalize_user_def Let_def user_ref_def norm_tid_def
    by (simp only: if_Inl_eq_Inr ebind_eq_Inr_iff) (fastforce dest: p)
qed

lemma normalize_tenant_keeps:
  "normalize_tenant lim s i t = Inr (s', t') \<Longrightarrow> t_tid t' = norm_tid (t_tid t)"
  by (auto simp: normalize_tenant_def normalize_groups_def norm_tid_def Let_def err_simps split: if_splits)

lemma normalize_keeps:
  assumes "normalize sha1 c = Inr c'"
  shows "map (\<lambda>u. (u_tid u, u_username u)) (c_users c') = map user_ref (c_users c)"
    and "map t_tid (c_tenants c') = map (norm_tid \<circ> t_tid) (c_tenants c)"
proof -
  from assms obtain lim tids ts keys us c1 u3 us2 where
    ts: "map_err (normalize_tenant lim) [] 0 (c_tenants c) = Inr (tids, ts)"
    and us: "map_err (normalize_user sha1 tids) [] 0 (c_users c) = Inr (keys, us)"
    and us2: "map_err (normalize_manager c1 keys) () 0 us = Inr (u3, us2)"
    and ev: "evaluate_dynamic_groups (c1\<lparr>c_users := us2\<rparr>) = Inr c'"
    and c1: "c_tenants c1 = ts"
    unfolding normalize_def Let_def
    by (simp only: if_Inl_eq_Inr ebind_eq_Inr_iff split_paired_Ex case_prod_conv) (metis config.select_convs(6))
  from ev obtain u4 us3 where us3: "map_err (evaluate_user_groups (c1\<lparr>c_users := us2\<rparr>)) () 0 us2 = Inr (u4, us3)"
    and c': "c' = c1\<lparr>c_users := us3\<rparr>"
    unfolding evaluate_dynamic_groups_def by (auto simp: ebind_eq_Inr_iff)
  let ?k = "\<lambda>u. (u_tid u, u_username u)"
  have "map ?k us = map user_ref (c_users c)"
    by (rule map_err_keep[OF _ us]) (rule normalize_user_keeps)
  moreover have "map ?k us2 = map ?k us"
  proof (rule map_err_keep[OF _ us2])
    fix s i x s' y assume "normalize_manager c1 keys s i x = Inr (s', y)"
    then show "?k y = ?k x" using normalize_manager_step[of c1 keys i x y] by (auto simp: manager_step_def)
  qed
  moreover have "map ?k us3 = map ?k us2"
  proof (rule map_err_keep[OF _ us3])
    fix s i x s' y assume "evaluate_user_groups (c1\<lparr>c_users := us2\<rparr>) s i x = Inr (s', y)"
    then show "?k y = ?k x" using evaluate_user_groups_step[of "c1\<lparr>c_users := us2\<rparr>" i x y] by (auto simp: dynamic_step_def)
  qed
  ultimately show "map ?k (c_users c') = map user_ref (c_users c)" by (simp add: c')
  have "map t_tid ts = map (\<lambda>t. norm_tid (t_tid t)) (c_tenants c)"
    by (rule map_err_keep[OF _ ts]) (rule normalize_tenant_keeps)
  then show "map t_tid (c_tenants c') = map (norm_tid \<circ> t_tid) (c_tenants c)" by (simp add: c' c1)
qed

lemma normalize_keeps_trimmed:
  assumes "normalize sha1 c = Inr c'"
  shows "usernames_trimmed c' \<longleftrightarrow> usernames_trimmed c"
proof -
  have m: "map u_username (c_users c') = map u_username (c_users c)"
    using arg_cong[OF normalize_keeps(1)[OF assms], of "map snd"] by (simp add: user_ref_def comp_def)
  have "usernames_trimmed d \<longleftrightarrow> list_all (\<lambda>x. trim_space x = x) (map u_username (c_users d))" for d
    by (simp add: usernames_trimmed_def list.pred_map comp_def)
  then show ?thesis by (simp only: m)
qed

end
