(* ===== verification/Entra_Store.thy ===== *)
theory Entra_Store
  imports Entra_Normalize_Laws
begin

text \<open>
  The copy-on-write configuration store (internal/entra/store.go). A snapshot is an immutable
  value, so \<open>cloneConfig\<close> is the identity on values (Entra_Heap shows it for the pointers behind them); a mutation edits a copy, normalizes it
  and publishes it, or returns an error and publishes nothing. The mutex makes every
  mutation one step.

  The contract between the store and its validator is the locale \<open>validated_store\<close>; its
  interpretation on \<open>normalize\<close> rests on the soundness and completeness lemmas.
\<close>

section \<open>The contract of a validating store\<close>

locale validated_store =
  fixes norm :: "'c \<Rightarrow> 'e + 'c" and wf :: "'c \<Rightarrow> bool" and stable :: "'c \<Rightarrow> bool"
  assumes sound: "norm c = Inr c' \<Longrightarrow> wf c'"
    and complete: "wf c \<Longrightarrow> stable c \<Longrightarrow> norm c = Inr c"
    and keeps: "norm c = Inr c' \<Longrightarrow> stable c' = stable c"
begin

lemma published_wf: "ebind (fn c) norm = Inr c' \<Longrightarrow> wf c'"
  by (auto simp: err_simps intro: sound)

lemma renormalize: "norm c = Inr c' \<Longrightarrow> stable c \<Longrightarrow> norm c' = Inr c'"
  by (simp add: complete sound keeps)

end

interpretation entra_norm: validated_store "normalize sha1" config_wf usernames_trimmed for sha1
proof
  fix c c'
  show "normalize sha1 c = Inr c' \<Longrightarrow> config_wf c'" by (rule normalize_sound_aux)
  show "config_wf c \<Longrightarrow> usernames_trimmed c \<Longrightarrow> normalize sha1 c = Inr c" by (rule normalize_complete_aux)
  show "normalize sha1 c = Inr c' \<Longrightarrow> usernames_trimmed c' = usernames_trimmed c"
    by (rule normalize_keeps_trimmed)
qed

section \<open>The store\<close>

record store =
  st_seed :: config
  st_cur :: config

definition new_store :: "config \<Rightarrow> store" where
  "new_store seed = \<lparr>st_seed = seed, st_cur = seed\<rparr>"

definition snapshot :: "store \<Rightarrow> config" where
  "snapshot s = st_cur s"

definition store_reset :: "store \<Rightarrow> store" where
  "store_reset s = s\<lparr>st_cur := st_seed s\<rparr>"

definition mutate ::
  "(string \<Rightarrow> string) \<Rightarrow> (config \<Rightarrow> cfg_error + config) \<Rightarrow> store \<Rightarrow> cfg_error option \<times> store" where
  "mutate sha1 fn s =
     (case ebind (fn (st_cur s)) (normalize sha1) of
        Inl e \<Rightarrow> (Some e, s)
      | Inr c \<Rightarrow> (None, s\<lparr>st_cur := c\<rparr>))"

definition set_graph_enabled :: "(string \<Rightarrow> string) \<Rightarrow> bool \<Rightarrow> store \<Rightarrow> cfg_error option \<times> store" where
  "set_graph_enabled sha1 v =
     mutate sha1 (\<lambda>c. Inr (c\<lparr>c_graph :=
       Some ((case c_graph c of None \<Rightarrow> empty_graph | Some g \<Rightarrow> g)\<lparr>g_enabled := Some v\<rparr>)\<rparr>))"

definition create_tenant :: "(string \<Rightarrow> string) \<Rightarrow> tenant \<Rightarrow> store \<Rightarrow> cfg_error option \<times> store" where
  "create_tenant sha1 t = mutate sha1 (\<lambda>c. Inr (c\<lparr>c_tenants := c_tenants c @ [t]\<rparr>))"

fun replace_first :: "('a \<Rightarrow> bool) \<Rightarrow> 'a \<Rightarrow> 'a list \<Rightarrow> 'a list option" where
  "replace_first p y [] = None"
| "replace_first p y (x # xs) = (if p x then Some (y # xs) else map_option ((#) x) (replace_first p y xs))"

definition update_tenant :: "(string \<Rightarrow> string) \<Rightarrow> string \<Rightarrow> tenant \<Rightarrow> store \<Rightarrow> cfg_error option \<times> store" where
  "update_tenant sha1 tid0 t s =
     (let tid = norm_tid tid0 in
      if t_tid t \<noteq> [] \<and> norm_tid (t_tid t) \<noteq> tid then (Some ErrTidChanged, s)
      else mutate sha1 (\<lambda>c. case replace_first (\<lambda>x. t_tid x = tid) (t\<lparr>t_tid := tid\<rparr>) (c_tenants c) of
             None \<Rightarrow> Inl (ErrTenantNotFound tid)
           | Some ts \<Rightarrow> Inr (c\<lparr>c_tenants := ts\<rparr>)) s)"

definition delete_tenant :: "(string \<Rightarrow> string) \<Rightarrow> string \<Rightarrow> store \<Rightarrow> cfg_error option \<times> store" where
  "delete_tenant sha1 tid0 =
     (let tid = norm_tid tid0 in
      mutate sha1 (\<lambda>c.
        if \<not> list_ex (\<lambda>t. t_tid t = tid) (c_tenants c) then Inl (ErrTenantNotFound tid)
        else Inr (c\<lparr>c_tenants := filter (\<lambda>t. t_tid t \<noteq> tid) (c_tenants c),
                    c_users := filter (\<lambda>u. u_tid u \<noteq> tid) (c_users c),
                    c_consents := filter (\<lambda>x. cs_tid x \<noteq> tid) (c_consents c)\<rparr>)))"

definition create_user :: "(string \<Rightarrow> string) \<Rightarrow> user \<Rightarrow> store \<Rightarrow> cfg_error option \<times> store" where
  "create_user sha1 u = mutate sha1 (\<lambda>c. Inr (c\<lparr>c_users := c_users c @ [u]\<rparr>))"

definition update_user ::
  "(string \<Rightarrow> string) \<Rightarrow> string \<Rightarrow> string \<Rightarrow> user \<Rightarrow> store \<Rightarrow> cfg_error option \<times> store" where
  "update_user sha1 tid0 username u s =
     (let tid = norm_tid tid0 in
      if u_tid u \<noteq> [] \<and> norm_tid (u_tid u) \<noteq> tid then (Some ErrTidChanged, s)
      else mutate sha1 (\<lambda>c.
        case replace_first (\<lambda>x. u_tid x = tid \<and> u_username x = username)
               (u\<lparr>u_tid := tid, u_username := username\<rparr>) (c_users c) of
          None \<Rightarrow> Inl (ErrUserNotFound username tid)
        | Some us \<Rightarrow> Inr (c\<lparr>c_users := us\<rparr>)) s)"

definition clear_manager :: "string \<Rightarrow> string \<Rightarrow> user \<Rightarrow> user" where
  "clear_manager tid username u =
     (if u_tid u = tid \<and> u_manager u = username then u\<lparr>u_manager := []\<rparr> else u)"

definition delete_user :: "(string \<Rightarrow> string) \<Rightarrow> string \<Rightarrow> string \<Rightarrow> store \<Rightarrow> cfg_error option \<times> store" where
  "delete_user sha1 tid0 username =
     (let tid = norm_tid tid0 in
      mutate sha1 (\<lambda>c.
        if \<not> list_ex (\<lambda>u. u_tid u = tid \<and> u_username u = username) (c_users c)
        then Inl (ErrUserNotFound username tid)
        else Inr (c\<lparr>c_users := map (clear_manager tid username)
               (filter (\<lambda>u. \<not> (u_tid u = tid \<and> u_username u = username)) (c_users c))\<rparr>)))"

section \<open>Histories of a store\<close>

datatype store_op =
    OpReset
  | OpGraph bool
  | OpCreateTenant tenant
  | OpUpdateTenant string tenant
  | OpDeleteTenant string
  | OpCreateUser user
  | OpUpdateUser string string user
  | OpDeleteUser string string

fun store_apply :: "(string \<Rightarrow> string) \<Rightarrow> store_op \<Rightarrow> store \<Rightarrow> cfg_error option \<times> store" where
  "store_apply sha1 OpReset s = (None, store_reset s)"
| "store_apply sha1 (OpGraph v) s = set_graph_enabled sha1 v s"
| "store_apply sha1 (OpCreateTenant t) s = create_tenant sha1 t s"
| "store_apply sha1 (OpUpdateTenant tid t) s = update_tenant sha1 tid t s"
| "store_apply sha1 (OpDeleteTenant tid) s = delete_tenant sha1 tid s"
| "store_apply sha1 (OpCreateUser u) s = create_user sha1 u s"
| "store_apply sha1 (OpUpdateUser tid n u) s = update_user sha1 tid n u s"
| "store_apply sha1 (OpDeleteUser tid n) s = delete_user sha1 tid n s"

inductive store_reach :: "(string \<Rightarrow> string) \<Rightarrow> config \<Rightarrow> store \<Rightarrow> bool" for sha1 seed where
  reach_new: "store_reach sha1 seed (new_store seed)"
| reach_op: "store_reach sha1 seed s \<Longrightarrow> store_apply sha1 op s = (e, s') \<Longrightarrow> store_reach sha1 seed s'"

section \<open>Laws\<close>

lemma mutate_cases:
  assumes "mutate sha1 fn s = (e, s')"
  obtains (fail) err where "e = Some err" "s' = s" "ebind (fn (st_cur s)) (normalize sha1) = Inl err"
  | (ok) c where "e = None" "s' = s\<lparr>st_cur := c\<rparr>" "ebind (fn (st_cur s)) (normalize sha1) = Inr c"
  using assms by (auto simp: mutate_def split: sum.splits)

text \<open>Every operation is a mutation, a reset or an early error return.\<close>

lemma store_apply_form:
  assumes "store_apply sha1 op s = (e, s')"
  shows "s' = store_reset s \<and> e = None \<or> s' = s \<and> e \<noteq> None \<or>
    (\<exists>fn c. s' = s\<lparr>st_cur := c\<rparr> \<and> e = None \<and> ebind (fn (st_cur s)) (normalize sha1) = Inr c)"
proof -
  have m: "mutate sha1 fn s = (e, s') \<Longrightarrow> ?thesis" for fn
    by (erule mutate_cases) auto
  show ?thesis
  proof (cases op)
    case OpReset
    then show ?thesis using assms by auto
  next
    case (OpUpdateTenant tid t)
    then show ?thesis using assms m by (auto simp: update_tenant_def Let_def split: if_splits)
  next
    case (OpUpdateUser tid n u)
    then show ?thesis using assms m by (auto simp: update_user_def Let_def split: if_splits)
  qed (use assms m in \<open>auto simp: set_graph_enabled_def create_tenant_def delete_tenant_def
        create_user_def delete_user_def Let_def\<close>)
qed

lemma store_reach_seed: "store_reach sha1 seed s \<Longrightarrow> st_seed s = seed"
proof (induction rule: store_reach.induct)
  case (reach_op s op e s')
  then show ?case using store_apply_form[OF reach_op(2)] by (auto simp: store_reset_def)
qed (simp add: new_store_def)

lemma store_reach_wf:
  assumes "config_wf seed" and "store_reach sha1 seed s"
  shows "config_wf (st_cur s)"
  using assms(2)
proof (induction rule: store_reach.induct)
  case reach_new
  then show ?case using assms(1) by (simp add: new_store_def)
next
  case (reach_op s op e s')
  from store_apply_form[OF reach_op(2)] show ?case
    using reach_op(1,3) assms(1) store_reach_seed[OF reach_op(1)]
    by (auto simp: store_reset_def intro: entra_norm.published_wf)
qed

end
