(* ===== verification/Entra_Sample.thy ===== *)
theory Entra_Sample
  imports Entra_Normalize_Laws
begin

text \<open>
  A small configuration at which the properties of the Entra components are instantiated: two
  tenants, three users, a static and a dynamic group.
\<close>

definition tid_a :: string where "tid_a = ''11111111-1111-1111-1111-111111111111''"
definition tid_b :: string where "tid_b = ''22222222-2222-2222-2222-222222222222''"
definition oid_alice :: string where "oid_alice = ''aaaaaaaa-0000-0000-0000-000000000001''"
definition oid_bob :: string where "oid_bob = ''aaaaaaaa-0000-0000-0000-000000000002''"
definition oid_carol :: string where "oid_carol = ''aaaaaaaa-0000-0000-0000-000000000003''"

definition plain_user :: "string \<Rightarrow> string \<Rightarrow> string \<Rightarrow> user" where
  "plain_user tid oid name =
     \<lparr>u_username = name, u_tid = tid, u_oid = oid, u_name = name, u_email = [], u_email_verified = None,
      u_groups = [], u_amr = [], u_admin = False, u_error = [], u_mfa = [], u_given_name = [],
      u_surname = [], u_upn = [], u_account_enabled = None, u_job_title = [], u_office_location = [],
      u_business_phones = [], u_mobile_phone = [], u_preferred_language = [], u_roles = [], u_wids = [],
      u_manager = [], u_department = [], u_company_name = [], u_employee_id = [],
      u_ext = \<lparr>ext1 = [], ext2 = [], ext3 = []\<rparr>, u_dynamic_groups = []\<rparr>"

definition plain_group :: "string \<Rightarrow> string \<Rightarrow> group" where
  "plain_group name mrule =
     \<lparr>gr_name = name, gr_description = [], gr_mail_nickname = [], gr_mail = [], gr_oid = [],
      gr_security_enabled = None, gr_mail_enabled = None, gr_membership_rule = mrule, gr_rule = None\<rparr>"

definition plain_tenant :: "string \<Rightarrow> group list \<Rightarrow> tenant" where
  "plain_tenant tid gs =
     \<lparr>t_tid = tid, t_name = [], t_domains = [], t_group_claim_format = [], t_group_limit = 0,
      t_consent_required = False, t_groups = gs\<rparr>"

definition sample_alice :: user where
  "sample_alice = (plain_user tid_a oid_alice ''alice'')
     \<lparr>u_groups := [''staff''], u_department := ''sales'', u_manager := ''bob''\<rparr>"
definition sample_bob :: user where
  "sample_bob = (plain_user tid_a oid_bob ''bob'')\<lparr>u_groups := [''staff'']\<rparr>"
definition sample_carol :: user where "sample_carol = plain_user tid_b oid_carol ''carol''"

definition sample_config :: config where
  "sample_config =
     \<lparr>c_base_path = ''entra'', c_default_group_limit = 0, c_token_expiry = 0, c_ignore_login_hint = False,
      c_graph = None,
      c_tenants = [plain_tenant tid_a [plain_group ''staff'' [],
                     plain_group ''sellers''
                       (''user.department -eq '' @ [quote_char] @ ''sales'' @ [quote_char])],
                   plain_tenant tid_b []],
      c_consents = [], c_apps = [], c_users = [sample_alice, sample_bob, sample_carol]\<rparr>"


definition sample_seed :: config where
  "sample_seed = (case normalize (\<lambda>_. []) sample_config of Inr c \<Rightarrow> c | Inl _ \<Rightarrow> sample_config)"

lemma sample_norm: "normalize (\<lambda>_. []) sample_config = Inr sample_seed"
proof -
  have "is_ok (normalize (\<lambda>_. []) sample_config)" by code_simp
  then show ?thesis by (auto simp: sample_seed_def is_ok_def split: sum.splits)
qed

lemma sample_wf: "config_wf sample_seed"
  by (rule normalize_sound_aux[OF sample_norm])

lemma sample_trimmed: "usernames_trimmed sample_seed"
proof -
  have "usernames_trimmed sample_config" by code_simp
  then show ?thesis by (simp add: normalize_keeps_trimmed[OF sample_norm])
qed

end
