(* ===== verification/Entra_Store_Laws.thy ===== *)
theory Entra_Store_Laws
  imports Entra_Store Entra_Sample
begin

text \<open>
  What the store operations do to a published snapshot: deletions with their cascades, the
  users and tenants after a creation, and the snapshot that blocks every later edit.
\<close>

section \<open>Deleting a user\<close>

lemma clear_manager_fields [simp]:
  "u_tid (clear_manager tid n u) = u_tid u" "u_username (clear_manager tid n u) = u_username u"
  "user_id (clear_manager tid n u) = user_id u" "u_groups (clear_manager tid n u) = u_groups u"
  "user_wf tids (clear_manager tid n u) = user_wf tids u"
  by (simp_all add: clear_manager_def user_id_def user_wf_def)

lemma reevaluate_fields [simp]:
  "u_tid (reevaluate c u) = u_tid u" "u_username (reevaluate c u) = u_username u"
  "u_manager (reevaluate c u) = u_manager u" "no_dynamic (reevaluate c u) = no_dynamic u"
  by (simp_all add: reevaluate_def split: option.splits)

lemma user_tid_guid: "static_wf c \<Longrightarrow> u \<in> set (c_users c) \<Longrightarrow> guid_re (u_tid u)"
  unfolding static_wf_def list_all_iff by (fastforce simp: user_wf_def tenant_wf_def)

lemma delete_user_static:
  assumes w: "static_wf c" and g: "guid_re tid"
  shows "static_wf (c\<lparr>c_users := map (clear_manager tid n)
           (filter (\<lambda>u. \<not> (u_tid u = tid \<and> u_username u = n)) (c_users c))\<rparr>)" (is "static_wf (c\<lparr>c_users := ?us\<rparr>)")
proof -
  let ?tids = "map t_tid (c_tenants c)"
  let ?keep = "\<lambda>u. \<not> (u_tid u = tid \<and> u_username u = n)"
  have U: "\<forall>u\<in>set (c_users c). user_wf ?tids u" "distinct (map user_id (c_users c))"
    and M: "\<forall>u\<in>set (c_users c). manager_wf (c_users c) u"
    and D: "\<forall>u\<in>set (c_users c). no_static_dynamic c u"
    and G: "\<forall>t\<in>set ?tids. guid_re t"
    using w by (auto simp: static_wf_def list_all_iff tenant_wf_def)
  have mgr: "manager_wf ?us (clear_manager tid n u)" if u: "u \<in> set (c_users c)" "?keep u" for u
  proof (cases "u_manager u = [] \<or> u_tid u = tid \<and> u_manager u = n")
    case True
    then show ?thesis by (auto simp: manager_wf_def clear_manager_def)
  next
    case False
    with M u have m: "u_manager u \<noteq> u_username u" "user_key (u_tid u) (u_manager u) \<in> set (map user_id (c_users c))"
      by (auto simp: manager_wf_def)
    then obtain v where v: "v \<in> set (c_users c)" "user_key (u_tid u) (u_manager u) = user_id v" by auto
    have "u_tid u = u_tid v \<and> u_manager u = u_username v"
      using v(2) user_tid_guid[OF w u(1)] user_tid_guid[OF w v(1)] by (simp add: user_id_def user_key_inj)
    with False v(1) have "v \<in> set (filter ?keep (c_users c))" by auto
    then have "user_id v \<in> set (map user_id ?us)" by force
    with m(1) v(2) False show ?thesis by (auto simp: manager_wf_def clear_manager_def)
  qed
  have dyn: "no_static_dynamic (c\<lparr>c_users := ?us\<rparr>) (clear_manager tid n u)" if "u \<in> set (c_users c)" for u
    using D that by (auto simp: no_static_dynamic_def split: option.splits)
  have dis: "distinct (map user_id ?us)"
    using U(2) by (simp add: comp_def List.distinct_map_filter)
  have us: "list_all (user_wf ?tids) ?us" "list_all (manager_wf ?us) ?us"
    "list_all (no_static_dynamic (c\<lparr>c_users := ?us\<rparr>)) ?us"
    unfolding list_all_iff using U(1) mgr dyn by auto
  show ?thesis using w us dis by (simp add: static_wf_def)
qed

text \<open>The user list after a successful deletion: the others, their reports cleared, re-evaluated.\<close>

lemma delete_user_result:
  assumes w: "config_wf (st_cur s)" and tr: "usernames_trimmed (st_cur s)"
    and u: "u \<in> set (c_users (st_cur s))" "u_tid u = norm_tid tid" "u_username u = n"
  shows "\<exists>c'. delete_user sha1 tid n s = (None, s\<lparr>st_cur := c'\<rparr>) \<and>
    map no_dynamic (c_users c') = map (no_dynamic \<circ> clear_manager (norm_tid tid) n)
      (filter (\<lambda>v. \<not> (u_tid v = norm_tid tid \<and> u_username v = n)) (c_users (st_cur s))) \<and>
    c_tenants c' = c_tenants (st_cur s) \<and> c_apps c' = c_apps (st_cur s) \<and> c_consents c' = c_consents (st_cur s)"
proof -
  let ?c = "st_cur s"
  let ?c2 = "?c\<lparr>c_users := map (clear_manager (norm_tid tid) n)
      (filter (\<lambda>v. \<not> (u_tid v = norm_tid tid \<and> u_username v = n)) (c_users ?c))\<rparr>"
  have "guid_re (norm_tid tid)"
    using user_tid_guid[OF config_wf_static[OF w] u(1)] u(2) by simp
  then have "static_wf ?c2" by (rule delete_user_static[OF config_wf_static[OF w]])
  moreover have "usernames_trimmed ?c2" using tr by (auto simp: usernames_trimmed_def list_all_iff)
  ultimately have "normalize sha1 ?c2 = Inr (?c2\<lparr>c_users := map (reevaluate ?c2) (c_users ?c2)\<rparr>)"
    by (rule normalize_static_aux)
  moreover have "list_ex (\<lambda>v. u_tid v = norm_tid tid \<and> u_username v = n) (c_users ?c)"
    using u by (auto simp: list_ex_iff)
  ultimately have "delete_user sha1 tid n s = (None, s\<lparr>st_cur := ?c2\<lparr>c_users := map (reevaluate ?c2) (c_users ?c2)\<rparr>\<rparr>)"
    by (simp add: delete_user_def mutate_def Let_def)
  then show ?thesis by (intro exI[of _ "?c2\<lparr>c_users := map (reevaluate ?c2) (c_users ?c2)\<rparr>"]) simp
qed

section \<open>Deleting a tenant\<close>

definition tenant_removed :: "string \<Rightarrow> config \<Rightarrow> config" where
  "tenant_removed tid c = c\<lparr>c_tenants := filter (\<lambda>t. t_tid t \<noteq> tid) (c_tenants c),
     c_users := filter (\<lambda>u. u_tid u \<noteq> tid) (c_users c),
     c_consents := filter (\<lambda>x. cs_tid x \<noteq> tid) (c_consents c)\<rparr>"

lemma find_filter: "(\<And>x. P x \<Longrightarrow> Q x) \<Longrightarrow> find P (filter Q xs) = find P xs"
  by (induction xs) auto

lemma tenant_removed_static:
  assumes w: "static_wf c" and other: "\<exists>t\<in>set (c_tenants c). t_tid t \<noteq> tid"
    and pinned: "\<forall>a\<in>set (c_apps c). a_tid a \<noteq> tid"
  shows "static_wf (tenant_removed tid c)"
proof -
  let ?c = "tenant_removed tid c" and ?tids = "map t_tid (c_tenants c)"
  let ?us = "filter (\<lambda>u. u_tid u \<noteq> tid) (c_users c)"
  have parts: "\<forall>t\<in>set (c_tenants c). tenant_wf t" "distinct ?tids" "\<forall>a\<in>set (c_apps c). app_wf ?tids a"
    "\<forall>x\<in>set (c_consents c). consent_wf ?tids x" "\<forall>u\<in>set (c_users c). user_wf ?tids u"
    "distinct (map user_id (c_users c))" "\<forall>u\<in>set (c_users c). manager_wf (c_users c) u"
    "\<forall>u\<in>set (c_users c). no_static_dynamic c u"
    using w by (auto simp: static_wf_def list_all_iff)
  have G: "\<forall>t\<in>set ?tids. guid_re t" using parts(1) by (auto simp: tenant_wf_def)
  have lk: "tenant_by_id ?c (u_tid u) = tenant_by_id c (u_tid u)" if "u \<in> set ?us" for u
  proof -
    have "to_lower (u_tid u) = u_tid u" using that user_tid_guid[OF w] by simp
    with that show ?thesis unfolding tenant_by_id_def tenant_removed_def
      by simp (rule find_filter, auto)
  qed
  have mgr: "manager_wf ?us u" if "u \<in> set ?us" for u
  proof (cases "u_manager u = []")
    case False
    with that parts(7) obtain v where v: "v \<in> set (c_users c)" "user_key (u_tid u) (u_manager u) = user_id v"
      and ne: "u_manager u \<noteq> u_username u"
      by (auto simp: manager_wf_def)
    have "guid_re (u_tid u)" "guid_re (u_tid v)" using v(1) that user_tid_guid[OF w] by auto
    with v(2) have "u_tid u = u_tid v" by (simp add: user_id_def user_key_inj)
    with v that have "user_key (u_tid u) (u_manager u) \<in> set (map user_id ?us)" by auto
    with ne show ?thesis by (simp add: manager_wf_def)
  qed (simp add: manager_wf_def)
  have "list_all (app_wf (map t_tid (c_tenants ?c))) (c_apps ?c)"
    using parts(3) pinned unfolding list_all_iff by (fastforce simp: tenant_removed_def app_wf_def)
  moreover have "list_all (consent_wf (map t_tid (c_tenants ?c))) (c_consents ?c)"
    using parts(4) unfolding list_all_iff by (fastforce simp: tenant_removed_def consent_wf_def)
  moreover have "list_all (user_wf (map t_tid (c_tenants ?c))) (c_users ?c)"
    using parts(5) unfolding list_all_iff by (fastforce simp: tenant_removed_def user_wf_def)
  moreover have "list_all (manager_wf (c_users ?c)) (c_users ?c)"
    using mgr unfolding list_all_iff by (simp add: tenant_removed_def)
  moreover have "list_all (no_static_dynamic ?c) (c_users ?c)"
    using parts(8) lk unfolding list_all_iff by (auto simp: tenant_removed_def no_static_dynamic_def)
  moreover have "c_tenants ?c \<noteq> []" using other by (auto simp: tenant_removed_def filter_empty_conv)
  moreover have "list_all tenant_wf (c_tenants ?c)" "distinct (map t_tid (c_tenants ?c))"
    "distinct (map user_id (c_users ?c))"
    using parts by (auto simp: tenant_removed_def list_all_iff List.distinct_map_filter)
  ultimately show ?thesis using w by (simp add: static_wf_def tenant_removed_def)
qed

lemma map_err_first:
  assumes "list_all P xs \<or> True" "\<exists>x\<in>set xs. bad x"
    and "\<And>i x. x \<in> set xs \<Longrightarrow> bad x \<Longrightarrow> f () i x = Inl (err x)"
    and "\<And>i x. x \<in> set xs \<Longrightarrow> \<not> bad x \<Longrightarrow> f () i x = Inr ((), x)"
  shows "\<exists>x\<in>set xs. bad x \<and> map_err f () i xs = Inl (err x)"
  using assms(2-)
proof (induction xs arbitrary: i)
  case (Cons x xs)
  show ?case
  proof (cases "bad x")
    case True
    then show ?thesis using Cons.prems(2)[of x] by auto
  next
    case False
    have "\<exists>y\<in>set xs. bad y \<and> map_err f () (Suc i) xs = Inl (err y)"
      using Cons.prems False by (intro Cons.IH) auto
    then show ?thesis using Cons.prems(3)[of x i] False by auto
  qed
qed simp

lemma tenant_removed_pinned:
  assumes w: "static_wf c" and other: "\<exists>t\<in>set (c_tenants c). t_tid t \<noteq> tid"
    and pinned: "\<exists>a\<in>set (c_apps c). a_tid a = tid" and tid: "tid \<noteq> []"
  shows "\<exists>a\<in>set (c_apps c). a_tid a = tid \<and> normalize sha1 (tenant_removed tid c) = Inl (ErrAppTid (a_client_id a) tid)"
proof -
  let ?c = "tenant_removed tid c" and ?tids = "rev (map t_tid (c_tenants (tenant_removed tid c)))"
  have b: "base_path_re (c_base_path c)" "0 < c_default_group_limit c" "0 < c_token_expiry c" "c_tenants ?c \<noteq> []"
    using w other by (auto simp: static_wf_def tenant_removed_def filter_empty_conv)
  have keep: "c_base_path ?c = c_base_path c" "c_default_group_limit ?c = c_default_group_limit c"
    "c_token_expiry ?c = c_token_expiry c" "c_graph ?c = c_graph c" "c_apps ?c = c_apps c"
    by (simp_all add: tenant_removed_def)
  have bp: "trim_slash (c_base_path c) = c_base_path c" "c_base_path c \<noteq> []"
    using b(1) by (auto simp: base_path_re_def trim_slash_word)
  have T: "list_all tenant_wf (c_tenants ?c)" "distinct (map t_tid (c_tenants ?c))"
    using w by (auto simp: static_wf_def tenant_removed_def list_all_iff List.distinct_map_filter)
  have ts: "map_err (normalize_tenant (c_default_group_limit c)) [] 0 (c_tenants ?c) = Inr (?tids @ [], c_tenants ?c)"
    by (rule map_err_unique_fix[OF _ T]) (simp_all add: normalize_tenant_fix)
  from w obtain g where g: "c_graph c = Some g" "graph_wf (c_base_path c) (Some g)"
    by (auto simp: static_wf_def graph_wf_def split: option.splits)
  have gg: "normalize_graph (c_base_path c) (c_graph c) = Inr g"
    unfolding g(1) using g(2) by (rule normalize_graph_fix)
  have A: "app_wf (map t_tid (c_tenants c)) a" if "a \<in> set (c_apps c)" for a
    using that w by (auto simp: static_wf_def list_all_iff)
  have guids: "\<forall>t\<in>set (map t_tid (c_tenants c)). guid_re t"
    using w by (auto simp: static_wf_def list_all_iff tenant_wf_def)
  have "\<exists>a\<in>set (c_apps c). a_tid a = tid \<and> map_err (normalize_app ?tids) () 0 (c_apps c) = Inl (ErrAppTid (a_client_id a) tid)"
  proof (rule map_err_first)
    fix i a assume a: "a \<in> set (c_apps c)" "a_tid a = tid"
    then show "normalize_app ?tids () i a = Inl (ErrAppTid (a_client_id a) tid)"
      using A[OF a(1)] tid guids
      by (auto simp: normalize_app_def Let_def app_wf_def tenant_removed_def)
  next
    fix i a assume a: "a \<in> set (c_apps c)" "a_tid a \<noteq> tid"
    have "app_wf ?tids a" using A[OF a(1)] a(2) by (auto simp: app_wf_def tenant_removed_def)
    moreover have "\<forall>t\<in>set ?tids. guid_re t" using guids by (auto simp: tenant_removed_def)
    ultimately show "normalize_app ?tids () i a = Inr ((), a)" by (rule normalize_app_fix)
  qed (use pinned in auto)
  then show ?thesis
    using b bp ts gg by (auto simp: normalize_def Let_def keep)
qed

lemma tenant_removed_last:
  assumes w: "static_wf c" and last: "\<forall>t\<in>set (c_tenants c). t_tid t = tid"
  shows "normalize sha1 (tenant_removed tid c) = Inl ErrNoTenants"
proof -
  from w obtain g where g: "c_graph c = Some g" "graph_wf (c_base_path c) (Some g)"
    by (auto simp: static_wf_def graph_wf_def split: option.splits)
  have "normalize_graph (c_base_path c) (c_graph c) = Inr g"
    unfolding g(1) using g(2) by (rule normalize_graph_fix)
  moreover have "base_path_re (c_base_path c)" using w by (simp add: static_wf_def)
  moreover from this have "trim_slash (c_base_path c) = c_base_path c" "c_base_path c \<noteq> []"
    by (auto simp: base_path_re_def trim_slash_word)
  ultimately show ?thesis using last by (simp add: normalize_def Let_def tenant_removed_def)
qed

lemma user_refs_wf:
  assumes "static_wf c"
  shows "map (\<lambda>u. (u_tid u, u_username u)) (c_users c) = map user_ref (c_users c)"
    and "distinct (map user_ref (c_users c))"
proof -
  have e: "user_ref u = (u_tid u, u_username u)" if "u \<in> set (c_users c)" for u
    using user_tid_guid[OF assms that] by (simp add: user_ref_def norm_tid_def)
  then show m: "map (\<lambda>u. (u_tid u, u_username u)) (c_users c) = map user_ref (c_users c)" by simp
  have "distinct (map user_id (c_users c))" using assms by (simp add: static_wf_def)
  then have "distinct (map (\<lambda>(t, n). user_key t n) (map user_ref (c_users c)))"
    unfolding m[symmetric] by (simp add: user_id_def[abs_def] comp_def)
  then show "distinct (map user_ref (c_users c))" by (simp only: distinct_map[of "\<lambda>(t, n). user_key t n"])
qed

lemma delete_tenant_removed:
  "delete_tenant sha1 tid s =
    (if list_ex (\<lambda>t. t_tid t = norm_tid tid) (c_tenants (st_cur s))
     then mutate sha1 (\<lambda>c. Inr (tenant_removed (norm_tid tid) c)) s
     else (Some (ErrTenantNotFound (norm_tid tid)), s))"
  by (simp add: delete_tenant_def mutate_def tenant_removed_def Let_def)

section \<open>A snapshot that no edit can leave\<close>

text \<open>The manager of the second user is given by object ID; the first username starts with a space.\<close>

definition padded_config :: config where
  "padded_config = sample_config\<lparr>c_users :=
     [plain_user tid_b oid_bob '' bob'', (plain_user tid_b oid_alice ''alice'')\<lparr>u_manager := oid_bob\<rparr>]\<rparr>"

section \<open>Properties\<close>

text \<open>C8: store_snapshots_valid. Every snapshot the store can ever publish, after any sequence of
  resets, Graph switches and tenant and user edits from a configuration that passed validation
  at start-up, is well-formed; and an operation that returns an error publishes nothing.\<close>

theorem store_snapshots_valid:
  assumes "normalize sha1 c0 = Inr seed" and "store_reach sha1 seed s"
  shows "config_wf (snapshot s) \<and>
    (\<forall>op e s'. store_apply sha1 op s = (Some e, s') \<longrightarrow> s' = s)"
proof (intro conjI allI impI)
  show "config_wf (snapshot s)"
    unfolding snapshot_def by (rule store_reach_wf[OF entra_norm.sound[OF assms(1)] assms(2)])
  fix op e s' assume "store_apply sha1 op s = (Some e, s')"
  from store_apply_form[OF this] show "s' = s" by auto
qed

theorem store_snapshots_valid_witness:
  "config_wf (snapshot (snd (store_apply (\<lambda>_. []) (OpDeleteUser tid_a ''bob'') (new_store sample_seed))))"
proof -
  let ?r = "store_apply (\<lambda>_. []) (OpDeleteUser tid_a ''bob'') (new_store sample_seed)"
  have "store_reach (\<lambda>_. []) sample_seed (snd ?r)"
    by (rule reach_op[OF reach_new, of _ "OpDeleteUser tid_a ''bob''" _ "fst ?r"]) simp
  from store_snapshots_valid[OF sample_norm this] show ?thesis ..
qed

text \<open>C32: normalize_idempotent. Normalization establishes every validity condition of the
  configuration, and a normalized configuration whose usernames have no white space at their
  ends passes a second normalization unchanged.\<close>

theorem normalize_idempotent:
  assumes "normalize sha1 c = Inr c'"
  shows "config_wf c' \<and> (usernames_trimmed c \<longrightarrow> normalize sha1 c' = Inr c')"
  using entra_norm.sound[OF assms] entra_norm.renormalize[OF assms] by blast

theorem normalize_idempotent_witness:
  "config_wf sample_seed \<and> normalize (\<lambda>_. []) sample_seed = Inr sample_seed"
proof -
  have "usernames_trimmed sample_config" by code_simp
  then show ?thesis using normalize_idempotent[OF sample_norm] by blast
qed

text \<open>A configuration with a username that starts with a space and a
  manager given by object ID passes validation at start-up, but its snapshot does not pass it
  again: every later edit is rejected with "unknown manager", here the Graph switch.\<close>

lemma padded_username_blocks:
  "\<exists>c. normalize (\<lambda>_. []) padded_config = Inr c \<and>
     set_graph_enabled (\<lambda>_. []) False (new_store c) =
       (Some (ErrManagerUnknown ''alice'' ''bob'' tid_b), new_store c)"
proof -
  define c where "c = (case normalize (\<lambda>_. []) padded_config of Inr c \<Rightarrow> c | Inl _ \<Rightarrow> padded_config)"
  have ok: "is_ok (normalize (\<lambda>_. []) padded_config)" by code_simp
  have "(case normalize (\<lambda>_. []) padded_config of Inl _ \<Rightarrow> False | Inr c \<Rightarrow>
      fst (set_graph_enabled (\<lambda>_. []) False (new_store c)) = Some (ErrManagerUnknown ''alice'' ''bob'' tid_b))"
    by code_simp
  with ok have "normalize (\<lambda>_. []) padded_config = Inr c"
    "fst (set_graph_enabled (\<lambda>_. []) False (new_store c)) = Some (ErrManagerUnknown ''alice'' ''bob'' tid_b)"
    by (auto simp: c_def is_ok_def split: sum.splits)
  then show ?thesis by (auto simp: set_graph_enabled_def mutate_def split: sum.splits)
qed

text \<open>Deleting an existing user of a valid snapshot always succeeds:
  exactly that user disappears, the users it managed lose their manager and nothing else but
  their evaluated groups changes; tenants, applications and consents stay.\<close>

lemma delete_user_succeeds:
  assumes "config_wf (snapshot s)" and "usernames_trimmed (snapshot s)"
    and "user_by_name (snapshot s) (norm_tid tid) n = Some u"
  shows "\<exists>c'. delete_user sha1 tid n s = (None, s\<lparr>st_cur := c'\<rparr>) \<and>
    map no_dynamic (c_users c') = map (no_dynamic \<circ> clear_manager (norm_tid tid) n)
      (filter (\<lambda>v. \<not> (u_tid v = norm_tid tid \<and> u_username v = n)) (c_users (snapshot s))) \<and>
    c_tenants c' = c_tenants (snapshot s) \<and> c_apps c' = c_apps (snapshot s) \<and>
    c_consents c' = c_consents (snapshot s)"
proof -
  have "u \<in> set (c_users (st_cur s))" "u_tid u = norm_tid tid" "u_username u = n"
    using user_by_nameD[OF assms(3)] by (auto simp: snapshot_def norm_tid_def)
  with assms(1,2) show ?thesis unfolding snapshot_def by (intro delete_user_result) simp_all
qed

text \<open>C37: delete_tenant_outcome. Deleting an existing tenant of a valid snapshot removes it with
  its users and consents, except in two cases, which leave the snapshot as it was: the last
  tenant, and a tenant an application is pinned to.\<close>

theorem delete_tenant_outcome:
  assumes "config_wf (snapshot s)" and "usernames_trimmed (snapshot s)"
    and "norm_tid tid \<in> set (map t_tid (c_tenants (snapshot s)))"
  shows "if \<forall>t\<in>set (c_tenants (snapshot s)). t_tid t = norm_tid tid
         then delete_tenant sha1 tid s = (Some ErrNoTenants, s)
         else if \<exists>a\<in>set (c_apps (snapshot s)). a_tid a = norm_tid tid
         then \<exists>cid. delete_tenant sha1 tid s = (Some (ErrAppTid cid (norm_tid tid)), s)
         else \<exists>c'. delete_tenant sha1 tid s = (None, s\<lparr>st_cur := c'\<rparr>) \<and>
                c_tenants c' = filter (\<lambda>t. t_tid t \<noteq> norm_tid tid) (c_tenants (snapshot s)) \<and>
                map no_dynamic (c_users c') =
                  map no_dynamic (filter (\<lambda>u. u_tid u \<noteq> norm_tid tid) (c_users (snapshot s))) \<and>
                c_consents c' = filter (\<lambda>x. cs_tid x \<noteq> norm_tid tid) (c_consents (snapshot s))"
proof -
  let ?c = "st_cur s" and ?tid = "norm_tid tid"
  have w: "static_wf ?c" using assms(1) by (simp add: snapshot_def config_wf_static)
  have tr: "usernames_trimmed (tenant_removed ?tid ?c)"
    using assms(2) by (auto simp: usernames_trimmed_def list_all_iff tenant_removed_def snapshot_def)
  have del: "delete_tenant sha1 tid s = mutate sha1 (\<lambda>c. Inr (tenant_removed ?tid c)) s"
    using assms(3) by (auto simp: delete_tenant_removed list_ex_iff snapshot_def)
  consider (last) "\<forall>t\<in>set (c_tenants ?c). t_tid t = ?tid"
    | (pinned) "\<exists>t\<in>set (c_tenants ?c). t_tid t \<noteq> ?tid" "\<exists>a\<in>set (c_apps ?c). a_tid a = ?tid"
    | (free) "\<exists>t\<in>set (c_tenants ?c). t_tid t \<noteq> ?tid" "\<forall>a\<in>set (c_apps ?c). a_tid a \<noteq> ?tid" by blast
  then show ?thesis
  proof cases
    case last
    then show ?thesis using tenant_removed_last[OF w last] by (simp add: del mutate_def snapshot_def)
  next
    case pinned
    have "?tid \<noteq> []" using assms(3) w by (auto simp: snapshot_def static_wf_def list_all_iff tenant_wf_def)
    then show ?thesis using tenant_removed_pinned[OF w pinned, of sha1] pinned
      by (auto simp: del mutate_def snapshot_def)
  next
    case free
    note r = normalize_static_aux[OF tenant_removed_static[OF w free] tr, of sha1]
    show ?thesis using free r by (auto simp: del mutate_def snapshot_def tenant_removed_def)
  qed
qed

theorem delete_tenant_outcome_witness:
  "\<exists>c'. delete_tenant (\<lambda>_. []) tid_b (new_store sample_seed) = (None, (new_store sample_seed)\<lparr>st_cur := c'\<rparr>)"
proof -
  have e: "norm_tid tid_b \<in> set (map t_tid (c_tenants sample_seed))"
    "\<not> (\<forall>t\<in>set (c_tenants sample_seed). t_tid t = norm_tid tid_b)"
    "\<not> (\<exists>a\<in>set (c_apps sample_seed). a_tid a = norm_tid tid_b)"
    by code_simp+
  have s: "snapshot (new_store sample_seed) = sample_seed" by (simp add: snapshot_def new_store_def)
  show ?thesis
    using delete_tenant_outcome[of "new_store sample_seed" tid_b "\<lambda>_. []", unfolded s, OF sample_wf sample_trimmed e(1)]
    unfolding if_not_P[OF e(2)] if_not_P[OF e(3)] by blast
qed

text \<open>A created user can be looked up by its normalized tenant and its
  name, all users that were there keep their place, and a user that exists already is rejected.\<close>

lemma create_user_outcome:
  assumes "config_wf (snapshot s)" and "create_user sha1 u s = (None, s')"
  shows "map user_ref (c_users (snapshot s')) = map user_ref (c_users (snapshot s)) @ [user_ref u] \<and>
    user_ref u \<notin> set (map user_ref (c_users (snapshot s))) \<and>
    (\<exists>v. user_by_name (snapshot s') (norm_tid (u_tid u)) (u_username u) = Some v)"
proof -
  let ?c1 = "(st_cur s)\<lparr>c_users := c_users (st_cur s) @ [u]\<rparr>"
  from assms(2) obtain c' where n: "normalize sha1 ?c1 = Inr c'" and s': "s' = s\<lparr>st_cur := c'\<rparr>"
    by (auto simp: create_user_def mutate_def split: sum.splits)
  have w: "config_wf c'" by (rule entra_norm.sound[OF n])
  note refs = user_refs_wf[OF config_wf_static[OF w]]
  have m: "map user_ref (c_users c') = map user_ref (c_users (st_cur s)) @ [user_ref u]"
    using normalize_keeps(1)[OF n] refs(1) by simp
  moreover have "user_ref u \<notin> set (map user_ref (c_users (st_cur s)))"
    using refs(2) unfolding m by simp
  moreover have "\<exists>v. user_by_name c' (norm_tid (u_tid u)) (u_username u) = Some v"
  proof -
    have "user_ref u \<in> set (map (\<lambda>u. (u_tid u, u_username u)) (c_users c'))"
      using m refs(1) by simp
    then obtain v where "v \<in> set (c_users c')" "u_tid v = norm_tid (u_tid u)" "u_username v = u_username u"
      by (auto simp: user_ref_def)
    then show ?thesis
      by (cases "user_by_name c' (norm_tid (u_tid u)) (u_username u)")
        (auto simp: user_by_name_def norm_tid_def find_None_iff_ball)
  qed
  ultimately show ?thesis by (simp add: s' snapshot_def)
qed

end
