(* ===== verification/Entra_Rule_Laws.thy ===== *)
theory Entra_Rule_Laws
  imports Entra_Rule
begin

text \<open>
  What makes the membership-rule language correct: the parser terminates on every token list
  within its fuel, it inverts the printer of compiled rules (tokens and text), what it
  builds is well formed, and every negated operator is the complement of its positive one.
\<close>

section \<open>The parser returns on every input\<close>

definition consumes :: "rule_tok list \<Rightarrow> rule_error + ('a \<times> rule_tok list) \<Rightarrow> bool" where
  "consumes ts res \<longleftrightarrow> res \<noteq> Inl RuleOutOfFuel \<and>
     (\<forall>r ts'. res = Inr (r, ts') \<longrightarrow> length ts' < length ts)"

definition shrinks :: "rule_tok list \<Rightarrow> rule_error + ('a \<times> rule_tok list) \<Rightarrow> bool" where
  "shrinks ts res \<longleftrightarrow> res \<noteq> Inl RuleOutOfFuel \<and>
     (\<forall>r ts'. res = Inr (r, ts') \<longrightarrow> length ts' \<le> length ts)"

lemma rule_keyword_length: "rule_keyword w ts = Some ts' \<Longrightarrow> length ts = Suc (length ts')"
  by (auto simp: rule_keyword_def split: list.splits prod.splits rule_tok_kind.splits if_splits)

lemma rule_punct_length: "rule_punct w ts = Some ts' \<Longrightarrow> length ts = Suc (length ts')"
  by (auto simp: rule_punct_def split: list.splits prod.splits rule_tok_kind.splits if_splits)

lemma rule_array_items_consumes: "consumes ts (rule_array_items op out ts)"
proof (induction op out ts rule: rule_array_items.induct)
  case (1 op out v ts)
  show ?case
  proof (cases "rule_punct '']'' ts")
    case (Some r)
    then show ?thesis by (simp add: consumes_def rule_punct_length)
  next
    case None
    with 1 show ?thesis
      by (fastforce simp: consumes_def split: list.splits prod.splits rule_tok_kind.splits)
  qed
qed (simp_all add: consumes_def)

lemma rule_array_consumes: "consumes ts (rule_array op ts)"
proof (cases "rule_punct ''['' ts")
  case (Some r)
  then show ?thesis
    using rule_array_items_consumes[of r op "[]"] rule_punct_length[OF Some]
    by (auto simp: rule_array_def consumes_def)
qed (simp add: rule_array_def consumes_def)

lemma rule_value_consumes: "consumes ts (rule_value name op op_text ts)"
  by (auto simp: rule_value_def consumes_def split: list.splits)

lemma consumes_trans:
  "consumes ts' res \<Longrightarrow> length ts' \<le> length ts \<Longrightarrow> consumes ts res"
  by (force simp: consumes_def)

lemma consumes_ebind_array:
  "consumes ts m \<Longrightarrow> consumes ts (ebind m (\<lambda>(vs, r). Inr (f vs, r)))"
  by (cases m) (auto simp: consumes_def)

lemma rule_comparison_consumes: "consumes ts (rule_comparison ts)"
proof -
  have v: "consumes (a # b # r) (rule_value n op t r)" for a b r n op t
    by (rule consumes_trans[OF rule_value_consumes]) simp
  have ar: "consumes (a # b # r) (ebind (rule_array t r) (\<lambda>(vs, r). Inr (StringCompare n op None vs, r)))"
    for a b r n op t
    by (rule consumes_trans[OF consumes_ebind_array[OF rule_array_consumes]]) simp
  have inl: "consumes ts (Inl e)" if "e \<noteq> RuleOutOfFuel" for ts e
    using that by (simp add: consumes_def)
  have b: "consumes (a # b # c # r) (Inr (q, r))" for a b c r and q :: rule
    by (simp add: consumes_def)
  show ?thesis
    unfolding rule_comparison_def
    by (simp add: inl v ar b Let_def split: list.split prod.split rule_tok_kind.split option.split)
qed

lemma rule_parser_total:
  "(\<forall>ts. 3 * length ts + 3 \<le> n \<longrightarrow> consumes ts (rule_or n ts)) \<and>
   (\<forall>out ts. 3 * length ts + 1 \<le> n \<longrightarrow> shrinks ts (rule_or_rest n out ts)) \<and>
   (\<forall>ts. 3 * length ts + 2 \<le> n \<longrightarrow> consumes ts (rule_and n ts)) \<and>
   (\<forall>out ts. 3 * length ts + 1 \<le> n \<longrightarrow> shrinks ts (rule_and_rest n out ts)) \<and>
   (\<forall>ts. 3 * length ts + 1 \<le> n \<longrightarrow> consumes ts (rule_unary n ts))"
proof (induction n)
  case 0
  show ?case by simp
next
  case (Suc n)
  then have OR: "3 * length ts + 3 \<le> n \<Longrightarrow> consumes ts (rule_or n ts)"
    and ORR: "3 * length ts + 1 \<le> n \<Longrightarrow> shrinks ts (rule_or_rest n out ts)"
    and AND: "3 * length ts + 2 \<le> n \<Longrightarrow> consumes ts (rule_and n ts)"
    and ANDR: "3 * length ts + 1 \<le> n \<Longrightarrow> shrinks ts (rule_and_rest n out ts)"
    and UN: "3 * length ts + 1 \<le> n \<Longrightarrow> consumes ts (rule_unary n ts)" for ts out
    by blast+
  have or: "consumes ts (rule_or (Suc n) ts)" if "3 * length ts + 3 \<le> Suc n" for ts
  proof (cases "rule_and n ts")
    case (Inl e)
    then show ?thesis using AND[of ts] that by (simp add: consumes_def)
  next
    case (Inr p)
    obtain r ts' where p: "p = (r, ts')" by (cases p)
    have "length ts' < length ts" using AND[of ts] that Inr p by (simp add: consumes_def)
    then show ?thesis using ORR[of ts' "[r]"] that Inr p by (force simp: consumes_def shrinks_def)
  qed
  have and_: "consumes ts (rule_and (Suc n) ts)" if "3 * length ts + 2 \<le> Suc n" for ts
  proof (cases "rule_unary n ts")
    case (Inl e)
    then show ?thesis using UN[of ts] that by (simp add: consumes_def)
  next
    case (Inr p)
    obtain r ts' where p: "p = (r, ts')" by (cases p)
    have "length ts' < length ts" using UN[of ts] that Inr p by (simp add: consumes_def)
    then show ?thesis using ANDR[of ts' "[r]"] that Inr p by (force simp: consumes_def shrinks_def)
  qed
  have orr: "shrinks ts (rule_or_rest (Suc n) out ts)" if "3 * length ts + 1 \<le> Suc n" for out ts
  proof (cases "rule_keyword ''-or'' ts")
    case (Some ts1)
    note l = rule_keyword_length[OF Some]
    show ?thesis
    proof (cases "rule_and n ts1")
      case (Inl e)
      then show ?thesis using AND[of ts1] that l Some by (simp add: consumes_def shrinks_def)
    next
      case (Inr p)
      obtain r ts2 where p: "p = (r, ts2)" by (cases p)
      have "length ts2 < length ts1" using AND[of ts1] that Inr p l by (simp add: consumes_def)
      then show ?thesis using ORR[of ts2 "out @ [r]"] that Inr p l Some by (force simp: shrinks_def)
    qed
  qed (simp add: shrinks_def)
  have andr: "shrinks ts (rule_and_rest (Suc n) out ts)" if "3 * length ts + 1 \<le> Suc n" for out ts
  proof (cases "rule_keyword ''-and'' ts")
    case (Some ts1)
    note l = rule_keyword_length[OF Some]
    show ?thesis
    proof (cases "rule_unary n ts1")
      case (Inl e)
      then show ?thesis using UN[of ts1] that l Some by (simp add: consumes_def shrinks_def)
    next
      case (Inr p)
      obtain r ts2 where p: "p = (r, ts2)" by (cases p)
      have "length ts2 < length ts1" using UN[of ts1] that Inr p l by (simp add: consumes_def)
      then show ?thesis using ANDR[of ts2 "out @ [r]"] that Inr p l Some by (force simp: shrinks_def)
    qed
  qed (simp add: shrinks_def)
  have un: "consumes ts (rule_unary (Suc n) ts)" if "3 * length ts + 1 \<le> Suc n" for ts
  proof (cases "rule_keyword ''-not'' ts")
    case (Some ts1)
    note l = rule_keyword_length[OF Some]
    show ?thesis using UN[of ts1] that l Some
      by (cases "rule_unary n ts1") (force simp: consumes_def)+
  next
    case None
    show ?thesis
    proof (cases "rule_punct ''('' ts")
      case (Some ts1)
      note l = rule_punct_length[OF Some]
      then show ?thesis using OR[of ts1] that l Some None
        by (cases "rule_or n ts1") (fastforce simp: consumes_def dest: rule_punct_length split: option.splits)+
    qed (use None rule_comparison_consumes[of ts] in simp)
  qed
  show ?case using or orr and_ andr un by blast
qed

lemma rule_or_total: "rule_or (rule_parse_fuel ts) ts \<noteq> Inl RuleOutOfFuel"
  using rule_parser_total[of "rule_parse_fuel ts"] by (simp add: rule_parse_fuel_def consumes_def)

lemma lex_rule_no_fuel: "lex_rule s \<noteq> Inl RuleOutOfFuel"
  by (induction s rule: lex_rule.induct) (auto simp: err_simps split: option.splits)

section \<open>Printing and parsing back\<close>

definition rule_leaf_wf :: "string \<Rightarrow> string \<Rightarrow> string option \<Rightarrow> string list \<Rightarrow> bool" where
  "rule_leaf_wf a op v vs \<longleftrightarrow> a \<in> set (map fst user_attrs) \<and> op \<in> set rule_ops \<and>
     (if op = ''in'' \<or> op = ''notin'' then v = None \<and> vs \<noteq> [] \<and> list_all (\<lambda>x. to_lower x = x) vs
      else vs = [] \<and> (v = None \<longrightarrow> op = ''eq'' \<or> op = ''ne''))"

fun rule_wf :: "rule \<Rightarrow> bool" where
  "rule_wf (OrRule rs) \<longleftrightarrow> 2 \<le> length rs \<and> list_all rule_wf rs"
| "rule_wf (AndRule rs) \<longleftrightarrow> 2 \<le> length rs \<and> list_all rule_wf rs"
| "rule_wf (NotRule r) \<longleftrightarrow> rule_wf r"
| "rule_wf (DirectReportsRule oid) \<longleftrightarrow> False"
| "rule_wf (StringCompare a op v vs) \<longleftrightarrow> rule_leaf_wf a op v vs"
| "rule_wf (BoolCompare eq b) \<longleftrightarrow> True"

fun sep_by :: "'a list \<Rightarrow> 'a list list \<Rightarrow> 'a list" where
  "sep_by s [] = []"
| "sep_by s (x # xs) = x @ concat (map (\<lambda>y. s @ y) xs)"

definition tok_value :: "string option \<Rightarrow> rule_tok list" where
  "tok_value v = (case v of None \<Rightarrow> [(TokWord, ''null'')] | Some s \<Rightarrow> [(TokString, s)])"

definition tok_leaf :: "string \<Rightarrow> string \<Rightarrow> string option \<Rightarrow> string list \<Rightarrow> rule_tok list" where
  "tok_leaf a op v vs =
     [(TokWord, ''user.'' @ a), (TokWord, ''-'' @ op)] @
     (if op = ''in'' \<or> op = ''notin''
      then [(TokPunct, ''['')] @ sep_by [(TokPunct, '','')] (map (\<lambda>x. [(TokString, x)]) vs) @ [(TokPunct, '']'')]
      else tok_value v)"

definition tok_paren :: "bool \<Rightarrow> rule_tok list \<Rightarrow> rule_tok list" where
  "tok_paren b ts = (if b then [(TokPunct, ''('')] @ ts @ [(TokPunct, '')'')] else ts)"

text \<open>Level 0 is the position of \<open>or\<close>, 1 of \<open>and\<close>, 2 of \<open>unary\<close>.\<close>

fun rule_toks :: "nat \<Rightarrow> rule \<Rightarrow> rule_tok list" where
  "rule_toks l (OrRule rs) = tok_paren (0 < l) (sep_by [(TokWord, ''-or'')] (map (rule_toks 1) rs))"
| "rule_toks l (AndRule rs) = tok_paren (1 < l) (sep_by [(TokWord, ''-and'')] (map (rule_toks 2) rs))"
| "rule_toks l (NotRule r) = (TokWord, ''-not'') # rule_toks 2 r"
| "rule_toks l (DirectReportsRule oid) = []"
| "rule_toks l (StringCompare a op v vs) = tok_leaf a op v vs"
| "rule_toks l (BoolCompare eq b) =
     [(TokWord, ''user.accountenabled''), (TokWord, if eq then ''-eq'' else ''-ne''),
      (TokWord, if b then ''true'' else ''false'')]"

definition starts_kw :: "string \<Rightarrow> rule_tok list \<Rightarrow> bool" where
  "starts_kw w ts \<longleftrightarrow> rule_keyword w ts \<noteq> None"

lemma attr_names: "a \<in> set (map fst user_attrs) \<Longrightarrow>
    to_lower (''user.'' @ a) = ''user.'' @ a \<and> map_of user_attrs a \<noteq> None \<and> a \<noteq> ''accountenabled''"
proof -
  have "\<forall>a\<in>set (map fst user_attrs).
      to_lower (''user.'' @ a) = ''user.'' @ a \<and> map_of user_attrs a \<noteq> None \<and> a \<noteq> ''accountenabled''"
    by (simp add: user_attrs_def to_lower_def)
  then show "a \<in> set (map fst user_attrs) \<Longrightarrow>
    to_lower (''user.'' @ a) = ''user.'' @ a \<and> map_of user_attrs a \<noteq> None \<and> a \<noteq> ''accountenabled''" ..
qed

lemma op_names: "op \<in> set rule_ops \<Longrightarrow> to_lower op = op"
proof -
  have "\<forall>op\<in>set rule_ops. to_lower op = op" by (simp add: rule_ops_def to_lower_def)
  then show "op \<in> set rule_ops \<Longrightarrow> to_lower op = op" ..
qed

lemma rule_array_items_print:
  "vs \<noteq> [] \<Longrightarrow> list_all (\<lambda>x. to_lower x = x) vs \<Longrightarrow>
   rule_array_items op out (sep_by [(TokPunct, '','')] (map (\<lambda>x. [(TokString, x)]) vs) @ (TokPunct, '']'') # rest)
     = Inr (out @ vs, rest)"
proof (induction vs arbitrary: out)
  case (Cons v vs)
  show ?case
  proof (cases vs)
    case Nil
    with Cons.prems show ?thesis by (simp add: rule_punct_def)
  next
    case (Cons w ws)
    with Cons.IH[of "out @ [v]"] Cons.prems show ?thesis by (simp add: rule_punct_def)
  qed
qed simp

lemma rule_comparison_leaf:
  assumes "rule_leaf_wf a op v vs"
  shows "rule_comparison (tok_leaf a op v vs @ rest) = Inr (StringCompare a op v vs, rest)"
proof -
  from assms have a: "to_lower (''user.'' @ a) = ''user.'' @ a" "map_of user_attrs a \<noteq> None" "a \<noteq> ''accountenabled''"
    and o: "op \<in> set rule_ops" "to_lower op = op"
    using attr_names op_names by (auto simp: rule_leaf_wf_def)
  have o1: "trim_prefix (''-'' @ op) ''-'' = op" "has_prefix (''-'' @ op) ''-''"
    by (simp_all only: trim_prefix_def cut_prefix_append option.case has_prefix_append)
  have c: "cut_prefix (''user.'' @ a) ''user.'' = Some a" by (rule cut_prefix_append)
  show ?thesis
  proof (cases "op = ''in'' \<or> op = ''notin''")
    case True
    with assms have "vs \<noteq> []" "list_all (\<lambda>x. to_lower x = x) vs" "v = None"
      by (auto simp: rule_leaf_wf_def)
    then show ?thesis using True a o o1 c
      by (simp add: rule_comparison_def tok_leaf_def Let_def rule_array_def rule_punct_def
          rule_array_items_print)
  next
    case False
    with assms have "vs = []" "v = None \<longrightarrow> op = ''eq'' \<or> op = ''ne''"
      by (auto simp: rule_leaf_wf_def)
    then show ?thesis using False a o o1 c
      by (cases v) (auto simp: rule_comparison_def tok_leaf_def Let_def rule_value_def tok_value_def)
  qed
qed

lemma append_single_fun [simp]: "(@) [a] = (#) a"
  by (simp add: fun_eq_iff)

lemma keyword_simps [simp]:
  "rule_keyword w ((TokPunct, x) # ts) = None"
  "rule_keyword w ((TokString, x) # ts) = None"
  "rule_keyword w [] = None"
  "rule_keyword w ((TokWord, x) # ts) = (if equal_fold x w then Some ts else None)"
  by (simp_all add: rule_keyword_def)

lemma punct_simps [simp]:
  "rule_punct w ((TokPunct, x) # ts) = (if x = w then Some ts else None)"
  "rule_punct w ((TokString, x) # ts) = None"
  "rule_punct w ((TokWord, x) # ts) = None"
  "rule_punct w [] = None"
  by (simp_all add: rule_punct_def)

lemma kw_distinct [simp]:
  "\<not> equal_fold ''-and'' ''-or''" "\<not> equal_fold ''-or'' ''-and''" "\<not> equal_fold ''-not'' ''-or''"
  by (simp_all add: equal_fold_def to_lower_def)

lemma user_not_kw: "\<not> equal_fold (CHR ''u'' # s) (CHR ''-'' # w)"
  by (simp add: equal_fold_def to_lower_def)

lemma rule_unary_leaf:
  assumes "rule_leaf_wf a op v vs"
  shows "rule_unary (Suc n) (tok_leaf a op v vs @ rest) = Inr (StringCompare a op v vs, rest)"
  using rule_comparison_leaf[OF assms, of rest]
  by (simp add: tok_leaf_def user_not_kw)

lemma rule_unary_bool:
  "rule_unary (Suc n) (rule_toks l (BoolCompare eq b) @ rest) = Inr (BoolCompare eq b, rest)"
proof -
  have "map_of user_attrs ''accountenabled'' = None" by (simp add: user_attrs_def)
  moreover have "cut_prefix ''user.accountenabled'' ''user.'' = Some ''accountenabled''"
    by (simp add: cut_prefix_def)
  ultimately show ?thesis
    by (cases eq; cases b)
      (simp_all add: user_not_kw rule_comparison_def Let_def to_lower_def trim_prefix_def cut_prefix_def
        rule_ops_def equal_fold_def)
qed

text \<open>
  The printed rule at each level is read back by the routine of that level, whatever
  follows, as long as what follows does not continue the same operator list.
\<close>

definition reads_back :: "rule \<Rightarrow> bool" where
  "reads_back r \<longleftrightarrow>
     (\<forall>n rest. 3 * length (rule_toks 2 r) + 1 \<le> n \<longrightarrow>
        rule_unary n (rule_toks 2 r @ rest) = Inr (r, rest)) \<and>
     (\<forall>n rest. 3 * length (rule_toks 1 r) + 2 \<le> n \<longrightarrow> \<not> starts_kw ''-and'' rest \<longrightarrow>
        rule_and n (rule_toks 1 r @ rest) = Inr (r, rest)) \<and>
     (\<forall>n rest. 3 * length (rule_toks 0 r) + 3 \<le> n \<longrightarrow> \<not> starts_kw ''-and'' rest \<longrightarrow> \<not> starts_kw ''-or'' rest \<longrightarrow>
        rule_or n (rule_toks 0 r @ rest) = Inr (r, rest))"

lemma and_from_unary:
  assumes u: "\<And>n rest. 3 * L + 1 \<le> n \<Longrightarrow> rule_unary n (ts @ rest) = Inr (r, rest)"
    and n: "3 * L + 2 \<le> n" and l: "0 < L" and k: "\<not> starts_kw ''-and'' rest"
  shows "rule_and n (ts @ rest) = Inr (r, rest)"
proof -
  define m where "m = n - 2"
  with n l have m: "n = Suc (Suc m)" by linarith
  with n have "rule_unary (Suc m) (ts @ rest) = Inr (r, rest)" by (intro u) simp
  then show ?thesis using k m by (simp add: starts_kw_def)
qed

lemma or_from_and:
  assumes u: "\<And>n rest. 3 * L + 2 \<le> n \<Longrightarrow> \<not> starts_kw ''-and'' rest \<Longrightarrow> rule_and n (ts @ rest) = Inr (r, rest)"
    and n: "3 * L + 3 \<le> n" and k: "\<not> starts_kw ''-and'' rest" "\<not> starts_kw ''-or'' rest"
  shows "rule_or n (ts @ rest) = Inr (r, rest)"
proof -
  define m where "m = n - 2"
  with n have m: "n = Suc (Suc m)" by linarith
  with n k have "rule_and (Suc m) (ts @ rest) = Inr (r, rest)" by (intro u) simp_all
  then show ?thesis using k m by (simp add: starts_kw_def)
qed

lemma and_rest_print:
  assumes "\<forall>r\<in>set rs. \<forall>n rest. 3 * length (rule_toks 2 r) + 1 \<le> n \<longrightarrow>
        rule_unary n (rule_toks 2 r @ rest) = Inr (r, rest)"
    and "out \<noteq> []" and "2 \<le> length (out @ rs)" and "\<not> starts_kw ''-and'' rest"
    and "3 * length (concat (map (\<lambda>y. (TokWord, ''-and'') # y) (map (rule_toks 2) rs))) + 1 \<le> n"
  shows "rule_and_rest n out (concat (map (\<lambda>y. (TokWord, ''-and'') # y) (map (rule_toks 2) rs)) @ rest)
           = Inr (AndRule (out @ rs), rest)"
  using assms
proof (induction rs arbitrary: out n)
  case Nil
  then obtain m where "n = Suc m" by (cases n) auto
  with Nil show ?case by (simp add: starts_kw_def)
next
  case (Cons r rs)
  then obtain m where m: "n = Suc m" by (cases n) auto
  from Cons.prems(1,5) m have "rule_unary m (rule_toks 2 r @ t) = Inr (r, t)" for t by simp
  moreover have "rule_and_rest m (out @ [r]) (concat (map (\<lambda>y. (TokWord, ''-and'') # y) (map (rule_toks 2) rs)) @ rest)
      = Inr (AndRule ((out @ [r]) @ rs), rest)"
    using Cons.prems m by (intro Cons.IH) auto
  ultimately show ?case using m by simp
qed

lemma or_rest_print:
  assumes "\<forall>r\<in>set rs. \<forall>n rest. 3 * length (rule_toks 1 r) + 2 \<le> n \<longrightarrow> \<not> starts_kw ''-and'' rest \<longrightarrow>
        rule_and n (rule_toks 1 r @ rest) = Inr (r, rest)"
    and "out \<noteq> []" and "2 \<le> length (out @ rs)" and "\<not> starts_kw ''-or'' rest" and "\<not> starts_kw ''-and'' rest"
    and "3 * length (concat (map (\<lambda>y. (TokWord, ''-or'') # y) (map (rule_toks 1) rs))) + 1 \<le> n"
  shows "rule_or_rest n out (concat (map (\<lambda>y. (TokWord, ''-or'') # y) (map (rule_toks 1) rs)) @ rest)
           = Inr (OrRule (out @ rs), rest)"
  using assms
proof (induction rs arbitrary: out n)
  case Nil
  then obtain m where "n = Suc m" by (cases n) auto
  with Nil show ?case by (simp add: starts_kw_def)
next
  case (Cons r rs)
  then obtain m where m: "n = Suc m" by (cases n) auto
  let ?t = "concat (map (\<lambda>y. (TokWord, ''-or'') # y) (map (rule_toks 1) rs)) @ rest"
  have "\<not> starts_kw ''-and'' ?t" using Cons.prems(5) by (cases rs) (simp_all add: starts_kw_def)
  with Cons.prems(1,6) m have "rule_and m (rule_toks 1 r @ ?t) = Inr (r, ?t)" by simp
  moreover have "rule_or_rest m (out @ [r]) ?t = Inr (OrRule ((out @ [r]) @ rs), rest)"
    using Cons.prems m by (intro Cons.IH) auto
  ultimately show ?case using m by simp
qed


lemma rule_toks_nonempty: "rule_wf r \<Longrightarrow> rule_toks l r \<noteq> []"
proof (induction r arbitrary: l)
  case (OrRule rs)
  then show ?case by (cases rs) (auto simp: tok_paren_def)
next
  case (AndRule rs)
  then show ?case by (cases rs) (auto simp: tok_paren_def)
qed (auto simp: tok_leaf_def)

lemma reads_back_unary:
  assumes t: "\<And>l. rule_toks l r = ts" and "ts \<noteq> []"
    and u: "\<And>n rest. 3 * length ts + 1 \<le> n \<Longrightarrow> rule_unary n (ts @ rest) = Inr (r, rest)"
  shows "reads_back r"
proof -
  have l: "0 < length ts" using assms(2) by simp
  have a: "rule_and n (ts @ rest) = Inr (r, rest)" if "3 * length ts + 2 \<le> n" "\<not> starts_kw ''-and'' rest" for n rest
    using and_from_unary[OF u that(1) l that(2)] by simp
  have o: "rule_or n (ts @ rest) = Inr (r, rest)"
    if "3 * length ts + 3 \<le> n" "\<not> starts_kw ''-and'' rest" "\<not> starts_kw ''-or'' rest" for n rest
    using or_from_and[OF a that] by simp
  show ?thesis unfolding reads_back_def t using u a o by blast
qed

lemma reads_back_leaf:
  assumes "\<And>l. rule_toks l r = ts" and "ts \<noteq> []"
    and u: "\<And>n rest. rule_unary (Suc n) (ts @ rest) = Inr (r, rest)"
  shows "reads_back r"
proof (rule reads_back_unary[OF assms(1,2)])
  show "rule_unary n (ts @ rest) = Inr (r, rest)" if "3 * length ts + 1 \<le> n" for n rest
    using u[of "n - 1" rest] that by (cases n) auto
qed

lemma unary_paren:
  assumes o: "\<And>n rest. 3 * length ts + 3 \<le> n \<Longrightarrow> \<not> starts_kw ''-and'' rest \<Longrightarrow> \<not> starts_kw ''-or'' rest \<Longrightarrow>
      rule_or n (ts @ rest) = Inr (r, rest)"
    and n: "3 * length (tok_paren True ts) + 1 \<le> n"
  shows "rule_unary n (tok_paren True ts @ rest) = Inr (r, rest)"
proof -
  define m where "m = n - 1"
  with n have m: "n = Suc m" "3 * length ts + 3 \<le> m" by (auto simp: tok_paren_def)
  have "rule_or m (ts @ (TokPunct, '')'') # rest) = Inr (r, (TokPunct, '')'') # rest)"
    using m(2) by (intro o) (simp_all add: starts_kw_def)
  then show ?thesis using m(1) by (simp add: tok_paren_def)
qed

lemma reads_back_or:
  assumes IH: "\<forall>r\<in>set rs. reads_back r" and len: "2 \<le> length rs"
  shows "reads_back (OrRule rs)"
proof -
  from len obtain r rs' where rs: "rs = r # rs'" "rs' \<noteq> []"
    by (cases rs rule: remdups_adj.cases) auto
  let ?ts = "sep_by [(TokWord, ''-or'')] (map (rule_toks 1) rs)"
  have and1: "\<forall>r\<in>set rs. \<forall>n rest. 3 * length (rule_toks 1 r) + 2 \<le> n \<longrightarrow> \<not> starts_kw ''-and'' rest \<longrightarrow>
        rule_and n (rule_toks 1 r @ rest) = Inr (r, rest)"
    using IH unfolding reads_back_def by blast
  have o: "rule_or n (?ts @ rest) = Inr (OrRule rs, rest)"
    if n: "3 * length ?ts + 3 \<le> n" and k: "\<not> starts_kw ''-and'' rest" "\<not> starts_kw ''-or'' rest" for n rest
  proof -
    define m where "m = n - 1"
    with n have m: "n = Suc m" by linarith
    let ?t = "concat (map (\<lambda>y. (TokWord, ''-or'') # y) (map (rule_toks 1) rs')) @ rest"
    have "\<not> starts_kw ''-and'' ?t" using rs(2) by (cases rs') (simp_all add: starts_kw_def)
    moreover have "3 * length (rule_toks 1 r) + 2 \<le> m" using n m rs by simp
    ultimately have 1: "rule_and m (rule_toks 1 r @ ?t) = Inr (r, ?t)" using and1 rs by simp
    have 2: "rule_or_rest m [r] ?t = Inr (OrRule ([r] @ rs'), rest)"
      using and1 rs k n m len by (intro or_rest_print) auto
    show ?thesis using 1 2 m rs by simp
  qed
  have u: "rule_unary n (tok_paren True ?ts @ rest) = Inr (OrRule rs, rest)"
    if "3 * length (tok_paren True ?ts) + 1 \<le> n" for n rest
    using unary_paren[OF o that] by simp
  have l: "0 < length (tok_paren True ?ts)" by (simp add: tok_paren_def)
  have a: "rule_and n (tok_paren True ?ts @ rest) = Inr (OrRule rs, rest)"
    if "3 * length (tok_paren True ?ts) + 2 \<le> n" "\<not> starts_kw ''-and'' rest" for n rest
    using and_from_unary[OF u that(1) l that(2)] by simp
  have t: "rule_toks 2 (OrRule rs) = tok_paren True ?ts" "rule_toks 1 (OrRule rs) = tok_paren True ?ts"
    "rule_toks 0 (OrRule rs) = ?ts" by (simp_all add: tok_paren_def)
  show ?thesis unfolding reads_back_def t using u a o by blast
qed

lemma reads_back_and:
  assumes IH: "\<forall>r\<in>set rs. reads_back r" and len: "2 \<le> length rs"
  shows "reads_back (AndRule rs)"
proof -
  from len obtain r rs' where rs: "rs = r # rs'" by (cases rs) auto
  let ?ts = "sep_by [(TokWord, ''-and'')] (map (rule_toks 2) rs)"
  have un: "\<forall>r\<in>set rs. \<forall>n rest. 3 * length (rule_toks 2 r) + 1 \<le> n \<longrightarrow>
        rule_unary n (rule_toks 2 r @ rest) = Inr (r, rest)"
    using IH unfolding reads_back_def by blast
  have a: "rule_and n (?ts @ rest) = Inr (AndRule rs, rest)"
    if n: "3 * length ?ts + 2 \<le> n" and k: "\<not> starts_kw ''-and'' rest" for n rest
  proof -
    define m where "m = n - 1"
    with n have m: "n = Suc m" by linarith
    let ?t = "concat (map (\<lambda>y. (TokWord, ''-and'') # y) (map (rule_toks 2) rs')) @ rest"
    have "3 * length (rule_toks 2 r) + 1 \<le> m" using n m rs by simp
    then have 1: "rule_unary m (rule_toks 2 r @ ?t) = Inr (r, ?t)" using un rs by simp
    have 2: "rule_and_rest m [r] ?t = Inr (AndRule ([r] @ rs'), rest)"
      using un rs k n m len by (intro and_rest_print) auto
    show ?thesis using 1 2 m rs by simp
  qed
  have o: "rule_or n (?ts @ rest) = Inr (AndRule rs, rest)"
    if "3 * length ?ts + 3 \<le> n" "\<not> starts_kw ''-and'' rest" "\<not> starts_kw ''-or'' rest" for n rest
    using or_from_and[OF a that] by simp
  have u: "rule_unary n (tok_paren True ?ts @ rest) = Inr (AndRule rs, rest)"
    if "3 * length (tok_paren True ?ts) + 1 \<le> n" for n rest
    using unary_paren[OF o that] by simp
  have t: "rule_toks 2 (AndRule rs) = tok_paren True ?ts" "rule_toks 1 (AndRule rs) = ?ts"
    "rule_toks 0 (AndRule rs) = ?ts" by (simp_all add: tok_paren_def)
  show ?thesis unfolding reads_back_def t using u a o by blast
qed

lemma reads_back_not:
  assumes "reads_back r"
  shows "reads_back (NotRule r)"
proof (rule reads_back_unary)
  show "rule_unary n (((TokWord, ''-not'') # rule_toks 2 r) @ rest) = Inr (NotRule r, rest)"
    if "3 * length ((TokWord, ''-not'') # rule_toks 2 r) + 1 \<le> n" for n rest
    using that assms unfolding reads_back_def by (cases n) auto
qed simp_all

lemma reads_back_wf: "rule_wf r \<Longrightarrow> reads_back r"
proof (induction r)
  case (StringCompare a op v vs)
  then show ?case
    by (intro reads_back_leaf[of _ "tok_leaf a op v vs"])
      (simp_all only: rule_toks.simps rule_wf.simps rule_unary_leaf, simp add: tok_leaf_def)
next
  case (BoolCompare eq b)
  show ?case
    by (rule reads_back_leaf[of _ "rule_toks 0 (BoolCompare eq b)"])
      (simp_all only: rule_unary_bool, simp_all)
qed (auto simp: list_all_iff intro: reads_back_or reads_back_and reads_back_not)

text \<open>Parsing the printed tokens of a well-formed rule gives the rule back.\<close>

lemma rule_parse_toks:
  assumes "rule_wf r"
  shows "rule_or (rule_parse_fuel (rule_toks 0 r)) (rule_toks 0 r) = Inr (r, [])"
proof -
  have "\<not> starts_kw ''-and'' []" "\<not> starts_kw ''-or'' []" by (simp_all add: starts_kw_def)
  then show ?thesis
    using reads_back_wf[OF assms] unfolding reads_back_def rule_parse_fuel_def
    by (metis append_Nil2 le_refl)
qed

section \<open>Rules as text\<close>

fun escape_quoted :: "string \<Rightarrow> string" where
  "escape_quoted [] = []"
| "escape_quoted (c # cs) =
     (if c = quote_char \<or> c = backslash_char then backslash_char # c # escape_quoted cs
      else c # escape_quoted cs)"

definition show_tok :: "rule_tok \<Rightarrow> string" where
  "show_tok t = (case fst t of
       TokString \<Rightarrow> quote_char # escape_quoted (snd t) @ [quote_char]
     | _ \<Rightarrow> snd t)"

definition show_toks :: "rule_tok list \<Rightarrow> string" where
  "show_toks ts = str_join (map show_tok ts) '' ''"

definition show_rule :: "rule \<Rightarrow> string" where
  "show_rule r = show_toks (rule_toks 0 r)"

definition tok_ok :: "rule_tok \<Rightarrow> bool" where
  "tok_ok t = (case fst t of
       TokWord \<Rightarrow> snd t \<noteq> [] \<and> list_all rule_word_char (snd t)
     | TokString \<Rightarrow> True
     | TokPunct \<Rightarrow> (\<exists>c. snd t = [c] \<and> rule_punct_char c))"

lemma lex_quoted_escape: "lex_quoted (escape_quoted s @ quote_char # rest) = Some (s, rest)"
proof (induction s)
  case Nil
  show ?case by (cases rest) simp_all
next
  case (Cons c cs)
  have ne: "\<exists>d ds. escape_quoted cs @ quote_char # rest = d # ds" by (cases "escape_quoted cs") auto
  then obtain d ds where d: "escape_quoted cs @ quote_char # rest = d # ds" by blast
  with Cons show ?case by (cases "c = quote_char \<or> c = backslash_char") auto
qed

lemma punct_not_space: "rule_punct_char c \<Longrightarrow> \<not> is_space c \<and> c \<noteq> quote_char"
  by (auto simp: rule_punct_char_def is_space_def)

lemma space_not_word [simp]: "\<not> rule_word_char (CHR '' '')"
  by (simp add: rule_word_char_def is_space_def)

lemma is_space_blank [simp]: "is_space (CHR '' '')"
  by (simp add: is_space_def)

lemma word_takeWhile:
  "list_all rule_word_char w \<Longrightarrow> takeWhile rule_word_char (w @ CHR '' '' # rest) = w"
  "list_all rule_word_char w \<Longrightarrow> dropWhile rule_word_char (w @ CHR '' '' # rest) = CHR '' '' # rest"
  "list_all rule_word_char w \<Longrightarrow> takeWhile rule_word_char w = w"
  "list_all rule_word_char w \<Longrightarrow> dropWhile rule_word_char w = []"
  by (induction w) auto

lemma lex_show_tok:
  assumes "tok_ok t"
  shows "lex_rule (show_tok t @ CHR '' '' # rest) = ebind (lex_rule rest) (\<lambda>ts. Inr (t # ts))"
    and "lex_rule (show_tok t) = Inr [t]"
proof -
  obtain k x where t: "t = (k, x)" by (cases t)
  have "lex_rule (show_tok t @ CHR '' '' # rest) = ebind (lex_rule rest) (\<lambda>ts. Inr (t # ts))
      \<and> lex_rule (show_tok t) = Inr [t]"
  proof (cases k)
    case TokWord
    with assms t obtain c w where x: "x = c # w" "rule_word_char c" "list_all rule_word_char w"
      by (cases x) (auto simp: tok_ok_def)
    then have "\<not> is_space c" "\<not> rule_punct_char c" "c \<noteq> quote_char" by (auto simp: rule_word_char_def)
    with x t TokWord show ?thesis by (simp add: show_tok_def word_takeWhile)
  next
    case TokString
    have q: "\<not> is_space quote_char" "\<not> rule_punct_char quote_char"
      by (simp_all add: is_space_def rule_punct_char_def)
    have "lex_quoted (escape_quoted x @ quote_char # CHR '' '' # rest) = Some (x, CHR '' '' # rest)"
      "lex_quoted (escape_quoted x @ [quote_char]) = Some (x, [])"
      by (rule lex_quoted_escape)+
    with q t TokString show ?thesis by (simp add: show_tok_def)
  next
    case TokPunct
    with assms t obtain c where "x = [c]" "rule_punct_char c" by (auto simp: tok_ok_def)
    with t TokPunct punct_not_space[of c] show ?thesis by (simp add: show_tok_def)
  qed
  then show "lex_rule (show_tok t @ CHR '' '' # rest) = ebind (lex_rule rest) (\<lambda>ts. Inr (t # ts))"
    and "lex_rule (show_tok t) = Inr [t]" by simp_all
qed

lemma lex_show_toks: "list_all tok_ok ts \<Longrightarrow> lex_rule (show_toks ts) = Inr ts"
proof (induction ts rule: induct_list012)
  case (3 t u ts)
  then have "lex_rule (show_toks (t # u # ts)) = ebind (lex_rule (show_toks (u # ts))) (\<lambda>us. Inr (t # us))"
    using lex_show_tok(1)[of t "show_toks (u # ts)"] by (simp add: show_toks_def)
  then show ?case using 3 by simp
qed (simp_all add: show_toks_def lex_show_tok)

lemma sep_by_ok: "list_all P s \<Longrightarrow> \<forall>x\<in>set xs. list_all P x \<Longrightarrow> list_all P (sep_by s xs)"
  by (cases xs) (auto simp: list_all_iff)

lemma punct_toks_ok [simp]:
  "tok_ok (TokPunct, ''('')" "tok_ok (TokPunct, '')'')" "tok_ok (TokPunct, ''['')" "tok_ok (TokPunct, '']'')"
  "tok_ok (TokPunct, '','')" "tok_ok (TokString, x)"
  by (simp_all add: tok_ok_def rule_punct_char_def)

lemma kw_toks_ok [simp]:
  "tok_ok (TokWord, ''-or'')" "tok_ok (TokWord, ''-and'')" "tok_ok (TokWord, ''-not'')" "tok_ok (TokWord, ''null'')"
  "tok_ok (TokWord, ''true'')" "tok_ok (TokWord, ''false'')" "tok_ok (TokWord, ''-eq'')" "tok_ok (TokWord, ''-ne'')"
  "tok_ok (TokWord, ''user.accountenabled'')"
  by (simp_all add: tok_ok_def rule_word_char_def is_space_def rule_punct_char_def)

lemma leaf_toks_ok: "rule_leaf_wf a op v vs \<Longrightarrow> list_all tok_ok (tok_leaf a op v vs)"
proof -
  assume w: "rule_leaf_wf a op v vs"
  have "\<forall>a\<in>set (map fst user_attrs). tok_ok (TokWord, ''user.'' @ a)"
    by (simp add: user_attrs_def tok_ok_def rule_word_char_def is_space_def rule_punct_char_def)
  then have 1: "tok_ok (TokWord, ''user.'' @ a)" using w unfolding rule_leaf_wf_def by blast
  have "\<forall>op\<in>set rule_ops. tok_ok (TokWord, ''-'' @ op)"
    by (simp add: rule_ops_def tok_ok_def rule_word_char_def is_space_def rule_punct_char_def)
  then have 2: "tok_ok (TokWord, ''-'' @ op)" using w unfolding rule_leaf_wf_def by blast
  have 3: "list_all tok_ok (tok_value v)" by (cases v) (simp_all add: tok_value_def)
  have 4: "list_all tok_ok (sep_by [(TokPunct, '','')] (map (\<lambda>x. [(TokString, x)]) vs))"
    by (rule sep_by_ok) auto
  show ?thesis using 1 2 3 4 by (simp add: tok_leaf_def)
qed

lemma rule_toks_ok: "rule_wf r \<Longrightarrow> list_all tok_ok (rule_toks l r)"
proof (induction r arbitrary: l)
  case (OrRule rs)
  then have "list_all tok_ok (sep_by [(TokWord, ''-or'')] (map (rule_toks 1) rs))"
    by (intro sep_by_ok) (auto simp: list_all_iff)
  then show ?case by (simp add: tok_paren_def)
next
  case (AndRule rs)
  then have "list_all tok_ok (sep_by [(TokWord, ''-and'')] (map (rule_toks 2) rs))"
    by (intro sep_by_ok) (auto simp: list_all_iff)
  then show ?case by (simp add: tok_paren_def)
qed (simp_all add: leaf_toks_ok)

lemma trim_by_ends:
  assumes "s \<noteq> []" "\<not> p (hd s)" "\<not> p (last s)"
  shows "trim_by p s = s"
proof -
  have "dropWhile p s = s" using assms by (cases s) simp_all
  moreover have "dropWhile p (rev s) = rev s" using assms by (cases "rev s") (auto simp: hd_rev[symmetric])
  ultimately show ?thesis by (simp add: trim_by_def)
qed

lemma show_tok_ends:
  "tok_ok t \<Longrightarrow> show_tok t \<noteq> [] \<and> \<not> is_space (hd (show_tok t)) \<and> \<not> is_space (last (show_tok t))"
proof -
  assume k: "tok_ok t"
  obtain k x where t: "t = (k, x)" by (cases t)
  have q: "\<not> is_space quote_char" by (simp add: is_space_def)
  show ?thesis
  proof (cases k)
    case TokWord
    with k t have "x \<noteq> []" "\<forall>c\<in>set x. \<not> is_space c"
      by (auto simp: tok_ok_def list_all_iff rule_word_char_def)
    with t TokWord show ?thesis by (simp add: show_tok_def)
  next
    case TokPunct
    with k t show ?thesis by (auto simp: tok_ok_def show_tok_def punct_not_space)
  qed (use t q in \<open>simp add: show_tok_def\<close>)
qed

lemma show_toks_ends:
  "ts \<noteq> [] \<Longrightarrow> list_all tok_ok ts \<Longrightarrow>
   show_toks ts \<noteq> [] \<and> hd (show_toks ts) = hd (show_tok (hd ts)) \<and> \<not> is_space (last (show_toks ts))"
proof (induction ts rule: induct_list012)
  case (3 t u ts)
  then show ?case using show_tok_ends[of t] by (simp add: show_toks_def)
qed (simp_all add: show_toks_def show_tok_ends)

lemma rule_toks_head:
  "rule_wf r \<Longrightarrow> \<exists>k x c. hd (rule_toks l r) = (k, c # x) \<and> k \<noteq> TokString \<and> c \<in> {CHR ''('', CHR ''-'', CHR ''u''}"
proof (induction r arbitrary: l)
  case (OrRule rs)
  then obtain r rs' where rs: "rs = r # rs'" by (cases rs) auto
  with OrRule.prems have "rule_toks 1 r \<noteq> []" by (simp add: rule_toks_nonempty)
  with OrRule rs show ?case by (cases "0 < l") (auto simp: tok_paren_def)
next
  case (AndRule rs)
  then obtain r rs' where rs: "rs = r # rs'" by (cases rs) auto
  with AndRule.prems have "rule_toks 2 r \<noteq> []" by (simp add: rule_toks_nonempty)
  with AndRule rs show ?case by (cases "1 < l") (auto simp: tok_paren_def)
qed (auto simp: tok_leaf_def)

lemma no_direct_reports:
  assumes "s \<noteq> []" and "hd s \<in> {CHR ''('', CHR ''-'', CHR ''u''}"
  shows "direct_reports_re s = None"
  using assms by (cases s) (auto simp: direct_reports_re_def re_word_spaces_def equal_fold_def to_lower_def)

lemma parse_show_rule_aux:
  assumes wf: "rule_wf r"
  shows "parse_rule (show_rule r) = Inr r"
proof -
  let ?ts = "rule_toks 0 r"
  note ne = rule_toks_nonempty[OF wf, of 0] and ok = rule_toks_ok[OF wf, of 0]
  have hd_ok: "tok_ok (hd ?ts)" using ne ok by (cases ?ts) simp_all
  note ends = show_toks_ends[OF ne ok] and he = show_tok_ends[OF hd_ok]
  have trim: "trim_space (show_rule r) = show_rule r"
    unfolding trim_space_def show_rule_def using ends he by (intro trim_by_ends) simp_all
  obtain k x c where "hd ?ts = (k, c # x)" "k \<noteq> TokString" "c \<in> {CHR ''('', CHR ''-'', CHR ''u''}"
    using rule_toks_head[OF wf] by blast
  then have "hd (show_rule r) \<in> {CHR ''('', CHR ''-'', CHR ''u''}"
    using ends by (cases k) (auto simp: show_rule_def show_tok_def)
  then have dr: "direct_reports_re (show_rule r) = None"
    using ends by (intro no_direct_reports) (simp_all add: show_rule_def)
  have lex: "lex_rule (show_rule r) = Inr ?ts" by (simp add: show_rule_def lex_show_toks ok)
  show ?thesis using trim dr lex rule_parse_toks[OF wf] ends
    by (simp add: parse_rule_def Let_def show_rule_def)
qed

section \<open>Complementary operators\<close>

definition op_complements :: "(string \<times> string) list" where
  "op_complements =
     [(''eq'', ''ne''), (''ne'', ''eq''), (''startswith'', ''notstartswith''),
      (''notstartswith'', ''startswith''), (''contains'', ''notcontains''),
      (''notcontains'', ''contains''), (''in'', ''notin''), (''notin'', ''in'')]"

lemma op_complement_match:
  assumes "(op, op') \<in> set op_complements"
  shows "string_compare_match op' v vs got = (\<not> string_compare_match op v vs got)"
proof -
  have "\<forall>p\<in>set op_complements.
      string_compare_match (snd p) v vs got = (\<not> string_compare_match (fst p) v vs got)"
    by (cases v; cases "got = []") (simp_all add: op_complements_def string_compare_match_def Let_def)
  from bspec[OF this assms] show ?thesis by simp
qed

lemma op_complements_total: "op \<in> set rule_ops \<Longrightarrow> op \<in> set (map fst op_complements)"
proof -
  have "\<forall>op\<in>set rule_ops. op \<in> set (map fst op_complements)"
    by (simp add: op_complements_def rule_ops_def)
  then show "op \<in> set rule_ops \<Longrightarrow> op \<in> set (map fst op_complements)" ..
qed

section \<open>The parser builds well-formed rules only\<close>

definition wf_result :: "rule_error + (rule \<times> rule_tok list) \<Rightarrow> bool" where
  "wf_result r = (case r of Inl _ \<Rightarrow> True | Inr (x, _) \<Rightarrow> rule_wf x)"

lemma wf_result_simps [simp]: "wf_result (Inl e)" "wf_result (Inr (r, ts)) = rule_wf r"
  by (simp_all add: wf_result_def)

lemma wf_result_bind:
  "wf_result m \<Longrightarrow> (\<And>r ts. rule_wf r \<Longrightarrow> wf_result (f (r, ts))) \<Longrightarrow> wf_result (ebind m f)"
  by (cases m) (auto simp: wf_result_def)

lemma rule_array_items_wf:
  "rule_array_items op out ts = Inr (vs, rest) \<Longrightarrow> list_all (\<lambda>x. to_lower x = x) out \<Longrightarrow>
   vs \<noteq> [] \<and> list_all (\<lambda>x. to_lower x = x) vs"
proof (induction "length ts" arbitrary: out ts rule: less_induct)
  case less
  from less.prems(1) obtain v us where ts: "ts = (TokString, v) # us"
    by (cases "(op, out, ts)" rule: rule_array_items.cases) simp_all
  show ?case
  proof (cases "rule_punct '']'' us")
    case (Some r)
    with less.prems ts show ?thesis by auto
  next
    case None
    with less.prems(1) ts obtain r where us: "us = (TokPunct, '','') # r"
      by (auto split: list.splits prod.splits rule_tok_kind.splits if_splits)
    have "rule_array_items op (out @ [to_lower v]) r = Inr (vs, rest)"
      using less.prems(1) None by (simp add: ts us)
    then show ?thesis using less.hyps[of r "out @ [to_lower v]"] less.prems(2) by (simp add: ts us)
  qed
qed

lemma rule_array_wf:
  "rule_array op ts = Inr (vs, rest) \<Longrightarrow> vs \<noteq> [] \<and> list_all (\<lambda>x. to_lower x = x) vs"
  unfolding rule_array_def by (auto split: option.splits dest: rule_array_items_wf)

lemma rule_value_wf:
  assumes "a \<in> set (map fst user_attrs)" "op \<in> set rule_ops" "op \<noteq> ''in''" "op \<noteq> ''notin''"
  shows "wf_result (rule_value a op tx ts)"
  using assms unfolding rule_value_def
  by (auto simp: rule_leaf_wf_def split: list.splits prod.splits simp del: list.set_map)

lemma rule_comparison_wf: "wf_result (rule_comparison ts)"
proof -
  have attr: "map_of user_attrs n = Some f \<Longrightarrow> n \<in> fst ` set user_attrs" for n f
    by (rule image_eqI[OF _ map_of_SomeD]) simp_all
  have arr: "wf_result (ebind (rule_array tx ts) (\<lambda>(vs, r3). Inr (StringCompare a op None vs, r3)))"
    if "a \<in> set (map fst user_attrs)" "op = ''in'' \<or> op = ''notin''" for a op tx ts
  proof (cases "rule_array tx ts")
    case (Inr p)
    show ?thesis using that Inr rule_array_wf[of tx ts]
      by (cases p) (auto simp: rule_leaf_wf_def rule_ops_def simp del: list.set_map)
  qed simp
  show ?thesis
    unfolding rule_comparison_def Let_def
    by (auto intro!: arr rule_value_wf intro: attr
        split: list.split prod.split rule_tok_kind.split if_split option.split)
qed

lemma rule_parser_wf:
  "(\<forall>ts. wf_result (rule_or n ts)) \<and>
   (\<forall>out ts. out \<noteq> [] \<longrightarrow> list_all rule_wf out \<longrightarrow> wf_result (rule_or_rest n out ts)) \<and>
   (\<forall>ts. wf_result (rule_and n ts)) \<and>
   (\<forall>out ts. out \<noteq> [] \<longrightarrow> list_all rule_wf out \<longrightarrow> wf_result (rule_and_rest n out ts)) \<and>
   (\<forall>ts. wf_result (rule_unary n ts))"
proof (induction n)
  case (Suc n)
  have one: "out \<noteq> [] \<Longrightarrow> length out \<noteq> Suc 0 \<Longrightarrow> 2 \<le> length out" for out :: "rule list"
    by (cases out; cases "tl out") auto
  have hd: "out \<noteq> [] \<Longrightarrow> list_all rule_wf out \<Longrightarrow> rule_wf (hd out)" for out by (cases out) auto
  show ?case
    using Suc rule_comparison_wf one hd
    by (auto intro!: wf_result_bind split: option.split)
qed simp

lemma parse_rule_wf:
  assumes "parse_rule src = Inr r"
  shows "(\<exists>oid. r = DirectReportsRule oid \<and> guid_re oid) \<or> rule_wf r"
proof -
  have "rule_or n ts = Inr (x, rest) \<Longrightarrow> rule_wf x" for n ts x rest
    using rule_parser_wf[of n] by (metis wf_result_simps(2))
  with assms show ?thesis
    unfolding parse_rule_def Let_def
    by (auto simp: err_simps split: if_splits option.splits)
qed

section \<open>Properties\<close>

text \<open>C31: rule_parser_decides. The recursive-descent parser always ends with a rule or one of its
  error messages, never by running out of the fuel that bounds its loops; a rule it returns is
  either a direct-reports rule of a GUID or a tree of supported comparisons, and printing that
  tree and parsing the text gives the same rule.\<close>

theorem rule_parser_decides:
  "parse_rule src \<noteq> Inl RuleOutOfFuel \<and>
   (case parse_rule src of
      Inl e \<Rightarrow> True
    | Inr (DirectReportsRule oid) \<Rightarrow> guid_re oid
    | Inr r \<Rightarrow> rule_wf r \<and> parse_rule (show_rule r) = Inr r)"
proof
  have "rule_or (rule_parse_fuel ts) ts \<noteq> Inl RuleOutOfFuel" for ts by (rule rule_or_total)
  then show "parse_rule src \<noteq> Inl RuleOutOfFuel"
    using lex_rule_no_fuel unfolding parse_rule_def Let_def
    by (auto simp: err_simps split: option.splits)
  show "case parse_rule src of Inl e \<Rightarrow> True | Inr (DirectReportsRule oid) \<Rightarrow> guid_re oid
    | Inr r \<Rightarrow> rule_wf r \<and> parse_rule (show_rule r) = Inr r"
    using parse_rule_wf[of src] parse_show_rule_aux by (auto split: sum.split rule.split)
qed

text \<open>C30: rule_text_roundtrip. Every well-formed rule tree is the meaning of some rule text: the
  parser reads the printed rule back exactly, with its precedences and escapes.\<close>

theorem rule_text_roundtrip:
  assumes "rule_wf r"
  shows "parse_rule (show_rule r) = Inr r"
  using assms by (rule parse_show_rule_aux)

theorem rule_text_roundtrip_witness:
  "parse_rule (show_rule (AndRule [OrRule [BoolCompare True True, NotRule (BoolCompare False True)],
      StringCompare ''department'' ''in'' None [''a b'', ''c'']])) =
    Inr (AndRule [OrRule [BoolCompare True True, NotRule (BoolCompare False True)],
      StringCompare ''department'' ''in'' None [''a b'', ''c'']])"
proof (rule rule_text_roundtrip)
  show "rule_wf (AndRule [OrRule [BoolCompare True True, NotRule (BoolCompare False True)],
      StringCompare ''department'' ''in'' None [''a b'', ''c'']])" by code_simp
qed

text \<open>Each comparison operator has a complement (eq/ne,
  startsWith/notStartsWith, contains/notContains, in/notIn) that matches exactly the users the
  operator does not match, an absent attribute included.\<close>

lemma rule_operator_complements:
  assumes "op \<in> set rule_ops"
  shows "\<exists>op'. (op, op') \<in> set op_complements \<and>
    (\<forall>c t u attr v vs. rule_match c t u (StringCompare attr op' v vs) =
       (\<not> rule_match c t u (StringCompare attr op v vs)))"
proof -
  obtain op' where o: "(op, op') \<in> set op_complements"
    using op_complements_total[OF assms] by auto
  from op_complement_match[OF o] have "rule_match c t u (StringCompare attr op' v vs) =
       (\<not> rule_match c t u (StringCompare attr op v vs))" for c t u attr v vs
    by simp
  with o show ?thesis by blast
qed

end
