(* ===== verification/Go_Net.thy ===== *)
theory Go_Net
  imports Go_Prelude "HOL-Library.Multiset"
begin

text \<open>
  The parts of encoding/base64 and net/url the program uses: unpadded base64url and padded
  standard base64, query escaping, and \<open>url.Values\<close> with its encoding and parsing.

  Bytes are characters; base64 works on their bits, most significant bit first. A
  \<open>url.Values\<close> is an association list from a key to its values in order.
\<close>

section \<open>Base64\<close>

fun byte_bits :: "char \<Rightarrow> bool list" where
  "byte_bits (Char b0 b1 b2 b3 b4 b5 b6 b7) = [b7, b6, b5, b4, b3, b2, b1, b0]"

fun bits_byte :: "bool list \<Rightarrow> char" where
  "bits_byte [b7, b6, b5, b4, b3, b2, b1, b0] = Char b0 b1 b2 b3 b4 b5 b6 b7"
| "bits_byte _ = CHR 0x00"

fun bits_nat :: "bool list \<Rightarrow> nat" where
  "bits_nat [] = 0"
| "bits_nat (b # bs) = (if b then 2 ^ length bs else 0) + bits_nat bs"

fun nat_bits :: "nat \<Rightarrow> nat \<Rightarrow> bool list" where
  "nat_bits 0 n = []"
| "nat_bits (Suc k) n = (2 ^ k \<le> n) # nat_bits k (if 2 ^ k \<le> n then n - 2 ^ k else n)"

text \<open>Chunks of \<open>k\<close> elements, the last one filled up.\<close>

function chunks :: "nat \<Rightarrow> 'a \<Rightarrow> 'a list \<Rightarrow> 'a list list" where
  "chunks k z xs =
     (if k = 0 \<or> xs = [] then []
      else (take k xs @ replicate (k - length xs) z) # chunks k z (drop k xs))"
  by pat_completeness auto
termination by (relation "measure (\<lambda>(k, z, xs). length xs)") auto

declare chunks.simps [simp del]

definition b64_url :: string where
  "b64_url = ''ABCDEFGHIJKLMNOPQRSTUVWXYZabcdefghijklmnopqrstuvwxyz0123456789-_''"

definition b64_std :: string where
  "b64_std = ''ABCDEFGHIJKLMNOPQRSTUVWXYZabcdefghijklmnopqrstuvwxyz0123456789+/''"

definition b64_index :: "string \<Rightarrow> char \<Rightarrow> nat option" where
  "b64_index alpha c = map_of (zip alpha [0..<length alpha]) c"

text \<open>\<open>base64.RawURLEncoding\<close>: no padding; decoding skips line breaks and ignores trailing bits.\<close>

definition b64_encode :: "string \<Rightarrow> string" where
  "b64_encode s = map (\<lambda>g. b64_url ! bits_nat g) (chunks 6 False (concat (map byte_bits s)))"

definition b64_bytes :: "string \<Rightarrow> string \<Rightarrow> string option" where
  "b64_bytes alpha s =
     (if length s mod 4 = 1 \<or> list_ex (\<lambda>c. b64_index alpha c = None) s then None
      else let bits = concat (map (\<lambda>c. nat_bits 6 (the (b64_index alpha c))) s)
           in Some (map bits_byte (chunks 8 False (take (8 * (length bits div 8)) bits))))"

definition drop_newlines :: "string \<Rightarrow> string" where
  "drop_newlines s = filter (\<lambda>c. c \<noteq> CHR 0x0A \<and> c \<noteq> CHR 0x0D) s"

definition b64_decode :: "string \<Rightarrow> string option" where
  "b64_decode s = b64_bytes b64_url (drop_newlines s)"

text \<open>\<open>base64.StdEncoding.DecodeString\<close>: the length is a multiple of four with at most two \<open>=\<close>.\<close>

definition b64_std_decode :: "string \<Rightarrow> string option" where
  "b64_std_decode s0 =
     (let s = drop_newlines s0;
          body = (if has_suffix s ''=='' then take (length s - 2) s
                  else if has_suffix s ''='' then take (length s - 1) s else s)
      in if length s mod 4 \<noteq> 0 then None else b64_bytes b64_std body)"

subsection \<open>Decoding inverts encoding\<close>

lemma length_byte_bits [simp]: "length (byte_bits c) = 8"
  by (cases c rule: byte_bits.cases) simp

lemma bits_byte_bits [simp]: "bits_byte (byte_bits c) = c"
  by (cases c rule: byte_bits.cases) simp

lemma length_nat_bits [simp]: "length (nat_bits k n) = k"
  by (induction k arbitrary: n) simp_all

lemma bits_nat_less: "bits_nat bs < 2 ^ length bs"
  by (induction bs) auto

lemma nat_bits_nat [simp]: "nat_bits (length bs) (bits_nat bs) = bs"
proof (induction bs)
  case (Cons b bs)
  then show ?case using bits_nat_less[of bs] by (cases b) simp_all
qed simp

lemma concat_chunks:
  assumes "0 < k"
  shows "\<exists>m < k. concat (chunks k z xs) = xs @ replicate m z"
proof (induction "length xs" arbitrary: xs rule: less_induct)
  case less
  show ?case
  proof (cases "xs = []")
    case True
    then show ?thesis using assms by (subst chunks.simps) auto
  next
    case False
    show ?thesis
    proof (cases "length xs \<le> k")
      case True
      have "concat (chunks k z xs) = xs @ replicate (k - length xs) z"
        using False True assms by (subst chunks.simps) (simp add: chunks.simps[of k z "[]"])
      moreover have "k - length xs < k" using False assms by (cases xs) auto
      ultimately show ?thesis by blast
    next
      case False
      then have "length (drop k xs) < length xs" using assms by simp
      from less[OF this] obtain m where m: "m < k" "concat (chunks k z (drop k xs)) = drop k xs @ replicate m z" by blast
      have "chunks k z xs = take k xs # chunks k z (drop k xs)"
        using False assms by (subst chunks.simps) auto
      with m show ?thesis by (intro exI[of _ m]) (simp add: append_assoc[symmetric] del: append_assoc)
    qed
  qed
qed

lemma length_chunk: "g \<in> set (chunks k z xs) \<Longrightarrow> length g = k"
proof (induction k z xs rule: chunks.induct)
  case (1 k z xs)
  show ?case
  proof (cases "k = 0 \<or> xs = []")
    case True
    with 1(2) show ?thesis by (subst (asm) chunks.simps) simp
  next
    case False
    with 1 show ?thesis by (subst (asm) (2) chunks.simps) (auto simp: min_def)
  qed
qed

lemma chunks_concat:
  assumes "0 < k" and "\<forall>g\<in>set gs. length g = k"
  shows "chunks k z (concat gs) = gs"
  using assms(2)
proof (induction gs)
  case Nil
  then show ?case by (simp add: chunks.simps)
next
  case (Cons g gs)
  have "g \<noteq> []" using Cons.prems assms(1) by auto
  then show ?case using Cons assms(1) by (subst chunks.simps) auto
qed

lemma b64_url_index: "n < 64 \<Longrightarrow> b64_index b64_url (b64_url ! n) = Some n"
proof -
  have "distinct b64_url" by code_simp
  moreover have "length b64_url = 64" by code_simp
  ultimately show "n < 64 \<Longrightarrow> b64_index b64_url (b64_url ! n) = Some n"
    unfolding b64_index_def by (intro map_of_eq_Some_iff[THEN iffD2])
      (auto simp: in_set_zip)
qed

lemma b64_url_newlines: "n < 64 \<Longrightarrow> b64_url ! n \<noteq> CHR 0x0A \<and> b64_url ! n \<noteq> CHR 0x0D"
proof -
  have "\<forall>c\<in>set b64_url. c \<noteq> CHR 0x0A \<and> c \<noteq> CHR 0x0D" by code_simp
  moreover have "length b64_url = 64" by code_simp
  ultimately show "n < 64 \<Longrightarrow> b64_url ! n \<noteq> CHR 0x0A \<and> b64_url ! n \<noteq> CHR 0x0D"
    by (metis nth_mem)
qed

lemma b64_encode_bits:
  fixes gs :: "bool list list"
  assumes "\<forall>g\<in>set gs. length g = 6"
  shows "drop_newlines (map (\<lambda>g. b64_url ! bits_nat g) gs) = map (\<lambda>g. b64_url ! bits_nat g) gs"
    and "\<not> list_ex (\<lambda>c. b64_index b64_url c = None) (map (\<lambda>g. b64_url ! bits_nat g) gs)"
    and "concat (map (\<lambda>c. nat_bits 6 (the (b64_index b64_url c))) (map (\<lambda>g. b64_url ! bits_nat g) gs)) = concat gs"
proof -
  have b: "bits_nat g < 64" if "g \<in> set gs" for g
    using bits_nat_less[of g] assms that by auto
  show "drop_newlines (map (\<lambda>g. b64_url ! bits_nat g) gs) = map (\<lambda>g. b64_url ! bits_nat g) gs"
    using b b64_url_newlines unfolding drop_newlines_def by (auto intro!: filter_True)
  show "\<not> list_ex (\<lambda>c. b64_index b64_url c = None) (map (\<lambda>g. b64_url ! bits_nat g) gs)"
    using b by (auto simp: list_ex_iff b64_url_index)
  have "nat_bits 6 (the (b64_index b64_url (b64_url ! bits_nat g))) = g" if "g \<in> set gs" for g
    using b[OF that] nat_bits_nat[of g] assms that by (simp add: b64_url_index)
  then show "concat (map (\<lambda>c. nat_bits 6 (the (b64_index b64_url c))) (map (\<lambda>g. b64_url ! bits_nat g) gs)) = concat gs"
    by (simp add: comp_def cong: map_cong)
qed

lemma length_concat_const: "\<forall>g\<in>set gs. length g = n \<Longrightarrow> length (concat gs) = n * length gs"
  by (induction gs) simp_all

lemma b64_len: "6 * (l::nat) = 8 * n + m \<Longrightarrow> m < 6 \<Longrightarrow> l mod 4 \<noteq> 1"
  by presburger

lemma b64_decode_encode: "b64_decode (b64_encode s) = Some s"
proof -
  let ?bits = "concat (map byte_bits s)" and ?gs = "chunks 6 False (concat (map byte_bits s))"
  have g: "\<forall>g\<in>set ?gs. length g = 6" by (rule ballI) (rule length_chunk)
  obtain m where m: "m < 6" "concat ?gs = ?bits @ replicate m False"
    using concat_chunks[of 6 False ?bits] by auto
  have lb: "length ?bits = 8 * length s" by (induction s) simp_all
  have lg: "length (concat ?gs) = 6 * length ?gs" using g by (rule length_concat_const)
  have eq: "6 * length ?gs = 8 * length s + m" using lg m(2) lb by simp
  have mod: "length ?gs mod 4 \<noteq> 1" by (rule b64_len[OF eq m(1)])
  have d: "(8 * length s + m) div 8 = length s" using m(1) by simp
  have t: "take (8 * length s) (?bits @ replicate m False) = ?bits" using lb by simp
  have c: "chunks 8 False ?bits = map byte_bits s" by (rule chunks_concat) auto
  note e = b64_encode_bits[OF g, folded b64_encode_def]
  have len: "length (b64_encode s) mod 4 \<noteq> 1" using mod by (simp add: b64_encode_def)
  have bits: "concat (map (\<lambda>c. nat_bits 6 (the (b64_index b64_url c))) (b64_encode s)) = ?bits @ replicate m False"
    unfolding e(3) by (rule m(2))
  have "length (?bits @ replicate m False) div 8 = length s" using lb d by simp
  then have "b64_bytes b64_url (b64_encode s) = Some (map bits_byte (chunks 8 False ?bits))"
    using len e(2) t unfolding b64_bytes_def Let_def bits by simp
  then show ?thesis unfolding b64_decode_def e(1) c by (simp add: comp_def)
qed

section \<open>Query escaping\<close>

definition hex_upper :: string where "hex_upper = ''0123456789ABCDEF''"

definition unhex :: "char \<Rightarrow> nat option" where
  "unhex c = map_of (zip (''0123456789ABCDEF'' @ ''abcdef'') ([0..<16] @ [10..<16])) c"

definition query_safe :: "char \<Rightarrow> bool" where
  "query_safe c \<longleftrightarrow> is_word_char c \<or> c = CHR ''.'' \<or> c = CHR ''~''"

definition escape_char :: "char \<Rightarrow> string" where
  "escape_char c =
     (if query_safe c then [c]
      else if c = CHR '' '' then ''+''
      else [CHR ''%'', hex_upper ! bits_nat (take 4 (byte_bits c)), hex_upper ! bits_nat (drop 4 (byte_bits c))])"

definition query_escape :: "string \<Rightarrow> string" where
  "query_escape s = concat (map escape_char s)"

fun query_unescape :: "string \<Rightarrow> string option" where
  "query_unescape [] = Some []"
| "query_unescape (c # cs) =
     (if c = CHR ''%'' then
        (case cs of
           h # l # rest \<Rightarrow>
             (case (unhex h, unhex l) of
                (Some a, Some b) \<Rightarrow>
                  map_option ((#) (bits_byte (nat_bits 4 a @ nat_bits 4 b))) (query_unescape rest)
              | _ \<Rightarrow> None)
         | _ \<Rightarrow> None)
      else map_option ((#) (if c = CHR ''+'' then CHR '' '' else c)) (query_unescape cs))"

lemma unhex_upper: "n < 16 \<Longrightarrow> unhex (hex_upper ! n) = Some n"
proof -
  have "list_all (\<lambda>n. unhex (hex_upper ! n) = Some n) [0..<16]" by code_simp
  then show "n < 16 \<Longrightarrow> unhex (hex_upper ! n) = Some n" by (simp add: list_all_iff)
qed

lemma query_safe_plain: "query_safe c \<Longrightarrow> c \<noteq> CHR ''%'' \<and> c \<noteq> CHR ''+'' \<and> c \<noteq> CHR ''&'' \<and> c \<noteq> CHR ''='' \<and> c \<noteq> CHR '';''"
proof -
  have "\<not> query_safe (CHR ''%'')" "\<not> query_safe (CHR ''+'')" "\<not> query_safe (CHR ''&'')"
    "\<not> query_safe (CHR ''='')" "\<not> query_safe (CHR '';'')"
    by code_simp+
  then show "query_safe c \<Longrightarrow> c \<noteq> CHR ''%'' \<and> c \<noteq> CHR ''+'' \<and> c \<noteq> CHR ''&'' \<and> c \<noteq> CHR ''='' \<and> c \<noteq> CHR '';''"
    by auto
qed

lemma nibbles:
  "bits_nat (take 4 (byte_bits c)) < 16" "bits_nat (drop 4 (byte_bits c)) < 16"
  using bits_nat_less[of "take 4 (byte_bits c)"] bits_nat_less[of "drop 4 (byte_bits c)"] by simp_all

lemma nibble_bits:
  "nat_bits 4 (bits_nat (take 4 (byte_bits c))) @ nat_bits 4 (bits_nat (drop 4 (byte_bits c))) = byte_bits c"
  using nat_bits_nat[of "take 4 (byte_bits c)"] nat_bits_nat[of "drop 4 (byte_bits c)"] by simp

lemma query_unescape_escape_char:
  "query_unescape (escape_char c @ s) = map_option ((#) c) (query_unescape s)"
proof -
  consider "query_safe c" | "\<not> query_safe c" "c = CHR '' ''" | "\<not> query_safe c" "c \<noteq> CHR '' ''" by blast
  then show ?thesis
  proof cases
    case 1
    then show ?thesis using query_safe_plain[OF 1] by (simp add: escape_char_def)
  next
    case 2
    then show ?thesis by (simp add: escape_char_def)
  next
    case 3
    then show ?thesis by (simp add: escape_char_def unhex_upper[OF nibbles(1)] unhex_upper[OF nibbles(2)] nibble_bits)
  qed
qed

lemma query_unescape_escape [simp]: "query_unescape (query_escape s) = Some s"
  by (induction s) (simp_all add: query_escape_def query_unescape_escape_char)

lemma escape_reserved: "c \<in> set (query_escape s) \<Longrightarrow> c \<noteq> CHR ''&'' \<and> c \<noteq> CHR ''='' \<and> c \<noteq> CHR '';''"
proof -
  have h: "\<forall>n<16. hex_upper ! n \<noteq> CHR ''&'' \<and> hex_upper ! n \<noteq> CHR ''='' \<and> hex_upper ! n \<noteq> CHR '';''"
  proof -
    have "list_all (\<lambda>n. hex_upper ! n \<noteq> CHR ''&'' \<and> hex_upper ! n \<noteq> CHR ''='' \<and> hex_upper ! n \<noteq> CHR '';'') [0..<16]"
      by code_simp
    then show ?thesis by (simp add: list_all_iff)
  qed
  have "c \<in> set (escape_char d) \<Longrightarrow> c \<noteq> CHR ''&'' \<and> c \<noteq> CHR ''='' \<and> c \<noteq> CHR '';''" for d
    using h nibbles[of d] query_safe_plain[of d] by (auto simp: escape_char_def split: if_splits)
  then show "c \<in> set (query_escape s) \<Longrightarrow> c \<noteq> CHR ''&'' \<and> c \<noteq> CHR ''='' \<and> c \<noteq> CHR '';''"
    by (auto simp: query_escape_def)
qed

section \<open>Values\<close>

type_synonym url_values = "(string, string list) gomap"

definition values_get :: "url_values \<Rightarrow> string \<Rightarrow> string" where
  "values_get v k = (case map_get v k of Some (x # _) \<Rightarrow> x | _ \<Rightarrow> [])"

definition values_all :: "url_values \<Rightarrow> string \<Rightarrow> string list" where
  "values_all v k = (case map_get v k of Some xs \<Rightarrow> xs | None \<Rightarrow> [])"

definition values_set :: "string \<Rightarrow> string \<Rightarrow> url_values \<Rightarrow> url_values" where
  "values_set k x v = map_put k [x] v"

definition values_add :: "string \<Rightarrow> string \<Rightarrow> url_values \<Rightarrow> url_values" where
  "values_add k x v = map_put k (values_all v k @ [x]) v"

text \<open>\<open>Values.Encode\<close>: the keys sorted, one pair per value.\<close>

definition values_pairs :: "url_values \<Rightarrow> (string \<times> string) list" where
  "values_pairs v = concat (map (\<lambda>(k, xs). map (\<lambda>x. (k, x)) xs) (sort_key fst v))"

definition show_pair :: "string \<times> string \<Rightarrow> string" where
  "show_pair p = query_escape (fst p) @ ''='' @ query_escape (snd p)"

definition values_encode :: "url_values \<Rightarrow> string" where
  "values_encode v = str_join (map show_pair (values_pairs v)) ''&''"

text \<open>\<open>url.ParseQuery\<close>, dropping malformed pairs as \<open>URL.Query\<close> does.\<close>

definition read_pair :: "string \<Rightarrow> (string \<times> string) option" where
  "read_pair p =
     (if p = [] \<or> str_contains p '';'' then None
      else case str_cut p ''='' of (k, x, _) \<Rightarrow>
             (case query_unescape k of None \<Rightarrow> None
              | Some k' \<Rightarrow> map_option (Pair k') (query_unescape x)))"

definition parse_query :: "string \<Rightarrow> url_values" where
  "parse_query s = fold (\<lambda>p v. case read_pair p of None \<Rightarrow> v | Some (k, x) \<Rightarrow> values_add k x v)
     (str_split s ''&'') []"

lemma read_show_pair: "read_pair (show_pair p) = Some p"
proof -
  have eq: "CHR ''='' \<notin> set (query_escape (fst p))" using escape_reserved by blast
  have "CHR '';'' \<notin> set (show_pair p)" using escape_reserved by (auto simp: show_pair_def)
  then have "\<not> str_contains (show_pair p) '';''" by (simp add: str_contains_def str_index_char_None)
  moreover have "str_cut (show_pair p) ''='' = (query_escape (fst p), query_escape (snd p), True)"
    using str_index_char_append[OF eq, of "query_escape (snd p)"] by (simp add: str_cut_def show_pair_def)
  moreover have "show_pair p \<noteq> []" by (simp add: show_pair_def)
  ultimately show ?thesis by (simp add: read_pair_def)
qed

lemma read_pair_Nil [simp]: "read_pair [] = None"
  by (simp add: read_pair_def)

definition add_pairs :: "(string \<times> string) list \<Rightarrow> url_values \<Rightarrow> url_values" where
  "add_pairs ps v = fold (\<lambda>(k, x). values_add k x) ps v"

lemma values_all_add [simp]: "values_all (values_add k x v) k' = values_all v k' @ (if k' = k then [x] else [])"
  by (simp add: values_all_def values_add_def)

lemma values_all_add_pairs: "values_all (add_pairs ps v) k = values_all v k @ map snd (filter (\<lambda>p. fst p = k) ps)"
  by (induction ps arbitrary: v) (auto simp: add_pairs_def)

text \<open>Any writer of pairs that \<open>read_pair\<close> inverts and that leaves no ampersand in a pair.\<close>

lemma parse_query_pairs:
  assumes "\<And>p. p \<in> set ps \<Longrightarrow> read_pair (f p) = Some p \<and> CHR ''&'' \<notin> set (f p)"
  shows "parse_query (str_join (map f ps) ''&'') = add_pairs ps []"
proof (cases "ps = []")
  case True
  then show ?thesis by (simp add: parse_query_def add_pairs_def str_split.simps[of "[]"])
next
  case False
  have "str_split (str_join (map f ps) ''&'') ''&'' = map f ps"
    using False assms by (intro str_split_join) auto
  moreover have "fold (\<lambda>q v. case read_pair q of None \<Rightarrow> v | Some (k, x) \<Rightarrow> values_add k x v) (map f ps) v = add_pairs ps v" for v
    using assms by (induction ps arbitrary: v) (auto simp: add_pairs_def)
  ultimately show ?thesis by (simp add: parse_query_def)
qed

lemma parse_query_encode_pairs: "parse_query (str_join (map show_pair ps) ''&'') = add_pairs ps []"
proof (rule parse_query_pairs)
  fix p
  have "CHR ''&'' \<notin> set (show_pair p)" using escape_reserved by (auto simp: show_pair_def)
  then show "read_pair (show_pair p) = Some p \<and> CHR ''&'' \<notin> set (show_pair p)" by (simp add: read_show_pair)
qed

text \<open>A pair whose key is written as it is.\<close>

definition plain_key :: "string \<Rightarrow> bool" where
  "plain_key k \<longleftrightarrow> list_all (\<lambda>c. c \<notin> set ''%+&=;'') k"

lemma query_unescape_plain: "plain_key k \<Longrightarrow> query_unescape k = Some k"
  by (induction k) (simp_all add: plain_key_def)

lemma read_plain_pair:
  assumes "plain_key k"
  shows "read_pair (k @ ''='' @ query_escape x) = Some (k, x) \<and> CHR ''&'' \<notin> set (k @ ''='' @ query_escape x)"
proof -
  have k: "CHR ''='' \<notin> set k" "CHR '';'' \<notin> set k" "CHR ''&'' \<notin> set k" using assms by (auto simp: plain_key_def list_all_iff)
  have "CHR '';'' \<notin> set (k @ ''='' @ query_escape x)" using k escape_reserved by auto
  then have "\<not> str_contains (k @ ''='' @ query_escape x) '';''" by (simp add: str_contains_def str_index_char_None)
  moreover have "str_cut (k @ ''='' @ query_escape x) ''='' = (k, query_escape x, True)"
    using str_index_char_append[OF k(1), of "query_escape x"] by (simp add: str_cut_def)
  ultimately show ?thesis using k escape_reserved by (auto simp: read_pair_def query_unescape_plain[OF assms])
qed

lemma filter_pairs:
  "distinct (map fst v) \<Longrightarrow>
   map snd (filter (\<lambda>p. fst p = k) (concat (map (\<lambda>(k, xs). map (\<lambda>x. (k, x)) xs) v))) = values_all v k"
proof (induction v)
  case (Cons a v)
  obtain k' xs where a: "a = (k', xs)" by (cases a)
  have rest: "filter (\<lambda>p. fst p = k') (concat (map (\<lambda>(k, xs). map (\<lambda>x. (k, x)) xs) v)) = []"
    using Cons.prems a by (auto simp: filter_empty_conv) (metis fst_conv image_eqI)
  show ?case
  proof (cases "k' = k")
    case True
    then show ?thesis using rest a by (simp add: values_all_def map_get_def filter_map comp_def)
  next
    case False
    then show ?thesis using Cons a by (simp add: values_all_def map_get_def filter_map comp_def)
  qed
qed (simp add: values_all_def)

lemma parse_query_encode:
  assumes "distinct (map fst v)"
  shows "values_all (parse_query (values_encode v)) k = values_all v k"
proof -
  have p: "mset (sort_key fst v) = mset v" by simp
  then have d: "distinct (map fst (sort_key fst v))"
    using assms by (metis mset_eq_imp_distinct_iff mset_map)
  have "map_of (sort_key fst v) = map_of v"
    by (intro map_of_inject_set[THEN iffD2]) (use assms d p in \<open>auto dest: mset_eq_setD\<close>)
  then have "values_all (sort_key fst v) k = values_all v k" by (simp add: values_all_def map_get_def)
  then show ?thesis
    by (simp add: values_encode_def parse_query_encode_pairs values_all_add_pairs values_pairs_def
        filter_pairs[OF d] values_all_def[of "[]"])
qed

lemma values_get_all: "values_get v k = (case values_all v k of [] \<Rightarrow> [] | x # _ \<Rightarrow> x)"
  by (simp add: values_get_def values_all_def split: option.split list.split)

lemma values_get_parse_encode: "distinct (map fst v) \<Longrightarrow> values_get (parse_query (values_encode v)) k = values_get v k"
  by (simp add: values_get_all parse_query_encode)

lemma values_get_set [simp]: "values_get (values_set k x v) k' = (if k' = k then x else values_get v k')"
  by (simp add: values_get_def values_set_def)

end
