(* ===== verification/Go_Url.thy ===== *)
theory Go_Url
  imports Go_Net
begin

text \<open>
  \<open>url.Parse\<close>, \<open>URL.Query\<close> and \<open>URL.String\<close> as the redirects use them: a URL is its text up
  to the query (scheme in lower case, authority, path), the raw query and the fragment.

  The checks are those of \<open>url.Parse\<close> on control bytes, the scheme, a colon in the first
  path segment and percent escapes. Not modelled: the validation of the authority (user
  info, port, IP literals) and the re-escaping of a path or fragment that is not in its
  escaped form; such URLs are outside the model.
\<close>

record url =
  url_prefix :: string
  url_query :: string
  url_fragment :: string

definition ctl_byte :: "char \<Rightarrow> bool" where
  "ctl_byte c \<longleftrightarrow> (of_char c :: nat) < 32 \<or> c = CHR 0x7F"

definition scheme_letter :: "char \<Rightarrow> bool" where
  "scheme_letter c \<longleftrightarrow> c \<in> set ''ABCDEFGHIJKLMNOPQRSTUVWXYZabcdefghijklmnopqrstuvwxyz''"

text \<open>\<open>getScheme\<close>: \<open>None\<close> is "missing protocol scheme"; the scheme is empty when there is none.\<close>

definition get_scheme :: "string \<Rightarrow> (string \<times> string) option" where
  "get_scheme s =
     (case s of
        [] \<Rightarrow> Some ([], s)
      | c # cs \<Rightarrow>
          if c = CHR '':'' then None
          else if \<not> scheme_letter c then Some ([], s)
          else
            let name = takeWhile (\<lambda>c. scheme_letter c \<or> is_digit c \<or> c = CHR ''+'' \<or> c = CHR ''-'' \<or> c = CHR ''.'') s;
                rest = drop (length name) s
            in (case rest of
                  d # r \<Rightarrow> if d = CHR '':'' then Some (name, r) else Some ([], s)
                | [] \<Rightarrow> Some ([], s)))"

fun percent_ok :: "string \<Rightarrow> bool" where
  "percent_ok [] = True"
| "percent_ok (c # cs) =
     (if c = CHR ''%'' then
        (case cs of h # l # rest \<Rightarrow> unhex h \<noteq> None \<and> unhex l \<noteq> None \<and> percent_ok rest | _ \<Rightarrow> False)
      else percent_ok cs)"

definition url_parse :: "string \<Rightarrow> url option" where
  "url_parse raw =
     (case str_cut raw ''#'' of (u, frag, _) \<Rightarrow>
      if list_ex ctl_byte u \<or> \<not> percent_ok frag then None
      else case get_scheme u of
             None \<Rightarrow> None
           | Some (scheme, rest0) \<Rightarrow>
               (case str_cut rest0 ''?'' of (rest, query, _) \<Rightarrow>
                let opaque = (\<not> has_prefix rest ''/'' \<and> scheme \<noteq> []);
                    prefix = (if scheme = [] then [] else to_lower scheme @ '':'') @ rest
                in if \<not> has_prefix rest ''/'' \<and> scheme = [] \<and> CHR '':'' \<in> set (takeWhile (\<lambda>c. c \<noteq> CHR ''/'') rest)
                   then None
                   else if \<not> opaque \<and> \<not> percent_ok rest then None
                   else Some \<lparr>url_prefix = prefix, url_query = query, url_fragment = frag\<rparr>))"

definition url_string :: "url \<Rightarrow> string" where
  "url_string u = url_prefix u @ (if url_query u = [] then [] else ''?'' @ url_query u) @
     (if url_fragment u = [] then [] else ''#'' @ url_fragment u)"

definition url_set_query :: "url_values \<Rightarrow> url \<Rightarrow> url" where
  "url_set_query v u = u\<lparr>url_query := values_encode v\<rparr>"

section \<open>Setting parameters\<close>

lemma distinct_values_set: "distinct (map fst v) \<Longrightarrow> distinct (map fst (values_set k x v))"
  by (simp add: values_set_def distinct_map_put)

lemma distinct_parse_query: "distinct (map fst (parse_query s))"
proof -
  have "distinct (map fst v) \<Longrightarrow> distinct (map fst (fold (\<lambda>p v. case read_pair p of None \<Rightarrow> v | Some (k, x) \<Rightarrow> values_add k x v) ps v))" for ps v
    by (induction ps arbitrary: v) (auto simp: values_add_def distinct_map_put split: option.split)
  then show ?thesis unfolding parse_query_def by simp
qed

end
