(* ===== verification/Jsonx.thy ===== *)
theory Jsonx
  imports Go_Prelude
begin

text \<open>
  The JSON renderer (internal/jsonx/jsonx.go) and the dynamic values it prints.

  \<open>gval\<close> has one constructor per Go type the renderer distinguishes: \<open>VObj\<close> is the ordered
  \<open>Obj\<close>, \<open>VMap\<close> a \<open>map[string]any\<close> (an association list with distinct keys), \<open>VStrs\<close> a
  \<open>[]string\<close>, \<open>VArr\<close> an \<open>Arr\<close> or \<open>[]any\<close>. Numbers are integers: the server's own numbers are
  integral, and an integral \<open>float64\<close> prints like an integer.
\<close>

datatype gval =
    VNil
  | VStr string
  | VBool bool
  | VInt int
  | VStrs "string list"
  | VArr "gval list"
  | VObj "(string \<times> gval) list"
  | VMap "(string \<times> gval) list"

section \<open>Scalars\<close>

function show_nat :: "nat \<Rightarrow> string" where
  "show_nat n = (if n < 10 then [''0123456789'' ! n] else show_nat (n div 10) @ [''0123456789'' ! (n mod 10)])"
  by pat_completeness auto
termination by (relation "measure id") auto

declare show_nat.simps [simp del]

definition show_int :: "int \<Rightarrow> string" where
  "show_int i = (if i < 0 then CHR ''-'' # show_nat (nat (- i)) else show_nat (nat i))"

text \<open>\<open>encoding/json\<close> string quoting without HTML escaping, on ASCII.\<close>

definition hex_nibble :: "nat \<Rightarrow> char" where
  "hex_nibble n = ''0123456789abcdef'' ! n"

definition quote_char_json :: "char \<Rightarrow> string" where
  "quote_char_json c =
     (if c = CHR 0x22 then [CHR 0x5C, CHR 0x22]
      else if c = CHR 0x5C then [CHR 0x5C, CHR 0x5C]
      else if c = CHR 0x08 then [CHR 0x5C, CHR ''b'']
      else if c = CHR 0x0C then [CHR 0x5C, CHR ''f'']
      else if c = CHR 0x0A then [CHR 0x5C, CHR ''n'']
      else if c = CHR 0x0D then [CHR 0x5C, CHR ''r'']
      else if c = CHR 0x09 then [CHR 0x5C, CHR ''t'']
      else if (of_char c :: nat) < 32
      then [CHR 0x5C, CHR ''u'', CHR ''0'', CHR ''0'',
            hex_nibble ((of_char c :: nat) div 16), hex_nibble ((of_char c :: nat) mod 16)]
      else [c])"

definition json_quote :: "string \<Rightarrow> string" where
  "json_quote s = CHR 0x22 # concat (map quote_char_json s) @ [CHR 0x22]"

section \<open>Rendering\<close>

definition json_indent :: "nat \<Rightarrow> string" where
  "json_indent level = concat (replicate level ''  '')"

text \<open>The braces with one line per field; \<open>Render\<close> of the field values is passed in.\<close>

definition obj_lines :: "nat \<Rightarrow> (string \<times> string) list \<Rightarrow> string" where
  "obj_lines level fs =
     ''{'' @ [CHR 0x0A] @
     str_join (map (\<lambda>(n, v). json_indent (Suc level) @ json_quote n @ '' : '' @ v) fs) ('','' @ [CHR 0x0A]) @
     [CHR 0x0A] @ json_indent level @ ''}''"

definition arr_text :: "string list \<Rightarrow> string" where
  "arr_text es = (if es = [] then ''[ ]'' else ''[ '' @ str_join es '', '' @ '' ]'')"

definition sort_fields :: "(string \<times> 'a) list \<Rightarrow> (string \<times> 'a) list" where
  "sort_fields fs = sort_key fst fs"

lemma size_field: "(n, v) \<in> set fs \<Longrightarrow> size v < Suc (size_list (size_prod (\<lambda>_. 0) size) fs)"
  by (induction fs) (auto simp: less_Suc_eq_le)

lemma size_elem: "v \<in> set vs \<Longrightarrow> size v < Suc (size_list size vs)"
  by (induction vs) auto

lemma field_measure:
  "p \<in> set fs \<Longrightarrow> 2 * size (snd p) < Suc (Suc (2 * size_list (size_prod (\<lambda>_. 0) size) fs))"
  using size_field[of "fst p" "snd p" fs] by simp

function (sequential) render_value :: "nat \<Rightarrow> gval \<Rightarrow> string"
and render_elem :: "nat \<Rightarrow> gval \<Rightarrow> string"
where
  "render_value level (VObj fs) =
     (if fs = [] then ''{ }''
      else obj_lines level (map (\<lambda>p. (fst p, render_value (Suc level) (snd p))) fs))"
| "render_value level (VMap fs) =
     (if fs = [] then ''{ }''
      else obj_lines level (sort_fields (map (\<lambda>p. (fst p, render_value (Suc level) (snd p))) fs)))"
| "render_value level (VArr vs) = arr_text (map (render_elem level) vs)"
| "render_value level (VStrs ss) = arr_text (map json_quote ss)"
| "render_value level VNil = ''null''"
| "render_value level (VStr s) = json_quote s"
| "render_value level (VBool b) = (if b then ''true'' else ''false'')"
| "render_value level (VInt i) = show_int i"
| "render_elem level (VObj fs) =
     obj_lines level (map (\<lambda>p. (fst p, render_value (Suc level) (snd p))) fs)"
| "render_elem level (VMap fs) =
     arr_text [obj_lines level (sort_fields (map (\<lambda>p. (fst p, render_value (Suc level) (snd p))) fs))]"
| "render_elem level v = render_value (Suc level) v"
  by pat_completeness auto

termination
proof (relation "measure (\<lambda>x. case x of Inl (_, v) \<Rightarrow> 2 * size v | Inr (_, v) \<Rightarrow> Suc (2 * size v))", goal_cases)
  case 1
  show ?case by simp
next
  case (4 level vs x)
  then show ?case using size_elem[of x vs] by simp
qed (use field_measure in \<open>force+\<close>)

definition json_render :: "gval \<Rightarrow> string" where
  "json_render v = render_value 0 v"

section \<open>Maps inside arrays\<close>

lemma sort_key_map_fst: "sort_key fst (map (\<lambda>p. (fst p, f (snd p))) fs) = map (\<lambda>p. (fst p, f (snd p))) (sort_key fst fs)"
proof (induction fs)
  case (Cons p fs)
  have "insort_key fst (fst p, f (snd p)) (map (\<lambda>p. (fst p, f (snd p))) xs) =
        map (\<lambda>p. (fst p, f (snd p))) (insort_key fst p xs)" for xs
    by (induction xs) simp_all
  then show ?case using Cons by simp
qed simp

text \<open>An array element that is a Go map is rendered through a fresh
  one-element array, so the document has one bracket pair more than the value: an array with
  one map prints as an array holding the array that an ordered object would give.\<close>

lemma map_in_array_doubled:
  "json_render (VArr [VMap fs]) = ''[ '' @ json_render (VArr [VObj (sort_fields fs)]) @ '' ]''"
  by (simp add: json_render_def arr_text_def sort_fields_def sort_key_map_fst)

end
