(* ===== verification/Oauth2.thy ===== *)
theory Oauth2
  imports Go_Url Jsonx
begin

text \<open>
  The protocol types shared by all endpoints (internal/oauth2): errors, the request with its
  proxy-aware URL, the parsed authorization and token requests, and the unverified reading
  of a client assertion.
\<close>

section \<open>Errors (error.go)\<close>

record oauth_error =
  oe_code :: string
  oe_desc :: string
  oe_status :: int

definition new_error :: "string \<Rightarrow> string \<Rightarrow> int \<Rightarrow> oauth_error" where
  "new_error code description status = \<lparr>oe_code = code, oe_desc = description, oe_status = status\<rparr>"

definition invalid_request :: "string \<Rightarrow> oauth_error" where
  "invalid_request d = new_error ''invalid_request'' d 400"
definition invalid_client :: "string \<Rightarrow> oauth_error" where
  "invalid_client d = new_error ''invalid_client'' d 401"
definition invalid_grant_error :: "string \<Rightarrow> oauth_error" where
  "invalid_grant_error d = new_error ''invalid_grant'' d 400"
definition invalid_token_error :: "string \<Rightarrow> oauth_error" where
  "invalid_token_error d = new_error ''invalid_token'' d 401"
definition unsupported_token_type :: "string \<Rightarrow> oauth_error" where
  "unsupported_token_type d = new_error ''unsupported_token_type'' d 400"
definition server_error :: "string \<Rightarrow> oauth_error" where
  "server_error d = new_error ''server_error'' d 500"
definition not_found_error :: "string \<Rightarrow> oauth_error" where
  "not_found_error d = new_error ''not_found'' d 404"
definition missing_parameter :: "string \<Rightarrow> oauth_error" where
  "missing_parameter n = invalid_request (''missing required parameter '' @ n)"
definition missing_or_empty_parameter :: "string \<Rightarrow> oauth_error" where
  "missing_or_empty_parameter n = invalid_request (''invalid request: missing or empty '' @ n @ '' parameter'')"
definition unsupported_grant_type :: "string \<Rightarrow> oauth_error" where
  "unsupported_grant_type g = invalid_grant_error (''grant_type '' @ g @ '' not supported.'')"

lemmas error_defs = new_error_def invalid_request_def invalid_client_def invalid_grant_error_def
  invalid_token_error_def unsupported_token_type_def server_error_def not_found_error_def
  missing_parameter_def missing_or_empty_parameter_def unsupported_grant_type_def

section \<open>Requests (request.go)\<close>

text \<open>The URL of a server request is a path and a raw query; header names are compared without case.\<close>

record request =
  rq_method :: string
  rq_header :: "(string \<times> string) list"
  rq_path :: string
  rq_raw_query :: string
  rq_scheme :: string
  rq_body :: string

definition header_get :: "request \<Rightarrow> string \<Rightarrow> string" where
  "header_get r name =
     (case find (\<lambda>(k, _). equal_fold k name) (rq_header r) of Some (_, v) \<Rightarrow> v | None \<Rightarrow> [])"

definition request_uri :: "request \<Rightarrow> string" where
  "request_uri r = rq_path r @ (if rq_raw_query r = [] then [] else ''?'' @ rq_raw_query r)"

text \<open>\<open>strconv.Atoi\<close>: an optional sign and decimal digits in the int64 range.\<close>

definition digit_value :: "char \<Rightarrow> int" where
  "digit_value c = (case map_of (zip ''0123456789'' [0..<10]) c of Some n \<Rightarrow> int n | None \<Rightarrow> 0)"

fun digits_value :: "int \<Rightarrow> string \<Rightarrow> int" where
  "digits_value acc [] = acc"
| "digits_value acc (c # cs) = digits_value (10 * acc + digit_value c) cs"

definition atoi :: "string \<Rightarrow> int option" where
  "atoi s =
     (let neg = has_prefix s ''-'';
          body = (if has_prefix s ''-'' \<or> has_prefix s ''+'' then drop 1 s else s);
          v = (if neg then - digits_value 0 body else digits_value 0 body)
      in if body = [] \<or> \<not> list_all is_digit body \<or> v < - (2 ^ 63) \<or> 2 ^ 63 \<le> v then None else Some v)"

definition last_index :: "char \<Rightarrow> string \<Rightarrow> nat option" where
  "last_index c s = (if c \<in> set s then Some (length s - 1 - length (takeWhile (\<lambda>d. d \<noteq> c) (rev s))) else None)"

definition parse_host_header :: "string \<Rightarrow> string \<times> int" where
  "parse_host_header h =
     (if h = [] then (''localhost'', -1)
      else case last_index (CHR '':'') h of
             Some i \<Rightarrow> (case atoi (drop (Suc i) h) of Some v \<Rightarrow> (take i h, v) | None \<Rightarrow> (h, -1))
           | None \<Rightarrow> (h, -1))"

text \<open>Scheme and host of \<open>ProxyAwareURL\<close>; its path and query are those of the request.\<close>

definition proxy_aware_url :: "request \<Rightarrow> string \<times> string" where
  "proxy_aware_url r =
     (let fwd = header_get r ''x-forwarded-proto'';
          scheme = (if fwd = [] then rq_scheme r else fwd);
          (host, host_port) = parse_host_header (header_get r ''Host'');
          p = header_get r ''x-forwarded-port'';
          port1 = (if p \<noteq> [] then (case atoi p of Some v \<Rightarrow> v | None \<Rightarrow> -1) else -1);
          port2 = (if port1 = -1 \<and> host_port \<noteq> -1 then host_port else port1);
          port = (if port2 = -1 \<and> fwd \<noteq> [] then (if fwd = ''https'' then 443 else 80) else port2)
      in (scheme,
          if port \<noteq> -1 \<and> \<not> (scheme = ''http'' \<and> port = 80) \<and> \<not> (scheme = ''https'' \<and> port = 443)
          then host @ '':'' @ show_int port else host))"

definition proxy_aware_string :: "request \<Rightarrow> string" where
  "proxy_aware_string r =
     (case proxy_aware_url r of (scheme, host) \<Rightarrow> scheme @ ''://'' @ host @ request_uri r)"

section \<open>Endpoints and issuers (endpoints.go, request.go)\<close>

definition ep_oauth2_well_known :: string where
  "ep_oauth2_well_known = ''/.well-known/oauth-authorization-server''"
definition ep_oidc_well_known :: string where "ep_oidc_well_known = ''/.well-known/openid-configuration''"
definition ep_authorization :: string where "ep_authorization = ''/authorize''"
definition ep_token :: string where "ep_token = ''/token''"
definition ep_end_session :: string where "ep_end_session = ''/endsession''"
definition ep_revoke :: string where "ep_revoke = ''/revoke''"
definition ep_jwks :: string where "ep_jwks = ''/jwks''"
definition ep_user_info :: string where "ep_user_info = ''/userinfo''"
definition ep_introspect :: string where "ep_introspect = ''/introspect''"
definition ep_debugger :: string where "ep_debugger = ''/debugger''"
definition ep_debugger_callback :: string where "ep_debugger_callback = ''/debugger/callback''"

definition endpoints :: "string list" where
  "endpoints = [ep_oauth2_well_known, ep_oidc_well_known, ep_authorization, ep_token, ep_end_session,
     ep_revoke, ep_jwks, ep_user_info, ep_introspect, ep_debugger, ep_debugger_callback]"

lemmas endpoint_defs = ep_oauth2_well_known_def ep_oidc_well_known_def ep_authorization_def ep_token_def
  ep_end_session_def ep_revoke_def ep_jwks_def ep_user_info_def ep_introspect_def ep_debugger_def
  ep_debugger_callback_def endpoints_def

definition trimmed_path :: "request \<Rightarrow> string" where
  "trimmed_path r = trim_slash (rq_path r)"

definition issuer_id_of_path :: "string \<Rightarrow> string" where
  "issuer_id_of_path path =
     (case find (has_suffix path) endpoints of
        Some e \<Rightarrow> (case str_index path e of Some i \<Rightarrow> take i path | None \<Rightarrow> path)
      | None \<Rightarrow> path)"

definition issuer_id :: "request \<Rightarrow> string" where
  "issuer_id r = issuer_id_of_path (trimmed_path r)"

definition base_url :: "request \<Rightarrow> string" where
  "base_url r = (case proxy_aware_url r of (scheme, host) \<Rightarrow>
     if host = [] then scheme @ '':'' else scheme @ ''://'' @ host)"

definition endpoint_url :: "request \<Rightarrow> string \<Rightarrow> string" where
  "endpoint_url r suf =
     (let parts = (if issuer_id r = [] then [] else [issuer_id r]) @
                  (if trim_slash suf = [] then [] else [trim_slash suf])
      in if parts = [] then base_url r else base_url r @ ''/'' @ str_join parts ''/'')"

definition issuer_url :: "request \<Rightarrow> string" where
  "issuer_url r = endpoint_url r []"

section \<open>Parameters (request.go)\<close>

definition decode_form_value :: "string \<Rightarrow> string" where
  "decode_form_value s = (case query_unescape s of Some d \<Rightarrow> d | None \<Rightarrow> s)"

definition request_form :: "request \<Rightarrow> url_values" where
  "request_form r =
     (if rq_body r = [] then []
      else fold (\<lambda>pair v. case str_cut pair ''='' of (k, x, found) \<Rightarrow>
                   if found then values_add (decode_form_value k) (decode_form_value x) v else v)
             (str_split (rq_body r) ''&'') [])"

definition form_param :: "request \<Rightarrow> string \<Rightarrow> string" where
  "form_param r name = (let vs = values_all (request_form r) name in if vs = [] then [] else last vs)"

definition query_values :: "request \<Rightarrow> url_values" where
  "query_values r = parse_query (rq_raw_query r)"

definition query_param :: "request \<Rightarrow> string \<Rightarrow> string" where
  "query_param r name = values_get (query_values r) name"

definition basic_auth :: "request \<Rightarrow> (string \<times> string) option" where
  "basic_auth r =
     (let h = header_get r ''Authorization''
      in if length h < 6 \<or> \<not> equal_fold (take 6 h) ''Basic '' then None
         else case b64_std_decode (drop 6 h) of
                None \<Rightarrow> None
              | Some raw \<Rightarrow> (case str_cut raw '':'' of (u, p, ok) \<Rightarrow> if ok then Some (u, p) else None))"

section \<open>Authorization requests (authrequest.go)\<close>

record auth_request =
  ar_response_type :: "string list"
  ar_client_id :: string
  ar_redirect_uri :: string
  ar_scope :: "string list"
  ar_state :: string
  ar_nonce :: string
  ar_code_challenge :: string
  ar_code_challenge_method :: string
  ar_prompt :: "string list"
  ar_response_mode :: string

definition response_type_values :: "string list" where
  "response_type_values = [''code'', ''id_token'', ''token'', ''none'']"

definition unsupported_response_type_error :: oauth_error where
  "unsupported_response_type_error = new_error ''unsupported_response_type''
     ''unsupported response type: unsupported response_type parameter: unsupported openid connect response type value'' 400"

definition parse_auth_request :: "url_values \<Rightarrow> oauth_error + auth_request" where
  "parse_auth_request query =
     (let rt = values_get query ''response_type'';
          response_types = str_fields rt;
          scope = values_get query ''scope'';
          client_id = values_get query ''client_id'';
          redirect_uri = values_get query ''redirect_uri''
      in if rt = [] then Inl (invalid_request ''invalid request: missing response_type parameter'')
         else if list_ex (\<lambda>v. v \<notin> set response_type_values) response_types
         then Inl unsupported_response_type_error
         else if scope = [] then Inl (invalid_request ''invalid request: missing scope parameter'')
         else if client_id = [] then Inl (invalid_request ''invalid request: missing client_id parameter'')
         else if redirect_uri = [] then Inl (invalid_request ''invalid request: missing redirect_uri parameter'')
         else if ''id_token'' \<in> set response_types \<and> values_get query ''nonce'' = []
         then Inl (invalid_request (''invalid request: missing nonce parameter: required for response_type='' @ rt))
         else Inr \<lparr>ar_response_type = response_types, ar_client_id = client_id,
                   ar_redirect_uri = redirect_uri, ar_scope = str_fields scope,
                   ar_state = values_get query ''state'', ar_nonce = values_get query ''nonce'',
                   ar_code_challenge = values_get query ''code_challenge'',
                   ar_code_challenge_method = values_get query ''code_challenge_method'',
                   ar_prompt = str_fields (values_get query ''prompt''),
                   ar_response_mode = values_get query ''response_mode''\<rparr>)"

definition implies_code_flow :: "auth_request \<Rightarrow> bool" where
  "implies_code_flow a \<longleftrightarrow> ar_response_type a = [''code'']"

definition is_prompt :: "auth_request \<Rightarrow> bool" where
  "is_prompt a \<longleftrightarrow> list_ex (\<lambda>p. p = ''login'' \<or> p = ''consent'' \<or> p = ''select_account'') (ar_prompt a)"

definition success_redirect_url :: "auth_request \<Rightarrow> string \<Rightarrow> oauth_error + string" where
  "success_redirect_url a code =
     (case url_parse (ar_redirect_uri a) of
        None \<Rightarrow> Inl (invalid_request ''invalid redirect_uri: '')
      | Some u \<Rightarrow>
          let q1 = values_set ''code'' code (parse_query (url_query u));
              q2 = (if ar_state a = [] then q1 else values_set ''state'' (ar_state a) q1)
          in Inr (url_string (url_set_query q2 u)))"

section \<open>JWT payloads (jwt.go)\<close>

text \<open>
  \<open>unmarshal\<close> stands for \<open>json.Unmarshal\<close> into a map. A number is read as its integer part.
\<close>

type_synonym claims = "(string, gval) gomap"

definition parse_jwt_claims :: "(string \<Rightarrow> claims option) \<Rightarrow> string \<Rightarrow> claims option" where
  "parse_jwt_claims unmarshal token =
     (let parts = str_split token ''.''
      in if length parts < 2 then None
         else case b64_decode (parts ! 1) of None \<Rightarrow> None | Some payload \<Rightarrow> unmarshal payload)"

definition claim_get :: "claims \<Rightarrow> string \<Rightarrow> gval" where
  "claim_get c k = (case map_get c k of Some v \<Rightarrow> v | None \<Rightarrow> VNil)"

definition numeric_date :: "gval \<Rightarrow> int" where
  "numeric_date v = (case v of VInt i \<Rightarrow> i | _ \<Rightarrow> 0)"

definition string_claim :: "gval \<Rightarrow> string" where
  "string_claim v = (case v of VStr s \<Rightarrow> s | _ \<Rightarrow> [])"

definition string_elems :: "gval list \<Rightarrow> string list" where
  "string_elems vs = concat (map (\<lambda>v. case v of VStr s \<Rightarrow> [s] | _ \<Rightarrow> []) vs)"

definition audience_list :: "gval \<Rightarrow> string list" where
  "audience_list v = (case v of VStr s \<Rightarrow> [s] | VArr vs \<Rightarrow> string_elems vs | _ \<Rightarrow> [])"

section \<open>Token requests (tokenrequest.go)\<close>

definition grant_authorization_code :: string where "grant_authorization_code = ''authorization_code''"
definition grant_client_credentials :: string where "grant_client_credentials = ''client_credentials''"
definition grant_password :: string where "grant_password = ''password''"
definition grant_refresh_token :: string where "grant_refresh_token = ''refresh_token''"
definition grant_jwt_bearer :: string where
  "grant_jwt_bearer = ''urn:ietf:params:oauth:grant-type:jwt-bearer''"
definition grant_token_exchange :: string where
  "grant_token_exchange = ''urn:ietf:params:oauth:grant-type:token-exchange''"
definition client_assertion_jwt_bearer :: string where
  "client_assertion_jwt_bearer = ''urn:ietf:params:oauth:client-assertion-type:jwt-bearer''"

lemmas grant_defs = grant_authorization_code_def grant_client_credentials_def grant_password_def
  grant_refresh_token_def grant_jwt_bearer_def grant_token_exchange_def

datatype auth_method = AuthNone | AuthBasic | AuthPrivateKeyJWT

definition oidc_scopes :: "string list" where
  "oidc_scopes = [''openid'', ''profile'', ''email'', ''address'', ''offline_access'']"

record token_request =
  tr_grant_type :: string
  tr_client_id :: string
  tr_auth_method :: auth_method
  tr_form :: url_values
  tr_scope :: string
  tr_scope_list :: "string list"
  tr_code :: string
  tr_redirect_uri :: string
  tr_code_verifier :: string
  tr_refresh_token :: string
  tr_username :: string
  tr_password :: string
  tr_assertion :: string
  tr_subject_token :: string
  tr_subject_token_type :: string
  tr_audience :: "string list"

definition scopes_without_oidc :: "token_request \<Rightarrow> string list" where
  "scopes_without_oidc t = filter (\<lambda>s. s \<notin> set oidc_scopes) (tr_scope_list t)"

definition resolve_client_auth :: "request \<Rightarrow> url_values \<Rightarrow> string \<times> auth_method" where
  "resolve_client_auth r form =
     (case basic_auth r of
        Some (u, _) \<Rightarrow> ((case query_unescape u of Some d \<Rightarrow> d | None \<Rightarrow> u), AuthBasic)
      | None \<Rightarrow>
          if values_get form ''client_assertion_type'' = client_assertion_jwt_bearer \<and>
             values_get form ''client_assertion'' \<noteq> []
          then (values_get form ''client_id'', AuthPrivateKeyJWT)
          else (values_get form ''client_id'', AuthNone))"

definition client_auth_error :: "string \<Rightarrow> string \<Rightarrow> auth_method \<Rightarrow> oauth_error option" where
  "client_auth_error grant client_id m =
     (if grant = grant_client_credentials then
        (if m = AuthNone then Some (invalid_client ''client authentication failed: missing client authentication'') else None)
      else if grant = grant_password then
        (if m = AuthNone then Some (invalid_client ''client authentication failed'') else None)
      else if client_id = [] then Some (invalid_client ''client authentication failed'')
      else None)"

definition require_param :: "string \<Rightarrow> string \<Rightarrow> 'a \<Rightarrow> oauth_error + 'a" where
  "require_param name v x = (if v = [] then Inl (missing_or_empty_parameter name) else Inr x)"

definition fill_token_request :: "url_values \<Rightarrow> token_request \<Rightarrow> oauth_error + token_request" where
  "fill_token_request form tr =
     (let get = values_get form; grant = tr_grant_type tr in
      if grant = grant_authorization_code then
        require_param ''code'' (get ''code'')
          (tr\<lparr>tr_code := get ''code'', tr_redirect_uri := get ''redirect_uri'',
              tr_code_verifier := get ''code_verifier''\<rparr>)
      else if grant = grant_refresh_token then
        require_param ''refresh_token'' (get ''refresh_token'') (tr\<lparr>tr_refresh_token := get ''refresh_token''\<rparr>)
      else if grant = grant_password then
        ebind (require_param ''username'' (get ''username'') ())
          (\<lambda>_. require_param ''password'' (get ''password'')
             (tr\<lparr>tr_username := get ''username'', tr_password := get ''password''\<rparr>))
      else if grant = grant_jwt_bearer then
        require_param ''assertion'' (get ''assertion'') (tr\<lparr>tr_assertion := get ''assertion''\<rparr>)
      else if grant = grant_token_exchange then
        require_param ''subject_token'' (get ''subject_token'')
          (tr\<lparr>tr_subject_token := get ''subject_token'', tr_subject_token_type := get ''subject_token_type'',
              tr_audience := values_all form ''aud''\<rparr>)
      else Inr tr)"

definition empty_token_request :: token_request where
  "empty_token_request = \<lparr>tr_grant_type = [], tr_client_id = [], tr_auth_method = AuthNone, tr_form = [],
     tr_scope = [], tr_scope_list = [], tr_code = [], tr_redirect_uri = [], tr_code_verifier = [],
     tr_refresh_token = [], tr_username = [], tr_password = [], tr_assertion = [], tr_subject_token = [],
     tr_subject_token_type = [], tr_audience = []\<rparr>"

definition parse_token_request :: "request \<Rightarrow> oauth_error + token_request" where
  "parse_token_request r =
     (let form = request_form r;
          grant = trim_space (values_get form ''grant_type'');
          (client_id, m) = resolve_client_auth r form
      in if grant = [] then Inl (missing_parameter ''grant_type'')
         else case client_auth_error grant client_id m of
                Some e \<Rightarrow> Inl e
              | None \<Rightarrow>
                  fill_token_request form
                    (empty_token_request\<lparr>tr_grant_type := grant, tr_client_id := client_id, tr_auth_method := m,
                       tr_form := form, tr_scope := values_get form ''scope'',
                       tr_scope_list := str_fields (values_get form ''scope'')\<rparr>))"

text \<open>\<open>now\<close> is \<open>time.Now().Unix()\<close>. \<open>exp - now\<close> wraps around at 64 bits.\<close>

definition validate_client_assertion ::
  "(string \<Rightarrow> claims option) \<Rightarrow> int \<Rightarrow> request \<Rightarrow> token_request \<Rightarrow> string \<Rightarrow> oauth_error option" where
  "validate_client_assertion unmarshal now r tr issuer =
     (if tr_auth_method tr = AuthNone then Some (invalid_request ''invalid request'')
      else if tr_auth_method tr = AuthBasic then None
      else case parse_jwt_claims unmarshal (values_get (tr_form tr) ''client_assertion'') of
             None \<Rightarrow> Some (invalid_request ''request must contain a valid client_assertion.'')
           | Some c \<Rightarrow>
               let aud = audience_list (claim_get c ''aud'')
               in if 120 < wrap64 (numeric_date (claim_get c ''exp'') - now)
                  then Some (invalid_request ''invalid client_assertion: expiry must be less than 120 seconds'')
                  else if string_claim (claim_get c ''iss'') \<noteq> tr_client_id tr
                  then Some (invalid_request (''invalid client_assertion: issuer must match client_id '' @
                         [CHR 0x27] @ tr_client_id tr @ [CHR 0x27]))
                  else if string_claim (claim_get c ''sub'') \<noteq> tr_client_id tr
                  then Some (invalid_request (''invalid client_assertion: subject must match client_id '' @
                         [CHR 0x27] @ tr_client_id tr @ [CHR 0x27]))
                  else if aud = [] then Some (invalid_request ''invalid client_assertion: audience cannot be empty'')
                  else if 1 < length aud
                  then Some (invalid_request ''invalid client_assertion: audience must not contain more than one element'')
                  else if hd aud \<noteq> issuer \<and> hd aud \<noteq> proxy_aware_string r
                  then Some (invalid_request (''invalid client_assertion: audience should be '' @ issuer))
                  else None)"

end
