(* ===== verification/Entra_Keys.thy ===== *)
theory Entra_Keys
  imports Entra_Types Oauth2
begin

text \<open>
  Compact JWTs and the signing keys of Entra mode: \<open>SignJWT\<close> and \<open>PublicJWKSOf\<close> of
  internal/token/sign.go, the key set of internal/entra/keys.go and \<open>Verify\<close> of verify.go.

  The cryptographic primitives and the JSON decoder are arguments, collected in the record
  \<open>crypto\<close>; a private key is named by a number. The theorems that need it assume that a
  signature verifies under its own key and that a decoded document is the encoded one.
\<close>

record crypto =
  cr_sha1 :: "string \<Rightarrow> string"
  cr_sha256 :: "string \<Rightarrow> string"
  cr_sha384 :: "string \<Rightarrow> string"
  cr_sha512 :: "string \<Rightarrow> string"
  cr_sign :: "nat \<Rightarrow> string \<Rightarrow> string"
  cr_verify :: "nat \<Rightarrow> string \<Rightarrow> string \<Rightarrow> bool"
  cr_modulus :: "nat \<Rightarrow> string"
  cr_ec_point :: "nat \<Rightarrow> string \<times> string \<times> string"
  cr_marshal :: "claims \<Rightarrow> string"
  cr_unmarshal :: "string \<Rightarrow> claims option"

section \<open>Signing (token/sign.go)\<close>

record signing_key =
  sk_kty :: string
  sk_kid :: string
  sk_alg :: string
  sk_use :: string
  sk_private :: nat

text \<open>\<open>GenerateSigningKey(kid, "RS256")\<close>; the fresh private key is an argument.\<close>

definition rs256_key :: "string \<Rightarrow> nat \<Rightarrow> signing_key" where
  "rs256_key kid rsa = \<lparr>sk_kty = ''RSA'', sk_kid = kid, sk_alg = ''RS256'', sk_use = ''sig'', sk_private = rsa\<rparr>"

definition jwt_header :: "string \<Rightarrow> string \<Rightarrow> string \<Rightarrow> string" where
  "jwt_header kid typ alg =
     ''{'' @ json_quote ''kid'' @ '':'' @ json_quote kid @ '','' @ json_quote ''typ'' @ '':'' @ json_quote typ @
     '','' @ json_quote ''alg'' @ '':'' @ json_quote alg @ ''}''"

text \<open>\<open>hashFor\<close>: the digest an algorithm signs.\<close>

definition hash_digest :: "crypto \<Rightarrow> string \<Rightarrow> string \<Rightarrow> string" where
  "hash_digest k alg input =
     (if alg = ''RS256'' \<or> alg = ''ES256'' then cr_sha256 k input
      else if alg = ''RS384'' \<or> alg = ''ES384'' then cr_sha384 k input
      else cr_sha512 k input)"

definition sign_jwt :: "crypto \<Rightarrow> signing_key \<Rightarrow> claims \<Rightarrow> string \<Rightarrow> string" where
  "sign_jwt k key c typ =
     (let input = b64_encode (jwt_header (sk_kid key) typ (sk_alg key)) @ ''.'' @ b64_encode (cr_marshal k c)
      in input @ ''.'' @ b64_encode (cr_sign k (sk_private key) (hash_digest k (sk_alg key) input)))"

definition public_jwk :: "crypto \<Rightarrow> signing_key \<Rightarrow> gval" where
  "public_jwk k key =
     (if sk_kty key = ''EC'' then
        (case cr_ec_point k (sk_private key) of (crv, x, y) \<Rightarrow>
           VObj [(''kty'', VStr ''EC''), (''use'', VStr (sk_use key)), (''crv'', VStr crv), (''kid'', VStr (sk_kid key)),
             (''x'', VStr (b64_encode x)), (''y'', VStr (b64_encode y)), (''alg'', VStr (sk_alg key))])
      else VObj [(''kty'', VStr ''RSA''), (''e'', VStr ''AQAB''), (''use'', VStr (sk_use key)),
     (''kid'', VStr (sk_kid key)), (''alg'', VStr (sk_alg key)), (''n'', VStr (b64_encode (cr_modulus k (sk_private key))))])"

definition public_jwks_of :: "crypto \<Rightarrow> signing_key list \<Rightarrow> string" where
  "public_jwks_of k keys = json_render (VObj [(''keys'', VArr (map (public_jwk k) keys))])"

section \<open>The key set (keys.go)\<close>

record key_set =
  ks_keys :: "signing_key list"
  ks_seq :: nat

definition ks_rotate :: "nat \<Rightarrow> key_set \<Rightarrow> string \<times> key_set" where
  "ks_rotate rsa ks =
     (let n = ks_seq ks + 1;
          key = rs256_key (''entra-'' @ show_nat n) rsa;
          keys = ks_keys ks @ [key];
          kept = (if 2 < length keys then drop (length keys - 2) keys else keys)
      in (sk_kid key, \<lparr>ks_keys = kept, ks_seq = n\<rparr>))"

definition new_key_set :: "nat \<Rightarrow> key_set" where
  "new_key_set rsa = snd (ks_rotate rsa \<lparr>ks_keys = [], ks_seq = 0\<rparr>)"

definition ks_active :: "key_set \<Rightarrow> signing_key" where
  "ks_active ks = last (ks_keys ks)"

definition ks_active_kid :: "key_set \<Rightarrow> string" where
  "ks_active_kid ks = sk_kid (ks_active ks)"

definition ks_published_kids :: "key_set \<Rightarrow> string list" where
  "ks_published_kids ks = map sk_kid (ks_keys ks)"

definition ks_sign :: "crypto \<Rightarrow> key_set \<Rightarrow> claims \<Rightarrow> string" where
  "ks_sign k ks c = sign_jwt k (ks_active ks) c ''JWT''"

definition ks_jwks :: "crypto \<Rightarrow> key_set \<Rightarrow> string" where
  "ks_jwks k ks = public_jwks_of k (ks_keys ks)"

section \<open>Verification (verify.go)\<close>

definition ks_by_kid :: "key_set \<Rightarrow> string \<Rightarrow> signing_key option" where
  "ks_by_kid ks kid = find (\<lambda>key. sk_kid key = kid) (ks_keys ks)"

definition ks_verify :: "crypto \<Rightarrow> key_set \<Rightarrow> string \<Rightarrow> (claims \<times> claims) option" where
  "ks_verify k ks jwt =
     (case str_split jwt ''.'' of
        [p0, p1, p2] \<Rightarrow>
          (case Option.bind (b64_decode p0) (cr_unmarshal k) of
             None \<Rightarrow> None
           | Some header \<Rightarrow>
               if string_claim (claim_get header ''alg'') \<noteq> ''RS256'' then None
               else case ks_by_kid ks (string_claim (claim_get header ''kid'')) of
                      None \<Rightarrow> None
                    | Some key \<Rightarrow>
                        (case b64_decode p2 of
                           None \<Rightarrow> None
                         | Some sig \<Rightarrow>
                             if \<not> cr_verify k (sk_private key) (cr_sha256 k (p0 @ ''.'' @ p1)) sig then None
                             else map_option (Pair header) (Option.bind (b64_decode p1) (cr_unmarshal k))))
      | _ \<Rightarrow> None)"

section \<open>Laws\<close>

text \<open>The documented behaviour the theorems rely on.\<close>

definition sound_signature :: "crypto \<Rightarrow> bool" where
  "sound_signature k \<longleftrightarrow> (\<forall>rsa d. cr_verify k rsa d (cr_sign k rsa d))"

definition reads_header :: "crypto \<Rightarrow> string \<Rightarrow> bool" where
  "reads_header k kid \<longleftrightarrow>
     (\<exists>h. cr_unmarshal k (jwt_header kid ''JWT'' ''RS256'') = Some h \<and>
          claim_get h ''alg'' = VStr ''RS256'' \<and> claim_get h ''kid'' = VStr kid)"

lemma b64_no_dot: "CHR ''.'' \<notin> set (b64_encode s)"
proof -
  have a: "CHR ''.'' \<notin> set b64_url" "length b64_url = 64" by code_simp+
  have "length g = 6 \<Longrightarrow> b64_url ! bits_nat g \<in> set b64_url" for g
    using bits_nat_less[of g] a(2) by (intro nth_mem) simp
  with a(1) show ?thesis unfolding b64_encode_def by (auto dest!: length_chunk)
qed

lemma split_jwt: "str_split (b64_encode a @ ''.'' @ b64_encode b @ ''.'' @ b64_encode c) ''.'' = [b64_encode a, b64_encode b, b64_encode c]"
proof -
  have "str_split (str_join [b64_encode a, b64_encode b, b64_encode c] ''.'') ''.'' = [b64_encode a, b64_encode b, b64_encode c]"
    by (rule str_split_join) (simp_all add: b64_no_dot)
  then show ?thesis by simp
qed

lemma verify_sign_key:
  assumes "sound_signature k" and "reads_header k (sk_kid key)" and "sk_alg key = ''RS256''"
    and "ks_by_kid ks (sk_kid key) = Some key" and "cr_unmarshal k (cr_marshal k c) = Some c'"
  shows "\<exists>h. ks_verify k ks (sign_jwt k key c ''JWT'') = Some (h, c')"
proof -
  from assms(2) obtain h where h: "cr_unmarshal k (jwt_header (sk_kid key) ''JWT'' ''RS256'') = Some h"
    "claim_get h ''alg'' = VStr ''RS256''" "claim_get h ''kid'' = VStr (sk_kid key)" by (auto simp: reads_header_def)
  let ?p0 = "b64_encode (jwt_header (sk_kid key) ''JWT'' (sk_alg key))" and ?p1 = "b64_encode (cr_marshal k c)"
  have "sign_jwt k key c ''JWT'' = ?p0 @ ''.'' @ ?p1 @ ''.'' @ b64_encode (cr_sign k (sk_private key) (hash_digest k (sk_alg key) (?p0 @ ''.'' @ ?p1)))"
    by (simp add: sign_jwt_def Let_def)
  then have "str_split (sign_jwt k key c ''JWT'') ''.'' =
      [?p0, ?p1, b64_encode (cr_sign k (sk_private key) (hash_digest k (sk_alg key) (?p0 @ ''.'' @ ?p1)))]"
    by (simp only: split_jwt)
  then show ?thesis
    using assms h by (simp add: ks_verify_def b64_decode_encode string_claim_def sound_signature_def hash_digest_def)
qed

text \<open>The invariant of the key set: one or two keys, numbered consecutively up to the counter.\<close>

definition key_set_wf :: "key_set \<Rightarrow> bool" where
  "key_set_wf ks \<longleftrightarrow> ks_seq ks \<ge> 1 \<and>
     map sk_kid (ks_keys ks) =
       map (\<lambda>n. ''entra-'' @ show_nat n) (if ks_seq ks = 1 then [1] else [ks_seq ks - 1, ks_seq ks]) \<and>
     (\<forall>key\<in>set (ks_keys ks). sk_alg key = ''RS256'')"

lemma key_set_wf_new: "key_set_wf (new_key_set rsa)"
  by (simp add: new_key_set_def ks_rotate_def key_set_wf_def rs256_key_def Let_def)

lemma key_set_two:
  assumes "key_set_wf ks"
  shows "(\<exists>b. ks_keys ks = [b] \<and> ks_seq ks = 1) \<or> (\<exists>a b. ks_keys ks = [a, b] \<and> ks_seq ks > 1)"
  using assms by (auto simp: key_set_wf_def map_eq_Cons_conv split: if_splits)

lemma key_set_wf_rotate: "key_set_wf ks \<Longrightarrow> key_set_wf (snd (ks_rotate rsa ks))"
  using key_set_two[of ks]
  by (auto simp: key_set_wf_def ks_rotate_def rs256_key_def Let_def split: if_splits)

lemma digit_inj: "n < 10 \<Longrightarrow> m < 10 \<Longrightarrow> ''0123456789'' ! n = ''0123456789'' ! m \<Longrightarrow> n = (m :: nat)"
  by (rule nth_eq_iff_index_eq[THEN iffD1, of "''0123456789''"]) simp_all

lemma show_nat_inj: "show_nat n = show_nat m \<Longrightarrow> n = m"
proof (induction n arbitrary: m rule: less_induct)
  case (less n)
  have ne: "show_nat k \<noteq> []" for k by (subst show_nat.simps) simp
  have small: "k < 10 \<Longrightarrow> show_nat k = [''0123456789'' ! k]" for k by (subst show_nat.simps) simp
  have big: "\<not> k < 10 \<Longrightarrow> show_nat k = show_nat (k div 10) @ [''0123456789'' ! (k mod 10)]" for k
    by (subst show_nat.simps) simp
  show ?case
  proof (cases "n < 10"; cases "m < 10")
    assume "n < 10" "m < 10"
    then show ?thesis using less.prems small digit_inj by simp
  next
    assume "n < 10" "\<not> m < 10"
    then show ?thesis using less.prems small[of n] big[of m] ne[of "m div 10"] by simp
  next
    assume "\<not> n < 10" "m < 10"
    then show ?thesis using less.prems small[of m] big[of n] ne[of "n div 10"] by simp
  next
    assume a: "\<not> n < 10" "\<not> m < 10"
    then have "show_nat (n div 10) = show_nat (m div 10)" "''0123456789'' ! (n mod 10) = ''0123456789'' ! (m mod 10)"
      using less.prems big by simp_all
    then have "n div 10 = m div 10" "n mod 10 = m mod 10"
      using less.IH[of "n div 10"] a(1) digit_inj[of "n mod 10" "m mod 10"] by simp_all
    then show ?thesis by (metis div_mult_mod_eq)
  qed
qed

text \<open>The active key is the last one, and it is the only key with its identifier.\<close>

lemma key_set_active:
  assumes "key_set_wf ks"
  obtains xs b where "ks_keys ks = xs @ [b]" "ks_active ks = b" "ks_active_kid ks = sk_kid b"
    "sk_alg b = ''RS256''" "sk_kid b = ''entra-'' @ show_nat (ks_seq ks)" "ks_by_kid ks (sk_kid b) = Some b"
    "xs = [] \<or> (\<exists>a. xs = [a])"
proof -
  obtain xs b where b: "ks_keys ks = xs @ [b]" "sk_kid b = ''entra-'' @ show_nat (ks_seq ks)"
      "xs = [] \<or> (\<exists>a. xs = [a] \<and> sk_kid a = ''entra-'' @ show_nat (ks_seq ks - 1) \<and> ks_seq ks > 1)"
    using key_set_two[OF assms] assms by (auto simp: key_set_wf_def split: if_splits)
  have ne: "show_nat (ks_seq ks) \<noteq> show_nat (ks_seq ks - 1)" if "ks_seq ks > 1"
    using show_nat_inj[of "ks_seq ks" "ks_seq ks - 1"] that by auto
  have "ks_by_kid ks (sk_kid b) = Some b" using b ne by (auto simp: ks_by_kid_def)
  moreover have "sk_alg b = ''RS256''" using assms b(1) by (auto simp: key_set_wf_def)
  moreover have "ks_active ks = b" "ks_active_kid ks = sk_kid b"
    using b(1) by (simp_all add: ks_active_kid_def ks_active_def)
  moreover have "xs = [] \<or> (\<exists>a. xs = [a])" using b(3) by blast
  ultimately show ?thesis using b(1,2) that by blast
qed

lemma ks_sign_verifies:
  assumes "key_set_wf ks" and "sound_signature k" and "reads_header k (ks_active_kid ks)"
    and "cr_unmarshal k (cr_marshal k c) = Some c'"
  shows "\<exists>h. ks_verify k ks (ks_sign k ks c) = Some (h, c')"
proof -
  obtain xs b where b: "ks_active ks = b" "ks_active_kid ks = sk_kid b" "sk_alg b = ''RS256''" "ks_by_kid ks (sk_kid b) = Some b"
    using key_set_active[OF assms(1)] .
  show ?thesis using verify_sign_key[OF assms(2) _ b(3,4) assms(4)] assms(3) b(1,2) by (simp add: ks_sign_def)
qed

text \<open>C20: signed_token_verifies. In every key set reached by rotations, a token signed now verifies
  with the claims that were signed, it still verifies after one rotation, and after two
  rotations its key is no longer published.\<close>

theorem signed_token_verifies:
  assumes "key_set_wf ks" and "sound_signature k" and "reads_header k (ks_active_kid ks)"
    and "cr_unmarshal k (cr_marshal k c) = Some c'"
  shows "map_option snd (ks_verify k ks (ks_sign k ks c)) = Some c' \<and>
    map_option snd (ks_verify k (snd (ks_rotate r1 ks)) (ks_sign k ks c)) = Some c' \<and>
    ks_by_kid (snd (ks_rotate r2 (snd (ks_rotate r1 ks)))) (ks_active_kid ks) = None \<and>
    ks_published_kids (snd (ks_rotate r1 ks)) = [ks_active_kid ks, fst (ks_rotate r1 ks)]"
proof -
  let ?ks1 = "snd (ks_rotate r1 ks)"
  obtain xs b where b: "ks_keys ks = xs @ [b]" and act: "ks_active ks = b" "ks_active_kid ks = sk_kid b"
    and alg: "sk_alg b = ''RS256''" and kid: "sk_kid b = ''entra-'' @ show_nat (ks_seq ks)" and xs: "xs = [] \<or> (\<exists>a. xs = [a])"
    using key_set_active[OF assms(1)] .
  have keys1: "ks_keys ?ks1 = [b, rs256_key (''entra-'' @ show_nat (Suc (ks_seq ks))) r1]" "ks_seq ?ks1 = Suc (ks_seq ks)"
    using b xs by (auto simp: ks_rotate_def Let_def)
  then have k1: "ks_by_kid ?ks1 (sk_kid b) = Some b" by (simp add: ks_by_kid_def)
  have keys2: "ks_keys (snd (ks_rotate r2 ?ks1)) =
      [rs256_key (''entra-'' @ show_nat (Suc (ks_seq ks))) r1, rs256_key (''entra-'' @ show_nat (Suc (Suc (ks_seq ks)))) r2]"
    using keys1 by (simp add: ks_rotate_def[of r2] Let_def)
  have "show_nat (Suc (ks_seq ks)) \<noteq> show_nat (ks_seq ks)" "show_nat (Suc (Suc (ks_seq ks))) \<noteq> show_nat (ks_seq ks)"
    using show_nat_inj by fastforce+
  then have k2: "ks_by_kid (snd (ks_rotate r2 ?ks1)) (sk_kid b) = None"
    by (simp add: ks_by_kid_def keys2 rs256_key_def kid)
  have h: "reads_header k (sk_kid b)" using assms(3) act by simp
  from ks_sign_verifies[OF assms] verify_sign_key[OF assms(2) h alg k1 assms(4)]
  have "map_option snd (ks_verify k ks (ks_sign k ks c)) = Some c'"
    "map_option snd (ks_verify k ?ks1 (ks_sign k ks c)) = Some c'"
    by (auto simp: ks_sign_def act)
  moreover have "fst (ks_rotate r1 ks) = ''entra-'' @ show_nat (Suc (ks_seq ks))"
    by (simp add: ks_rotate_def rs256_key_def Let_def)
  ultimately show ?thesis using k2 keys1 by (simp add: act ks_published_kids_def rs256_key_def)
qed

text \<open>Concrete primitives for the witnesses: a signature names its key and the signed text.\<close>

definition toy_crypto :: "string \<Rightarrow> claims \<Rightarrow> crypto" where
  "toy_crypto kid c = \<lparr>cr_sha1 = (\<lambda>s. s), cr_sha256 = (\<lambda>s. s), cr_sha384 = (\<lambda>s. s), cr_sha512 = (\<lambda>s. s),
     cr_sign = (\<lambda>rsa d. show_nat rsa @ '':'' @ d), cr_verify = (\<lambda>rsa d s. s = show_nat rsa @ '':'' @ d),
     cr_modulus = show_nat, cr_ec_point = (\<lambda>_. ([], [], [])), cr_marshal = (\<lambda>_. ''claims''),
     cr_unmarshal = (\<lambda>s. if s = ''claims'' then Some c
        else if s = jwt_header kid ''JWT'' ''RS256'' then Some [(''alg'', VStr ''RS256''), (''kid'', VStr kid)] else None)\<rparr>"

lemma toy_crypto_sound: "sound_signature (toy_crypto kid c)" "cr_unmarshal (toy_crypto kid c) (cr_marshal (toy_crypto kid c) x) = Some c"
  by (simp_all add: sound_signature_def toy_crypto_def)

lemma toy_crypto_header: "reads_header (toy_crypto kid c) kid"
  by (simp add: reads_header_def toy_crypto_def claim_get_def map_get_def jwt_header_def)

theorem signed_token_verifies_witness:
  "map_option snd (ks_verify (toy_crypto ''entra-1'' [(''sub'', VStr ''x'')]) (snd (ks_rotate 8 (new_key_set 7)))
     (ks_sign (toy_crypto ''entra-1'' [(''sub'', VStr ''x'')]) (new_key_set 7) [(''sub'', VStr ''x'')]))
   = Some [(''sub'', VStr ''x'')]"
proof -
  have kid: "ks_active_kid (new_key_set 7) = ''entra-1''" by code_simp
  have h: "reads_header (toy_crypto ''entra-1'' [(''sub'', VStr ''x'')]) (ks_active_kid (new_key_set 7))"
    unfolding kid by (rule toy_crypto_header)
  from signed_token_verifies[OF key_set_wf_new toy_crypto_sound(1) h toy_crypto_sound(2), where ?r1.0 = 8]
  show ?thesis by blast
qed

end
