(* ===== verification/Entra_Claims.thy ===== *)
theory Entra_Claims
  imports Entra_Keys Entra_Store_Laws
begin

text \<open>
  The claim builders of Entra mode (internal/entra/claims.go, \<open>AppOnlyClaims\<close> of appcreds.go)
  and the configuration getters they use (graphconfig.go). A claim set is an association list
  with the semantics of \<open>map[string]any\<close>.

  \<open>now\<close> is a time in nanoseconds since the epoch; \<open>Unix()\<close> is its floor in seconds. The random
  \<open>uti\<close> is an argument.
\<close>

section \<open>Getters (graphconfig.go)\<close>

definition graph_on :: "config \<Rightarrow> bool" where
  "graph_on c \<longleftrightarrow> (case c_graph c of None \<Rightarrow> True | Some g \<Rightarrow>
     (case g_enabled g of None \<Rightarrow> True | Some b \<Rightarrow> b))"

definition user_info_on :: "config \<Rightarrow> bool" where
  "user_info_on c \<longleftrightarrow> graph_on c \<and> (case c_graph c of None \<Rightarrow> True | Some g \<Rightarrow>
     (case g_user_info g of None \<Rightarrow> True | Some b \<Rightarrow> b))"

definition app_only_on :: "config \<Rightarrow> bool" where
  "app_only_on c \<longleftrightarrow> graph_on c \<and> (case c_graph c of None \<Rightarrow> False | Some g \<Rightarrow> g_app_only g)"

definition graph_base :: "config \<Rightarrow> string" where
  "graph_base c = (case c_graph c of None \<Rightarrow> default_graph_base_path
     | Some g \<Rightarrow> if g_base_path g = [] then default_graph_base_path else g_base_path g)"

definition overage_self_hosted :: "config \<Rightarrow> bool" where
  "overage_self_hosted c \<longleftrightarrow> graph_on c \<and>
     (case c_graph c of None \<Rightarrow> True | Some g \<Rightarrow> g_overage_endpoint g \<noteq> overage_microsoft)"

definition page_size :: "config \<Rightarrow> int \<Rightarrow> int" where
  "page_size c requested0 =
     (let dflt = (case c_graph c of Some g \<Rightarrow> if g_default_page_size g > 0 then g_default_page_size g
                  else default_graph_page_size | None \<Rightarrow> default_graph_page_size);
          cap = (case c_graph c of Some g \<Rightarrow> if g_max_page_size g > 0 then g_max_page_size g
                 else default_graph_max_page_size | None \<Rightarrow> default_graph_max_page_size);
          requested = (if requested0 \<le> 0 then dflt else requested0)
      in if requested > cap then cap else requested)"

definition clock_skew :: "config \<Rightarrow> int" where
  "clock_skew c = (case c_graph c of None \<Rightarrow> default_graph_clock_skew
     | Some g \<Rightarrow> (case g_clock_skew g of None \<Rightarrow> default_graph_clock_skew | Some s \<Rightarrow> s))"

section \<open>Claims (claims.go)\<close>

definition graph_app_id :: string where "graph_app_id = ''00000003-0000-0000-c000-000000000000''"

record token_input =
  in_graph_base :: string
  in_overage_self :: bool
  in_origin :: string
  in_base_path :: string
  in_tenant :: tenant
  in_user :: user
  in_client_id :: string
  in_nonce :: string
  in_scopes :: "string list"
  in_now :: int
  in_expiry :: int
  in_mapped :: "(string \<times> string) list"

definition issuer :: "string \<Rightarrow> string \<Rightarrow> string \<Rightarrow> string" where
  "issuer origin base_path tid = origin @ ''/'' @ base_path @ ''/'' @ tid @ ''/v2.0''"

definition pairwise_sub :: "crypto \<Rightarrow> string \<Rightarrow> string \<Rightarrow> string" where
  "pairwise_sub k client_id oid = b64_encode (cr_sha256 k (client_id @ '':'' @ oid))"

definition nanos :: int where "nanos = 1000000000"

definition unix_of :: "int \<Rightarrow> int" where
  "unix_of t = t div nanos"

text \<open>\<open>time.Duration(n) * time.Second\<close> wraps around at 64 bits.\<close>

definition seconds :: "int \<Rightarrow> int" where
  "seconds n = wrap64 (n * nanos)"

definition overage_endpoint :: "token_input \<Rightarrow> string" where
  "overage_endpoint inp =
     (let tail = ''/v1.0/users/'' @ u_oid (in_user inp) @ ''/getMemberObjects''
      in if \<not> in_overage_self inp \<or> in_origin inp = [] \<or> in_base_path inp = [] \<or> in_graph_base inp = []
         then ''https://graph.microsoft.com'' @ tail
         else in_origin inp @ ''/'' @ in_base_path inp @ ''/'' @ in_graph_base inp @ tail)"

definition add_groups :: "crypto \<Rightarrow> token_input \<Rightarrow> claims \<Rightarrow> claims" where
  "add_groups k inp c =
     (let t = in_tenant inp; groups = member_groups (in_user inp)
      in if groups = [] then c
         else if int (length groups) > t_group_limit t then
           map_put ''_claim_sources'' (VMap [(''src1'', VMap [(''endpoint'', VStr (overage_endpoint inp))])])
             (map_put ''_claim_names'' (VMap [(''groups'', VStr ''src1'')]) c)
         else map_put ''groups''
                (VStrs (map (\<lambda>g. if t_group_claim_format t = format_object_id
                                 then group_object_id (cr_sha1 k) (t_tid t) g else g) groups)) c)"

definition put_if :: "bool \<Rightarrow> string \<Rightarrow> gval \<Rightarrow> claims \<Rightarrow> claims" where
  "put_if b name v c = (if b then map_put name v c else c)"

definition base_claims :: "crypto \<Rightarrow> string \<Rightarrow> token_input \<Rightarrow> claims" where
  "base_claims k uti inp =
     (let now = unix_of (in_now inp); t = in_tenant inp; u = in_user inp;
          c0 = [(''iss'', VStr (issuer (in_origin inp) (in_base_path inp) (t_tid t))),
                (''aud'', VStr (in_client_id inp)),
                (''iat'', VInt now), (''nbf'', VInt now),
                (''exp'', VInt (unix_of (in_now inp + seconds (in_expiry inp)))),
                (''tid'', VStr (t_tid t)), (''oid'', VStr (u_oid u)),
                (''sub'', VStr (pairwise_sub k (in_client_id inp) (u_oid u))),
                (''ver'', VStr ''2.0''), (''name'', VStr (u_name u)),
                (''preferred_username'', VStr (preferred_username t u)),
                (''uti'', VStr (take 22 uti))];
          c1 = put_if (u_email u \<noteq> [] \<and> ''email'' \<in> set (in_scopes inp)) ''email'' (VStr (u_email u)) c0;
          c2 = (case u_email_verified u of Some b \<Rightarrow> map_put ''xms_edov'' (VBool b) c1 | None \<Rightarrow> c1);
          c3 = put_if (u_amr u \<noteq> []) ''amr'' (VStrs (u_amr u)) c2;
          c4 = put_if (u_given_name u \<noteq> []) ''given_name'' (VStr (u_given_name u)) c3;
          c5 = put_if (u_surname u \<noteq> []) ''family_name'' (VStr (u_surname u)) c4;
          c6 = put_if (u_roles u \<noteq> []) ''roles'' (VStrs (u_roles u)) c5;
          c7 = put_if (u_wids u \<noteq> []) ''wids'' (VStrs (u_wids u)) c6
      in add_groups k inp c7)"

definition id_token_claims :: "crypto \<Rightarrow> string \<Rightarrow> token_input \<Rightarrow> claims" where
  "id_token_claims k uti inp =
     fold (\<lambda>(name, v). map_put name (VStr v)) (in_mapped inp)
       (put_if (in_nonce inp \<noteq> []) ''nonce'' (VStr (in_nonce inp)) (base_claims k uti inp))"

definition last_slash :: "string \<Rightarrow> nat option" where
  "last_slash s = last_index (CHR ''/'') s"

definition strip_scope_prefix :: "string \<Rightarrow> string" where
  "strip_scope_prefix s =
     (case str_index s ''://'' of
        None \<Rightarrow> s
      | Some i \<Rightarrow> (case last_slash s of
                    Some j \<Rightarrow> if i + 2 < j then drop (Suc j) s else s
                  | None \<Rightarrow> s))"

definition grant_only_scopes :: "string list" where
  "grant_only_scopes = [''offline_access'']"

definition scope_value :: "string list \<Rightarrow> string" where
  "scope_value scopes =
     str_join (filter (\<lambda>n. n \<noteq> []) (map strip_scope_prefix (filter (\<lambda>s. s \<notin> set grant_only_scopes) scopes))) '' ''"

definition access_token_claims :: "crypto \<Rightarrow> string \<Rightarrow> token_input \<Rightarrow> claims" where
  "access_token_claims k uti inp =
     map_put ''appid'' (VStr (in_client_id inp))
       (map_put ''azp'' (VStr (in_client_id inp))
         (map_put ''scp'' (VStr (scope_value (in_scopes inp)))
           (map_put ''aud'' (VStr graph_app_id) (base_claims k uti inp))))"

text \<open>
  \<open>claimSources[...]\<close> of an unknown source is a nil function; \<open>normalize_claim\<close> rejects those.
  The tenant may be nil here; no claim source reads it, so any value stands for nil.
\<close>

definition nil_tenant :: tenant where
  "nil_tenant = \<lparr>t_tid = [], t_name = [], t_domains = [], t_group_claim_format = [], t_group_limit = 0,
     t_consent_required = False, t_groups = []\<rparr>"

definition mapped_claims :: "config \<Rightarrow> string \<Rightarrow> user \<Rightarrow> (string \<times> string) list" where
  "mapped_claims c client_id u =
     (let t = (case tenant_by_id c (u_tid u) of Some t \<Rightarrow> t | None \<Rightarrow> nil_tenant)
      in fold (\<lambda>m out. let v = (case map_of claim_sources (to_lower (cm_source m)) of Some f \<Rightarrow> f t u | None \<Rightarrow> [])
                        in if v = [] then out else map_put (cm_name m) v out)
           (concat (map a_claims (filter (\<lambda>a. a_client_id a = client_id \<and> (a_tid a = [] \<or> a_tid a = u_tid u)) (c_apps c))))
           [])"

section \<open>App-only claims (appcreds.go)\<close>

definition app_only_claims ::
  "string \<Rightarrow> string \<Rightarrow> string \<Rightarrow> string \<Rightarrow> string list \<Rightarrow> int \<Rightarrow> int \<Rightarrow> claims" where
  "app_only_claims origin base_path tid client_id roles now expiry =
     put_if (roles \<noteq> []) ''roles'' (VStrs roles)
       [(''iss'', VStr (issuer origin base_path tid)), (''aud'', VStr graph_app_id), (''sub'', VStr client_id),
        (''azp'', VStr client_id), (''appid'', VStr client_id), (''tid'', VStr tid),
        (''iat'', VInt (unix_of now)), (''nbf'', VInt (unix_of now)),
        (''exp'', VInt (unix_of (now + seconds expiry))), (''ver'', VStr ''2.0'')]"

definition find_app :: "config \<Rightarrow> string \<Rightarrow> string \<Rightarrow> app option" where
  "find_app c client_id tid =
     find (\<lambda>a. a_client_id a = client_id \<and> (a_tid a = [] \<or> a_tid a = to_lower tid)) (c_apps c)"

section \<open>Laws\<close>

lemma claim_get_put [simp]: "claim_get (map_put k v c) k' = (if k' = k then v else claim_get c k')"
  by (simp add: claim_get_def)

lemma claim_get_put_if [simp]: "claim_get (put_if b k v c) k' = (if b \<and> k' = k then v else claim_get c k')"
  by (simp add: put_if_def)

lemma claim_get_Cons [simp]: "claim_get ((n, v) # c) k = (if n = k then v else claim_get c k)"
  by (simp add: claim_get_def map_get_def)

lemma claim_get_Nil [simp]: "claim_get [] k = VNil"
  by (simp add: claim_get_def)

lemma claim_get_add_groups:
  "n \<notin> {''groups'', ''_claim_names'', ''_claim_sources''} \<Longrightarrow> claim_get (add_groups k inp c) n = claim_get c n"
  by (simp add: add_groups_def Let_def)

lemma base_claims_get:
  "claim_get (base_claims k uti inp) ''iss'' = VStr (issuer (in_origin inp) (in_base_path inp) (t_tid (in_tenant inp)))"
  "claim_get (base_claims k uti inp) ''aud'' = VStr (in_client_id inp)"
  "claim_get (base_claims k uti inp) ''tid'' = VStr (t_tid (in_tenant inp))"
  "claim_get (base_claims k uti inp) ''oid'' = VStr (u_oid (in_user inp))"
  "claim_get (base_claims k uti inp) ''ver'' = VStr ''2.0''"
  "claim_get (base_claims k uti inp) ''nbf'' = VInt (unix_of (in_now inp))"
  "claim_get (base_claims k uti inp) ''exp'' = VInt (unix_of (in_now inp + seconds (in_expiry inp)))"
  "claim_get (base_claims k uti inp) ''sub'' = VStr (pairwise_sub k (in_client_id inp) (u_oid (in_user inp)))"
  by (simp_all add: base_claims_def Let_def claim_get_add_groups split: option.split)

lemma base_claims_groups:
  "claim_get (base_claims k uti inp) ''groups'' = claim_get (add_groups k inp []) ''groups''"
  "claim_get (base_claims k uti inp) ''_claim_sources'' = claim_get (add_groups k inp []) ''_claim_sources''"
  "claim_get (base_claims k uti inp) ''_claim_names'' = claim_get (add_groups k inp []) ''_claim_names''"
  by (simp_all add: base_claims_def add_groups_def Let_def split: option.split)

lemma seconds_small: "0 \<le> n \<Longrightarrow> n < 9223372036 \<Longrightarrow> unix_of (t + seconds n) = unix_of t + n"
  by (simp add: seconds_def unix_of_def nanos_def wrap64_id)

section \<open>Properties\<close>

text \<open>A token carries the groups of a user only up to the limit of the tenant:
  every group once, in order, as names or object IDs; above the limit it carries the overage
  markers instead, and a user without groups gets none of these claims.\<close>

lemma groups_or_overage:
  "let gs = member_groups (in_user inp); t = in_tenant inp; c = base_claims k uti inp;
       over = (int (length gs) > t_group_limit t) in
   (if gs = [] then claim_get c ''groups'' = VNil \<and> claim_get c ''_claim_names'' = VNil \<and> claim_get c ''_claim_sources'' = VNil
    else if over then claim_get c ''groups'' = VNil \<and> claim_get c ''_claim_names'' = VMap [(''groups'', VStr ''src1'')] \<and>
      claim_get c ''_claim_sources'' = VMap [(''src1'', VMap [(''endpoint'', VStr (overage_endpoint inp))])]
    else claim_get c ''_claim_names'' = VNil \<and> claim_get c ''_claim_sources'' = VNil \<and>
      claim_get c ''groups'' = VStrs (if t_group_claim_format t = format_object_id
        then map (group_object_id (cr_sha1 k) (t_tid t)) gs else gs))"
  by (simp add: base_claims_groups add_groups_def Let_def)

text \<open>
  The directory view lets a configured object ID override the derived one, the groups claim
  does not look at it.
\<close>

definition oid_tenant :: tenant where
  "oid_tenant = (plain_tenant tid_a [(plain_group ''staff'' [])\<lparr>gr_oid := oid_carol\<rparr>])
     \<lparr>t_group_claim_format := format_object_id, t_group_limit := 10\<rparr>"

definition oid_input :: token_input where
  "oid_input = \<lparr>in_graph_base = ''graph'', in_overage_self = True, in_origin = ''http://app.test'',
     in_base_path = ''entra'', in_tenant = oid_tenant, in_user = sample_bob, in_client_id = ''iam'', in_nonce = [],
     in_scopes = [''openid''], in_now = 0, in_expiry = 3600, in_mapped = []\<rparr>"

text \<open>For a group with a configured object ID, the ID the Graph surface
  shows is the configured one, while the groups claim of a tenant that emits object IDs holds the
  ID derived from the name: a relying party cannot match the two.\<close>

lemma token_group_id_differs:
  "dg_oid (dir_group_of (cr_sha1 k) oid_tenant ''staff'') = oid_carol \<and>
   claim_get (base_claims k uti oid_input) ''groups'' = VStrs [group_object_id (cr_sha1 k) tid_a ''staff'']"
  by (simp add: base_claims_groups add_groups_def Let_def oid_input_def oid_tenant_def sample_bob_def
      plain_user_def member_groups_def plain_tenant_def dir_group_of_def group_meta_def plain_group_def
      oid_carol_def)

end
