(* ===== verification/Entra_Entity.thy ===== *)
theory Entra_Entity
  imports Entra_Claims
begin

text \<open>
  How the emulated Graph renders users and groups (internal/entra/graph.go): a \<open>jsonx.Obj\<close> is
  a list of named values in the order of the source, and a missing string is an explicit null.

  A user of a validated configuration always has its tenant; \<open>nil_tenant\<close> stands for the
  tenant of a user that has none.
\<close>

type_synonym entity = "(string \<times> gval) list"

definition nullable :: "string \<Rightarrow> gval" where
  "nullable s = (if s = [] then VNil else VStr s)"

definition type_user :: string where "type_user = ''microsoft.graph.user''"
definition type_group :: string where "type_group = ''microsoft.graph.group''"

definition user_tenant :: "config \<Rightarrow> user \<Rightarrow> tenant" where
  "user_tenant c u = (case tenant_by_id c (u_tid u) of Some t \<Rightarrow> t | None \<Rightarrow> nil_tenant)"

definition graph_user :: "config \<Rightarrow> user \<Rightarrow> entity" where
  "graph_user c u =
     [(''id'', VStr (u_oid u)), (''displayName'', VStr (u_name u)),
      (''userPrincipalName'', VStr (principal_name (user_tenant c u) u)),
      (''mail'', nullable (u_email u)), (''givenName'', nullable (u_given_name u)), (''surname'', nullable (u_surname u)),
      (''jobTitle'', nullable (u_job_title u)), (''officeLocation'', nullable (u_office_location u)),
      (''mobilePhone'', nullable (u_mobile_phone u)), (''businessPhones'', VArr (map VStr (u_business_phones u))),
      (''preferredLanguage'', nullable (u_preferred_language u)), (''accountEnabled'', VBool (user_enabled u)),
      (''department'', nullable (u_department u)), (''companyName'', nullable (u_company_name u)),
      (''employeeId'', nullable (u_employee_id u)),
      (''onPremisesExtensionAttributes'', VObj
        [(''extensionAttribute1'', nullable (ext1 (u_ext u))), (''extensionAttribute2'', nullable (ext2 (u_ext u))),
         (''extensionAttribute3'', nullable (ext3 (u_ext u)))])]"

definition graph_group :: "dir_group \<Rightarrow> entity" where
  "graph_group g =
     [(''id'', VStr (dg_oid g)), (''displayName'', VStr (dg_name g)), (''description'', nullable (dg_description g)),
      (''mail'', nullable (dg_mail g)), (''mailNickname'', nullable (dg_mail_nickname g)),
      (''mailEnabled'', VBool (dg_mail_enabled g)), (''securityEnabled'', VBool (dg_security_enabled g)),
      (''groupTypes'', VArr (if dg_membership_rule g \<noteq> [] then [VStr ''DynamicMembership''] else [])),
      (''membershipRule'', nullable (dg_membership_rule g)),
      (''membershipRuleProcessingState'', if dg_membership_rule g \<noteq> [] then VStr ''On'' else VNil)]"

definition graph_users :: "config \<Rightarrow> user list \<Rightarrow> entity list" where
  "graph_users c us = map (graph_user c) us"

definition graph_groups :: "dir_group list \<Rightarrow> entity list" where
  "graph_groups gs = map graph_group gs"

text \<open>The zero values \<open>User{}\<close>, \<open>Config{Tenants: []Tenant{{}}}\<close> and \<open>DirGroup{}\<close>.\<close>

definition zero_user :: user where
  "zero_user = \<lparr>u_username = [], u_tid = [], u_oid = [], u_name = [], u_email = [], u_email_verified = None,
      u_groups = [], u_amr = [], u_admin = False, u_error = [], u_mfa = [], u_given_name = [],
      u_surname = [], u_upn = [], u_account_enabled = None, u_job_title = [], u_office_location = [],
      u_business_phones = [], u_mobile_phone = [], u_preferred_language = [], u_roles = [], u_wids = [],
      u_manager = [], u_department = [], u_company_name = [], u_employee_id = [],
      u_ext = \<lparr>ext1 = [], ext2 = [], ext3 = []\<rparr>, u_dynamic_groups = []\<rparr>"

definition zero_config :: config where
  "zero_config = \<lparr>c_base_path = [], c_default_group_limit = 0, c_token_expiry = 0, c_ignore_login_hint = False,
     c_graph = None, c_tenants = [nil_tenant], c_consents = [], c_apps = [], c_users = []\<rparr>"

definition zero_group :: dir_group where
  "zero_group = \<lparr>dg_oid = [], dg_name = [], dg_description = [], dg_mail_nickname = [], dg_mail = [],
     dg_security_enabled = False, dg_mail_enabled = False, dg_membership_rule = []\<rparr>"

definition filter_schema :: "string \<Rightarrow> entity" where
  "filter_schema odata_type =
     (if odata_type = type_user then graph_user zero_config zero_user
      else if odata_type = type_group then graph_group zero_group else [])"

section \<open>Laws\<close>

text \<open>Every rendered entity has the property names of its schema, in the schema's order.\<close>

lemma user_schema: "map fst (graph_user c u) = map fst (filter_schema type_user)"
  by (simp add: graph_user_def filter_schema_def)

lemma group_schema: "map fst (graph_group g) = map fst (filter_schema type_group)"
  by (simp add: graph_group_def filter_schema_def type_user_def type_group_def)

end
