(* ===== verification/Oauth2_Laws.thy ===== *)
theory Oauth2_Laws
  imports Oauth2
begin

text \<open>
  Correctness of the protocol types: redirects carry the code and keep the rest of the redirect
  URI, a URL of an endpoint belongs to its issuer, and what an accepted token request or
  client assertion guarantees.
\<close>

section \<open>Redirect URLs\<close>

lemma query_chars:
  assumes "c \<in> set (values_encode v)"
  shows "query_safe c \<or> c \<in> set ''%+&='' \<or> c \<in> set hex_upper"
proof -
  have j: "c \<in> set (str_join xs sep) \<Longrightarrow> (\<exists>x\<in>set xs. c \<in> set x) \<or> c \<in> set sep" for xs sep
    by (induction xs rule: induct_list012) auto
  have h: "n < 16 \<Longrightarrow> hex_upper ! n \<in> set hex_upper" for n
    by (rule nth_mem) (simp add: hex_upper_def)
  have e: "c \<in> set (escape_char d) \<Longrightarrow> query_safe c \<or> c \<in> set ''%+&='' \<or> c \<in> set hex_upper" for d
    using h nibbles[of d] by (auto simp: escape_char_def split: if_splits)
  then have "c \<in> set (query_escape s) \<Longrightarrow> query_safe c \<or> c \<in> set ''%+&='' \<or> c \<in> set hex_upper" for s
    by (auto simp: query_escape_def)
  then show ?thesis using j[of "map show_pair (values_pairs v)" "''&''"] assms
    unfolding values_encode_def show_pair_def by auto
qed

lemma plain_query_char:
  assumes "query_safe c \<or> c \<in> set ''%+&='' \<or> c \<in> set hex_upper"
  shows "\<not> ctl_byte c \<and> c \<noteq> CHR ''#'' \<and> c \<noteq> CHR ''?''"
proof -
  have "\<forall>c\<in>set (''ABCDEFGHIJKLMNOPQRSTUVWXYZabcdefghijklmnopqrstuvwxyz0123456789_-'' @ ''.~%+&='' @ hex_upper).
      \<not> ctl_byte c \<and> c \<noteq> CHR ''#'' \<and> c \<noteq> CHR ''?''" by code_simp
  moreover have "c \<in> set (''ABCDEFGHIJKLMNOPQRSTUVWXYZabcdefghijklmnopqrstuvwxyz0123456789_-'' @ ''.~%+&='' @ hex_upper)"
    using assms unfolding query_safe_def is_word_char_def by auto
  ultimately show ?thesis ..
qed

lemma str_cut_char:
  "c \<notin> set a \<Longrightarrow> str_cut (a @ c # b) [c] = (a, b, True)" "c \<notin> set a \<Longrightarrow> str_cut a [c] = (a, [], False)"
  by (simp_all add: str_cut_def str_index_char_append str_index_char_None[THEN iffD2])

lemma str_cut_charD:
  assumes "str_cut s [c] = (a, b, f)"
  shows "c \<notin> set a \<and> (f \<and> s = a @ c # b \<or> \<not> f \<and> s = a \<and> b = [])"
proof (cases "c \<in> set s")
  case True
  then obtain a' b' where s: "s = a' @ c # b'" "c \<notin> set a'" by (meson split_list_first)
  then show ?thesis using assms str_cut_char(1)[of c a' b'] by auto
next
  case False
  then show ?thesis using assms str_cut_char(2)[of c s] by auto
qed

definition scheme_char :: "char \<Rightarrow> bool" where
  "scheme_char c \<longleftrightarrow> scheme_letter c \<or> is_digit c \<or> c = CHR ''+'' \<or> c = CHR ''-'' \<or> c = CHR ''.''"

lemma get_scheme_alt:
  "get_scheme s = (case s of [] \<Rightarrow> Some ([], [])
     | c # cs \<Rightarrow> if c = CHR '':'' then None else if \<not> scheme_letter c then Some ([], s)
        else (case dropWhile scheme_char s of
                d # r \<Rightarrow> if d = CHR '':'' then Some (takeWhile scheme_char s, r) else Some ([], s)
              | [] \<Rightarrow> Some ([], s)))"
proof -
  have "(\<lambda>c. scheme_letter c \<or> is_digit c \<or> c = CHR ''+'' \<or> c = CHR ''-'' \<or> c = CHR ''.'') = scheme_char"
    by (rule ext) (simp add: scheme_char_def)
  then show ?thesis
    by (simp add: get_scheme_def Let_def dropWhile_eq_drop split: list.split)
qed

lemma colon_not_scheme [simp]: "\<not> scheme_char (CHR '':'')" "\<not> scheme_letter (CHR '':'')"
  "\<not> scheme_char (CHR ''?'')" "\<not> scheme_letter (CHR ''?'')"
  by code_simp+

lemma scheme_lower: "scheme_letter c \<Longrightarrow> scheme_letter (lower_char c)" "scheme_char c \<Longrightarrow> scheme_char (lower_char c)"
proof -
  have l: "\<forall>c\<in>set ''ABCDEFGHIJKLMNOPQRSTUVWXYZabcdefghijklmnopqrstuvwxyz''. scheme_letter (lower_char c)"
    by code_simp
  have d: "\<forall>c\<in>set ''0123456789''. lower_char c = c" by code_simp
  show m: "scheme_letter c \<Longrightarrow> scheme_letter (lower_char c)"
    using bspec[OF l, of c] by (simp only: scheme_letter_def[of c])
  show "scheme_char c \<Longrightarrow> scheme_char (lower_char c)"
    using d m by (auto simp: scheme_char_def is_digit_def)
qed

lemma get_scheme_form:
  assumes "get_scheme s = Some (sch, rest)"
  shows "sch = [] \<and> rest = s \<or> sch \<noteq> [] \<and> s = sch @ CHR '':'' # rest \<and> list_all scheme_char sch \<and> scheme_letter (hd sch)"
proof (cases s)
  case Nil
  with assms show ?thesis by (simp add: get_scheme_alt)
next
  case (Cons c cs)
  show ?thesis
  proof (cases "scheme_letter c \<and> (\<exists>r. dropWhile scheme_char s = CHR '':'' # r)")
    case True
    then obtain r where r: "scheme_letter c" "dropWhile scheme_char s = CHR '':'' # r" by blast
    have "c \<noteq> CHR '':''" using r(1) by auto
    then have e: "sch = takeWhile scheme_char s" "rest = r"
      using assms r Cons by (simp_all add: get_scheme_alt)
    have "scheme_char c" using r(1) by (simp add: scheme_char_def)
    then have "sch \<noteq> [] \<and> hd sch = c" using e(1) Cons by simp
    moreover have "s = sch @ CHR '':'' # rest" using e r(2) takeWhile_dropWhile_id[of scheme_char s] by metis
    moreover have "list_all scheme_char sch" unfolding e(1) list_all_iff by (blast dest: set_takeWhileD)
    ultimately show ?thesis using r(1) by blast
  next
    case False
    then show ?thesis using assms Cons
      by (auto simp: get_scheme_alt split: if_splits list.splits)
  qed
qed

lemma get_scheme_scheme:
  assumes "sch \<noteq> []" "list_all scheme_char sch" "scheme_letter (hd sch)"
  shows "get_scheme (sch @ CHR '':'' # rest) = Some (sch, rest)"
proof -
  obtain c cs where s: "sch = c # cs" using assms(1) by (cases sch) simp_all
  have all: "\<forall>x\<in>set sch. scheme_char x" using assms(2) by (simp add: list_all_iff)
  have "dropWhile scheme_char (sch @ CHR '':'' # rest) = CHR '':'' # rest"
    "takeWhile scheme_char (sch @ CHR '':'' # rest) = sch"
    using all by (simp_all add: dropWhile_append2 takeWhile_append2)
  moreover have "scheme_letter c" "c \<noteq> CHR '':''" using assms(3) s by auto
  ultimately show ?thesis by (simp add: get_scheme_alt s)
qed

lemma get_scheme_none:
  assumes "get_scheme (rest @ t) = Some ([], rest @ t)" and "t = [] \<or> hd t = CHR ''?''"
    and "t' = [] \<or> hd t' = CHR ''?''"
  shows "get_scheme (rest @ t') = Some ([], rest @ t')"
proof (cases "list_all scheme_char rest")
  case True
  have q: "dropWhile scheme_char (rest @ u) = u" if "u = [] \<or> hd u = CHR ''?''" for u
    using True that by (cases u) (auto simp: list_all_iff dropWhile_append2)
  show ?thesis
  proof (cases "rest @ t'")
    case (Cons c cs)
    have "c \<noteq> CHR '':''" using Cons True assms(3) by (cases rest; cases t') auto
    moreover have "dropWhile scheme_char (c # cs) = t'" using q[OF assms(3)] Cons by simp
    moreover have "t' = [] \<or> (\<exists>r. t' = CHR ''?'' # r)" using assms(3) by (cases t') auto
    ultimately show ?thesis unfolding Cons get_scheme_alt by (elim disjE exE) simp_all
  qed (simp add: get_scheme_alt)
next
  case False
  then obtain a d r where r: "rest = a @ d # r" "\<forall>x\<in>set a. scheme_char x" "\<not> scheme_char d"
    using split_list_first_prop[of rest "\<lambda>x. \<not> scheme_char x"] by (auto simp: list_all_iff)
  have dw: "dropWhile scheme_char (rest @ u) = d # r @ u" for u using r by (simp add: dropWhile_append2)
  have "d \<noteq> CHR '':'' \<or> a = [] \<or> \<not> scheme_letter (hd a)"
  proof (rule ccontr)
    assume "\<not> ?thesis"
    then have "get_scheme (a @ CHR '':'' # (r @ t)) = Some (a, r @ t)"
      using r(2) by (intro get_scheme_scheme) (auto simp: list_all_iff)
    with assms(1) \<open>\<not> ?thesis\<close> r(1) show False by auto
  qed
  then show ?thesis using assms(1) r dw[of t] dw[of t']
    by (cases a) (auto simp: get_scheme_alt split: if_splits)
qed

lemma url_parse_set_query:
  assumes p: "url_parse raw = Some u" and v: "values_encode v \<noteq> []"
  shows "url_parse (url_string (url_set_query v u)) = Some (url_set_query v u)"
proof -
  obtain u0 frag f where c1: "str_cut raw ''#'' = (u0, frag, f)" by (cases "str_cut raw ''#''") auto
  from p c1 have k: "\<not> list_ex ctl_byte u0" "percent_ok frag" by (auto simp: url_parse_def split: if_splits)
  with p c1 obtain scheme rest0 where g: "get_scheme u0 = Some (scheme, rest0)"
    by (auto simp: url_parse_def split: option.splits)
  obtain rest query f2 where c2: "str_cut rest0 ''?'' = (rest, query, f2)" by (cases "str_cut rest0 ''?''") auto
  let ?prefix = "(if scheme = [] then [] else to_lower scheme @ '':'') @ rest"
  from p c1 g c2 k have u: "u = \<lparr>url_prefix = ?prefix, url_query = query, url_fragment = frag\<rparr>"
    and chk: "\<not> (\<not> has_prefix rest ''/'' \<and> scheme = [] \<and> CHR '':'' \<in> set (takeWhile (\<lambda>c. c \<noteq> CHR ''/'') rest))"
      "\<not> (\<not> (\<not> has_prefix rest ''/'' \<and> scheme \<noteq> []) \<and> \<not> percent_ok rest)"
    by (auto simp: url_parse_def Let_def split: if_splits)
  let ?q = "values_encode v"
  note d1 = str_cut_charD[OF c1] and d2 = str_cut_charD[OF c2] and gf = get_scheme_form[OF g]
  have r0: "rest0 = rest \<or> rest0 = rest @ CHR ''?'' # query" using d2 by auto
  have ctl0: "\<forall>c\<in>set u0. \<not> ctl_byte c" using k(1) by (auto simp: list_ex_iff)
  have sub: "set rest \<subseteq> set u0" "set scheme \<subseteq> set u0" using gf r0 by auto
  have sc: "\<forall>c\<in>set (to_lower scheme). scheme_char c"
    using gf scheme_lower(2) by (auto simp: to_lower_def list_all_iff)
  have sp: "scheme_char c \<Longrightarrow> \<not> ctl_byte c \<and> c \<noteq> CHR ''#''" for c
  proof -
    have a: "\<forall>c\<in>set (''ABCDEFGHIJKLMNOPQRSTUVWXYZabcdefghijklmnopqrstuvwxyz'' @ ''0123456789'' @ ''+-.'').
        \<not> ctl_byte c \<and> c \<noteq> CHR ''#''" by code_simp
    assume "scheme_char c"
    then have "c \<in> set (''ABCDEFGHIJKLMNOPQRSTUVWXYZabcdefghijklmnopqrstuvwxyz'' @ ''0123456789'' @ ''+-.'')"
      by (auto simp: scheme_char_def scheme_letter_def is_digit_def)
    with a show ?thesis ..
  qed
  have colon: "\<not> ctl_byte (CHR '':'')" "\<not> ctl_byte (CHR ''?'')" by code_simp+
  have q: "\<forall>c\<in>set ?q. \<not> ctl_byte c \<and> c \<noteq> CHR ''#'' \<and> c \<noteq> CHR ''?''"
    using query_chars plain_query_char by blast
  let ?body = "?prefix @ CHR ''?'' # ?q"
  have nohash: "CHR ''#'' \<notin> set ?body" "\<not> list_ex ctl_byte ?body"
    using d1 sub sc sp q ctl0 colon by (auto simp: list_ex_iff)
  have str: "url_string (url_set_query v u) = ?body @ (if frag = [] then [] else CHR ''#'' # frag)"
    using v by (simp add: url_string_def url_set_query_def u)
  have cut1: "\<exists>f. str_cut (url_string (url_set_query v u)) ''#'' = (?body, frag, f)"
    unfolding str using str_cut_char[OF nohash(1)] by auto
  have gs: "get_scheme ?body = Some (to_lower scheme, rest @ CHR ''?'' # ?q)"
  proof (cases "scheme = []")
    case True
    then have "get_scheme (rest @ (if rest0 = rest then [] else CHR ''?'' # query)) = Some ([], rest @ (if rest0 = rest then [] else CHR ''?'' # query))"
      using g gf r0 by auto
    from get_scheme_none[OF this, of "CHR ''?'' # ?q"] True show ?thesis by simp
  next
    case False
    then have "get_scheme (to_lower scheme @ CHR '':'' # (rest @ CHR ''?'' # ?q)) = Some (to_lower scheme, rest @ CHR ''?'' # ?q)"
      using sc gf scheme_lower(1) by (intro get_scheme_scheme) (auto simp: list_all_iff to_lower_def hd_map)
    with False show ?thesis by simp
  qed
  have cut2: "str_cut (rest @ CHR ''?'' # ?q) ''?'' = (rest, ?q, True)" using d2 by (intro str_cut_char) simp
  from cut1 obtain f' where "str_cut (url_string (url_set_query v u)) ''#'' = (?body, frag, f')" ..
  then show ?thesis
    using k(2) nohash(2) gs cut2 chk
    by (auto simp: url_parse_def Let_def url_set_query_def u)
qed

text \<open>The redirect of a successful authorization is the client's
  redirect URI with the code and, when the request had one, the state: parsing the location
  gives them back, every other query parameter, the path and the fragment are kept.\<close>

lemma success_redirect_params:
  assumes "success_redirect_url a code = Inr loc"
  shows "\<exists>u u'. url_parse (ar_redirect_uri a) = Some u \<and> url_parse loc = Some u' \<and>
    url_prefix u' = url_prefix u \<and> url_fragment u' = url_fragment u \<and>
    values_get (parse_query (url_query u')) ''code'' = code \<and>
    (ar_state a \<noteq> [] \<longrightarrow> values_get (parse_query (url_query u')) ''state'' = ar_state a) \<and>
    (\<forall>k. k \<noteq> ''code'' \<and> k \<noteq> ''state'' \<longrightarrow>
       values_get (parse_query (url_query u')) k = values_get (parse_query (url_query u)) k)"
proof -
  from assms obtain u where u: "url_parse (ar_redirect_uri a) = Some u"
    by (auto simp: success_redirect_url_def split: option.splits)
  define q1 where "q1 = values_set ''code'' code (parse_query (url_query u))"
  define q where "q = (if ar_state a = [] then q1 else values_set ''state'' (ar_state a) q1)"
  have loc: "loc = url_string (url_set_query q u)"
    using assms u by (auto simp: success_redirect_url_def q_def q1_def Let_def)
  have d: "distinct (map fst q)"
    by (auto simp: q_def q1_def intro!: distinct_values_set distinct_parse_query)
  have ne: "values_encode q \<noteq> []"
  proof
    assume "values_encode q = []"
    then have "values_get q ''code'' = values_get (parse_query []) ''code'' \<and> values_all q ''code'' = []"
      using parse_query_encode[OF d, of "''code''"] values_get_parse_encode[OF d, of "''code''"]
      by (simp add: parse_query_def str_split.simps[of "[]"] values_all_def)
    moreover have "values_all q ''code'' \<noteq> []"
      by (simp add: q_def q1_def values_all_def values_set_def)
    ultimately show False by simp
  qed
  note p = url_parse_set_query[OF u ne]
  have g: "values_get (parse_query (url_query (url_set_query q u))) k = values_get q k" for k
    by (simp add: url_set_query_def values_get_parse_encode[OF d])
  show ?thesis
    by (rule exI[of _ u], rule exI[of _ "url_set_query q u"])
      (use u p g loc in \<open>auto simp: url_set_query_def q_def q1_def\<close>)
qed

section \<open>Endpoints of an issuer\<close>

lemma endpoint_suffix_free:
  assumes "e \<in> set endpoints" "e' \<in> set endpoints" "has_suffix e e' \<or> has_suffix e' e"
  shows "e = e'"
proof -
  have "list_all (\<lambda>e. list_all (\<lambda>e'. (has_suffix e e' \<or> has_suffix e' e) \<longrightarrow> e = e') endpoints) endpoints"
    by code_simp
  with assms show ?thesis by (auto simp: list_all_iff)
qed

lemma endpoint_shape:
  assumes "e \<in> set endpoints"
  shows "\<exists>r. e = CHR ''/'' # r \<and> last e \<noteq> CHR ''/''"
proof -
  have "list_all (\<lambda>e. hd e = CHR ''/'' \<and> e \<noteq> [] \<and> last e \<noteq> CHR ''/'') endpoints" by code_simp
  with assms have "hd e = CHR ''/'' \<and> e \<noteq> [] \<and> last e \<noteq> CHR ''/''" by (auto simp: list_all_iff)
  then show ?thesis by (cases e) auto
qed

lemma suffix_of_append:
  assumes "has_suffix (a @ e) e'" shows "has_suffix e e' \<or> has_suffix e' e"
proof -
  from assms obtain r where "a @ e = r @ e'" by (auto simp: has_suffix_iff)
  then show ?thesis unfolding has_suffix_iff append_eq_append_conv2 by metis
qed

lemma has_prefix_self [simp]: "has_prefix r r"
  by (simp add: has_prefix_def)

lemma str_index_first:
  assumes "c \<notin> set a" shows "str_index (a @ c # r) (c # r) = Some (length a)"
  using assms by (induction a) auto

lemma issuer_id_of_endpoint_path:
  assumes "CHR ''/'' \<notin> set i" and "e \<in> set endpoints"
  shows "issuer_id_of_path (i @ e) = i"
proof -
  obtain r where r: "e = CHR ''/'' # r" using endpoint_shape[OF assms(2)] by blast
  have "find (has_suffix (i @ e)) endpoints = Some e"
  proof (cases "find (has_suffix (i @ e)) endpoints")
    case None
    have "has_suffix (i @ e) e" by (auto simp: has_suffix_iff)
    with None assms(2) show ?thesis by (auto simp: find_None_iff_ball)
  next
    case (Some e')
    from find_SomeD[OF Some] have e': "e' \<in> set endpoints" "has_suffix (i @ e) e'" by simp_all
    have "e = e'" using suffix_of_append[OF e'(2)] by (rule endpoint_suffix_free[OF assms(2) e'(1)])
    with Some show ?thesis by simp
  qed
  then show ?thesis using str_index_first[OF assms(1), of r] r by (simp add: issuer_id_of_path_def)
qed

lemma trim_slash_path:
  assumes "hd p \<noteq> CHR ''/''" "p \<noteq> []" "last p \<noteq> CHR ''/''"
  shows "trim_slash (CHR ''/'' # p) = p"
proof -
  obtain a as where a: "p = a # as" using assms(2) by (cases p) simp_all
  obtain b bs where b: "rev p = b # bs" using assms(2) by (cases "rev p") simp_all
  have "b = last p" using b by (metis last_rev rev_rev_ident list.sel(1) hd_rev)
  then have "b \<noteq> CHR ''/''" using assms(3) by simp
  then have "dropWhile (\<lambda>c. c = CHR ''/'') (rev p) = rev p" using b by simp
  then show ?thesis using a assms(1) by (simp add: trim_slash_def trim_by_def)
qed

text \<open>A request to any endpoint of a one-segment issuer is attributed
  to that issuer, and the endpoint URL the server publishes for it is the base URL, the issuer
  and the endpoint path.\<close>

lemma endpoint_belongs_to_issuer:
  assumes "i \<noteq> []" and "CHR ''/'' \<notin> set i" and "e \<in> set endpoints" and "rq_path r = ''/'' @ i @ e"
  shows "issuer_id r = i \<and> endpoint_url r e = base_url r @ ''/'' @ i @ e"
proof -
  obtain q where q: "e = CHR ''/'' # q" "last e \<noteq> CHR ''/''" using endpoint_shape[OF assms(3)] by blast
  have qne: "q \<noteq> []" "hd q \<noteq> CHR ''/''" "last q \<noteq> CHR ''/''"
  proof -
    have "list_all (\<lambda>e. tl e \<noteq> [] \<and> hd (tl e) \<noteq> CHR ''/'' \<and> last (tl e) \<noteq> CHR ''/'') endpoints" by code_simp
    with assms(3) q(1) have "q \<noteq> [] \<and> hd q \<noteq> CHR ''/'' \<and> last q \<noteq> CHR ''/''" by (auto simp: list_all_iff)
    then show "q \<noteq> []" "hd q \<noteq> CHR ''/''" "last q \<noteq> CHR ''/''" by simp_all
  qed
  have "hd (i @ e) \<noteq> CHR ''/''" using assms(1,2) by (cases i) auto
  then have "trim_slash (CHR ''/'' # (i @ e)) = i @ e" using q assms(1) by (intro trim_slash_path) auto
  then have id: "issuer_id r = i"
    using assms(4) issuer_id_of_endpoint_path[OF assms(2,3)] by (simp add: issuer_id_def trimmed_path_def)
  moreover have "trim_slash e = q" using q(1) qne by (simp add: trim_slash_path)
  ultimately show ?thesis using assms(1) qne(1) q(1) by (simp add: endpoint_url_def Let_def)
qed

definition sample_request :: request where
  "sample_request = \<lparr>rq_method = ''GET'', rq_header = [(''Host'', ''app.test:8080'')], rq_path = ''/default/token'',
     rq_raw_query = [], rq_scheme = ''http'', rq_body = []\<rparr>"

section \<open>Token requests\<close>

lemma require_param_iff: "require_param n v x = Inr y \<longleftrightarrow> v \<noteq> [] \<and> y = x"
  by (auto simp: require_param_def)

text \<open>A token request the parser accepts names a grant and an
  authenticated or at least identified client, and carries the parameter its grant needs; the
  fields are those of the form.\<close>

lemma token_request_accepted:
  assumes "parse_token_request r = Inr tr"
  shows "tr_grant_type tr = trim_space (values_get (request_form r) ''grant_type'') \<and> tr_grant_type tr \<noteq> [] \<and>
    (tr_client_id tr, tr_auth_method tr) = resolve_client_auth r (request_form r) \<and>
    (if tr_grant_type tr \<in> {grant_client_credentials, grant_password}
     then tr_auth_method tr \<noteq> AuthNone else tr_client_id tr \<noteq> []) \<and>
    (tr_grant_type tr = grant_authorization_code \<longrightarrow>
       tr_code tr = values_get (request_form r) ''code'' \<and> tr_code tr \<noteq> []) \<and>
    (tr_grant_type tr = grant_refresh_token \<longrightarrow> tr_refresh_token tr \<noteq> []) \<and>
    (tr_grant_type tr = grant_password \<longrightarrow> tr_username tr \<noteq> [] \<and> tr_password tr \<noteq> []) \<and>
    (tr_grant_type tr = grant_jwt_bearer \<longrightarrow> tr_assertion tr \<noteq> []) \<and>
    (tr_grant_type tr = grant_token_exchange \<longrightarrow> tr_subject_token tr \<noteq> [])"
proof -
  let ?form = "request_form r" and ?g = "trim_space (values_get (request_form r) ''grant_type'')"
  obtain cid m where ca: "resolve_client_auth r ?form = (cid, m)" by (cases "resolve_client_auth r ?form")
  let ?tr0 = "empty_token_request\<lparr>tr_grant_type := ?g, tr_client_id := cid, tr_auth_method := m,
      tr_form := ?form, tr_scope := values_get ?form ''scope'', tr_scope_list := str_fields (values_get ?form ''scope'')\<rparr>"
  from assms ca have g: "?g \<noteq> []" and c: "client_auth_error ?g cid m = None"
    and f: "fill_token_request ?form ?tr0 = Inr tr"
    by (auto simp: parse_token_request_def Let_def split: if_splits option.splits)
  have neq: "distinct [grant_authorization_code, grant_client_credentials, grant_password, grant_refresh_token,
      grant_jwt_bearer, grant_token_exchange]" by code_simp
  have fields: "tr_grant_type tr = ?g \<and> tr_client_id tr = cid \<and> tr_auth_method tr = m"
    using f by (auto simp: fill_token_request_def Let_def require_param_iff err_simps split: if_splits)
  have auth: "if ?g \<in> {grant_client_credentials, grant_password} then m \<noteq> AuthNone else cid \<noteq> []"
    using c by (auto simp: client_auth_error_def split: if_splits)
  have need: "(?g = grant_authorization_code \<longrightarrow> tr_code tr = values_get ?form ''code'' \<and> tr_code tr \<noteq> []) \<and>
    (?g = grant_refresh_token \<longrightarrow> tr_refresh_token tr \<noteq> []) \<and>
    (?g = grant_password \<longrightarrow> tr_username tr \<noteq> [] \<and> tr_password tr \<noteq> []) \<and>
    (?g = grant_jwt_bearer \<longrightarrow> tr_assertion tr \<noteq> []) \<and> (?g = grant_token_exchange \<longrightarrow> tr_subject_token tr \<noteq> [])"
    using f neq by (auto simp: fill_token_request_def Let_def require_param_iff err_simps split: if_splits)
  have f1: "tr_grant_type tr = ?g" and f2: "tr_client_id tr = cid" and f3: "tr_auth_method tr = m"
    using fields by blast+
  show ?thesis unfolding f1 f2 f3 ca using g auth need by blast
qed

definition sample_token_request :: request where
  "sample_token_request = sample_request\<lparr>rq_method := ''POST'',
     rq_body := ''grant_type=authorization_code&code=abc&client_id=iam&redirect_uri=http%3A%2F%2Fapp.test%2Fcb''\<rparr>"

text \<open>For token exchange, a client assertion is accepted only when its
  issuer and subject are both the client, its one audience is the issuer URL or the URL of the
  request, and its expiry lies at most 120 seconds ahead; a public client is never accepted.\<close>

lemma client_assertion_accepted:
  assumes "validate_client_assertion unmarshal now r tr issuer = None"
  shows "tr_auth_method tr = AuthBasic \<or>
    (\<exists>c. parse_jwt_claims unmarshal (values_get (tr_form tr) ''client_assertion'') = Some c \<and>
       string_claim (claim_get c ''iss'') = tr_client_id tr \<and>
       string_claim (claim_get c ''sub'') = tr_client_id tr \<and>
       (\<exists>a. audience_list (claim_get c ''aud'') = [a] \<and> (a = issuer \<or> a = proxy_aware_string r)) \<and>
       wrap64 (numeric_date (claim_get c ''exp'') - now) \<le> 120)"
proof (cases "tr_auth_method tr")
  case AuthPrivateKeyJWT
  with assms obtain c where c: "parse_jwt_claims unmarshal (values_get (tr_form tr) ''client_assertion'') = Some c"
    by (auto simp: validate_client_assertion_def split: option.splits)
  have "length xs = 1 \<Longrightarrow> \<exists>a. xs = [a]" for xs :: "string list" by (cases xs) auto
  moreover have "audience_list (claim_get c ''aud'') \<noteq> []" "length (audience_list (claim_get c ''aud'')) \<le> 1"
    using assms AuthPrivateKeyJWT c by (auto simp: validate_client_assertion_def Let_def split: if_splits)
  ultimately obtain a where a: "audience_list (claim_get c ''aud'') = [a]"
    by (cases "audience_list (claim_get c ''aud'')") auto
  show ?thesis using assms AuthPrivateKeyJWT c a
    by (auto simp: validate_client_assertion_def Let_def split: if_splits)
qed (use assms in \<open>auto simp: validate_client_assertion_def\<close>)

definition sample_claims :: claims where
  "sample_claims = [(''iss'', VStr ''iam''), (''sub'', VStr ''iam''), (''aud'', VStr ''http://app.test:8080/default''),
     (''exp'', VInt 60)]"

end
