(* ===== verification/Entra_Verify.thy ===== *)
theory Entra_Verify
  imports Entra_Claims Oauth2_Laws
begin

text \<open>
  Authentication of Graph requests (internal/entra/verify.go): the bearer token, the checks of
  \<open>ValidateAccessToken\<close> in the order of the code, and the Graph errors.
\<close>

record graph_error =
  ge_status :: int
  ge_code :: string
  ge_message :: string

definition invalid_token :: graph_error where
  "invalid_token = \<lparr>ge_status = 401, ge_code = ''InvalidAuthenticationToken'',
     ge_message = ''Access token is empty or invalid.''\<rparr>"

definition graph_not_found :: "string \<Rightarrow> graph_error" where
  "graph_not_found m = \<lparr>ge_status = 404, ge_code = ''Request_ResourceNotFound'', ge_message = m\<rparr>"

definition graph_forbidden :: "string \<Rightarrow> graph_error" where
  "graph_forbidden m = \<lparr>ge_status = 403, ge_code = ''Authorization_RequestDenied'', ge_message = m\<rparr>"

definition unsupported_query :: "string \<Rightarrow> graph_error" where
  "unsupported_query m = \<lparr>ge_status = 400, ge_code = ''Request_UnsupportedQuery'', ge_message = m\<rparr>"

datatype token_kind = TokenDelegated | TokenAppOnly

record caller =
  ca_claims :: claims
  ca_tenant :: tenant
  ca_user :: "user option"
  ca_tid :: string
  ca_oid :: string
  ca_sub :: string
  ca_client_id :: string
  ca_kind :: token_kind

definition caller_delegated :: "caller \<Rightarrow> bool" where
  "caller_delegated c \<longleftrightarrow> ca_kind c = TokenDelegated"

definition bearer_token :: "request \<Rightarrow> string" where
  "bearer_token r =
     (let h = header_get r ''Authorization''
      in if length h < 7 \<or> \<not> equal_fold (take 7 h) ''Bearer '' then [] else trim_space (drop 7 h))"

definition claim_string :: "claims \<Rightarrow> string \<Rightarrow> string" where
  "claim_string c n = string_claim (claim_get c n)"

definition claim_time :: "claims \<Rightarrow> string \<Rightarrow> int option" where
  "claim_time c n = (case claim_get c n of VInt i \<Rightarrow> Some i | _ \<Rightarrow> None)"

definition issuer_origin :: "request \<Rightarrow> string" where
  "issuer_origin r = (case proxy_aware_url r of (scheme, host) \<Rightarrow> scheme @ ''://'' @ host)"

definition validate_access_token ::
  "crypto \<Rightarrow> key_set \<Rightarrow> int \<Rightarrow> request \<Rightarrow> config \<Rightarrow> string \<Rightarrow> graph_error + caller" where
  "validate_access_token k ks now_ns r c bearer =
     (if bearer = [] then Inl invalid_token
      else case ks_verify k ks bearer of
        None \<Rightarrow> Inl invalid_token
      | Some (_, cl) \<Rightarrow>
          if claim_string cl ''aud'' \<noteq> graph_app_id \<or> claim_string cl ''ver'' \<noteq> ''2.0'' then Inl invalid_token
          else
            let tid = to_lower (claim_string cl ''tid'') in
            if tid = [] \<or> claim_string cl ''iss'' \<noteq> issuer (issuer_origin r) (c_base_path c) tid
            then Inl invalid_token
            else
              let now = unix_of now_ns; skew = clock_skew c in
              (case claim_time cl ''exp'' of
                 None \<Rightarrow> Inl invalid_token
               | Some exp \<Rightarrow>
                   if wrap64 (now - skew) \<ge> exp then Inl invalid_token
                   else if (case claim_time cl ''nbf'' of Some nbf \<Rightarrow> nbf > wrap64 (now + skew) | None \<Rightarrow> False)
                   then Inl invalid_token
                   else case tenant_by_id c tid of
                     None \<Rightarrow> Inl invalid_token
                   | Some t \<Rightarrow>
                       let oid = to_lower (claim_string cl ''oid'');
                           appid = claim_string cl ''appid'';
                           ca = \<lparr>ca_claims = cl, ca_tenant = t, ca_user = None, ca_tid = t_tid t, ca_oid = oid,
                                 ca_sub = claim_string cl ''sub'',
                                 ca_client_id = (if appid = [] then claim_string cl ''azp'' else appid),
                                 ca_kind = TokenAppOnly\<rparr>
                       in if oid = [] then Inr ca
                          else case user_by_oid c tid oid of
                            None \<Rightarrow> Inl invalid_token
                          | Some u \<Rightarrow> if \<not> user_enabled u then Inl invalid_token
                                      else Inr (ca\<lparr>ca_user := Some u, ca_kind := TokenDelegated\<rparr>)))"

section \<open>Laws\<close>

lemma ks_verify_header:
  assumes "ks_verify k ks jwt = Some (h, cl)"
  shows "\<exists>p0 p1 p2 raw key sig. str_split jwt ''.'' = [p0, p1, p2] \<and> b64_decode p0 = Some raw \<and> cr_unmarshal k raw = Some h \<and>
    string_claim (claim_get h ''alg'') = ''RS256'' \<and> key \<in> set (ks_keys ks) \<and> sk_kid key = string_claim (claim_get h ''kid'') \<and>
    b64_decode p2 = Some sig \<and> cr_verify k (sk_private key) (cr_sha256 k (p0 @ ''.'' @ p1)) sig \<and>
    Option.bind (b64_decode p1) (cr_unmarshal k) = Some cl"
proof -
  from assms obtain p0 p1 p2 where p: "str_split jwt ''.'' = [p0, p1, p2]"
    by (auto simp: ks_verify_def split: list.splits)
  then have v: "(case Option.bind (b64_decode p0) (cr_unmarshal k) of None \<Rightarrow> None
      | Some header \<Rightarrow> if string_claim (claim_get header ''alg'') \<noteq> ''RS256'' then None
          else case ks_by_kid ks (string_claim (claim_get header ''kid'')) of None \<Rightarrow> None
            | Some key \<Rightarrow> (case b64_decode p2 of None \<Rightarrow> None
                | Some sig \<Rightarrow> if \<not> cr_verify k (sk_private key) (cr_sha256 k (p0 @ ''.'' @ p1)) sig then None
                    else map_option (Pair header) (Option.bind (b64_decode p1) (cr_unmarshal k)))) = Some (h, cl)"
    using assms by (simp add: ks_verify_def)
  then obtain key sig where "Option.bind (b64_decode p0) (cr_unmarshal k) = Some h" "string_claim (claim_get h ''alg'') = ''RS256''"
    "ks_by_kid ks (string_claim (claim_get h ''kid'')) = Some key" "b64_decode p2 = Some sig"
    "cr_verify k (sk_private key) (cr_sha256 k (p0 @ ''.'' @ p1)) sig" "Option.bind (b64_decode p1) (cr_unmarshal k) = Some cl"
    by (auto split: option.splits if_splits)
  moreover from this(1) obtain raw where "b64_decode p0 = Some raw" "cr_unmarshal k raw = Some h" by (auto simp: bind_eq_Some_conv)
  moreover from calculation(3) have "key \<in> set (ks_keys ks)" "sk_kid key = string_claim (claim_get h ''kid'')"
    by (auto simp: ks_by_kid_def dest: find_SomeD)
  ultimately show ?thesis using p by blast
qed

text \<open>C38: graph_caller_authenticated. A Graph request is accepted only with a token whose header names RS256 and the identifier of a
  published key, whose signature over header and payload verifies under that key, and whose payload has the
  Graph audience and version, was issued by this server for a
  tenant that exists, has an expiry that lies ahead and no start that does (give or take the clock skew, in 64-bit seconds), and
  names, unless it is app-only, an enabled
  user of that tenant; every other token gets the same opaque answer.\<close>

theorem graph_caller_authenticated:
  "case validate_access_token k ks now r c bearer of
     Inl e \<Rightarrow> e = invalid_token
   | Inr ca \<Rightarrow>
       (\<exists>p0 p1 p2 raw h key sig. str_split bearer ''.'' = [p0, p1, p2] \<and> b64_decode p0 = Some raw \<and> cr_unmarshal k raw = Some h \<and>
          string_claim (claim_get h ''alg'') = ''RS256'' \<and> key \<in> set (ks_keys ks) \<and> sk_kid key = string_claim (claim_get h ''kid'') \<and>
          b64_decode p2 = Some sig \<and> cr_verify k (sk_private key) (cr_sha256 k (p0 @ ''.'' @ p1)) sig \<and>
          Option.bind (b64_decode p1) (cr_unmarshal k) = Some (ca_claims ca)) \<and>
       claim_string (ca_claims ca) ''aud'' = graph_app_id \<and> claim_string (ca_claims ca) ''ver'' = ''2.0'' \<and>
       ca_tenant ca \<in> set (c_tenants c) \<and> ca_tid ca = to_lower (claim_string (ca_claims ca) ''tid'') \<and>
       claim_string (ca_claims ca) ''iss'' = issuer (issuer_origin r) (c_base_path c) (ca_tid ca) \<and>
       (\<exists>exp. claim_time (ca_claims ca) ''exp'' = Some exp \<and> wrap64 (unix_of now - clock_skew c) < exp) \<and>
       (case claim_time (ca_claims ca) ''nbf'' of Some nbf \<Rightarrow> nbf \<le> wrap64 (unix_of now + clock_skew c) | None \<Rightarrow> True) \<and>
       (if ca_oid ca = [] then ca_user ca = None \<and> ca_kind ca = TokenAppOnly
        else \<exists>u. ca_user ca = Some u \<and> ca_kind ca = TokenDelegated \<and> u \<in> set (users_in c (ca_tid ca)) \<and>
               u_oid u = to_lower (trim_space (ca_oid ca)) \<and> user_enabled u)"
proof (cases "validate_access_token k ks now r c bearer")
  case (Inl e)
  then have "e = invalid_token"
    by (auto simp: validate_access_token_def Let_def split: if_splits option.splits)
  then show ?thesis using Inl by simp
next
  case (Inr ca)
  then obtain h cl where v: "ks_verify k ks bearer = Some (h, cl)"
    by (auto simp: validate_access_token_def split: if_splits option.splits)
  let ?tid = "to_lower (claim_string cl ''tid'')" and ?oid = "to_lower (claim_string cl ''oid'')"
  from Inr v have a: "claim_string cl ''aud'' = graph_app_id" "claim_string cl ''ver'' = ''2.0''" "?tid \<noteq> []"
      "claim_string cl ''iss'' = issuer (issuer_origin r) (c_base_path c) ?tid"
    by (auto simp: validate_access_token_def Let_def split: if_splits option.splits)
  from Inr v a obtain exp t where e: "claim_time cl ''exp'' = Some exp" "wrap64 (unix_of now - clock_skew c) < exp"
    and n: "case claim_time cl ''nbf'' of Some nbf \<Rightarrow> nbf \<le> wrap64 (unix_of now + clock_skew c) | None \<Rightarrow> True"
    and t: "tenant_by_id c ?tid = Some t"
    and ca: "ca_claims ca = cl" "ca_tenant ca = t" "ca_tid ca = t_tid t" "ca_oid ca = ?oid"
      "if ?oid = [] then ca_user ca = None \<and> ca_kind ca = TokenAppOnly
       else \<exists>u. user_by_oid c ?tid ?oid = Some u \<and> user_enabled u \<and> ca_user ca = Some u \<and> ca_kind ca = TokenDelegated"
    by (auto simp: validate_access_token_def Let_def not_le not_less split: if_splits option.splits)
  from tenant_by_idD[OF t] have tid: "t \<in> set (c_tenants c)" "t_tid t = ?tid" by simp_all
  have user: "\<exists>u. ca_user ca = Some u \<and> ca_kind ca = TokenDelegated \<and> u \<in> set (users_in c ?tid) \<and>
      u_oid u = to_lower (trim_space ?oid) \<and> user_enabled u" if "?oid \<noteq> []"
    using ca(5) that by (auto dest: user_by_oidD)
  have signed: "\<exists>p0 p1 p2 raw h key sig. str_split bearer ''.'' = [p0, p1, p2] \<and> b64_decode p0 = Some raw \<and> cr_unmarshal k raw = Some h \<and>
    string_claim (claim_get h ''alg'') = ''RS256'' \<and> key \<in> set (ks_keys ks) \<and> sk_kid key = string_claim (claim_get h ''kid'') \<and>
    b64_decode p2 = Some sig \<and> cr_verify k (sk_private key) (cr_sha256 k (p0 @ ''.'' @ p1)) sig \<and>
    Option.bind (b64_decode p1) (cr_unmarshal k) = Some cl"
    using ks_verify_header[OF v] by blast
  show ?thesis unfolding Inr sum.case ca(1) by (rule conjI[OF signed]) (use a e n tid ca user in auto)
qed

text \<open>What the check answers for a token whose claims are those of this server and inside the window.\<close>

lemma validate_accepts:
  assumes "ks_verify k ks jwt = Some (h, cl)" "jwt \<noteq> []"
    and "claim_string cl ''aud'' = graph_app_id" "claim_string cl ''ver'' = ''2.0''"
    and "claim_string cl ''tid'' = tid" "to_lower tid = tid" "tid \<noteq> []" "tenant_by_id c tid = Some t"
    and "claim_string cl ''iss'' = issuer (issuer_origin r) (c_base_path c) tid"
    and time: "claim_time cl ''exp'' = Some e" "claim_time cl ''nbf'' = Some n" "n \<le> unix_of now"
      "unix_of now < e + clock_skew c" "0 \<le> unix_of now" "0 \<le> clock_skew c" "unix_of now + clock_skew c < 2 ^ 63"
  shows "validate_access_token k ks now r c jwt =
    (let oid = to_lower (claim_string cl ''oid''); appid = claim_string cl ''appid'';
         ca = \<lparr>ca_claims = cl, ca_tenant = t, ca_user = None, ca_tid = t_tid t, ca_oid = oid, ca_sub = claim_string cl ''sub'',
               ca_client_id = (if appid = [] then claim_string cl ''azp'' else appid), ca_kind = TokenAppOnly\<rparr>
     in if oid = [] then Inr ca
        else case user_by_oid c tid oid of
               None \<Rightarrow> Inl invalid_token
             | Some u \<Rightarrow> if \<not> user_enabled u then Inl invalid_token
                         else Inr (ca\<lparr>ca_user := Some u, ca_kind := TokenDelegated\<rparr>))"
proof -
  have w: "wrap64 (unix_of now - clock_skew c) = unix_of now - clock_skew c"
    "wrap64 (unix_of now + clock_skew c) = unix_of now + clock_skew c"
    using time by (intro wrap64_id; simp)+
  show ?thesis using assms w by (simp add: validate_access_token_def Let_def)
qed

lemma config_clock:
  assumes "config_wf c" shows "0 < c_token_expiry c" "0 \<le> clock_skew c"
  using assms by (auto simp: config_wf_def graph_wf_def clock_skew_def default_graph_clock_skew_def split: option.splits)

text \<open>The claims a Graph request reads survive their way through JSON.\<close>

definition json_keeps :: "claims \<Rightarrow> claims \<Rightarrow> bool" where
  "json_keeps c c' \<longleftrightarrow> (\<forall>n. claim_string c' n = claim_string c n \<and> claim_time c' n = claim_time c n)"

definition access_input :: "request \<Rightarrow> config \<Rightarrow> tenant \<Rightarrow> user \<Rightarrow> string \<Rightarrow> string list \<Rightarrow> int \<Rightarrow> token_input" where
  "access_input r c t u client_id scopes now =
     \<lparr>in_graph_base = graph_base c, in_overage_self = overage_self_hosted c, in_origin = issuer_origin r,
      in_base_path = c_base_path c, in_tenant = t, in_user = u, in_client_id = client_id, in_nonce = [],
      in_scopes = scopes, in_now = now, in_expiry = c_token_expiry c, in_mapped = mapped_claims c client_id u\<rparr>"

lemma access_claims_get:
  "claim_get (access_token_claims k uti inp) ''aud'' = VStr graph_app_id"
  "claim_get (access_token_claims k uti inp) ''azp'' = VStr (in_client_id inp)"
  "claim_get (access_token_claims k uti inp) ''appid'' = VStr (in_client_id inp)"
  "n \<notin> {''aud'', ''scp'', ''azp'', ''appid''} \<Longrightarrow> claim_get (access_token_claims k uti inp) n = claim_get (base_claims k uti inp) n"
  by (simp_all add: access_token_claims_def)

text \<open>An access token this server signs for an enabled user is
  accepted by its Graph surface, for that user and tenant and the client it was issued to, from
  the moment of issue until its expiry (plus the clock skew).\<close>

lemma issued_access_token_accepted:
  assumes keys: "key_set_wf ks" "sound_signature k" "reads_header k (ks_active_kid ks)"
    and conf: "config_wf c" "tenant_by_id c (u_tid u) = Some t" "u \<in> set (c_users c)" "user_enabled u"
      "user_by_oid c (u_tid u) (u_oid u) = Some u" "c_token_expiry c < 9223372036"
    and json: "cr_unmarshal k (cr_marshal k (access_token_claims k uti (access_input r c t u client_id scopes issued))) = Some cl"
      "json_keeps (access_token_claims k uti (access_input r c t u client_id scopes issued)) cl"
    and time: "unix_of issued \<le> unix_of now" "unix_of now < unix_of issued + c_token_expiry c + clock_skew c"
      "0 \<le> unix_of now" "unix_of now + clock_skew c < 2 ^ 63"
    and client: "client_id \<noteq> []"
  shows "\<exists>ca. validate_access_token k ks now r c
      (ks_sign k ks (access_token_claims k uti (access_input r c t u client_id scopes issued))) = Inr ca \<and>
    ca_user ca = Some u \<and> ca_tenant ca = t \<and> ca_client_id ca = client_id"
proof -
  let ?inp = "access_input r c t u client_id scopes issued"
  let ?c = "access_token_claims k uti ?inp"
  from ks_sign_verifies[OF keys json(1)]
  obtain h where v: "ks_verify k ks (ks_sign k ks ?c) = Some (h, cl)" by blast
  have ne: "ks_sign k ks ?c \<noteq> []" by (simp add: ks_sign_def sign_jwt_def Let_def)
  have w: "static_wf c" by (rule config_wf_static[OF conf(1)])
  have tid: "guid_re (u_tid u)" using w conf(3) by (rule user_tid_guid)
  then have low: "to_lower (u_tid u) = u_tid u" by simp
  have tt: "t_tid t = u_tid u" using tenant_by_idD[OF conf(2)] low by simp
  have oid: "guid_re (u_oid u)" using conf(1,3) by (auto simp: config_wf_def list_all_iff user_wf_def)
  note ex = config_clock(1)[OF conf(1)] and sk = config_clock(2)[OF conf(1)]
  have j: "claim_string cl n = claim_string ?c n" "claim_time cl n = claim_time ?c n" for n
    using json(2) by (simp_all add: json_keeps_def)
  have f: "in_client_id ?inp = client_id" "in_origin ?inp = issuer_origin r" "in_base_path ?inp = c_base_path c"
    "in_tenant ?inp = t" "in_user ?inp = u" "in_now ?inp = issued" "in_expiry ?inp = c_token_expiry c"
    by (simp_all add: access_input_def)
  have cs: "claim_string cl ''aud'' = graph_app_id" "claim_string cl ''ver'' = ''2.0''"
    "claim_string cl ''tid'' = u_tid u" "claim_string cl ''iss'' = issuer (issuer_origin r) (c_base_path c) (u_tid u)"
    "claim_string cl ''oid'' = u_oid u" "claim_string cl ''appid'' = client_id"
    "claim_time cl ''exp'' = Some (unix_of issued + c_token_expiry c)" "claim_time cl ''nbf'' = Some (unix_of issued)"
    using ex conf(6) unfolding j
    by (simp_all add: claim_string_def claim_time_def string_claim_def access_claims_get base_claims_get f tt seconds_small)
  have ids: "u_tid u \<noteq> []" "u_oid u \<noteq> []" using tid oid by auto
  show ?thesis using ids oid conf(4,5) client
    by (simp add: validate_accepts[OF v ne cs(1-3) low ids(1) conf(2) cs(4,7,8) time(1,2,3) sk time(4)] cs tt Let_def)
qed

definition sample_tenant :: tenant where
  "sample_tenant = (case tenant_by_id sample_seed tid_b of Some t \<Rightarrow> t | None \<Rightarrow> nil_tenant)"

definition sample_user :: user where
  "sample_user = (case user_by_name sample_seed tid_b ''carol'' of Some u \<Rightarrow> u | None \<Rightarrow> sample_carol)"

lemma sample_user_facts:
  "tenant_by_id sample_seed (u_tid sample_user) = Some sample_tenant"
  "list_ex (\<lambda>u. u = sample_user) (c_users sample_seed)" "user_enabled sample_user"
  "user_by_oid sample_seed (u_tid sample_user) (u_oid sample_user) = Some sample_user"
  "c_token_expiry sample_seed = 3600" "clock_skew sample_seed = 60"
  by code_simp+

lemma access_claims_hashes:
  "cr_sha1 k = cr_sha1 k' \<Longrightarrow> cr_sha256 k = cr_sha256 k' \<Longrightarrow> access_token_claims k uti inp = access_token_claims k' uti inp"
proof -
  assume a: "cr_sha1 k = cr_sha1 k'" "cr_sha256 k = cr_sha256 k'"
  have "pairwise_sub k = pairwise_sub k'" unfolding pairwise_sub_def[abs_def] a by (rule refl)
  moreover have "add_groups k = add_groups k'" unfolding add_groups_def[abs_def] a by (rule refl)
  ultimately show ?thesis unfolding access_token_claims_def base_claims_def by (simp only:)
qed

end
