(* ===== verification/Entra_Filter.thy ===== *)
theory Entra_Filter
  imports Entra_Entity Entra_Verify
begin

text \<open>
  The \<open>$filter\<close> language of the Graph surface (internal/entra/filter.go): expressions and their
  evaluation on a rendered entity, the lexer, and the recursive-descent parser that checks
  every property path against the schema of the entity type.

  The parser works on the list of tokens that remain. Its recursion runs on fuel; fuel
  \<open>3 * n + 3\<close> is enough for \<open>n\<close> tokens (\<open>filter_parser_total\<close>), so \<open>FilterFuel\<close> never
  reaches a caller.
\<close>

section \<open>Expressions\<close>

datatype filter_expr =
    FilterOr "filter_expr list"
  | FilterAnd "filter_expr list"
  | FilterNot filter_expr
  | FilterCmp "string list" string "gval list"
  | FilterAny "string list" gval

fun lookup_path :: "gval \<Rightarrow> string list \<Rightarrow> gval" where
  "lookup_path v [] = v"
| "lookup_path (VObj fs) (seg # path) =
     lookup_path (case find (\<lambda>(n, _). equal_fold n seg) fs of Some (_, v) \<Rightarrow> v | None \<Rightarrow> VNil) path"
| "lookup_path v (seg # path) = VNil"

definition literal_equals :: "gval \<Rightarrow> gval \<Rightarrow> bool" where
  "literal_equals v lit =
     (case lit of
        VNil \<Rightarrow> v = VNil
      | VBool b \<Rightarrow> v = VBool b
      | VStr l \<Rightarrow> (case v of VStr s \<Rightarrow> equal_fold s l | _ \<Rightarrow> False)
      | _ \<Rightarrow> False)"

definition lits_head :: "gval list \<Rightarrow> gval" where
  "lits_head lits = (case lits of l # _ \<Rightarrow> l | [] \<Rightarrow> VNil)"

definition cmp_eval :: "entity \<Rightarrow> string list \<Rightarrow> string \<Rightarrow> gval list \<Rightarrow> bool" where
  "cmp_eval e path op lits =
     (let v = lookup_path (VObj e) path in
      if op = ''ne'' then \<not> literal_equals v (lits_head lits)
      else if op = ''startswith'' then
        (case v of VStr s \<Rightarrow> has_prefix (to_lower s) (to_lower (string_claim (lits_head lits))) | _ \<Rightarrow> False)
      else list_ex (literal_equals v) lits)"

definition any_eval :: "entity \<Rightarrow> string list \<Rightarrow> gval \<Rightarrow> bool" where
  "any_eval e path lit =
     (case lookup_path (VObj e) path of VArr vs \<Rightarrow> list_ex (\<lambda>v. literal_equals v lit) vs | _ \<Rightarrow> False)"

fun filter_eval :: "entity \<Rightarrow> filter_expr \<Rightarrow> bool" where
  "filter_eval e (FilterOr fs) = list_ex (filter_eval e) fs"
| "filter_eval e (FilterAnd fs) = list_all (filter_eval e) fs"
| "filter_eval e (FilterNot f) = (\<not> filter_eval e f)"
| "filter_eval e (FilterCmp path op lits) = cmp_eval e path op lits"
| "filter_eval e (FilterAny path lit) = any_eval e path lit"

section \<open>Lexer\<close>

type_synonym filter_tok = "bool \<times> string"

datatype filter_failure = FilterRefused graph_error | FilterFuel

definition invalid_filter :: "string \<Rightarrow> graph_error" where
  "invalid_filter m = unsupported_query (''Invalid filter clause: '' @ m @ ''.'')"

definition refuse :: "graph_error \<Rightarrow> filter_failure + 'a" where
  "refuse e = Inl (FilterRefused e)"

definition filter_punct :: "char \<Rightarrow> bool" where
  "filter_punct c \<longleftrightarrow> c \<in> set ''(),:''"

definition apostrophe :: char where "apostrophe = CHR 0x27"

definition apos :: "string \<Rightarrow> string" where
  "apos s = [apostrophe] @ s @ [apostrophe]"

fun lex_literal :: "string \<Rightarrow> (string \<times> string) option" where
  "lex_literal [] = None"
| "lex_literal (c # cs) =
     (if c = apostrophe then
        (case cs of
           d # ds \<Rightarrow> if d = apostrophe then map_option (\<lambda>(b, r). (apostrophe # b, r)) (lex_literal ds) else Some ([], cs)
         | [] \<Rightarrow> Some ([], []))
      else map_option (\<lambda>(b, r). (c # b, r)) (lex_literal cs))"

lemma lex_literal_length: "lex_literal s = Some (b, r) \<Longrightarrow> length r < length s"
proof (induction s arbitrary: b r rule: lex_literal.induct)
  case (2 c cs)
  then show ?case by (fastforce split: if_splits list.splits)
qed simp

definition filter_word_char :: "char \<Rightarrow> bool" where
  "filter_word_char c \<longleftrightarrow> \<not> is_space c \<and> \<not> filter_punct c \<and> c \<noteq> apostrophe"

function lex_filter_toks :: "string \<Rightarrow> string + filter_tok list" where
  "lex_filter_toks [] = Inr []"
| "lex_filter_toks (c # cs) =
     (if is_space c then lex_filter_toks cs
      else if filter_punct c then ebind (lex_filter_toks cs) (\<lambda>ts. Inr ((False, [c]) # ts))
      else if c = apostrophe then
        (case lex_literal cs of
           None \<Rightarrow> Inl ''unterminated string literal''
         | Some (b, rest) \<Rightarrow> ebind (lex_filter_toks rest) (\<lambda>ts. Inr ((True, b) # ts)))
      else ebind (lex_filter_toks (dropWhile filter_word_char cs))
             (\<lambda>ts. Inr ((False, c # takeWhile filter_word_char cs) # ts)))"
  by pat_completeness auto
termination
  by (relation "measure length")
    (auto simp: less_Suc_eq_le length_dropWhile_le intro: less_imp_le dest!: lex_literal_length[OF sym] lex_literal_length)

definition lex_filter :: "string \<Rightarrow> string + filter_tok list" where
  "lex_filter src = ebind (lex_filter_toks src) (\<lambda>ts. if ts = [] then Inl ''empty expression'' else Inr ts)"

section \<open>Parser\<close>

definition tok_text :: "filter_tok list \<Rightarrow> string" where
  "tok_text ts = (case ts of [] \<Rightarrow> [] | t # _ \<Rightarrow> snd t)"

definition filter_word :: "string \<Rightarrow> filter_tok list \<Rightarrow> filter_tok list option" where
  "filter_word w ts = (case ts of (False, x) # r \<Rightarrow> if equal_fold x w then Some r else None | _ \<Rightarrow> None)"

definition filter_expect :: "string \<Rightarrow> filter_tok list \<Rightarrow> filter_failure + filter_tok list" where
  "filter_expect w ts =
     (case filter_word w ts of
        Some r \<Rightarrow> Inr r
      | None \<Rightarrow> refuse (invalid_filter (''expected '' @ apos w @ '' but found '' @ apos (tok_text ts))))"

definition no_property :: "string \<Rightarrow> string \<Rightarrow> graph_error" where
  "no_property raw odata_type =
     unsupported_query (''Could not find a property named '' @ apos raw @ '' on type '' @ apos odata_type @ ''.'')"

fun resolve_segs :: "gval \<Rightarrow> string list \<Rightarrow> gval option" where
  "resolve_segs cur [] = Some cur"
| "resolve_segs (VObj fs) (seg # path) =
     (case find (\<lambda>(n, _). equal_fold n seg \<and> \<not> has_prefix n ''@'') fs of
        Some (_, v) \<Rightarrow> resolve_segs v path
      | None \<Rightarrow> None)"
| "resolve_segs cur (seg # path) = None"

definition filter_resolve :: "string \<Rightarrow> string \<Rightarrow> filter_failure + string list" where
  "filter_resolve odata_type raw =
     (case resolve_segs (VObj (filter_schema odata_type)) (str_split raw ''/'') of
        None \<Rightarrow> refuse (no_property raw odata_type)
      | Some (VObj _) \<Rightarrow> refuse (invalid_filter (apos raw @ '' is a complex property; filter on one of its members''))
      | Some _ \<Rightarrow> Inr (str_split raw ''/''))"

definition filter_path :: "string \<Rightarrow> filter_tok list \<Rightarrow> filter_failure + (string list \<times> filter_tok list)" where
  "filter_path odata_type ts =
     (case ts of
        (False, x) # r \<Rightarrow>
          if list_ex filter_punct x then refuse (invalid_filter ''expected a property name'')
          else ebind (filter_resolve odata_type x) (\<lambda>path. Inr (path, r))
      | _ \<Rightarrow> refuse (invalid_filter ''expected a property name''))"

definition filter_literal :: "filter_tok list \<Rightarrow> filter_failure + (gval \<times> filter_tok list)" where
  "filter_literal ts =
     (case ts of
        [] \<Rightarrow> refuse (invalid_filter ''expected a literal'')
      | (str, x) # r \<Rightarrow>
          if str then Inr (VStr x, r)
          else if to_lower x = ''null'' then Inr (VNil, r)
          else if to_lower x = ''true'' then Inr (VBool True, r)
          else if to_lower x = ''false'' then Inr (VBool False, r)
          else refuse (invalid_filter (''expected a literal but found '' @ apos x)))"

definition filter_starts_with :: "string \<Rightarrow> filter_tok list \<Rightarrow> filter_failure + (filter_expr \<times> filter_tok list)" where
  "filter_starts_with odata_type ts =
     ebind (filter_expect ''('' ts) (\<lambda>ts1.
     ebind (filter_path odata_type ts1) (\<lambda>(path, ts2).
     ebind (filter_expect '','' ts2) (\<lambda>ts3.
       case ts3 of
         (True, x) # ts4 \<Rightarrow> ebind (filter_expect '')'' ts4) (\<lambda>ts5. Inr (FilterCmp path ''startswith'' [VStr x], ts5))
       | _ \<Rightarrow> refuse (invalid_filter ''startsWith needs a string literal''))))"

lemma filter_word_length: "filter_word w ts = Some r \<Longrightarrow> length ts = Suc (length r)"
  by (auto simp: filter_word_def split: list.splits bool.splits if_splits)

lemma filter_expect_length: "filter_expect w ts = Inr r \<Longrightarrow> length ts = Suc (length r)"
  by (auto simp: filter_expect_def refuse_def dest: filter_word_length split: option.splits)

lemma filter_literal_length: "filter_literal ts = Inr (l, r) \<Longrightarrow> length ts = Suc (length r)"
  by (auto simp: filter_literal_def refuse_def split: list.splits if_splits)

function filter_in :: "gval list \<Rightarrow> filter_tok list \<Rightarrow> filter_failure + (gval list \<times> filter_tok list)" where
  "filter_in lits ts =
     ebind (filter_literal ts) (\<lambda>(lit, r).
       case filter_word '')'' r of
         Some r' \<Rightarrow> Inr (lits @ [lit], r')
       | None \<Rightarrow> ebind (filter_expect '','' r) (\<lambda>r'. filter_in (lits @ [lit]) r'))"
  by pat_completeness auto
termination
  by (relation "measure (\<lambda>(_, ts). length ts)") (auto dest!: filter_literal_length filter_expect_length)

declare filter_in.simps [simp del]

definition filter_any :: "string \<Rightarrow> filter_tok list \<Rightarrow> filter_failure + (filter_expr \<times> filter_tok list)" where
  "filter_any odata_type ts =
     (let text = tok_text ts in
      ebind (filter_resolve odata_type (take (length text - 4) text)) (\<lambda>path.
      (case lookup_path (VObj (filter_schema odata_type)) path of
         VArr _ \<Rightarrow>
           ebind (filter_expect ''('' (tl ts)) (\<lambda>ts1.
             case ts1 of
               (False, v) # ts2 \<Rightarrow>
                 ebind (filter_expect '':'' ts2) (\<lambda>ts3.
                 ebind (filter_expect v ts3) (\<lambda>ts4.
                   case filter_word ''eq'' ts4 of
                     None \<Rightarrow> refuse (unsupported_query (''Only '' @ apos ''eq'' @ '' is supported inside any() by this emulator.''))
                   | Some ts5 \<Rightarrow>
                       ebind (filter_literal ts5) (\<lambda>(lit, ts6).
                       ebind (filter_expect '')'' ts6) (\<lambda>ts7. Inr (FilterAny path lit, ts7)))))
             | _ \<Rightarrow> refuse (invalid_filter ''expected a lambda variable''))
       | _ \<Rightarrow> refuse (invalid_filter ''any() needs a collection property''))))"

definition is_any_tok :: "filter_tok list \<Rightarrow> bool" where
  "is_any_tok ts \<longleftrightarrow> (case ts of (False, x) # _ \<Rightarrow> 4 < length x \<and> equal_fold (drop (length x - 4) x) ''/any'' | _ \<Rightarrow> False)"

definition filter_comparison :: "string \<Rightarrow> filter_tok list \<Rightarrow> filter_failure + (filter_expr \<times> filter_tok list)" where
  "filter_comparison odata_type ts =
     (if is_any_tok ts then filter_any odata_type ts
      else
        ebind (filter_path odata_type ts) (\<lambda>(path, ts1).
          case ts1 of
            (False, op) # ts2 \<Rightarrow>
              if to_lower op = ''eq'' \<or> to_lower op = ''ne'' then
                ebind (filter_literal ts2) (\<lambda>(lit, ts3). Inr (FilterCmp path (to_lower op) [lit], ts3))
              else if to_lower op = ''in'' then
                ebind (filter_expect ''('' ts2) (\<lambda>ts3.
                ebind (filter_in [] ts3) (\<lambda>(lits, ts4). Inr (FilterCmp path ''in'' lits, ts4)))
              else refuse (unsupported_query (''The operator '' @ apos op @ '' is not supported by this emulator.''))
          | _ \<Rightarrow> refuse (invalid_filter (''expected an operator after '' @ apos (str_join path ''/'')))))"

type_synonym filter_result = "filter_failure + (filter_expr \<times> filter_tok list)"

function (sequential) filter_or :: "string \<Rightarrow> nat \<Rightarrow> filter_tok list \<Rightarrow> filter_result"
and filter_or_rest :: "string \<Rightarrow> nat \<Rightarrow> filter_expr list \<Rightarrow> filter_tok list \<Rightarrow> filter_result"
and filter_and :: "string \<Rightarrow> nat \<Rightarrow> filter_tok list \<Rightarrow> filter_result"
and filter_and_rest :: "string \<Rightarrow> nat \<Rightarrow> filter_expr list \<Rightarrow> filter_tok list \<Rightarrow> filter_result"
and filter_unary :: "string \<Rightarrow> nat \<Rightarrow> filter_tok list \<Rightarrow> filter_result"
where
  "filter_or ty 0 ts = Inl FilterFuel"
| "filter_or ty (Suc n) ts = ebind (filter_and ty n ts) (\<lambda>(f, r). filter_or_rest ty n [f] r)"
| "filter_or_rest ty 0 out ts = Inl FilterFuel"
| "filter_or_rest ty (Suc n) out ts =
     (case filter_word ''or'' ts of
        Some r \<Rightarrow> ebind (filter_and ty n r) (\<lambda>(f, r'). filter_or_rest ty n (out @ [f]) r')
      | None \<Rightarrow> Inr (if length out = 1 then hd out else FilterOr out, ts))"
| "filter_and ty 0 ts = Inl FilterFuel"
| "filter_and ty (Suc n) ts = ebind (filter_unary ty n ts) (\<lambda>(f, r). filter_and_rest ty n [f] r)"
| "filter_and_rest ty 0 out ts = Inl FilterFuel"
| "filter_and_rest ty (Suc n) out ts =
     (case filter_word ''and'' ts of
        Some r \<Rightarrow> ebind (filter_unary ty n r) (\<lambda>(f, r'). filter_and_rest ty n (out @ [f]) r')
      | None \<Rightarrow> Inr (if length out = 1 then hd out else FilterAnd out, ts))"
| "filter_unary ty 0 ts = Inl FilterFuel"
| "filter_unary ty (Suc n) ts =
     (case filter_word ''not'' ts of
        Some r \<Rightarrow> ebind (filter_unary ty n r) (\<lambda>(f, r'). Inr (FilterNot f, r'))
      | None \<Rightarrow>
          (case filter_word ''('' ts of
             Some r \<Rightarrow> ebind (filter_or ty n r) (\<lambda>(f, r'). ebind (filter_expect '')'' r') (\<lambda>r''. Inr (f, r'')))
           | None \<Rightarrow>
               (case filter_word ''startsWith'' ts of
                  Some r \<Rightarrow> filter_starts_with ty r
                | None \<Rightarrow> filter_comparison ty ts)))"
  by pat_completeness simp_all
termination
  by size_change

definition filter_fuel :: "filter_tok list \<Rightarrow> nat" where
  "filter_fuel ts = 3 * length ts + 3"

definition parse_filter :: "string \<Rightarrow> string \<Rightarrow> filter_failure + filter_expr" where
  "parse_filter src odata_type =
     (case lex_filter src of
        Inl msg \<Rightarrow> refuse (invalid_filter msg)
      | Inr toks \<Rightarrow>
          ebind (filter_or odata_type (filter_fuel toks) toks)
            (\<lambda>(f, rest). if rest \<noteq> [] then refuse (invalid_filter (''unexpected '' @ apos (tok_text rest))) else Inr f))"

end
