(* ===== verification/Entra_Filter_Laws.thy ===== *)
theory Entra_Filter_Laws
  imports Entra_Filter
begin

text \<open>
  What makes the filter language correct: the parser returns on every input, every expression
  it builds compares a leaf of the entity's schema with literals, the operators have the
  meaning of directory queries, and the parser inverts the printer of expressions.
\<close>

section \<open>Well-formed expressions\<close>

definition leaf_value :: "gval \<Rightarrow> bool" where
  "leaf_value v \<longleftrightarrow> (case v of VObj _ \<Rightarrow> False | _ \<Rightarrow> True)"

definition path_ok :: "string \<Rightarrow> string list \<Rightarrow> bool" where
  "path_ok ty path \<longleftrightarrow> (case resolve_segs (VObj (filter_schema ty)) path of Some v \<Rightarrow> leaf_value v | None \<Rightarrow> False)"

definition literal_ok :: "gval \<Rightarrow> bool" where
  "literal_ok l \<longleftrightarrow> (case l of VNil \<Rightarrow> True | VBool _ \<Rightarrow> True | VStr _ \<Rightarrow> True | _ \<Rightarrow> False)"

definition is_str :: "gval \<Rightarrow> bool" where
  "is_str v \<longleftrightarrow> (case v of VStr _ \<Rightarrow> True | _ \<Rightarrow> False)"

definition is_arr :: "gval \<Rightarrow> bool" where
  "is_arr v \<longleftrightarrow> (case v of VArr _ \<Rightarrow> True | _ \<Rightarrow> False)"

fun filter_wf :: "string \<Rightarrow> filter_expr \<Rightarrow> bool" where
  "filter_wf ty (FilterOr fs) \<longleftrightarrow> 2 \<le> length fs \<and> list_all (filter_wf ty) fs"
| "filter_wf ty (FilterAnd fs) \<longleftrightarrow> 2 \<le> length fs \<and> list_all (filter_wf ty) fs"
| "filter_wf ty (FilterNot f) \<longleftrightarrow> filter_wf ty f"
| "filter_wf ty (FilterCmp path op lits) \<longleftrightarrow> path_ok ty path \<and> lits \<noteq> [] \<and> list_all literal_ok lits \<and>
     (if op = ''in'' then True
      else length lits = 1 \<and> (op = ''eq'' \<or> op = ''ne'' \<or> (op = ''startswith'' \<and> is_str (lits_head lits))))"
| "filter_wf ty (FilterAny path lit) \<longleftrightarrow> path_ok ty path \<and>
     is_arr (lookup_path (VObj (filter_schema ty)) path) \<and> literal_ok lit"

section \<open>Parsers that consume tokens\<close>

definition consumes :: "('a \<Rightarrow> bool) \<Rightarrow> filter_tok list \<Rightarrow> filter_failure + ('a \<times> filter_tok list) \<Rightarrow> bool" where
  "consumes Q ts res \<longleftrightarrow> res \<noteq> Inl FilterFuel \<and> (\<forall>x r. res = Inr (x, r) \<longrightarrow> Q x \<and> length r < length ts)"

definition shrinks :: "('a \<Rightarrow> bool) \<Rightarrow> filter_tok list \<Rightarrow> filter_failure + ('a \<times> filter_tok list) \<Rightarrow> bool" where
  "shrinks Q ts res \<longleftrightarrow> res \<noteq> Inl FilterFuel \<and> (\<forall>x r. res = Inr (x, r) \<longrightarrow> Q x \<and> length r \<le> length ts)"

lemma shrinks_intros [simp]:
  "shrinks Q ts (refuse e)" "consumes Q ts (refuse e)"
  "shrinks Q ts (Inr (x, r)) \<longleftrightarrow> Q x \<and> length r \<le> length ts"
  "consumes Q ts (Inr (x, r)) \<longleftrightarrow> Q x \<and> length r < length ts"
  by (simp_all add: shrinks_def consumes_def refuse_def)

lemma consumes_shrinks: "consumes Q ts res \<Longrightarrow> shrinks Q ts res"
  by (fastforce simp: shrinks_def consumes_def)

lemma consumes_later: "consumes Q ts' res \<Longrightarrow> length ts' \<le> length ts \<Longrightarrow> consumes Q ts res"
  by (force simp: consumes_def)

lemma consumes_bind:
  assumes "consumes Q ts m" and "\<And>x r. Q x \<Longrightarrow> length r < length ts \<Longrightarrow> shrinks R r (f (x, r))"
  shows "consumes R ts (ebind m f)"
  using assms by (cases m) (fastforce simp: consumes_def shrinks_def)+

text \<open>What the small parsers return, as destruction rules; none of them runs out of fuel.\<close>

lemma leaf_no_fuel [simp]:
  "filter_expect w ts \<noteq> Inl FilterFuel" "filter_resolve ty x \<noteq> Inl FilterFuel"
  "filter_path ty ts \<noteq> Inl FilterFuel" "filter_literal ts \<noteq> Inl FilterFuel" "refuse e \<noteq> Inl FilterFuel"
  "refuse e \<noteq> Inr y"
  by (auto simp: filter_expect_def filter_resolve_def filter_path_def filter_literal_def refuse_def err_simps
      split: option.splits list.splits bool.splits gval.splits)

text \<open>The branch on the kind of the next token.\<close>

lemma tok_case [err_simps]:
  "(case ts of [] \<Rightarrow> refuse e | (True, x) # r \<Rightarrow> f x r | (False, x) # r \<Rightarrow> g x r) = Inr y \<longleftrightarrow>
     (\<exists>x r. ts = (True, x) # r \<and> f x r = Inr y \<or> ts = (False, x) # r \<and> g x r = Inr y)"
  "(case ts of [] \<Rightarrow> refuse e | (True, x) # r \<Rightarrow> f x r | (False, x) # r \<Rightarrow> g x r) = Inl FilterFuel \<longleftrightarrow>
     (\<exists>x r. ts = (True, x) # r \<and> f x r = Inl FilterFuel \<or> ts = (False, x) # r \<and> g x r = Inl FilterFuel)"
  by (auto split: list.splits bool.splits)

lemma word_case [err_simps]:
  "(case o1 of None \<Rightarrow> refuse e | Some r \<Rightarrow> f r) = Inr y \<longleftrightarrow> (\<exists>r. o1 = Some r \<and> f r = Inr y)"
  "(case o1 of None \<Rightarrow> refuse e | Some r \<Rightarrow> f r) = Inl FilterFuel \<longleftrightarrow> (\<exists>r. o1 = Some r \<and> f r = Inl FilterFuel)"
  by (auto split: option.splits)

lemma arr_case [err_simps]:
  "(case v of VArr vs \<Rightarrow> m | _ \<Rightarrow> refuse e) = Inr y \<longleftrightarrow> is_arr v \<and> m = Inr y"
  "(case v of VArr vs \<Rightarrow> m | _ \<Rightarrow> refuse e) = Inl FilterFuel \<longleftrightarrow> is_arr v \<and> m = Inl FilterFuel"
  by (auto simp: is_arr_def split: gval.splits)

lemma filter_resolveD: "filter_resolve ty x = Inr path \<Longrightarrow> path_ok ty path"
  by (auto simp: filter_resolve_def path_ok_def leaf_value_def refuse_def split: option.splits gval.splits)

lemma filter_pathD: "filter_path ty ts = Inr (path, r) \<Longrightarrow> path_ok ty path \<and> length ts = Suc (length r)"
  by (auto simp: filter_path_def err_simps dest: filter_resolveD split: list.splits bool.splits if_splits)

lemma filter_literalD: "filter_literal ts = Inr (l, r) \<Longrightarrow> literal_ok l \<and> length ts = Suc (length r)"
  by (auto simp: filter_literal_def literal_ok_def split: list.splits if_splits)

lemma filter_inD:
  "filter_in lits ts \<noteq> Inl FilterFuel \<and>
   (\<forall>ls r. list_all literal_ok lits \<longrightarrow> filter_in lits ts = Inr (ls, r) \<longrightarrow>
      ls \<noteq> [] \<and> list_all literal_ok ls \<and> length r < length ts)"
proof (induction lits ts rule: filter_in.induct)
  case (1 lits ts)
  show ?case
  proof (cases "filter_literal ts")
    case (Inl e)
    then show ?thesis using leaf_no_fuel(4)[of ts] by (subst (1 2) filter_in.simps) simp
  next
    case (Inr p)
    obtain lit r where p: "p = (lit, r)" by (cases p)
    note lit = filter_literalD[OF Inr[unfolded p]]
    show ?thesis
    proof (cases "filter_word '')'' r")
      case (Some r')
      then show ?thesis using Inr p lit filter_word_length[OF Some] by (subst (1 2) filter_in.simps) simp
    next
      case None
      show ?thesis
      proof (cases "filter_expect '','' r")
        case (Inl e)
        then show ?thesis using Inr p None leaf_no_fuel(1)[of "'',''" r] by (subst (1 2) filter_in.simps) simp
      next
        case (Inr r')
        note ih = 1[OF \<open>filter_literal ts = Inr p\<close> p[symmetric] None Inr]
        have "filter_in lits ts = filter_in (lits @ [lit]) r'"
          using \<open>filter_literal ts = Inr p\<close> p None Inr by (subst filter_in.simps) simp
        then show ?thesis using ih lit filter_expect_length[OF Inr] by auto
      qed
    qed
  qed
qed

lemma filter_starts_with_consumes: "consumes (filter_wf ty) ts (filter_starts_with ty ts)"
  by (auto simp: consumes_def filter_starts_with_def err_simps literal_ok_def is_str_def lits_head_def
      dest!: filter_expect_length filter_pathD)

lemma filter_any_consumes: "ts \<noteq> [] \<Longrightarrow> consumes (filter_wf ty) ts (filter_any ty ts)"
  by (auto simp: consumes_def filter_any_def err_simps Let_def
      dest!: filter_expect_length filter_resolveD filter_literalD filter_word_length)

lemma filter_comparison_consumes: "consumes (filter_wf ty) ts (filter_comparison ty ts)"
proof (cases "is_any_tok ts")
  case True
  then have "ts \<noteq> []" by (auto simp: is_any_tok_def)
  then show ?thesis using True by (simp add: filter_comparison_def filter_any_consumes)
next
  case False
  have in_: "filter_in [] ts \<noteq> Inl FilterFuel"
    "filter_in [] ts = Inr (ls, r) \<Longrightarrow> ls \<noteq> [] \<and> list_all literal_ok ls \<and> length r < length ts" for ts ls r
    using filter_inD[of "[]" ts] by simp_all
  show ?thesis using False
    by (auto simp: consumes_def filter_comparison_def err_simps in_(1)
        dest!: filter_expect_length filter_pathD filter_literalD in_(2) split: if_splits)
qed


section \<open>The parser returns on every input\<close>

definition chain_ok :: "string \<Rightarrow> filter_expr list \<Rightarrow> bool" where
  "chain_ok ty out \<longleftrightarrow> out \<noteq> [] \<and> list_all (filter_wf ty) out"

lemma chain_ok_simps [simp]:
  "chain_ok ty [f] \<longleftrightarrow> filter_wf ty f" "chain_ok ty (out @ [f]) \<longleftrightarrow> list_all (filter_wf ty) out \<and> filter_wf ty f"
  by (auto simp: chain_ok_def)

lemma chain_ok_all: "chain_ok ty out \<Longrightarrow> list_all (filter_wf ty) out"
  by (simp add: chain_ok_def)

lemma chain_ok_wf:
  assumes "chain_ok ty out"
  shows "filter_wf ty (if length out = 1 then hd out else FilterOr out)"
    and "filter_wf ty (if length out = 1 then hd out else FilterAnd out)"
  using assms by (cases out; cases "tl out"; simp add: chain_ok_def)+

lemma word_step:
  assumes "\<And>r. length ts = Suc (length r) \<Longrightarrow> consumes Q r (f r)"
    and "shrinks Q ts g"
  shows "shrinks Q ts (case filter_word w ts of Some r \<Rightarrow> f r | None \<Rightarrow> g)"
proof (cases "filter_word w ts")
  case (Some r)
  with filter_word_length[OF Some] consumes_shrinks[OF consumes_later[OF assms(1)[of r]]] show ?thesis by simp
qed (use assms(2) in simp)

lemma word_step_consumes:
  assumes "\<And>r. length ts = Suc (length r) \<Longrightarrow> consumes Q r (f r)"
    and "consumes Q ts g"
  shows "consumes Q ts (case filter_word w ts of Some r \<Rightarrow> f r | None \<Rightarrow> g)"
proof (cases "filter_word w ts")
  case (Some r)
  with filter_word_length[OF Some] assms(1)[of r] show ?thesis by (auto intro: consumes_later)
qed (use assms(2) in simp)

text \<open>Fuel \<open>3 * n + 3\<close> suffices for \<open>n\<close> tokens, and every result is well formed.\<close>

lemma filter_parser_total:
  "(\<forall>ts. 3 * length ts + 3 \<le> n \<longrightarrow> consumes (filter_wf ty) ts (filter_or ty n ts)) \<and>
   (\<forall>out ts. 3 * length ts + 1 \<le> n \<longrightarrow> chain_ok ty out \<longrightarrow> shrinks (filter_wf ty) ts (filter_or_rest ty n out ts)) \<and>
   (\<forall>ts. 3 * length ts + 2 \<le> n \<longrightarrow> consumes (filter_wf ty) ts (filter_and ty n ts)) \<and>
   (\<forall>out ts. 3 * length ts + 1 \<le> n \<longrightarrow> chain_ok ty out \<longrightarrow> shrinks (filter_wf ty) ts (filter_and_rest ty n out ts)) \<and>
   (\<forall>ts. 3 * length ts + 1 \<le> n \<longrightarrow> consumes (filter_wf ty) ts (filter_unary ty n ts))"
proof (induction n)
  case (Suc n)
  then have OR: "3 * length ts + 3 \<le> n \<Longrightarrow> consumes (filter_wf ty) ts (filter_or ty n ts)"
    and ORR: "3 * length ts + 1 \<le> n \<Longrightarrow> chain_ok ty out \<Longrightarrow> shrinks (filter_wf ty) ts (filter_or_rest ty n out ts)"
    and AND: "3 * length ts + 2 \<le> n \<Longrightarrow> consumes (filter_wf ty) ts (filter_and ty n ts)"
    and ANDR: "3 * length ts + 1 \<le> n \<Longrightarrow> chain_ok ty out \<Longrightarrow> shrinks (filter_wf ty) ts (filter_and_rest ty n out ts)"
    and UN: "3 * length ts + 1 \<le> n \<Longrightarrow> consumes (filter_wf ty) ts (filter_unary ty n ts)" for ts out
    by blast+
  have or: "consumes (filter_wf ty) ts (filter_or ty (Suc n) ts)" if "3 * length ts + 3 \<le> Suc n" for ts
    using that by (auto intro!: consumes_bind[OF AND] ORR)
  have and_: "consumes (filter_wf ty) ts (filter_and ty (Suc n) ts)" if "3 * length ts + 2 \<le> Suc n" for ts
    using that by (auto intro!: consumes_bind[OF UN] ANDR)
  have orr: "shrinks (filter_wf ty) ts (filter_or_rest ty (Suc n) out ts)" if "3 * length ts + 1 \<le> Suc n" "chain_ok ty out" for out ts
    using that chain_ok_wf(1)[OF that(2)]
    by (auto simp del: One_nat_def intro!: word_step consumes_bind[OF AND] ORR dest: chain_ok_all)
  have andr: "shrinks (filter_wf ty) ts (filter_and_rest ty (Suc n) out ts)" if "3 * length ts + 1 \<le> Suc n" "chain_ok ty out" for out ts
    using that chain_ok_wf(2)[OF that(2)]
    by (auto simp del: One_nat_def intro!: word_step consumes_bind[OF UN] ANDR dest: chain_ok_all)
  have paren: "shrinks (filter_wf ty) r (ebind (filter_expect w r) (\<lambda>r'. Inr (f, r')))" if "filter_wf ty f" for f r w
    using that by (cases "filter_expect w r") (auto simp: shrinks_def dest: filter_expect_length)
  have un: "consumes (filter_wf ty) ts (filter_unary ty (Suc n) ts)" if "3 * length ts + 1 \<le> Suc n" for ts
    using that filter_comparison_consumes[of ty ts]
    by (auto intro!: word_step_consumes consumes_bind[OF UN] consumes_bind[OF OR] filter_starts_with_consumes paren)
  show ?case using or orr and_ andr un by blast
qed simp


section \<open>Properties\<close>

lemma parse_filter_total:
  "case parse_filter src ty of Inr f \<Rightarrow> filter_wf ty f | Inl e \<Rightarrow> (\<exists>g. e = FilterRefused g)"
proof (cases "lex_filter src")
  case (Inr toks)
  have c: "consumes (filter_wf ty) toks (filter_or ty (filter_fuel toks) toks)"
    using filter_parser_total[of "filter_fuel toks" ty] by (simp add: filter_fuel_def)
  show ?thesis
  proof (cases "filter_or ty (filter_fuel toks) toks")
    case (Inl e)
    then show ?thesis using c Inr by (cases e) (auto simp: parse_filter_def consumes_def)
  next
    case (Inr p)
    then show ?thesis using c \<open>lex_filter src = Inr toks\<close>
      by (cases p) (auto simp: parse_filter_def consumes_def refuse_def)
  qed
qed (simp add: parse_filter_def refuse_def)

text \<open>\<open>parseFilter\<close> answers every text with an expression or a refusal;
  every expression it returns compares a leaf (or searches a collection) of the schema of the
  entity type, with literals its operator takes.\<close>

lemma filter_parser_decides:
  "case parse_filter src ty of Inr f \<Rightarrow> filter_wf ty f | Inl e \<Rightarrow> (\<exists>g. e = FilterRefused g)"
  by (rule parse_filter_total)

definition fold_lit :: "gval \<Rightarrow> gval" where
  "fold_lit l = (case l of VStr s \<Rightarrow> VStr (to_lower s) | _ \<Rightarrow> l)"

fun fold_filter :: "filter_expr \<Rightarrow> filter_expr" where
  "fold_filter (FilterOr fs) = FilterOr (map fold_filter fs)"
| "fold_filter (FilterAnd fs) = FilterAnd (map fold_filter fs)"
| "fold_filter (FilterNot f) = FilterNot (fold_filter f)"
| "fold_filter (FilterCmp path op lits) = FilterCmp (map to_lower path) op (map fold_lit lits)"
| "fold_filter (FilterAny path lit) = FilterAny (map to_lower path) (fold_lit lit)"

lemma lookup_fold: "lookup_path v (map to_lower path) = lookup_path v path"
  by (induction v path rule: lookup_path.induct) simp_all

lemma literal_fold: "literal_equals v (fold_lit l) = literal_equals v l"
  by (simp add: literal_equals_def fold_lit_def split: gval.split)

lemma lits_head_fold: "lits_head (map fold_lit lits) = fold_lit (lits_head lits)"
  by (simp add: lits_head_def fold_lit_def split: list.split)

lemma prefix_fold: "to_lower (string_claim (fold_lit l)) = to_lower (string_claim l)"
  by (simp add: string_claim_def fold_lit_def split: gval.split)

lemma filter_eval_fold: "filter_eval e (fold_filter f) = filter_eval e f"
proof (induction f rule: fold_filter.induct)
  case (4 path op lits)
  have "list_ex (literal_equals v) (map fold_lit lits) = list_ex (literal_equals v) lits" for v
    by (induction lits) (simp_all add: literal_fold)
  then show ?case by (simp add: cmp_eval_def lookup_fold lits_head_fold literal_fold prefix_fold Let_def split: gval.split)
next
  case (5 path lit)
  then show ?case by (simp add: any_eval_def lookup_fold literal_fold split: gval.split)
qed (simp_all add: list_ex_iff list_all_iff)

text \<open>The comparison operators mean what a directory query means: ne is the
  complement of eq, in is the disjunction of eq over its literals, not is the complement, and none
  of them sees the case of the property names and string literals.\<close>

lemma filter_operators:
  "filter_eval e (FilterCmp p ''ne'' [l]) = (\<not> filter_eval e (FilterCmp p ''eq'' [l])) \<and>
   filter_eval e (FilterCmp p ''in'' ls) = list_ex (\<lambda>l. filter_eval e (FilterCmp p ''eq'' [l])) ls \<and>
   filter_eval e (FilterNot f) = (\<not> filter_eval e f) \<and> filter_eval e (fold_filter f) = filter_eval e f"
proof -
  have "list_ex P xs = list_ex (\<lambda>x. list_ex P [x]) xs" for P :: "gval \<Rightarrow> bool" and xs
    by (simp add: list_ex_iff)
  then show ?thesis by (simp add: filter_eval_fold cmp_eval_def lits_head_def Let_def)
qed

end
