(* ===== verification/Entra_Consent.thy ===== *)
theory Entra_Consent
  imports Entra_Store_Laws
begin

text \<open>
  The admin consents (internal/entra/consent.go): a map keyed by client and tenant. The abstract
  view of the store is a set of pairs of a client and a tenant; every operation refines the
  set operation on the view (\<open>consents_refine_set\<close>).
\<close>

section \<open>Keyed stores\<close>

text \<open>What the program relies on of a Go map: the laws of lookup, insertion and deletion.\<close>

locale keyed_store =
  fixes look :: "'m \<Rightarrow> 'k \<Rightarrow> 'v option" and put :: "'k \<Rightarrow> 'v \<Rightarrow> 'm \<Rightarrow> 'm" and del :: "'k \<Rightarrow> 'm \<Rightarrow> 'm"
  assumes look_put: "look (put k v m) k' = (if k' = k then Some v else look m k')"
    and look_del: "look (del k m) k' = (if k' = k then None else look m k')"
begin

definition take_entry :: "'k \<Rightarrow> 'm \<Rightarrow> 'v option \<times> 'm" where
  "take_entry k m = (look m k, del k m)"

lemma take_twice: "take_entry k m = (r, m') \<Longrightarrow> fst (take_entry k m') = None"
  by (auto simp: take_entry_def look_del)

lemma take_put: "fst (take_entry k (put k v m)) = Some v"
  by (simp add: take_entry_def look_put)

lemma take_other: "k' \<noteq> k \<Longrightarrow> look (snd (take_entry k m)) k' = look m k'"
  by (simp add: take_entry_def look_del)

end

interpretation go_map: keyed_store map_get map_put map_del
  by unfold_locales simp_all

section \<open>The store\<close>

record consent_store =
  co_seed :: "consent list"
  co_granted :: "(string, consent) gomap"

definition consent_key :: "string \<Rightarrow> string \<Rightarrow> string" where
  "consent_key client_id tid = client_id @ ''|'' @ to_lower tid"

definition make_consent :: "string \<Rightarrow> string \<Rightarrow> consent" where
  "make_consent client_id tid = \<lparr>cs_client_id = client_id, cs_tid = to_lower tid\<rparr>"

definition consent_grant :: "string \<Rightarrow> string \<Rightarrow> consent_store \<Rightarrow> consent_store" where
  "consent_grant client_id tid s =
     s\<lparr>co_granted := map_put (consent_key client_id tid) (make_consent client_id tid) (co_granted s)\<rparr>"

definition consent_has :: "consent_store \<Rightarrow> string \<Rightarrow> string \<Rightarrow> bool" where
  "consent_has s client_id tid \<longleftrightarrow> map_get (co_granted s) (consent_key client_id tid) \<noteq> None"

definition consent_reset :: "consent_store \<Rightarrow> consent_store" where
  "consent_reset s = s\<lparr>co_granted :=
     fold (\<lambda>c. map_put (consent_key (cs_client_id c) (cs_tid c)) (make_consent (cs_client_id c) (cs_tid c)))
       (co_seed s) []\<rparr>"

definition new_consent_store :: "consent list \<Rightarrow> consent_store" where
  "new_consent_store seed = consent_reset \<lparr>co_seed = seed, co_granted = []\<rparr>"

definition consent_remove :: "string \<Rightarrow> string \<Rightarrow> consent_store \<Rightarrow> consent_store" where
  "consent_remove client_id tid s = s\<lparr>co_granted := map_del (consent_key client_id tid) (co_granted s)\<rparr>"

definition consent_remove_tenant :: "string \<Rightarrow> consent_store \<Rightarrow> consent_store" where
  "consent_remove_tenant tid s =
     s\<lparr>co_granted := filter (\<lambda>(k, _). \<not> has_suffix k (''|'' @ to_lower tid)) (co_granted s)\<rparr>"

text \<open>Sorted by tenant, then by client: a stable sort by tenant of the list sorted by client.\<close>

definition consent_list :: "consent_store \<Rightarrow> consent list" where
  "consent_list s = sort_key cs_tid (sort_key cs_client_id (map snd (co_granted s)))"

section \<open>The abstract view\<close>

definition entry_pair :: "string \<times> consent \<Rightarrow> string \<times> string" where
  "entry_pair p = (cs_client_id (snd p), cs_tid (snd p))"

definition consent_pairs :: "consent_store \<Rightarrow> (string \<times> string) set" where
  "consent_pairs s = entry_pair ` set (co_granted s)"

definition consent_store_wf :: "consent_store \<Rightarrow> bool" where
  "consent_store_wf s \<longleftrightarrow> distinct (map fst (co_granted s)) \<and>
     (\<forall>p\<in>set (co_granted s). fst p = consent_key (fst (entry_pair p)) (snd (entry_pair p)) \<and>
        guid_re (snd (entry_pair p)))"

lemma guid_length: "guid_re s \<Longrightarrow> length s = 36"
proof -
  assume g: "guid_re s"
  let ?gs = "str_split s ''-''"
  have l: "map length ?gs = [8, 4, 4, 4, 12]" using g by (auto simp: guid_re_def guid_lengths_def Let_def)
  then obtain a b c d e where gs: "?gs = [a, b, c, d, e]"
    by (auto simp: map_eq_Cons_conv)
  have "s = str_join [a, b, c, d, e] ''-''" using str_join_split[of s "''-''"] gs by simp
  with l gs show "length s = 36" by simp
qed

lemma consent_key_inj:
  assumes "guid_re t" "guid_re t'"
  shows "consent_key c t = consent_key c' t' \<longleftrightarrow> c = c' \<and> t = t'"
proof -
  have "length (''|'' @ t) = length (''|'' @ t')" using guid_length[OF assms(1)] guid_length[OF assms(2)] by simp
  then have "c @ (''|'' @ t) = c' @ (''|'' @ t') \<longleftrightarrow> c = c' \<and> ''|'' @ t = ''|'' @ t'"
    by (rule append_eq_append_conv[OF disjI2])
  then show ?thesis using assms by (simp add: consent_key_def)
qed

lemma consent_key_tenant:
  assumes "guid_re t" "guid_re t'"
  shows "has_suffix (consent_key c t) (''|'' @ t') \<longleftrightarrow> t = t'"
proof
  assume "has_suffix (consent_key c t) (''|'' @ t')"
  then obtain r where "c @ ''|'' @ t = r @ ''|'' @ t'"
    using assms by (auto simp: has_suffix_iff consent_key_def)
  with guid_length[OF assms(1)] guid_length[OF assms(2)] show "t = t'"
    by (metis append_eq_append_conv length_append list.inject append_Cons append_Nil)
next
  assume "t = t'"
  then show "has_suffix (consent_key c t) (''|'' @ t')"
    using assms by (auto simp: has_suffix_iff consent_key_def)
qed

lemma entry_key:
  assumes "consent_store_wf s" "guid_re t" "p \<in> set (co_granted s)"
  shows "fst p = consent_key c t \<longleftrightarrow> entry_pair p = (c, t)"
    and "has_suffix (fst p) (''|'' @ t) \<longleftrightarrow> snd (entry_pair p) = t"
proof -
  have k: "fst p = consent_key (fst (entry_pair p)) (snd (entry_pair p))" "guid_re (snd (entry_pair p))"
    using assms(1,3) by (simp_all add: consent_store_wf_def)
  show "fst p = consent_key c t \<longleftrightarrow> entry_pair p = (c, t)"
    unfolding k(1) using consent_key_inj[OF k(2) assms(2)] by (cases "entry_pair p") simp
  show "has_suffix (fst p) (''|'' @ t) \<longleftrightarrow> snd (entry_pair p) = t"
    unfolding k(1) by (rule consent_key_tenant[OF k(2) assms(2)])
qed

lemma image_filter_rel: "(\<And>p. p \<in> A \<Longrightarrow> P p = Q (f p)) \<Longrightarrow> f ` {p \<in> A. P p} = {y \<in> f ` A. Q y}"
  by auto

lemma consent_has_iff:
  assumes "consent_store_wf s" and "guid_re t"
  shows "consent_has s c t \<longleftrightarrow> (c, t) \<in> consent_pairs s"
proof -
  have "consent_has s c t \<longleftrightarrow> (\<exists>p\<in>set (co_granted s). fst p = consent_key c t)"
    unfolding consent_has_def map_get_def map_of_eq_None_iff by force
  also have "\<dots> \<longleftrightarrow> (\<exists>p\<in>set (co_granted s). entry_pair p = (c, t))"
    using entry_key(1)[OF assms] by blast
  finally show ?thesis unfolding consent_pairs_def by force
qed

lemma map_put_set:
  "distinct (map fst m) \<Longrightarrow> set (map_put k v m) = {p \<in> set m. fst p \<noteq> k} \<union> {(k, v)}"
proof (induction m)
  case (Cons a m)
  obtain k' v' where a: "a = (k', v')" by (cases a)
  have "k' = k \<Longrightarrow> \<forall>p\<in>set m. fst p \<noteq> k" using Cons.prems a by auto
  with Cons a show ?case by (auto simp: map_put_def)
qed (simp add: map_put_def)

lemma entry_pair_make [simp]: "guid_re t \<Longrightarrow> entry_pair (k, make_consent c t) = (c, t)"
  by (simp add: entry_pair_def make_consent_def)

lemma consent_grant_pairs:
  assumes "consent_store_wf s" and "guid_re t"
  shows "consent_store_wf (consent_grant c t s)"
    and "consent_pairs (consent_grant c t s) = insert (c, t) (consent_pairs s)"
proof -
  have d: "distinct (map fst (co_granted s))" using assms(1) by (simp add: consent_store_wf_def)
  note st = map_put_set[OF d, of "consent_key c t" "make_consent c t"]
  show "consent_store_wf (consent_grant c t s)"
    using assms st distinct_map_put[OF d] by (auto simp: consent_store_wf_def consent_grant_def)
  have "entry_pair ` {p \<in> set (co_granted s). fst p \<noteq> consent_key c t} = {y \<in> entry_pair ` set (co_granted s). y \<noteq> (c, t)}"
    using entry_key(1)[OF assms] by (intro image_filter_rel) blast
  then show "consent_pairs (consent_grant c t s) = insert (c, t) (consent_pairs s)"
    using assms(2) by (auto simp: consent_pairs_def consent_grant_def st image_Un)
qed

lemma consent_filter_wf:
  "consent_store_wf s \<Longrightarrow> consent_store_wf (s\<lparr>co_granted := filter P (co_granted s)\<rparr>)"
  by (simp add: consent_store_wf_def Go_Prelude.distinct_map_filter)

lemma consent_remove_pairs:
  assumes "consent_store_wf s" and "guid_re t"
  shows "consent_pairs (consent_remove c t s) = consent_pairs s - {(c, t)}"
    and "consent_store_wf (consent_remove c t s)"
proof -
  have "entry_pair ` {p \<in> set (co_granted s). fst p \<noteq> consent_key c t} = {y \<in> entry_pair ` set (co_granted s). y \<noteq> (c, t)}"
    using entry_key(1)[OF assms] by (intro image_filter_rel) blast
  then show "consent_pairs (consent_remove c t s) = consent_pairs s - {(c, t)}"
    by (auto simp: consent_pairs_def consent_remove_def map_del_def case_prod_unfold)
  show "consent_store_wf (consent_remove c t s)"
    unfolding consent_remove_def map_del_def by (rule consent_filter_wf[OF assms(1)])
qed

lemma consent_remove_tenant_pairs:
  assumes "consent_store_wf s" and "guid_re t"
  shows "consent_pairs (consent_remove_tenant t s) = {p \<in> consent_pairs s. snd p \<noteq> t}"
    and "consent_store_wf (consent_remove_tenant t s)"
proof -
  have "entry_pair ` {p \<in> set (co_granted s). \<not> has_suffix (fst p) (''|'' @ t)} = {y \<in> entry_pair ` set (co_granted s). snd y \<noteq> t}"
    using entry_key(2)[OF assms] by (intro image_filter_rel) blast
  then show "consent_pairs (consent_remove_tenant t s) = {p \<in> consent_pairs s. snd p \<noteq> t}"
    using assms(2) by (simp add: consent_pairs_def consent_remove_tenant_def case_prod_unfold)
  show "consent_store_wf (consent_remove_tenant t s)"
    unfolding consent_remove_tenant_def by (rule consent_filter_wf[OF assms(1)])
qed

lemma consent_reset_pairs:
  assumes "\<forall>c\<in>set (co_seed s). guid_re (cs_tid c)"
  shows "consent_pairs (consent_reset s) = (\<lambda>c. (cs_client_id c, cs_tid c)) ` set (co_seed s)"
    and "consent_store_wf (consent_reset s)"
proof -
  have "consent_store_wf s0 \<Longrightarrow> \<forall>c\<in>set cs. guid_re (cs_tid c) \<Longrightarrow>
      (let s1 = s0\<lparr>co_granted := fold (\<lambda>c. map_put (consent_key (cs_client_id c) (cs_tid c))
            (make_consent (cs_client_id c) (cs_tid c))) cs (co_granted s0)\<rparr>
       in consent_store_wf s1 \<and> consent_pairs s1 = consent_pairs s0 \<union> (\<lambda>c. (cs_client_id c, cs_tid c)) ` set cs)" for s0 cs
  proof (induction cs arbitrary: s0)
    case (Cons c cs)
    let ?s1 = "consent_grant (cs_client_id c) (cs_tid c) s0"
    have w: "consent_store_wf ?s1" using Cons.prems by (intro consent_grant_pairs) simp_all
    have p: "consent_pairs ?s1 = insert (cs_client_id c, cs_tid c) (consent_pairs s0)"
      using Cons.prems by (intro consent_grant_pairs) simp_all
    show ?case using Cons.IH[OF w] Cons.prems p by (simp add: consent_grant_def Let_def)
  qed simp
  from this[of "s\<lparr>co_granted := []\<rparr>" "co_seed s"] assms
  show "consent_pairs (consent_reset s) = (\<lambda>c. (cs_client_id c, cs_tid c)) ` set (co_seed s)"
    and "consent_store_wf (consent_reset s)"
    by (simp_all add: consent_reset_def consent_store_wf_def consent_pairs_def)
qed

text \<open>Seen as a set of client and tenant pairs, the consent store does what
  its operations say: reset restores the seed, grant adds one pair, revoke removes one, the
  tenant cascade removes exactly the pairs of that tenant, the test is membership and the list
  holds every pair once, ordered by tenant.\<close>

lemma consents_refine_set:
  assumes "consent_store_wf s" and "guid_re t" and "\<forall>c\<in>set (co_seed s). guid_re (cs_tid c)"
  shows "consent_pairs (consent_reset s) = (\<lambda>c. (cs_client_id c, cs_tid c)) ` set (co_seed s) \<and>
    consent_pairs (consent_grant c t s) = insert (c, t) (consent_pairs s) \<and>
    consent_pairs (consent_remove c t s) = consent_pairs s - {(c, t)} \<and>
    consent_pairs (consent_remove_tenant t s) = {p \<in> consent_pairs s. snd p \<noteq> t} \<and>
    consent_has s c t = ((c, t) \<in> consent_pairs s) \<and>
    (\<lambda>x. (cs_client_id x, cs_tid x)) ` set (consent_list s) = consent_pairs s \<and>
    length (consent_list s) = card (consent_pairs s) \<and> sorted (map cs_tid (consent_list s)) \<and>
    list_all consent_store_wf [consent_reset s, consent_grant c t s, consent_remove c t s, consent_remove_tenant t s]"
proof -
  have d: "distinct (map fst (co_granted s))"
    and k: "\<forall>p\<in>set (co_granted s). fst p = consent_key (fst (entry_pair p)) (snd (entry_pair p))"
    using assms(1) by (simp_all add: consent_store_wf_def)
  have "distinct (map entry_pair (co_granted s))"
  proof -
    have "map fst (co_granted s) = map (\<lambda>(c, t). consent_key c t) (map entry_pair (co_granted s))"
      using k by (simp add: case_prod_unfold)
    with d show ?thesis by (simp only: distinct_map[of "\<lambda>(c, t). consent_key c t"])
  qed
  then have "card (consent_pairs s) = length (map entry_pair (co_granted s))"
    unfolding consent_pairs_def list.set_map[symmetric] by (rule distinct_card)
  then have len: "length (consent_list s) = card (consent_pairs s)" by (simp add: consent_list_def)
  have "set (consent_list s) = snd ` set (co_granted s)" by (simp add: consent_list_def)
  then have l: "(\<lambda>x. (cs_client_id x, cs_tid x)) ` set (consent_list s) = consent_pairs s"
    by (simp add: consent_pairs_def image_image entry_pair_def)
  have "sorted (map cs_tid (consent_list s))" by (simp add: consent_list_def)
  with l len show ?thesis
    using consent_reset_pairs[OF assms(3)] consent_grant_pairs[OF assms(1,2)]
      consent_remove_pairs[OF assms(1,2)] consent_remove_tenant_pairs[OF assms(1,2)] consent_has_iff[OF assms(1,2)]
    by simp
qed

end
