(* ===== verification/Routing.thy ===== *)
theory Routing
  imports Oauth2_Laws
begin

text \<open>
  Responses and the route table (internal/routing), and the CORS interceptor (internal/cors).

  A handler takes the request and the server state and ends with a response or a panic; the
  router recovers a panic into an OAuth error. A route path with a star is a pattern: the
  model matches its other characters literally, as they are in every registered path.
\<close>

section \<open>Responses (response.go)\<close>

record response =
  rs_status :: int
  rs_header :: "(string, string) gomap"
  rs_body :: string

definition new_response :: "int \<Rightarrow> response" where
  "new_response status = \<lparr>rs_status = status, rs_header = [], rs_body = []\<rparr>"

definition set_header :: "string \<Rightarrow> string \<Rightarrow> response \<Rightarrow> response" where
  "set_header k v r = r\<lparr>rs_header := map_put k v (rs_header r)\<rparr>"

definition json_content :: string where "json_content = ''application/json;charset=UTF-8''"

definition json_string_response :: "string \<Rightarrow> response" where
  "json_string_response s = (set_header ''Content-Type'' json_content (new_response 200))\<lparr>rs_body := s\<rparr>"

definition json_response :: "gval \<Rightarrow> response" where
  "json_response v = (set_header ''Content-Type'' json_content (new_response 200))\<lparr>rs_body := json_render v\<rparr>"

definition html_response :: "string \<Rightarrow> response" where
  "html_response s = (set_header ''Content-Type'' ''text/html;charset=UTF-8'' (new_response 200))\<lparr>rs_body := s\<rparr>"

definition redirect_response :: "string \<Rightarrow> response" where
  "redirect_response location = set_header ''Location'' location (new_response 302)"

definition not_found_response :: "string \<Rightarrow> response" where
  "not_found_response body = (new_response 404)\<lparr>rs_body := body\<rparr>"

definition method_not_allowed :: response where
  "method_not_allowed = (new_response 405)\<lparr>rs_body := ''method not allowed''\<rparr>"

definition error_response :: "oauth_error \<Rightarrow> response" where
  "error_response e =
     (let status = (if oe_status e = 302 then 400 else oe_status e);
          code = (if oe_code e = [] then ''server_error'' else oe_code e);
          obj = (if oe_desc e = [] then [] else [(''error_description'', VStr (oe_desc e))]) @
                [(''error'', VStr code)]
      in (set_header ''Content-Type'' json_content (new_response status))
           \<lparr>rs_body := to_lower (json_render (VObj obj))\<rparr>)"

definition token_response ::
  "string \<Rightarrow> string \<Rightarrow> string \<Rightarrow> string \<Rightarrow> string \<Rightarrow> int \<Rightarrow> string \<Rightarrow> response" where
  "token_response token_type issued_type id_token access_token refresh_token expires_in scope =
     (let opt = \<lambda>n v. if v = [] then [] else [(n, VStr v)]
      in json_response (VObj ([(''token_type'', VStr token_type)] @ opt ''issued_token_type'' issued_type @
           opt ''id_token'' id_token @ [(''access_token'', VStr access_token)] @
           opt ''refresh_token'' refresh_token @ [(''expires_in'', VInt expires_in)] @ opt ''scope'' scope)))"

section \<open>Routes (router.go)\<close>

datatype go_panic = PanicOAuth oauth_error | PanicError string | PanicOther

type_synonym 's handler = "request \<Rightarrow> 's \<Rightarrow> (go_panic + response) \<times> 's"

record 's route =
  ro_method :: string
  ro_path :: string
  ro_handler :: "'s handler"

record 's router =
  rt_routes :: "'s route list"
  rt_interceptors :: "(request \<Rightarrow> response \<Rightarrow> response) list"

definition new_router :: "'s router" where
  "new_router = \<lparr>rt_routes = [], rt_interceptors = []\<rparr>"

definition router_add :: "string \<Rightarrow> string \<Rightarrow> 's handler \<Rightarrow> 's router \<Rightarrow> 's router" where
  "router_add m p h rt = rt\<lparr>rt_routes := rt_routes rt @ [\<lparr>ro_method = m, ro_path = p, ro_handler = h\<rparr>]\<rparr>"

definition router_add_front :: "string \<Rightarrow> string \<Rightarrow> 's handler \<Rightarrow> 's router \<Rightarrow> 's router" where
  "router_add_front m p h rt = rt\<lparr>rt_routes := \<lparr>ro_method = m, ro_path = p, ro_handler = h\<rparr> # rt_routes rt\<rparr>"

definition router_add_interceptor :: "(request \<Rightarrow> response \<Rightarrow> response) \<Rightarrow> 's router \<Rightarrow> 's router" where
  "router_add_interceptor i rt = rt\<lparr>rt_interceptors := rt_interceptors rt @ [i]\<rparr>"

function (sequential) glob :: "string \<Rightarrow> string \<Rightarrow> bool" where
  "glob [] s = (s = [])"
| "glob (c # p) s =
     (if c = CHR ''*'' then
        glob p s \<or> (case s of [] \<Rightarrow> False | d # ds \<Rightarrow> d \<noteq> CHR 0x0A \<and> glob (c # p) ds)
      else (case s of [] \<Rightarrow> False | d # ds \<Rightarrow> c = d \<and> glob p ds))"
  by pat_completeness auto
termination by (relation "measure (\<lambda>(p, s). length p + length s)") auto

definition route_matches :: "'s route \<Rightarrow> request \<Rightarrow> bool" where
  "route_matches ro r \<longleftrightarrow>
     (ro_method ro = [] \<or> ro_method ro = rq_method r) \<and>
     (if CHR ''*'' \<in> set (ro_path ro) then glob (ro_path ro) (''/'' @ trim_slash (rq_path r))
      else has_suffix (trim_slash (rq_path r)) (trim_slash (ro_path ro)))"

definition router_match :: "'s router \<Rightarrow> request \<Rightarrow> 's route option" where
  "router_match rt r = find (\<lambda>ro. route_matches ro r) (rt_routes rt)"

definition panic_to_error :: "go_panic \<Rightarrow> oauth_error" where
  "panic_to_error p = (case p of
       PanicOAuth e \<Rightarrow> e
     | PanicError m \<Rightarrow> server_error (''unexpected exception with message: '' @ query_escape m)
     | PanicOther \<Rightarrow> server_error ''unexpected exception'')"

definition apply_interceptors :: "'s router \<Rightarrow> request \<Rightarrow> response \<Rightarrow> response" where
  "apply_interceptors rt req resp = fold (\<lambda>i. i req) (rt_interceptors rt) resp"

definition router_handle :: "'s router \<Rightarrow> request \<Rightarrow> 's \<Rightarrow> (oauth_error + response) \<times> 's" where
  "router_handle rt req s =
     (case router_match rt req of
        None \<Rightarrow> (Inr method_not_allowed, s)
      | Some ro \<Rightarrow>
          (case ro_handler ro req s of
             (Inl p, s') \<Rightarrow> (Inl (panic_to_error p), s')
           | (Inr resp, s') \<Rightarrow> (Inr (apply_interceptors rt req resp), s')))"

definition serve_http :: "'s router \<Rightarrow> request \<Rightarrow> 's \<Rightarrow> response \<times> 's" where
  "serve_http rt req s =
     (case router_handle rt req s of
        (Inl e, s') \<Rightarrow> (apply_interceptors rt req (error_response e), s')
      | (Inr resp, s') \<Rightarrow> (resp, s'))"

section \<open>CORS (cors.go)\<close>

definition cors_interceptor :: "request \<Rightarrow> response \<Rightarrow> response" where
  "cors_interceptor req resp =
     (let origin = header_get req ''Origin''; hs = header_get req ''Access-Control-Request-Headers''
      in if origin = [] then resp
         else
           let r1 = (if rq_method req = ''OPTIONS''
                     then set_header ''Access-Control-Allow-Methods'' ''POST, GET, OPTIONS''
                            (if hs = [] then resp else set_header ''Access-Control-Allow-Headers'' hs resp)
                     else resp)
           in set_header ''Access-Control-Allow-Credentials'' ''true''
                (set_header ''Access-Control-Allow-Origin'' origin r1))"

section \<open>Properties\<close>

lemma set_header_get [simp]:
  "map_get (rs_header (set_header k v r)) k' = (if k' = k then Some v else map_get (rs_header r) k')"
  "rs_status (set_header k v r) = rs_status r" "rs_body (set_header k v r) = rs_body r"
  by (simp_all add: set_header_def)

text \<open>A route registered in front is tried before every other route and
  a route registered at the end after every other; a request no route matches is answered 405.\<close>

lemma front_route_precedence:
  "router_match (router_add_front m p h rt) r =
     (if route_matches \<lparr>ro_method = m, ro_path = p, ro_handler = h\<rparr> r
      then Some \<lparr>ro_method = m, ro_path = p, ro_handler = h\<rparr> else router_match rt r) \<and>
   router_match (router_add m p h rt) r =
     (case router_match rt r of
        Some ro \<Rightarrow> Some ro
      | None \<Rightarrow> if route_matches \<lparr>ro_method = m, ro_path = p, ro_handler = h\<rparr> r
                then Some \<lparr>ro_method = m, ro_path = p, ro_handler = h\<rparr> else None) \<and>
   (router_match rt r = None \<longrightarrow> serve_http rt r s = (method_not_allowed, s))"
proof -
  have "find P (xs @ [x]) = (case find P xs of Some y \<Rightarrow> Some y | None \<Rightarrow> if P x then Some x else None)"
    for P :: "'a route \<Rightarrow> bool" and xs x
    by (induction xs) simp_all
  then show ?thesis
    by (simp add: router_match_def router_add_front_def router_add_def serve_http_def router_handle_def)
qed

text \<open>With the CORS interceptor registered last, every answer to a
  routed request that carries an Origin names that origin and allows credentials, also when the
  handler panics.\<close>

lemma cors_on_every_routed_answer:
  assumes "rt_interceptors rt = is @ [cors_interceptor]" and "router_match rt req \<noteq> None"
    and "header_get req ''Origin'' \<noteq> []"
  shows "map_get (rs_header (fst (serve_http rt req s))) ''Access-Control-Allow-Origin'' = Some (header_get req ''Origin'') \<and>
    map_get (rs_header (fst (serve_http rt req s))) ''Access-Control-Allow-Credentials'' = Some ''true''"
proof -
  have c: "map_get (rs_header (apply_interceptors rt req x)) ''Access-Control-Allow-Origin'' = Some (header_get req ''Origin'') \<and>
    map_get (rs_header (apply_interceptors rt req x)) ''Access-Control-Allow-Credentials'' = Some ''true''" for x
    using assms(1,3) by (simp add: apply_interceptors_def cors_interceptor_def Let_def)
  obtain ro where "router_match rt req = Some ro" using assms(2) by blast
  then show ?thesis using c
    by (simp add: serve_http_def router_handle_def split: prod.split sum.split)
qed

end
