(* ===== verification/Entra_Authorize.thy ===== *)
theory Entra_Authorize
  imports Entra_Verify Entra_Consent Routing
begin

text \<open>
  The interactive sign-in of Entra mode (internal/entra/authorize.go): the store of
  authorization codes, account selection by hints, the authorize and passkey steps.

  The handler's mutable parts (configuration store, keys, consents, codes) are the record
  \<open>entra_state\<close>; what a request takes from outside (clock, random values, the two HTML
  templates, the cryptographic primitives, the JSON decoder of one request body) is the record \<open>entra_env\<close>. The text net/url appends
  to "invalid redirect_uri: " is left out of the model's messages.
\<close>

section \<open>Authorization codes\<close>

record auth_code =
  ac_req :: auth_request
  ac_tid :: string
  ac_username :: string
  ac_segment :: string
  ac_expires :: int

definition code_ttl :: int where "code_ttl = 600 * nanos"

type_synonym code_store = "(string, auth_code) gomap"

definition codes_put :: "string \<Rightarrow> auth_code \<Rightarrow> int \<Rightarrow> code_store \<Rightarrow> code_store" where
  "codes_put code c now codes = map_put code c (filter (\<lambda>(_, v). \<not> ac_expires v < now) codes)"

definition codes_take :: "string \<Rightarrow> code_store \<Rightarrow> auth_code option \<times> code_store" where
  "codes_take code codes = (map_get codes code, map_del code codes)"

section \<open>State and environment\<close>

record entra_state =
  es_store :: store
  es_keys :: key_set
  es_consents :: consent_store
  es_codes :: code_store

record picker_user =
  pu_username :: string
  pu_name :: string
  pu_email :: string
  pu_match :: bool

record picker_tenant =
  pt_tid :: string
  pt_name :: string
  pt_users :: "picker_user list"

record picker_page =
  pp_heading :: string
  pp_action :: string
  pp_submit :: string
  pp_show_cancel :: bool
  pp_hint :: string
  pp_tenants :: "picker_tenant list"

record passkey_page =
  pk_action :: string
  pk_tid :: string
  pk_username :: string
  pk_name :: string
  pk_email :: string

text \<open>What a Graph error takes from outside: two request identifiers and the formatted date.\<close>

record graph_ids =
  gi_client_request :: string
  gi_request :: string
  gi_date :: string

record entra_env =
  ee_crypto :: crypto
  ee_now :: int
  ee_code :: string
  ee_uti_access :: string
  ee_uti_id :: string
  ee_refresh :: string
  ee_rsa :: nat
  ee_picker :: "picker_page \<Rightarrow> string"
  ee_passkey :: "passkey_page \<Rightarrow> string"
  ee_ids :: graph_ids
  ee_member_body :: "string \<Rightarrow> bool"

definition conf :: "entra_state \<Rightarrow> config" where
  "conf s = snapshot (es_store s)"

text \<open>\<open>New\<close>: the handler of a parsed configuration; the first key is an argument.\<close>

definition entra_new :: "config \<Rightarrow> nat \<Rightarrow> entra_state" where
  "entra_new c rsa = \<lparr>es_store = new_store c, es_keys = new_key_set rsa,
     es_consents = new_consent_store (c_consents c), es_codes = []\<rparr>"

type_synonym entra_result = "(go_panic + response) \<times> entra_state"

definition ok :: "response \<Rightarrow> entra_state \<Rightarrow> entra_result" where
  "ok r s = (Inr r, s)"

definition nil_deref :: go_panic where
  "nil_deref = PanicError ''runtime error: invalid memory address or nil pointer dereference''"

section \<open>Hints\<close>

record auth_hints =
  ah_login_hint :: string
  ah_domain_hint :: string
  ah_prompt :: "string list"

definition read_hints :: "request \<Rightarrow> auth_hints" where
  "read_hints r = \<lparr>ah_login_hint = trim_space (query_param r ''login_hint''),
     ah_domain_hint = trim_space (query_param r ''domain_hint''),
     ah_prompt = str_fields (query_param r ''prompt'')\<rparr>"

definition hints_has :: "auth_hints \<Rightarrow> string \<Rightarrow> bool" where
  "hints_has a p \<longleftrightarrow> p \<in> set (ah_prompt a)"

definition forces_picker :: "auth_hints \<Rightarrow> bool" where
  "forces_picker a \<longleftrightarrow> hints_has a ''select_account'' \<or> hints_has a ''login''"

definition silent :: "auth_hints \<Rightarrow> bool" where
  "silent a \<longleftrightarrow> hints_has a ''none''"

definition matches_hint :: "tenant \<Rightarrow> user \<Rightarrow> string \<Rightarrow> bool" where
  "matches_hint t u hint0 \<longleftrightarrow> hint0 \<noteq> [] \<and>
     (let hint = to_lower hint0 in
      to_lower (principal_name t u) = hint \<or> (u_email u \<noteq> [] \<and> to_lower (u_email u) = hint) \<or>
      to_lower (u_username u) = hint)"

definition has_domain :: "tenant \<Rightarrow> string \<Rightarrow> bool" where
  "has_domain t domain \<longleftrightarrow> list_ex (\<lambda>d. equal_fold d domain) (t_domains t)"

definition domain_hint_matches_any :: "config \<Rightarrow> string \<Rightarrow> bool" where
  "domain_hint_matches_any c domain \<longleftrightarrow> list_ex (\<lambda>t. has_domain t domain) (c_tenants c)"

text \<open>The tenant segment of a request; no tenant on organizations and common.\<close>

record scope =
  sc_segment :: string
  sc_tenant :: "tenant option"

definition multi :: "scope \<Rightarrow> bool" where
  "multi sc \<longleftrightarrow> sc_tenant sc = None"

definition in_scope :: "config \<Rightarrow> scope \<Rightarrow> tenant \<Rightarrow> auth_hints \<Rightarrow> bool" where
  "in_scope c sc t hints =
     (case sc_tenant sc of
        Some st \<Rightarrow> t_tid t = t_tid st
      | None \<Rightarrow>
          if ah_domain_hint hints = [] \<or> \<not> domain_hint_matches_any c (ah_domain_hint hints) then True
          else has_domain t (ah_domain_hint hints))"

definition hint_matches :: "config \<Rightarrow> scope \<Rightarrow> auth_hints \<Rightarrow> user list" where
  "hint_matches c sc hints =
     (if ah_login_hint hints = [] then []
      else concat (map (\<lambda>t. filter (\<lambda>u. matches_hint t u (ah_login_hint hints)) (users_in c (t_tid t)))
             (filter (\<lambda>t. in_scope c sc t hints) (c_tenants c))))"

definition picker_tenants :: "config \<Rightarrow> scope \<Rightarrow> auth_hints \<Rightarrow> picker_tenant list" where
  "picker_tenants c sc hints =
     map (\<lambda>t. \<lparr>pt_tid = t_tid t, pt_name = t_name t,
            pt_users = map (\<lambda>u. \<lparr>pu_username = u_username u, pu_name = u_name u, pu_email = u_email u,
              pu_match = matches_hint t u (ah_login_hint hints)\<rparr>) (users_in c (t_tid t))\<rparr>)
       (filter (\<lambda>t. in_scope c sc t hints) (c_tenants c))"

section \<open>Redirects\<close>

definition redirect_with :: "string \<Rightarrow> (string \<times> string) list \<Rightarrow> response" where
  "redirect_with redirect_uri params =
     (case url_parse redirect_uri of
        None \<Rightarrow> error_response (invalid_request ''invalid redirect_uri: '')
      | Some u \<Rightarrow>
          let q = fold (\<lambda>(k, v) q. if v = [] then q else values_set k v q) params (parse_query (url_query u))
          in redirect_response (url_string (url_set_query q u)))"

definition error_redirect :: "string \<Rightarrow> string \<Rightarrow> string \<Rightarrow> string \<Rightarrow> response" where
  "error_redirect redirect_uri state code description =
     redirect_with redirect_uri [(''error'', code), (''error_description'', description), (''state'', state)]"

abbreviation quoted :: "string \<Rightarrow> string" where
  "quoted s \<equiv> [CHR 0x27] @ s @ [CHR 0x27]"

definition unsupported_response_type :: "auth_request \<Rightarrow> response" where
  "unsupported_response_type ar =
     error_redirect (ar_redirect_uri ar) (ar_state ar) ''unsupported_response_type''
       (''AADSTS70005: response_type '' @ quoted (str_join (ar_response_type ar) '' '') @
        '' is not supported by the mock; use '' @ quoted ''code'' @ ''.'')"

definition unsupported_response_mode :: "string \<Rightarrow> response" where
  "unsupported_response_mode mode =
     error_response (invalid_request (''AADSTS90005: response_mode '' @ quoted mode @
       '' is not supported by the mock; use '' @ quoted ''query'' @ '' or omit the parameter.''))"

section \<open>Issuing a code\<close>

definition mfa_required_text :: string where
  "mfa_required_text = ''AADSTS50076: Due to a configuration change made by your administrator, or because you moved to a new location, you must use multi-factor authentication to access the resource.''"

definition not_assigned_text :: string where
  "not_assigned_text = ''AADSTS50105: The signed in user is not assigned to a role for the application.''"

definition no_consent_text :: "string \<Rightarrow> string" where
  "no_consent_text client_id = ''AADSTS65001: The user or administrator has not consented to use the application with ID '' @
     quoted client_id @ ''.''"

definition issue_code :: "entra_env \<Rightarrow> auth_request \<Rightarrow> scope \<Rightarrow> config \<Rightarrow> user \<Rightarrow> entra_state \<Rightarrow> entra_result" where
  "issue_code env ar sc c u s =
     (if u_error u = err_interaction_required
      then ok (error_redirect (ar_redirect_uri ar) (ar_state ar) ''interaction_required'' mfa_required_text) s
      else if u_error u = err_access_denied
      then ok (error_redirect (ar_redirect_uri ar) (ar_state ar) ''access_denied'' not_assigned_text) s
      else case tenant_by_id c (u_tid u) of
        None \<Rightarrow> (Inl nil_deref, s)
      | Some t \<Rightarrow>
          if t_consent_required t \<and> \<not> consent_has (es_consents s) (ar_client_id ar) (t_tid t)
          then ok (error_redirect (ar_redirect_uri ar) (ar_state ar) ''consent_required'' (no_consent_text (ar_client_id ar))) s
          else
            let s' = s\<lparr>es_codes := codes_put (ee_code env)
                  \<lparr>ac_req = ar, ac_tid = t_tid t, ac_username = u_username u, ac_segment = sc_segment sc,
                   ac_expires = ee_now env + code_ttl\<rparr> (ee_now env) (es_codes s)\<rparr>
            in case success_redirect_url ar (ee_code env) of
                 Inl e \<Rightarrow> ok (error_response e) s'
               | Inr loc \<Rightarrow> ok (redirect_response loc) s')"

definition silent_text :: string where
  "silent_text = ''AADSTS50058: A silent sign-in request was sent but no user is signed in.''"

definition authorize_get :: "entra_env \<Rightarrow> request \<Rightarrow> scope \<Rightarrow> entra_state \<Rightarrow> entra_result" where
  "authorize_get env r sc s =
     (case parse_auth_request (query_values r) of
        Inl e \<Rightarrow> ok (error_response e) s
      | Inr ar \<Rightarrow>
          if \<not> implies_code_flow ar then ok (unsupported_response_type ar) s
          else if ar_response_mode ar \<noteq> [] \<and> ar_response_mode ar \<noteq> ''query''
          then ok (unsupported_response_mode (ar_response_mode ar)) s
          else
            let c = conf s; hints = read_hints r; ms = hint_matches c sc hints;
                resolved = (length ms = 1 \<and> \<not> c_ignore_login_hint c)
            in if silent hints then
                 (if resolved then issue_code env ar sc c (hd ms) s
                  else ok (error_redirect (ar_redirect_uri ar) (ar_state ar) ''interaction_required'' silent_text) s)
               else if resolved \<and> \<not> forces_picker hints then issue_code env ar sc c (hd ms) s
               else ok (html_response (ee_picker env \<lparr>pp_heading = ''Pick an account'', pp_action = request_uri r,
                      pp_submit = ''signin'', pp_show_cancel = False, pp_hint = ah_login_hint hints,
                      pp_tenants = picker_tenants c sc hints\<rparr>)) s)"

definition posted_user :: "config \<Rightarrow> request \<Rightarrow> scope \<Rightarrow> oauth_error + (tenant option \<times> user)" where
  "posted_user c r sc =
     (case user_by_name c (form_param r ''tid'') (form_param r ''username'') of
        None \<Rightarrow> Inl (invalid_request ''AADSTS50034: The user account does not exist in this directory.'')
      | Some u \<Rightarrow>
          (case sc_tenant sc of
             Some st \<Rightarrow>
               if u_tid u \<noteq> t_tid st
               then Inl (invalid_request (''AADSTS50020: User account from tenant '' @ quoted (u_tid u) @
                      '' does not exist in tenant '' @ quoted (t_tid st) @ ''.''))
               else Inr (tenant_by_id c (u_tid u), u)
           | None \<Rightarrow> Inr (tenant_by_id c (u_tid u), u)))"

definition action_passkey_approve :: string where "action_passkey_approve = ''passkey-approve''"
definition action_passkey_deny :: string where "action_passkey_deny = ''passkey-deny''"
definition passkey_denied :: string where
  "passkey_denied = ''AADSTS500121: Authentication failed during strong authentication request.''"

definition authorize_post :: "entra_env \<Rightarrow> request \<Rightarrow> scope \<Rightarrow> entra_state \<Rightarrow> entra_result" where
  "authorize_post env r sc s =
     (case parse_auth_request (query_values r) of
        Inl e \<Rightarrow> ok (error_response e) s
      | Inr ar \<Rightarrow>
          if \<not> implies_code_flow ar then ok (unsupported_response_type ar) s
          else if ar_response_mode ar \<noteq> [] \<and> ar_response_mode ar \<noteq> ''query''
          then ok (unsupported_response_mode (ar_response_mode ar)) s
          else
            (case posted_user (conf s) r sc of
               Inl e \<Rightarrow> ok (error_response e) s
             | Inr (_, u) \<Rightarrow>
                 let action = form_param r ''action''
                 in if action = action_passkey_approve then issue_code env ar sc (conf s) u s
                    else if action = action_passkey_deny
                    then ok (error_redirect (ar_redirect_uri ar) (ar_state ar) ''access_denied'' passkey_denied) s
                    else if u_mfa u = mfa_passkey \<and> u_error u = []
                    then ok (html_response (ee_passkey env \<lparr>pk_action = request_uri r, pk_tid = u_tid u,
                           pk_username = u_username u, pk_name = u_name u, pk_email = u_email u\<rparr>)) s
                    else issue_code env ar sc (conf s) u s))"

section \<open>Laws of the code store\<close>

lemma map_get_codes_put:
  "map_get (codes_put code c now codes) k =
     (if k = code then Some c else map_get (filter (\<lambda>(_, v). \<not> ac_expires v < now) codes) k)"
  by (simp add: codes_put_def)

lemma map_get_filter_distinct:
  "distinct (map fst m) \<Longrightarrow> map_get (filter (\<lambda>(k, v). P k v) m) k =
     (case map_get m k of Some v \<Rightarrow> if P k v then Some v else None | None \<Rightarrow> None)"
proof (induction m)
  case (Cons a m)
  obtain k' v' where a: "a = (k', v')" by (cases a)
  have n: "map_get m k' = None" using Cons.prems a by (auto simp: map_get_def map_of_eq_None_iff)
  show ?case using Cons a n by (auto simp: map_get_def split: option.splits)
qed (simp add: map_get_def)

definition codes_fresh :: "int \<Rightarrow> code_store \<Rightarrow> bool" where
  "codes_fresh now codes \<longleftrightarrow> distinct (map fst codes) \<and> (\<forall>(k, v)\<in>set codes. now \<le> ac_expires v)"

lemma codes_put_fresh:
  assumes "distinct (map fst codes)" and "now \<le> ac_expires c"
  shows "codes_fresh now (codes_put code c now codes)"
proof -
  have d: "distinct (map fst (filter (\<lambda>(_, v). \<not> ac_expires v < now) codes))"
    using assms(1) by (rule Go_Prelude.distinct_map_filter)
  show ?thesis using assms(2) distinct_map_put[OF d] map_put_set[OF d, of code c]
    by (auto simp: codes_fresh_def codes_put_def)
qed

text \<open>C21: code_single_use. A code that was put is returned by the first take, unless it was taken
  before; no take returns it twice; storing another code keeps it while it has not expired, and
  the sweep leaves no expired code in the store.\<close>

theorem code_single_use:
  assumes "distinct (map fst codes)" and "now \<le> ac_expires c"
  shows "fst (codes_take code (codes_put code c now codes)) = Some c \<and>
    fst (codes_take code (snd (codes_take code codes'))) = None \<and>
    (\<forall>code' c' now'. code' \<noteq> code \<and> now' \<le> ac_expires c \<longrightarrow>
       map_get (codes_put code' c' now' (codes_put code c now codes)) code = Some c) \<and>
    codes_fresh now (codes_put code c now codes)"
proof -
  have d: "distinct (map fst (codes_put code c now codes))"
    using codes_put_fresh[OF assms, of code] by (simp add: codes_fresh_def)
  have g: "map_get (codes_put code c now codes) code = Some c"
    by (simp add: codes_put_def)
  have "map_get (codes_put code' c' now' (codes_put code c now codes)) code = Some c"
    if "code' \<noteq> code" "now' \<le> ac_expires c" for code' c' now'
    using that by (simp add: map_get_codes_put[of code' c' now'] map_get_filter_distinct[OF d] g)
  then show ?thesis
    using codes_put_fresh[OF assms, of code] go_map.take_twice[of code codes'] g
    by (simp add: codes_take_def go_map.take_entry_def)
qed

definition sample_auth_request :: auth_request where
  "sample_auth_request = \<lparr>ar_response_type = [''code''], ar_client_id = ''iam'', ar_redirect_uri = ''http://app.test/cb'',
     ar_scope = [''openid''], ar_state = ''st'', ar_nonce = ''n'', ar_code_challenge = [], ar_code_challenge_method = [],
     ar_prompt = [], ar_response_mode = []\<rparr>"

definition sample_code :: auth_code where
  "sample_code = \<lparr>ac_req = sample_auth_request, ac_tid = tid_b, ac_username = ''carol'', ac_segment = tid_b,
     ac_expires = code_ttl\<rparr>"

theorem code_single_use_witness:
  "fst (codes_take ''abc'' (codes_put ''abc'' sample_code 0 [])) = Some sample_code"
proof -
  have "0 \<le> ac_expires sample_code" by (simp add: sample_code_def code_ttl_def nanos_def)
  from code_single_use[OF _ this, of "[]" "''abc''"] show ?thesis by simp
qed

section \<open>Properties of the sign-in\<close>

definition location :: "response \<Rightarrow> string" where
  "location r = (case map_get (rs_header r) ''Location'' of Some l \<Rightarrow> l | None \<Rightarrow> [])"

text \<open>C13: code_issued_only_when_allowed. Whatever way a sign-in takes, a new code is stored only for a
  user without an injected interaction_required or access_denied (an injected invalid_grant is reported at the token endpoint), in a
  tenant that needs no consent or has given it to
  the client; the stored entry names that request, user, tenant path and the ten-minute expiry, nothing else of the state changes but expired codes, and
  the browser is sent to the client's redirect URI with exactly that code.\<close>

theorem code_issued_only_when_allowed:
  assumes "issue_code env ar sc c u s = (res, s')" and "es_codes s' \<noteq> es_codes s"
  shows "\<exists>t. tenant_by_id c (u_tid u) = Some t \<and>
    u_error u \<notin> {err_interaction_required, err_access_denied} \<and>
    (t_consent_required t \<longrightarrow> consent_has (es_consents s) (ar_client_id ar) (t_tid t)) \<and>
    map_get (es_codes s') (ee_code env) = Some \<lparr>ac_req = ar, ac_tid = t_tid t, ac_username = u_username u,
      ac_segment = sc_segment sc, ac_expires = ee_now env + code_ttl\<rparr> \<and>
    (\<forall>code. code \<noteq> ee_code env \<longrightarrow> map_get (es_codes s') code = map_get (filter (\<lambda>(_, v). ee_now env \<le> ac_expires v) (es_codes s)) code) \<and>
    s' = s\<lparr>es_codes := es_codes s'\<rparr> \<and>
    (\<forall>loc. success_redirect_url ar (ee_code env) = Inr loc \<longrightarrow> res = Inr (redirect_response loc))"
  using assms
  by (auto simp: issue_code_def ok_def Let_def codes_put_def not_less split: if_splits option.splits sum.splits)

definition sample_env :: entra_env where
  "sample_env = \<lparr>ee_crypto = toy_crypto ''entra-1'' [], ee_now = 0, ee_code = ''code-1'', ee_uti_access = ''u1'',
     ee_uti_id = ''u2'', ee_refresh = ''r1'', ee_rsa = 9, ee_picker = (\<lambda>p. pp_heading p), ee_passkey = (\<lambda>p. pk_username p),
     ee_ids = \<lparr>gi_client_request = ''c-1'', gi_request = ''r-1'', gi_date = ''2026-01-01T00:00:00''\<rparr>,
     ee_member_body = (\<lambda>_. True)\<rparr>"

definition sample_scope :: scope where
  "sample_scope = \<lparr>sc_segment = tid_b, sc_tenant = Some sample_tenant\<rparr>"

definition sample_state :: entra_state where
  "sample_state = entra_new sample_seed 7"

theorem code_issued_only_when_allowed_witness:
  "\<exists>res s'. issue_code sample_env sample_auth_request sample_scope sample_seed sample_user sample_state = (res, s') \<and>
     map_get (es_codes s') ''code-1'' = Some sample_code"
proof -
  let ?r = "issue_code sample_env sample_auth_request sample_scope sample_seed sample_user sample_state"
  have n: "es_codes (snd ?r) \<noteq> es_codes sample_state"
  proof -
    have "es_codes (snd ?r) \<noteq> []" "es_codes sample_state = []" by code_simp+
    then show ?thesis by simp
  qed
  from code_issued_only_when_allowed[OF prod.collapse[symmetric] n]
  obtain t where t: "tenant_by_id sample_seed (u_tid sample_user) = Some t"
    "map_get (es_codes (snd ?r)) ''code-1'' = Some \<lparr>ac_req = sample_auth_request, ac_tid = t_tid t,
       ac_username = u_username sample_user, ac_segment = sc_segment sample_scope, ac_expires = ee_now sample_env + code_ttl\<rparr>"
    by (auto simp: sample_env_def)
  have "t_tid sample_tenant = tid_b" "u_username sample_user = ''carol''" by code_simp+
  with t sample_user_facts(1) have "map_get (es_codes (snd ?r)) ''code-1'' = Some sample_code"
    by (simp add: sample_code_def sample_scope_def sample_env_def)
  then show ?thesis by (metis prod.collapse)
qed

text \<open>A request with prompt=none never shows a page: it is answered by a
  code for the one account the login hint names, or sent back with interaction_required when the
  hint names no account or several, or hints are ignored.\<close>

lemma silent_needs_unique_hint:
  assumes "parse_auth_request (query_values r) = Inr ar" and "implies_code_flow ar"
    and "ar_response_mode ar \<in> {[], ''query''}" and "silent (read_hints r)"
  shows "authorize_get env r sc s =
    (case hint_matches (conf s) sc (read_hints r) of
       [u] \<Rightarrow> if c_ignore_login_hint (conf s)
              then ok (error_redirect (ar_redirect_uri ar) (ar_state ar) ''interaction_required'' silent_text) s
              else issue_code env ar sc (conf s) u s
     | _ \<Rightarrow> ok (error_redirect (ar_redirect_uri ar) (ar_state ar) ''interaction_required'' silent_text) s)"
  using assms by (auto simp: authorize_get_def Let_def split: list.split)

definition silent_request :: request where
  "silent_request = sample_request\<lparr>rq_raw_query :=
     ''response_type=code&scope=openid&client_id=iam&redirect_uri=http%3A%2F%2Fapp.test%2Fcb&state=st&prompt=none&login_hint=CAROL''\<rparr>"

end
