(* ===== verification/Entra_Token.thy ===== *)
theory Entra_Token
  imports Entra_Authorize
begin

text \<open>
  The token endpoint of Entra mode (internal/entra/token.go), the client credentials grant
  (appcreds.go) and the admin consent endpoint (adminconsent.go).

  A handler returns the response, or the panic that ends it, and the new handler state; a
  request reads the clock once (\<open>ee_now\<close>).
\<close>

section \<open>Redeeming a code (token.go)\<close>

definition pkce_ok :: "crypto \<Rightarrow> auth_request \<Rightarrow> string \<Rightarrow> bool" where
  "pkce_ok k ar verifier \<longleftrightarrow>
     ar_code_challenge ar = [] \<or>
     (verifier \<noteq> [] \<and>
      (if ar_code_challenge_method ar = ''S256'' then b64_encode (cr_sha256 k verifier) else verifier) = ar_code_challenge ar)"

definition invalid_grant :: "string \<Rightarrow> response" where
  "invalid_grant description = error_response (invalid_grant_error description)"

definition redeem_input :: "entra_env \<Rightarrow> request \<Rightarrow> config \<Rightarrow> tenant \<Rightarrow> user \<Rightarrow> string \<Rightarrow> string \<Rightarrow> string list \<Rightarrow> token_input" where
  "redeem_input env r c t u client_id nonce scopes =
     \<lparr>in_graph_base = graph_base c, in_overage_self = overage_self_hosted c, in_origin = issuer_origin r,
      in_base_path = c_base_path c, in_tenant = t, in_user = u, in_client_id = client_id, in_nonce = nonce,
      in_scopes = scopes, in_now = ee_now env, in_expiry = c_token_expiry c,
      in_mapped = mapped_claims c client_id u\<rparr>"

definition code_token_response :: "entra_env \<Rightarrow> request \<Rightarrow> entra_state \<Rightarrow> config \<Rightarrow> tenant \<Rightarrow> user \<Rightarrow> auth_request \<Rightarrow> response" where
  "code_token_response env r s c t u ar =
     (let inp = redeem_input env r c t u (ar_client_id ar) (ar_nonce ar) (ar_scope ar);
          sign = ks_sign (ee_crypto env) (es_keys s)
      in json_response (VObj
           ([(''token_type'', VStr ''Bearer''), (''scope'', VStr (str_join (ar_scope ar) '' '')),
             (''expires_in'', VInt (c_token_expiry c)), (''ext_expires_in'', VInt (c_token_expiry c)),
             (''access_token'', VStr (sign (access_token_claims (ee_crypto env) (ee_uti_access env) inp)))] @
            (if ''offline_access'' \<in> set (ar_scope ar) then [(''refresh_token'', VStr (ee_refresh env))] else []) @
            [(''id_token'', VStr (sign (id_token_claims (ee_crypto env) (ee_uti_id env) inp)))])))"

section \<open>Client credentials (appcreds.go)\<close>

definition credentials_client :: "request \<Rightarrow> string" where
  "credentials_client r =
     (let client_id = trim_space (form_param r ''client_id'')
      in if client_id \<noteq> [] then client_id
         else case basic_auth r of Some (i, _) \<Rightarrow> i | None \<Rightarrow> client_id)"

definition default_scope :: "string \<Rightarrow> bool" where
  "default_scope s \<longleftrightarrow> has_suffix s ''/.default'' \<or> s = ''.default''"

definition client_credentials :: "entra_env \<Rightarrow> request \<Rightarrow> scope \<Rightarrow> config \<Rightarrow> entra_state \<Rightarrow> entra_result" where
  "client_credentials env r sc c s =
     (case sc_tenant sc of
        None \<Rightarrow> ok (error_response (invalid_request (''client credentials require a tenant-specific endpoint; '' @
                   quoted (sc_segment sc) @ '' does not identify a tenant.''))) s
      | Some t \<Rightarrow>
          let client_id = credentials_client r in
          if client_id = [] then
            ok (error_response (new_error ''invalid_client'' ''AADSTS900023: client_id is required.'' 400)) s
          else if \<not> list_all default_scope (str_fields (form_param r ''scope'')) then
            ok (error_response (invalid_request
              (''AADSTS1002012: The provided value for the input parameter '' @ quoted ''scope'' @ '' is not valid. '' @
               ''Client credentials require a resource scope ending in '' @ quoted ''/.default'' @ ''.''))) s
          else
            let roles = (case find_app c client_id (t_tid t) of Some a \<Rightarrow> a_roles a | None \<Rightarrow> []);
                claims = app_only_claims (issuer_origin r) (c_base_path c) (t_tid t) client_id roles (ee_now env) (c_token_expiry c)
            in ok (json_response (VObj [(''token_type'', VStr ''Bearer''),
                 (''expires_in'', VInt (c_token_expiry c)), (''ext_expires_in'', VInt (c_token_expiry c)),
                 (''access_token'', VStr (ks_sign (ee_crypto env) (es_keys s) claims))])) s)"

section \<open>The token endpoint\<close>

definition expired_text :: string where
  "expired_text = ''AADSTS70008: The provided authorization code or refresh token has expired or was already used.''"

definition pkce_text :: string where
  "pkce_text = ''AADSTS501481: The Code_Verifier does not match the code_challenge supplied in the authorization request.''"

text \<open>What follows the redemption of the code \<open>ac\<close>; \<open>s\<close> no longer holds the code.\<close>

definition redeem_code :: "entra_env \<Rightarrow> request \<Rightarrow> scope \<Rightarrow> token_request \<Rightarrow> auth_code \<Rightarrow> entra_state \<Rightarrow> go_panic + response" where
  "redeem_code env r sc tr ac s =
     (let ar = ac_req ac in
      if ee_now env > ac_expires ac then Inr (invalid_grant expired_text)
      else if sc_segment sc \<noteq> ac_segment ac \<and> sc_segment sc \<noteq> ac_tid ac
      then Inr (invalid_grant (''authorization code was issued for tenant path '' @ quoted (ac_segment ac)))
      else if tr_client_id tr \<noteq> ar_client_id ar
      then Inr (invalid_grant ''client_id does not match the authorization request'')
      else if tr_redirect_uri tr \<noteq> ar_redirect_uri ar
      then Inr (invalid_grant ''redirect_uri does not match the authorization request'')
      else if \<not> pkce_ok (ee_crypto env) ar (tr_code_verifier tr) then Inr (invalid_grant pkce_text)
      else
        (case user_by_name (conf s) (ac_tid ac) (ac_username ac) of
           None \<Rightarrow> Inl nil_deref
         | Some u \<Rightarrow>
             if u_error u = err_invalid_grant \<or> \<not> user_enabled u
             then Inr (invalid_grant ''AADSTS50057: The user account is disabled.'')
             else (case tenant_by_id (conf s) (ac_tid ac) of
                     None \<Rightarrow> Inl nil_deref
                   | Some t \<Rightarrow> Inr (code_token_response env r s (conf s) t u ar))))"

definition entra_token :: "entra_env \<Rightarrow> request \<Rightarrow> scope \<Rightarrow> entra_state \<Rightarrow> entra_result" where
  "entra_token env r sc s =
     (let gt = trim_space (form_param r ''grant_type'') in
      if gt \<noteq> grant_authorization_code then
        (if gt = ''client_credentials'' \<and> app_only_on (conf s) then client_credentials env r sc (conf s) s
         else ok (error_response (new_error ''unsupported_grant_type''
                (''AADSTS70003: The app requested an unsupported grant type '' @ quoted gt @ ''.'') 400)) s)
      else
        (case parse_token_request r of
           Inl e \<Rightarrow> ok (error_response e) s
         | Inr tr \<Rightarrow>
             (case codes_take (tr_code tr) (es_codes s) of
                (entry, codes') \<Rightarrow>
                  let s' = s\<lparr>es_codes := codes'\<rparr>
                  in (case entry of
                        None \<Rightarrow> ok (invalid_grant expired_text) s'
                      | Some ac \<Rightarrow> (redeem_code env r sc tr ac s', s')))))"

section \<open>Admin consent (adminconsent.go)\<close>

definition require_consent_params :: "request \<Rightarrow> oauth_error option" where
  "require_consent_params r =
     (case find (\<lambda>p. query_param r p = []) [''client_id'', ''redirect_uri''] of
        Some p \<Rightarrow> Some (missing_parameter p)
      | None \<Rightarrow> None)"

definition admin_consent_get :: "entra_env \<Rightarrow> request \<Rightarrow> scope \<Rightarrow> entra_state \<Rightarrow> entra_result" where
  "admin_consent_get env r sc s =
     (case require_consent_params r of
        Some e \<Rightarrow> ok (error_response e) s
      | None \<Rightarrow> ok (html_response (ee_picker env
          \<lparr>pp_heading = ''Permissions requested by '' @ query_param r ''client_id'' @ '': sign in as a tenant administrator to accept'',
           pp_action = request_uri r, pp_submit = ''accept'', pp_show_cancel = True,
           pp_hint = ah_login_hint (read_hints r), pp_tenants = picker_tenants (conf s) sc (read_hints r)\<rparr>)) s)"

definition consent_declined_text :: string where
  "consent_declined_text = ''AADSTS65004: User declined to consent to access the app.''"

definition consent_needs_admin_text :: string where
  "consent_needs_admin_text = ''AADSTS90094: Admin consent is required for the permissions requested by this application. An administrator of the tenant must grant consent.''"

definition admin_consent_post :: "entra_env \<Rightarrow> request \<Rightarrow> scope \<Rightarrow> entra_state \<Rightarrow> entra_result" where
  "admin_consent_post env r sc s =
     (case require_consent_params r of
        Some e \<Rightarrow> ok (error_response e) s
      | None \<Rightarrow>
          let redirect_uri = query_param r ''redirect_uri''; state = query_param r ''state'' in
          if form_param r ''action'' = ''cancel''
          then ok (error_redirect redirect_uri state ''access_denied'' consent_declined_text) s
          else (case posted_user (conf s) r sc of
                  Inl e \<Rightarrow> ok (error_response e) s
                | Inr (t, u) \<Rightarrow>
                    if \<not> u_admin u
                    then ok (error_redirect redirect_uri state ''access_denied'' consent_needs_admin_text) s
                    else (case t of
                            None \<Rightarrow> (Inl nil_deref, s)
                          | Some t \<Rightarrow>
                              ok (redirect_with redirect_uri [(''admin_consent'', ''True''), (''tenant'', t_tid t),
                                    (''state'', state), (''scope'', query_param r ''scope'')])
                                 (s\<lparr>es_consents := consent_grant (query_param r ''client_id'') (t_tid t) (es_consents s)\<rparr>))))"


section \<open>Laws\<close>

lemma parse_error_status: "parse_token_request r = Inl e \<Longrightarrow> oe_status e = 400 \<or> oe_status e = 401"
  by (auto simp: parse_token_request_def fill_token_request_def client_auth_error_def require_param_def
      error_defs ebind_eq_Inl_iff Let_def split: prod.splits option.splits if_splits)

lemma new_response_status [simp]: "rs_status (new_response n) = n"
  by (simp add: new_response_def)

lemma invalid_grant_status [simp]: "rs_status (invalid_grant d) = 400"
  by (simp add: invalid_grant_def error_response_def error_defs Let_def)

lemma parse_error_response_status: "parse_token_request r = Inl e \<Longrightarrow> rs_status (error_response e) \<noteq> 200"
  by (drule parse_error_status) (auto simp: error_response_def Let_def)

lemma code_token_response_status [simp]: "rs_status (code_token_response env r s c t u ar) = 200"
  by (simp add: code_token_response_def json_response_def set_header_def new_response_def Let_def)

text \<open>The code request accepted by the token endpoint: everything that must match the stored entry.\<close>

definition code_matches :: "entra_env \<Rightarrow> scope \<Rightarrow> token_request \<Rightarrow> auth_code \<Rightarrow> bool" where
  "code_matches env sc tr ac \<longleftrightarrow>
     ee_now env \<le> ac_expires ac \<and> (sc_segment sc = ac_segment ac \<or> sc_segment sc = ac_tid ac) \<and>
     tr_client_id tr = ar_client_id (ac_req ac) \<and> tr_redirect_uri tr = ar_redirect_uri (ac_req ac) \<and>
     pkce_ok (ee_crypto env) (ac_req ac) (tr_code_verifier tr)"

lemma redeem_code_matches:
  assumes "code_matches env sc tr ac"
  shows "redeem_code env r sc tr ac s =
    (case user_by_name (conf s) (ac_tid ac) (ac_username ac) of
       None \<Rightarrow> Inl nil_deref
     | Some u \<Rightarrow>
         if u_error u = err_invalid_grant \<or> \<not> user_enabled u
         then Inr (invalid_grant ''AADSTS50057: The user account is disabled.'')
         else (case tenant_by_id (conf s) (ac_tid ac) of
                 None \<Rightarrow> Inl nil_deref
               | Some t \<Rightarrow> Inr (code_token_response env r s (conf s) t u (ac_req ac))))"
  using assms by (auto simp: redeem_code_def code_matches_def Let_def split: option.split)

lemma redeem_code_mismatch: "\<not> code_matches env sc tr ac \<Longrightarrow> \<exists>d. redeem_code env r sc tr ac s = Inr (invalid_grant d)"
  by (auto simp: redeem_code_def code_matches_def Let_def)

lemma entra_token_code:
  assumes "trim_space (form_param r ''grant_type'') = grant_authorization_code" and "parse_token_request r = Inr tr"
  shows "entra_token env r sc s =
    (case map_get (es_codes s) (tr_code tr) of
       None \<Rightarrow> Inr (invalid_grant expired_text)
     | Some ac \<Rightarrow> redeem_code env r sc tr ac (s\<lparr>es_codes := map_del (tr_code tr) (es_codes s)\<rparr>),
     s\<lparr>es_codes := map_del (tr_code tr) (es_codes s)\<rparr>)"
  using assms by (simp add: entra_token_def codes_take_def ok_def Let_def split: option.split)

section \<open>Properties\<close>

text \<open>C6: tokens_need_matching_code. The authorization code grant answers with tokens only for a code
  in the store that has not expired, on the tenant path it was issued for or its tenant, for the
  same client and redirect URI, with the right PKCE verifier, and for an account that exists and
  is enabled; the code is gone afterwards and nothing else of the state changes.\<close>

theorem tokens_need_matching_code:
  assumes "trim_space (form_param r ''grant_type'') = grant_authorization_code"
    and "entra_token env r sc s = (Inr resp, s')" and "rs_status resp = 200"
  shows "\<exists>tr ac u t. parse_token_request r = Inr tr \<and> map_get (es_codes s) (tr_code tr) = Some ac \<and>
    ee_now env \<le> ac_expires ac \<and> (sc_segment sc = ac_segment ac \<or> sc_segment sc = ac_tid ac) \<and>
    tr_client_id tr = ar_client_id (ac_req ac) \<and> tr_redirect_uri tr = ar_redirect_uri (ac_req ac) \<and>
    pkce_ok (ee_crypto env) (ac_req ac) (tr_code_verifier tr) \<and>
    user_by_name (conf s) (ac_tid ac) (ac_username ac) = Some u \<and> user_enabled u \<and> u_error u \<noteq> err_invalid_grant \<and>
    tenant_by_id (conf s) (ac_tid ac) = Some t \<and> resp = code_token_response env r s' (conf s) t u (ac_req ac) \<and>
    s' = s\<lparr>es_codes := map_del (tr_code tr) (es_codes s)\<rparr>"
proof (cases "parse_token_request r")
  case (Inl e)
  with assms parse_error_response_status[OF Inl] show ?thesis by (simp add: entra_token_def ok_def)
next
  case (Inr tr)
  let ?s = "s\<lparr>es_codes := map_del (tr_code tr) (es_codes s)\<rparr>"
  note tok = assms(2)[unfolded entra_token_code[OF assms(1) Inr]]
  have s': "s' = ?s" using tok by simp
  have "map_get (es_codes s) (tr_code tr) \<noteq> None" using tok assms(3) by (cases "map_get (es_codes s) (tr_code tr)") auto
  then obtain ac where ac: "map_get (es_codes s) (tr_code tr) = Some ac" by blast
  have r: "redeem_code env r sc tr ac ?s = Inr resp" using tok unfolding ac option.case prod.inject by blast
  have m: "code_matches env sc tr ac"
  proof (rule ccontr)
    assume "\<not> code_matches env sc tr ac"
    from redeem_code_mismatch[OF this, of r ?s] r assms(3) show False by auto
  qed
  have c: "conf ?s = conf s" by (simp add: conf_def)
  from r assms(3) obtain u t where "user_by_name (conf s) (ac_tid ac) (ac_username ac) = Some u" "user_enabled u"
    "u_error u \<noteq> err_invalid_grant" "tenant_by_id (conf s) (ac_tid ac) = Some t"
    "resp = code_token_response env r s' (conf s) t u (ac_req ac)"
    unfolding redeem_code_matches[OF m] c s' by (auto split: option.splits if_splits)
  with m[unfolded code_matches_def] ac Inr s' show ?thesis by blast
qed

text \<open>Presenting a code to the token endpoint removes it whatever
  the outcome: every later request with that code is refused as expired or used, until a sign-in
  draws the same code again.\<close>

lemma code_burned_by_first_attempt:
  assumes "trim_space (form_param r ''grant_type'') = grant_authorization_code" and "parse_token_request r = Inr tr"
    and "trim_space (form_param r' ''grant_type'') = grant_authorization_code" and "parse_token_request r' = Inr tr'"
    and "tr_code tr' = tr_code tr"
  shows "fst (entra_token env' r' sc' (snd (entra_token env r sc s))) = Inr (invalid_grant expired_text) \<and>
    es_store (snd (entra_token env r sc s)) = es_store s \<and> es_keys (snd (entra_token env r sc s)) = es_keys s \<and>
    es_consents (snd (entra_token env r sc s)) = es_consents s"
  using assms(5) by (simp add: entra_token_code[OF assms(1,2)] entra_token_code[OF assms(3,4)])

text \<open>A code just issued to a client can be redeemed: a token request on the same path with that
  code, the same client and redirect URI and the right verifier, before the code expires, gets the
  token response for the user who signed in.\<close>

lemma sign_in_redeems:
  assumes issue: "issue_code env ar sc (conf s) u s = (res, s1)" "es_codes s1 \<noteq> es_codes s"
    and user: "user_by_name (conf s) (u_tid u) (u_username u) = Some u" "user_enabled u" "u_error u \<noteq> err_invalid_grant"
      "to_lower (u_tid u) = u_tid u"
    and req: "trim_space (form_param r ''grant_type'') = grant_authorization_code" "parse_token_request r = Inr tr"
      "tr_code tr = ee_code env" "tr_client_id tr = ar_client_id ar" "tr_redirect_uri tr = ar_redirect_uri ar"
      "pkce_ok (ee_crypto env') ar (tr_code_verifier tr)"
    and time: "ee_now env' \<le> ee_now env + code_ttl"
  shows "\<exists>t. tenant_by_id (conf s) (u_tid u) = Some t \<and>
    entra_token env' r sc s1 = ok (code_token_response env' r s1 (conf s) t u ar) (s1\<lparr>es_codes := map_del (ee_code env) (es_codes s1)\<rparr>)"
proof -
  from issue obtain t where t: "tenant_by_id (conf s) (u_tid u) = Some t"
    and ac: "map_get (es_codes s1) (ee_code env) = Some \<lparr>ac_req = ar, ac_tid = t_tid t, ac_username = u_username u,
      ac_segment = sc_segment sc, ac_expires = ee_now env + code_ttl\<rparr>"
    and same: "es_store s1 = es_store s" "es_keys s1 = es_keys s"
    by (auto simp: issue_code_def ok_def Let_def codes_put_def split: if_splits option.splits sum.splits)
  have tt: "t_tid t = u_tid u" using tenant_by_idD[OF t] user(4) by simp
  let ?ac = "\<lparr>ac_req = ar, ac_tid = u_tid u, ac_username = u_username u, ac_segment = sc_segment sc,
    ac_expires = ee_now env + code_ttl\<rparr>"
  have m: "code_matches env' sc tr ?ac" using req time by (simp add: code_matches_def)
  have c: "conf (s1\<lparr>es_codes := cs\<rparr>) = conf s" for cs using same by (simp add: conf_def)
  have keys: "code_token_response env' r (s1\<lparr>es_codes := cs\<rparr>) = code_token_response env' r s1" for cs
    by (simp add: code_token_response_def fun_eq_iff)
  show ?thesis using t user
    by (simp add: entra_token_code[OF req(1,2)] req(3) ac[unfolded tt] redeem_code_matches[OF m] c tt ok_def keys)
qed


text \<open>C11: sign_in_to_graph. The whole path of a relying party: after a sign-in for an enabled user, the
  code redeemed in time yields an access token that the Graph surface of the same origin accepts
  for that user and client until it expires.\<close>

theorem sign_in_to_graph:
  fixes env' :: entra_env and r :: request and u :: user and t :: tenant and ar :: auth_request and s :: entra_state
  defines "k \<equiv> ee_crypto env'"
    and "at \<equiv> access_token_claims (ee_crypto env') (ee_uti_access env')
           (redeem_input env' r (conf s) t u (ar_client_id ar) (ar_nonce ar) (ar_scope ar))"
  assumes issue: "issue_code env ar sc (conf s) u s = (res, s1)" "es_codes s1 \<noteq> es_codes s"
    and conf: "config_wf (conf s)" "tenant_by_id (conf s) (u_tid u) = Some t"
      "u \<in> set (c_users (conf s))" "user_enabled u"
      "u_error u \<noteq> err_invalid_grant" "user_by_name (conf s) (u_tid u) (u_username u) = Some u"
      "user_by_oid (conf s) (u_tid u) (u_oid u) = Some u" "c_token_expiry (conf s) < 9223372036"
    and req: "trim_space (form_param r ''grant_type'') = grant_authorization_code" "parse_token_request r = Inr tr"
      "tr_code tr = ee_code env" "tr_client_id tr = ar_client_id ar" "tr_redirect_uri tr = ar_redirect_uri ar"
      "pkce_ok (ee_crypto env') ar (tr_code_verifier tr)" "ar_client_id ar \<noteq> []"
    and time: "ee_now env' \<le> ee_now env + code_ttl" "unix_of (ee_now env') \<le> unix_of now"
      "unix_of now < unix_of (ee_now env') + c_token_expiry (conf s) + clock_skew (conf s)"
      "0 \<le> unix_of now" "unix_of now + clock_skew (conf s) < 2 ^ 63"
    and keys: "key_set_wf (es_keys s)" "sound_signature k" "reads_header k (ks_active_kid (es_keys s))"
    and json: "cr_unmarshal k (cr_marshal k at) = Some cl" "json_keeps at cl"
  shows "fst (entra_token env' r sc s1) = Inr (code_token_response env' r s1 (conf s) t u ar) \<and>
    (\<exists>ca. validate_access_token k (es_keys s1) now r (conf s1) (ks_sign k (es_keys s1) at) = Inr ca \<and>
       ca_user ca = Some u \<and> ca_tenant ca = t \<and> ca_client_id ca = ar_client_id ar)"
proof -
  have w: "static_wf (conf s)" by (rule config_wf_static[OF conf(1)])
  have low: "to_lower (u_tid u) = u_tid u" using user_tid_guid[OF w conf(3)] by simp
  have same: "es_store s1 = es_store s" "es_keys s1 = es_keys s"
    using issue by (auto simp: issue_code_def ok_def Let_def split: if_splits option.splits sum.splits)
  have c1: "conf s1 = conf s" using same by (simp add: conf_def)
  from sign_in_redeems[OF issue conf(6,4,5) low req(1-6) time(1)] conf(2)
  have tok: "entra_token env' r sc s1 = ok (code_token_response env' r s1 (conf s) t u ar) (s1\<lparr>es_codes := map_del (ee_code env) (es_codes s1)\<rparr>)"
    by auto
  have at: "at = access_token_claims k (ee_uti_access env') (access_input r (conf s) t u (ar_client_id ar) (ar_scope ar) (ee_now env'))"
    by (simp add: at_def k_def access_token_claims_def base_claims_def redeem_input_def access_input_def add_groups_def
        overage_endpoint_def Let_def)
  show ?thesis
    using tok issued_access_token_accepted[OF keys conf(1,2,3,4,7,8) json[unfolded at] time(2-5) req(7)]
    by (simp add: ok_def same c1 at)
qed


text \<open>When the account was removed between sign-in and redemption, a
  matching code makes the handler dereference a nil user; the router answers with server_error
  instead of invalid_grant.\<close>

lemma redeem_after_delete_panics:
  assumes "trim_space (form_param r ''grant_type'') = grant_authorization_code" and "parse_token_request r = Inr tr"
    and "map_get (es_codes s) (tr_code tr) = Some ac" and "code_matches env sc tr ac"
    and "user_by_name (conf s) (ac_tid ac) (ac_username ac) = None"
  shows "fst (entra_token env r sc s) = Inl nil_deref \<and>
    oe_code (panic_to_error nil_deref) = ''server_error'' \<and> oe_status (panic_to_error nil_deref) = 500"
proof -
  have c: "conf (s\<lparr>es_codes := cs\<rparr>) = conf s" for cs by (simp add: conf_def)
  show ?thesis using assms(3,5)
    by (simp add: entra_token_code[OF assms(1,2)] redeem_code_matches[OF assms(4)] c
        panic_to_error_def nil_deref_def error_defs)
qed

section \<open>Admin consent and app-only tokens\<close>

text \<open>What the form of an administrator changes, if anything.\<close>

lemma admin_consent_post_grants:
  assumes "admin_consent_post env r sc s = (res, s')" and "es_consents s' \<noteq> es_consents s"
  shows "\<exists>t u. user_by_name (conf s) (form_param r ''tid'') (form_param r ''username'') = Some u \<and> u_admin u \<and>
    tenant_by_id (conf s) (u_tid u) = Some t \<and> form_param r ''action'' \<noteq> ''cancel'' \<and>
    (\<forall>st. sc_tenant sc = Some st \<longrightarrow> u_tid u = t_tid st) \<and> query_param r ''client_id'' \<noteq> [] \<and>
    s' = s\<lparr>es_consents := consent_grant (query_param r ''client_id'') (t_tid t) (es_consents s)\<rparr>"
proof -
  from assms have rc: "require_consent_params r = None" and cancel: "form_param r ''action'' \<noteq> ''cancel''"
    by (auto simp: admin_consent_post_def ok_def Let_def split: option.splits if_splits)
  with assms obtain t u where pu: "posted_user (conf s) r sc = Inr (Some t, u)" and adm: "u_admin u"
    and s': "s' = s\<lparr>es_consents := consent_grant (query_param r ''client_id'') (t_tid t) (es_consents s)\<rparr>"
    by (auto simp: admin_consent_post_def ok_def Let_def split: sum.splits prod.splits option.splits if_splits)
  from rc have "query_param r ''client_id'' \<noteq> []"
    by (auto simp: require_consent_params_def find_None_iff split: option.splits if_splits)
  with pu adm s' cancel show ?thesis
    by (auto simp: posted_user_def split: option.splits if_splits)
qed

lemma app_only_claims_get:
  "claim_get (app_only_claims origin base tid client roles now expiry) ''oid'' = VNil"
  "claim_get (app_only_claims origin base tid client roles now expiry) ''aud'' = VStr graph_app_id"
  "claim_get (app_only_claims origin base tid client roles now expiry) ''ver'' = VStr ''2.0''"
  "claim_get (app_only_claims origin base tid client roles now expiry) ''tid'' = VStr tid"
  "claim_get (app_only_claims origin base tid client roles now expiry) ''sub'' = VStr client"
  "claim_get (app_only_claims origin base tid client roles now expiry) ''appid'' = VStr client"
  "claim_get (app_only_claims origin base tid client roles now expiry) ''iss'' = VStr (issuer origin base tid)"
  "claim_get (app_only_claims origin base tid client roles now expiry) ''nbf'' = VInt (unix_of now)"
  "claim_get (app_only_claims origin base tid client roles now expiry) ''exp'' = VInt (unix_of (now + seconds expiry))"
  "claim_get (app_only_claims origin base tid client roles now expiry) ''roles'' = (if roles = [] then VNil else VStrs roles)"
  by (simp_all add: app_only_claims_def)


definition app_claims_of :: "entra_env \<Rightarrow> request \<Rightarrow> config \<Rightarrow> tenant \<Rightarrow> claims" where
  "app_claims_of env r c t = app_only_claims (issuer_origin r) (c_base_path c) (t_tid t) (credentials_client r)
     (case find_app c (credentials_client r) (t_tid t) of Some a \<Rightarrow> a_roles a | None \<Rightarrow> []) (ee_now env) (c_token_expiry c)"

text \<open>The client credentials grant, when it is switched on, yields a token
  only on a tenant path, for a named client and only for default scopes; the token it signs is
  accepted by the Graph surface as app-only for that tenant and client, with the roles of the
  registration and no user.\<close>

lemma app_only_token_outcome:
  assumes gt: "trim_space (form_param r ''grant_type'') = ''client_credentials''" "app_only_on (conf s)"
    and sc: "sc_tenant sc = Some t" "tenant_by_id (conf s) (t_tid t) = Some t" "guid_re (t_tid t)"
    and conf: "config_wf (conf s)" "c_token_expiry (conf s) < 9223372036"
    and res: "entra_token env r sc s = (Inr resp, s')" "rs_status resp = 200"
    and keys: "key_set_wf (es_keys s)" "sound_signature k" "reads_header k (ks_active_kid (es_keys s))"
    and json: "cr_unmarshal k (cr_marshal k (app_claims_of env r (conf s) t)) = Some cl"
      "json_keeps (app_claims_of env r (conf s) t) cl"
    and time: "unix_of (ee_now env) \<le> unix_of now" "0 \<le> unix_of now"
      "unix_of now < unix_of (ee_now env) + c_token_expiry (conf s) + clock_skew (conf s)"
      "unix_of now + clock_skew (conf s) < 2 ^ 63"
  shows "s' = s \<and> credentials_client r \<noteq> [] \<and> list_all default_scope (str_fields (form_param r ''scope'')) \<and>
    (\<exists>ca. validate_access_token k (es_keys s) now r (conf s) (ks_sign k (es_keys s) (app_claims_of env r (conf s) t)) = Inr ca \<and>
       ca_kind ca = TokenAppOnly \<and> ca_user ca = None \<and> ca_tenant ca = t \<and> ca_client_id ca = credentials_client r)"
proof -
  have out: "s' = s" "credentials_client r \<noteq> []" "list_all default_scope (str_fields (form_param r ''scope''))"
    using res gt sc(1)
    by (auto simp: entra_token_def client_credentials_def ok_def Let_def grant_authorization_code_def
        error_response_def error_defs split: if_splits)
  obtain h where v: "ks_verify k (es_keys s) (ks_sign k (es_keys s) (app_claims_of env r (conf s) t)) = Some (h, cl)"
    using ks_sign_verifies[OF keys json(1)] by blast
  have ne: "ks_sign k (es_keys s) (app_claims_of env r (conf s) t) \<noteq> []" by (simp add: ks_sign_def sign_jwt_def Let_def)
  note ex = config_clock[OF conf(1)]
  have j: "claim_string cl n = claim_string (app_claims_of env r (conf s) t) n"
    "claim_time cl n = claim_time (app_claims_of env r (conf s) t) n" for n
    using json(2) by (simp_all add: json_keeps_def)
  have cs: "claim_string cl ''aud'' = graph_app_id" "claim_string cl ''ver'' = ''2.0''"
    "claim_string cl ''tid'' = t_tid t" "claim_string cl ''iss'' = issuer (issuer_origin r) (c_base_path (conf s)) (t_tid t)"
    "claim_string cl ''oid'' = []" "claim_string cl ''appid'' = credentials_client r"
    "claim_time cl ''exp'' = Some (unix_of (ee_now env) + c_token_expiry (conf s))" "claim_time cl ''nbf'' = Some (unix_of (ee_now env))"
    using ex conf(2) unfolding j app_claims_of_def
    by (simp_all add: claim_string_def claim_time_def string_claim_def app_only_claims_get seconds_small)
  have "t_tid t \<noteq> []" "to_lower (t_tid t) = t_tid t" using sc(3) by auto
  then show ?thesis using out
    by (simp add: validate_accepts[OF v ne cs(1-3) _ _ sc(2) cs(4,7,8) time(1,3,2) ex(2) time(4)] cs Let_def)
qed


section \<open>Concrete sign-ins\<close>

text \<open>Carol of tenant B has signed in on her tenant's path; the code is \<open>code-1\<close>.\<close>

definition signed_in :: entra_state where
  "signed_in = snd (issue_code sample_env sample_auth_request sample_scope sample_seed sample_user sample_state)"

definition redeem_request :: request where
  "redeem_request = sample_request\<lparr>rq_method := ''POST'',
     rq_body := ''grant_type=authorization_code&code=code-1&client_id=iam&redirect_uri=http%3A%2F%2Fapp.test%2Fcb''\<rparr>"

definition redeem_params :: token_request where
  "redeem_params = (case parse_token_request redeem_request of Inr tr \<Rightarrow> tr | Inl _ \<Rightarrow> empty_token_request)"

lemma redeem_request_facts:
  "trim_space (form_param redeem_request ''grant_type'') = grant_authorization_code"
  "parse_token_request redeem_request = Inr redeem_params"
  "tr_code redeem_params = ''code-1''" "tr_client_id redeem_params = ''iam''"
  "tr_redirect_uri redeem_params = ''http://app.test/cb''"
proof -
  have "is_ok (parse_token_request redeem_request)" by code_simp
  then show "parse_token_request redeem_request = Inr redeem_params"
    by (auto simp: redeem_params_def is_ok_def split: sum.splits)
qed code_simp+

lemma signed_in_facts:
  "map_get (es_codes signed_in) ''code-1'' = Some sample_code" "es_keys signed_in = new_key_set 7"
  "conf signed_in = sample_seed" "conf sample_state = sample_seed"
proof -
  have "map_option (\<lambda>c. (ac_req c, ac_tid c, ac_username c, ac_segment c, ac_expires c)) (map_get (es_codes signed_in) ''code-1'') =
      Some (ac_req sample_code, ac_tid sample_code, ac_username sample_code, ac_segment sample_code, ac_expires sample_code)"
    by code_simp
  then show "map_get (es_codes signed_in) ''code-1'' = Some sample_code" by (cases "map_get (es_codes signed_in) ''code-1''") auto
  show "es_keys signed_in = new_key_set 7" by code_simp
  have same: "es_store (snd (issue_code env ar sc c u s)) = es_store s" for env ar sc c u s
    by (auto simp: issue_code_def ok_def Let_def split: option.split sum.split)
  show c: "conf sample_state = sample_seed"
    by (simp add: conf_def sample_state_def entra_new_def snapshot_def new_store_def)
  show "conf signed_in = sample_seed" using c by (simp add: conf_def signed_in_def same)
qed

lemma signed_in_run:
  "issue_code sample_env sample_auth_request sample_scope (conf sample_state) sample_user sample_state =
     (fst (issue_code sample_env sample_auth_request sample_scope sample_seed sample_user sample_state), signed_in)"
  "es_codes signed_in \<noteq> es_codes sample_state"
proof -
  show "issue_code sample_env sample_auth_request sample_scope (conf sample_state) sample_user sample_state =
     (fst (issue_code sample_env sample_auth_request sample_scope sample_seed sample_user sample_state), signed_in)"
    by (simp add: signed_in_def signed_in_facts(4))
  show "es_codes signed_in \<noteq> es_codes sample_state"
    using signed_in_facts(1) by (auto simp: sample_state_def entra_new_def)
qed

lemma signed_in_user:
  "user_by_name (conf sample_state) (u_tid sample_user) (u_username sample_user) = Some sample_user"
  "user_enabled sample_user" "u_error sample_user \<noteq> err_invalid_grant" "to_lower (u_tid sample_user) = u_tid sample_user"
proof -
  show "user_by_name (conf sample_state) (u_tid sample_user) (u_username sample_user) = Some sample_user"
    unfolding signed_in_facts(4) by (simp add: sample_user_def) code_simp
  show "user_enabled sample_user" by (rule sample_user_facts(3))
qed code_simp+

lemma redeem_params_match:
  "tr_code redeem_params = ee_code sample_env" "tr_client_id redeem_params = ar_client_id sample_auth_request"
  "tr_redirect_uri redeem_params = ar_redirect_uri sample_auth_request"
  "pkce_ok k sample_auth_request (tr_code_verifier redeem_params)" "ar_client_id sample_auth_request \<noteq> []"
  by (simp_all add: redeem_request_facts sample_env_def sample_auth_request_def pkce_ok_def)

theorem tokens_need_matching_code_witness:
  "\<exists>resp s'. entra_token sample_env redeem_request sample_scope signed_in = (Inr resp, s') \<and> rs_status resp = 200 \<and>
     es_codes s' = map_del ''code-1'' (es_codes signed_in)"
proof -
  have t: "ee_now sample_env \<le> ee_now sample_env + code_ttl" by (simp add: code_ttl_def nanos_def)
  from sign_in_redeems[OF signed_in_run signed_in_user redeem_request_facts(1,2) redeem_params_match(1-4) t]
  obtain resp s' where x: "entra_token sample_env redeem_request sample_scope signed_in = (Inr resp, s')" "rs_status resp = 200"
    by (auto simp: ok_def)
  from tokens_need_matching_code[OF redeem_request_facts(1) x] redeem_request_facts(2,3)
  have "es_codes s' = map_del ''code-1'' (es_codes signed_in)" by auto
  with x show ?thesis by blast
qed

theorem sign_in_to_graph_witness:
  "\<exists>env ca token. fst (entra_token env redeem_request sample_scope signed_in) =
       Inr (code_token_response env redeem_request signed_in sample_seed sample_tenant sample_user sample_auth_request) \<and>
     validate_access_token (ee_crypto env) (es_keys signed_in) (100 * nanos) redeem_request sample_seed token = Inr ca \<and>
     ca_user ca = Some sample_user"
proof -
  define k0 where "k0 = toy_crypto ''entra-1'' []"
  define inp where "inp = redeem_input sample_env redeem_request sample_seed sample_tenant sample_user
    (ar_client_id sample_auth_request) (ar_nonce sample_auth_request) (ar_scope sample_auth_request)"
  define cl where "cl = access_token_claims k0 ''u1'' inp"
  define k where "k = toy_crypto ''entra-1'' cl"
  define env where "env = sample_env\<lparr>ee_crypto := k\<rparr>"
  have kid: "ks_active_kid (new_key_set 7) = ''entra-1''" by code_simp
  have h: "reads_header k (ks_active_kid (es_keys sample_state))" unfolding k_def
    by (simp add: sample_state_def entra_new_def kid toy_crypto_header)
  have at: "access_token_claims (ee_crypto env) (ee_uti_access env) (redeem_input env redeem_request (conf sample_state) sample_tenant sample_user
      (ar_client_id sample_auth_request) (ar_nonce sample_auth_request) (ar_scope sample_auth_request)) = cl"
  proof -
    have i: "redeem_input env redeem_request (conf sample_state) sample_tenant sample_user
      (ar_client_id sample_auth_request) (ar_nonce sample_auth_request) (ar_scope sample_auth_request) = inp"
      by (simp add: inp_def redeem_input_def env_def signed_in_facts(4))
    have "access_token_claims k ''u1'' inp = access_token_claims k0 ''u1'' inp"
      by (rule access_claims_hashes) (simp_all add: k_def k0_def toy_crypto_def)
    then show ?thesis unfolding i cl_def by (simp add: env_def sample_env_def)
  qed
  have j: "cr_unmarshal (ee_crypto env) (cr_marshal (ee_crypto env) cl) = Some cl"
    unfolding env_def k_def by (simp add: toy_crypto_sound(2))
  have jk: "json_keeps cl cl" by (simp add: json_keeps_def)
  have u: "sample_user \<in> set (c_users sample_seed)" using sample_user_facts(2) by (auto simp: list_ex_iff)
  have n: "unix_of (100 * nanos) = 100" "ee_now env = 0" "unix_of 0 = 0" by (simp_all add: unix_of_def nanos_def env_def sample_env_def)
  have uf: "tenant_by_id (conf sample_state) (u_tid sample_user) = Some sample_tenant" "sample_user \<in> set (c_users (conf sample_state))"
    "config_wf (conf sample_state)" "user_by_oid (conf sample_state) (u_tid sample_user) (u_oid sample_user) = Some sample_user"
    "c_token_expiry (conf sample_state) < 9223372036"
    using u sample_user_facts sample_wf by (simp_all add: signed_in_facts(4))
  have t: "ee_now env \<le> ee_now sample_env + code_ttl" "unix_of (ee_now env) \<le> unix_of (100 * nanos)" "0 \<le> unix_of (100 * nanos)"
    "unix_of (100 * nanos) < unix_of (ee_now env) + c_token_expiry (conf sample_state) + clock_skew (conf sample_state)"
    "unix_of (100 * nanos) + clock_skew (conf sample_state) < 2 ^ 63"
    using sample_user_facts(5,6) by (simp_all add: n signed_in_facts(4) sample_env_def code_ttl_def) (simp_all add: unix_of_def nanos_def)
  have ks: "key_set_wf (es_keys sample_state)" "sound_signature (ee_crypto env)" "reads_header (ee_crypto env) (ks_active_kid (es_keys sample_state))"
    using h by (simp_all add: sample_state_def entra_new_def key_set_wf_new env_def k_def toy_crypto_sound(1))
  from sign_in_to_graph[OF signed_in_run uf(3,1,2) signed_in_user(2,3,1) uf(4,5) redeem_request_facts(1,2) redeem_params_match
      t(1,2,4,3,5) ks, unfolded at, OF j jk]
  show ?thesis unfolding signed_in_facts(3,4) by blast
qed


section \<open>A concrete administrator and application\<close>

text \<open>The sample with an administrator in tenant A, app-only tokens switched on and one application.\<close>

definition admin_config :: config where
  "admin_config = sample_config
     \<lparr>c_users := [sample_alice, sample_bob\<lparr>u_admin := True\<rparr>, sample_carol],
      c_graph := Some \<lparr>g_enabled = None, g_base_path = [], g_overage_endpoint = [], g_user_info = None,
        g_app_only = True, g_default_page_size = 0, g_max_page_size = 0, g_clock_skew = None\<rparr>,
      c_apps := [\<lparr>a_client_id = ''daemon'', a_tid = tid_a, a_roles = [''User.Read.All''], a_claims = []\<rparr>]\<rparr>"

definition admin_seed :: config where
  "admin_seed = (case normalize (\<lambda>_. []) admin_config of Inr c \<Rightarrow> c | Inl _ \<Rightarrow> admin_config)"

definition admin_state :: entra_state where
  "admin_state = entra_new admin_seed 7"

definition admin_tenant :: tenant where
  "admin_tenant = (case tenant_by_id admin_seed tid_a of Some t \<Rightarrow> t | None \<Rightarrow> nil_tenant)"

definition admin_scope :: scope where
  "admin_scope = \<lparr>sc_segment = tid_a, sc_tenant = Some admin_tenant\<rparr>"

lemma admin_conf: "conf admin_state = admin_seed"
  by (simp add: conf_def admin_state_def entra_new_def snapshot_def new_store_def)

definition consent_request :: request where
  "consent_request = sample_request\<lparr>rq_method := ''POST'',
     rq_raw_query := ''client_id=iam&redirect_uri=http%3A%2F%2Fapp.test%2Fcb&state=st'',
     rq_body := ''tid='' @ tid_a @ ''&username=bob&action=accept''\<rparr>"

definition daemon_request :: request where
  "daemon_request = sample_request\<lparr>rq_method := ''POST'',
     rq_body := ''grant_type=client_credentials&client_id=daemon&scope=.default''\<rparr>"

end
