(* ===== verification/Entra_Odata.thy ===== *)
theory Entra_Odata
  imports Entra_Filter_Laws Entra_Token
begin

text \<open>
  The OData layer of the emulated Graph (internal/entra/odata.go): Graph-shaped errors, the
  query options, \<open>$select\<close> projection, and collections filtered and paged with a next link.

  Request identifiers and the formatted date of an error are arguments (\<open>graph_ids\<close> of the environment). A page
  with its end before its start is a run-time panic of \<open>make\<close> in Go and \<open>None\<close> of \<open>page_of\<close>.
\<close>

section \<open>Documents and errors\<close>

definition graph_json :: "int \<Rightarrow> gval \<Rightarrow> response" where
  "graph_json status v =
     \<lparr>rs_status = status, rs_header = [(''Content-Type'', json_content)], rs_body = json_render v\<rparr>"

text \<open>\<open>randomUUID\<close> of 16 random bytes: version 4, RFC variant.\<close>

fun uuid_version4 :: "char \<Rightarrow> char" where
  "uuid_version4 (Char b0 b1 b2 b3 b4 b5 b6 b7) = Char b0 b1 b2 b3 False False True False"

definition random_uuid :: "string option \<Rightarrow> string" where
  "random_uuid rnd =
     (case rnd of
        None \<Rightarrow> ''00000000-0000-4000-8000-000000000000''
      | Some b0 \<Rightarrow>
          let b1 = b0[6 := uuid_version4 (b0 ! 6)]; b = b1[8 := uuid_variant (b1 ! 8)]; s = hex_bytes b
          in take 8 s @ ''-'' @ take 4 (drop 8 s) @ ''-'' @ take 4 (drop 12 s) @ ''-'' @ take 4 (drop 16 s) @ ''-'' @ drop 20 s)"

definition graph_error_response :: "graph_ids \<Rightarrow> request \<Rightarrow> graph_error \<Rightarrow> response" where
  "graph_error_response ids r e =
     (let cid = header_get r ''client-request-id'';
          resp = graph_json (ge_status e) (VObj [(''error'', VObj
            [(''code'', VStr (ge_code e)), (''message'', VStr (ge_message e)),
             (''innerError'', VObj [(''date'', VStr (gi_date ids)), (''request-id'', VStr (gi_request ids)),
                (''client-request-id'', VStr (if cid = [] then gi_client_request ids else cid))])])])
      in if ge_status e = 401 then set_header ''WWW-Authenticate'' (''Bearer error='' @ [quote_char] @ ''invalid_token'' @ [quote_char]) resp
         else resp)"

definition graph_base_url :: "config \<Rightarrow> request \<Rightarrow> string" where
  "graph_base_url c r = issuer_origin r @ ''/'' @ c_base_path c @ ''/'' @ graph_base c"

definition graph_context :: "config \<Rightarrow> request \<Rightarrow> string \<Rightarrow> string" where
  "graph_context c r sfx = graph_base_url c r @ ''/v1.0/$metadata#'' @ sfx"

section \<open>Query options\<close>

definition parse_top :: "config \<Rightarrow> string \<Rightarrow> int" where
  "parse_top c raw = page_size c (case atoi (trim_space raw) of Some n \<Rightarrow> n | None \<Rightarrow> 0)"

definition parse_skip :: "string \<Rightarrow> int" where
  "parse_skip raw = (case atoi (trim_space raw) of Some n \<Rightarrow> if n < 0 then 0 else n | None \<Rightarrow> 0)"

definition unsupported_options :: "string list" where
  "unsupported_options = [''$orderby'', ''$search'', ''$count'', ''$apply'', ''$format'']"

definition has_param :: "request \<Rightarrow> string \<Rightarrow> bool" where
  "has_param r k \<longleftrightarrow> k \<in> set (map fst (query_values r))"

definition reject_unsupported_options :: "request \<Rightarrow> string list \<Rightarrow> graph_error option" where
  "reject_unsupported_options r also =
     map_option (\<lambda>opt. unsupported_query (''The query option '' @ quoted opt @ '' is not supported by this emulator.''))
       (find (has_param r) (unsupported_options @ also))"

definition refused_here :: "bool \<Rightarrow> bool \<Rightarrow> string list" where
  "refused_here collection expandable =
     (if \<not> collection then [''$filter''] else []) @ (if \<not> expandable then [''$expand''] else [])"

definition next_link :: "request \<Rightarrow> int \<Rightarrow> string" where
  "next_link r next_skip =
     (let q = sort_key fst (filter (\<lambda>(k, _). k \<noteq> ''$skiptoken'') (query_values r));
          parts = concat (map (\<lambda>(k, vs). map (\<lambda>v. k @ ''='' @ query_escape v) vs) q) @ [''$skiptoken='' @ show_int next_skip]
      in issuer_origin r @ rq_path r @ ''?'' @ str_join parts ''&'')"

section \<open>Projection\<close>

definition select_only :: "string \<Rightarrow> string list" where
  "select_only ty =
     (if ty = type_user then [''department'', ''companyName'', ''employeeId'', ''onPremisesExtensionAttributes''] else [])"

definition navigation_props :: "string list" where
  "navigation_props = [''manager'']"

text \<open>\<open>known\<close>: the last property whose lower-cased name is the wanted one.\<close>

definition known_name :: "entity \<Rightarrow> string \<Rightarrow> string option" where
  "known_name e want = map_option fst (find (\<lambda>(n, _). to_lower n = to_lower want) (rev e))"

fun select_names :: "entity \<Rightarrow> string \<Rightarrow> string list \<Rightarrow> graph_error + string list" where
  "select_names e ty [] = Inr []"
| "select_names e ty (w # ws) =
     (let want = trim_space w in
      if want = [] then select_names e ty ws
      else case known_name e want of
             None \<Rightarrow> Inl (no_property want ty)
           | Some name \<Rightarrow>
               if has_prefix name ''@'' then Inl (no_property want ty)
               else ebind (select_names e ty ws) (\<lambda>ns. Inr (name # ns)))"

definition apply_select :: "entity \<Rightarrow> string \<Rightarrow> string \<Rightarrow> graph_error + entity" where
  "apply_select e raw0 ty =
     (let raw = trim_space raw0 in
      if raw = [] then Inr (filter (\<lambda>(n, _). n \<notin> set (select_only ty)) e)
      else ebind (select_names e ty (str_split raw '',''))
             (\<lambda>ns. Inr (filter (\<lambda>(n, _). n \<in> set ([''id'', ''@odata.context'', ''@odata.type''] @ navigation_props @ ns)) e)))"

section \<open>Entities and collections\<close>

definition render_entity :: "graph_ids \<Rightarrow> request \<Rightarrow> config \<Rightarrow> string \<Rightarrow> entity \<Rightarrow> string \<Rightarrow> bool \<Rightarrow> response" where
  "render_entity ids r c ctx e ty expandable =
     (case reject_unsupported_options r (refused_here False expandable) of
        Some err \<Rightarrow> graph_error_response ids r err
      | None \<Rightarrow>
          (case apply_select ((''@odata.context'', VStr (graph_context c r ctx)) # e) (query_param r ''$select'') ty of
             Inl err \<Rightarrow> graph_error_response ids r err
           | Inr body \<Rightarrow> graph_json 200 (VObj body)))"

definition graph_entity :: "graph_ids \<Rightarrow> request \<Rightarrow> config \<Rightarrow> string \<Rightarrow> entity \<Rightarrow> string \<Rightarrow> response" where
  "graph_entity ids r c ctx e ty = render_entity ids r c ctx e ty False"

text \<open>The items a \<open>$filter\<close> keeps.\<close>

definition filter_items :: "request \<Rightarrow> string \<Rightarrow> entity list \<Rightarrow> filter_failure + entity list" where
  "filter_items r ty items =
     (if has_param r ''$filter''
      then ebind (parse_filter (query_param r ''$filter'') ty) (\<lambda>f. Inr (filter (\<lambda>e. filter_eval e f) items))
      else Inr items)"

text \<open>
  The bounds of a page: \<open>skip\<close> and \<open>end\<close>, with \<open>skip + top\<close> (\<open>top\<close> is \<open>lim\<close> here) in 64 bits. \<open>page_of\<close> is the slice
  \<open>items[skip:end]\<close>.
\<close>

definition page_bounds :: "int \<Rightarrow> int \<Rightarrow> int \<Rightarrow> int \<times> int" where
  "page_bounds skip0 lim n =
     (let skip = (if skip0 > n then n else skip0);
          e = wrap64 (skip + lim)
      in (skip, if e > n then n else e))"

definition page_of :: "int \<Rightarrow> int \<Rightarrow> 'a list \<Rightarrow> 'a list option" where
  "page_of skip e items =
     (if 0 \<le> skip \<and> skip \<le> e \<and> e \<le> int (length items) then Some (take (nat e - nat skip) (drop (nat skip) items)) else None)"

fun select_all :: "string \<Rightarrow> string \<Rightarrow> entity list \<Rightarrow> graph_error + gval list" where
  "select_all raw ty [] = Inr []"
| "select_all raw ty (e # es) =
     ebind (apply_select e raw ty) (\<lambda>n. ebind (select_all raw ty es) (\<lambda>ns. Inr (VObj n # ns)))"

definition makeslice_panic :: go_panic where
  "makeslice_panic = PanicError ''runtime error: makeslice: cap out of range''"

text \<open>The page a request asks for: its projected items and where the next page starts, if there is one.\<close>

definition collection_page ::
  "request \<Rightarrow> config \<Rightarrow> entity list \<Rightarrow> string \<Rightarrow> bool \<Rightarrow> go_panic + (graph_error + gval list \<times> int option)" where
  "collection_page r c items0 ty expandable =
     (case reject_unsupported_options r (refused_here True expandable) of
        Some err \<Rightarrow> Inr (Inl err)
      | None \<Rightarrow>
          (case filter_items r ty items0 of
             Inl FilterFuel \<Rightarrow> Inl PanicOther
           | Inl (FilterRefused err) \<Rightarrow> Inr (Inl err)
           | Inr items \<Rightarrow>
               let n = int (length items);
                   (skip, e) = page_bounds (parse_skip (query_param r ''$skiptoken'')) (parse_top c (query_param r ''$top'')) n
               in (case page_of skip e items of
                     None \<Rightarrow> Inl makeslice_panic
                   | Some page \<Rightarrow>
                       (case select_all (query_param r ''$select'') ty page of
                          Inl err \<Rightarrow> Inr (Inl err)
                        | Inr vs \<Rightarrow> Inr (Inr (vs, if e < n then Some e else None))))))"

definition render_collection ::
  "graph_ids \<Rightarrow> request \<Rightarrow> config \<Rightarrow> string \<Rightarrow> entity list \<Rightarrow> string \<Rightarrow> bool \<Rightarrow> go_panic + response" where
  "render_collection ids r c ctx items0 ty expandable =
     (case collection_page r c items0 ty expandable of
        Inl p \<Rightarrow> Inl p
      | Inr (Inl err) \<Rightarrow> Inr (graph_error_response ids r err)
      | Inr (Inr (vs, following)) \<Rightarrow>
          Inr (graph_json 200 (VObj
            ([(''@odata.context'', VStr (graph_context c r ctx)), (''value'', VArr vs)] @
             (case following of Some e \<Rightarrow> [(''@odata.nextLink'', VStr (next_link r e))] | None \<Rightarrow> [])))))"

definition graph_collection :: "graph_ids \<Rightarrow> request \<Rightarrow> config \<Rightarrow> string \<Rightarrow> entity list \<Rightarrow> string \<Rightarrow> go_panic + response" where
  "graph_collection ids r c ctx items ty = render_collection ids r c ctx items ty False"

end
