(* ===== verification/Entra_Graph.thy ===== *)
theory Entra_Graph
  imports Entra_Odata
begin

text \<open>
  The emulated Graph (internal/entra/graph.go) and the UserInfo endpoint (userinfo.go): the
  routes below \<open>/{basePath}/{graphBase}/\<close>. The tenant of an answer comes from the caller's
  token, never from the path.
\<close>

section \<open>Expanding managers\<close>

definition expand_inner :: "string \<Rightarrow> graph_error + string" where
  "expand_inner inner =
     (if inner = [] then Inr []
      else
        let t = trim_space inner;
            opts = (case cut_suffix t '')'' of Some o1 \<Rightarrow> o1 | None \<Rightarrow> t);
            (key, val, _) = str_cut opts ''=''
        in if cut_suffix t '')'' = None \<or> \<not> equal_fold (trim_space key) ''$select''
           then Inl (unsupported_query ''Only $select is supported inside $expand=manager(...).'')
           else Inr val)"

fun expand_items :: "config \<Rightarrow> string \<Rightarrow> user list \<Rightarrow> graph_error + entity list" where
  "expand_items c inner_select [] = Inr []"
| "expand_items c inner_select (u # us) =
     ebind (case manager_of c u of
              None \<Rightarrow> Inr (graph_user c u)
            | Some m \<Rightarrow>
                ebind (apply_select ((''@odata.type'', VStr (''#'' @ type_user)) # graph_user c m) inner_select type_user)
                  (\<lambda>mgr. Inr (graph_user c u @ [(''manager'', VObj mgr)])))
       (\<lambda>item. ebind (expand_items c inner_select us) (\<lambda>items. Inr (item # items)))"

definition expand_manager :: "request \<Rightarrow> config \<Rightarrow> user list \<Rightarrow> graph_error + entity list" where
  "expand_manager r c us =
     (if \<not> has_param r ''$expand'' then Inr (graph_users c us)
      else
        let expand = trim_space (str_join (values_all (query_values r) ''$expand'') '','');
            (name, inner, _) = str_cut expand ''(''
        in if \<not> equal_fold (trim_space name) ''manager''
           then Inl (unsupported_query ''Only $expand=manager is supported by this emulator.'')
           else ebind (expand_inner inner) (\<lambda>sel. expand_items c sel us))"

section \<open>UserInfo\<close>

definition user_info_path :: string where "user_info_path = ''oidc/userinfo''"

definition in_quotes :: "string \<Rightarrow> string" where
  "in_quotes s = [quote_char] @ s @ [quote_char]"

definition no_store :: "response \<Rightarrow> response" where
  "no_store r = set_header ''Cache-Control'' ''no-store'' r"

definition bearer_error :: "int \<Rightarrow> string \<Rightarrow> string \<Rightarrow> response" where
  "bearer_error status code description =
     no_store (set_header ''WWW-Authenticate''
       (''Bearer error='' @ in_quotes code @ '', error_description='' @ in_quotes description)
       (graph_json status (VObj [(''error'', VStr code), (''error_description'', VStr description)])))"

definition opt_field :: "string \<Rightarrow> string \<Rightarrow> entity" where
  "opt_field n v = (if v = [] then [] else [(n, VStr v)])"

definition user_info :: "crypto \<Rightarrow> key_set \<Rightarrow> int \<Rightarrow> request \<Rightarrow> config \<Rightarrow> go_panic + response" where
  "user_info k ks now r c =
     (if rq_method r \<noteq> ''GET'' \<and> rq_method r \<noteq> ''POST'' then Inr method_not_allowed
      else case validate_access_token k ks now r c (bearer_token r) of
        Inl _ \<Rightarrow> Inr (bearer_error 401 ''invalid_token'' ''The access token is invalid or expired.'')
      | Inr ca \<Rightarrow>
          if \<not> caller_delegated ca
          then Inr (bearer_error 403 ''insufficient_scope'' ''UserInfo requires a delegated user token.'')
          else (case ca_user ca of
                  None \<Rightarrow> Inl nil_deref
                | Some u \<Rightarrow>
                    Inr (no_store (graph_json 200 (VObj
                      ([(''sub'', VStr (ca_sub ca)), (''oid'', VStr (u_oid u)), (''tid'', VStr (t_tid (ca_tenant ca))),
                        (''name'', VStr (u_name u)), (''preferred_username'', VStr (principal_name (ca_tenant ca) u))] @
                       opt_field ''given_name'' (u_given_name u) @ opt_field ''family_name'' (u_surname u) @
                       opt_field ''email'' (u_email u)))))))"

section \<open>Routes\<close>

definition no_resource :: graph_error where
  "no_resource = graph_not_found ''The requested resource does not exist.''"

definition no_such :: "string \<Rightarrow> graph_error" where
  "no_such key = graph_not_found (''Resource '' @ quoted key @
     '' does not exist or one of its queried reference-property objects are not present.'')"

definition ctx_users :: string where "ctx_users = ''users''"
definition ctx_user_entity :: string where "ctx_user_entity = ''users/$entity''"
definition ctx_groups :: string where "ctx_groups = ''groups''"
definition ctx_group_ent :: string where "ctx_group_ent = ''groups/$entity''"
definition ctx_dir_objects :: string where "ctx_dir_objects = ''directoryObjects''"

definition get_member_objects :: "entra_env \<Rightarrow> request \<Rightarrow> config \<Rightarrow> user \<Rightarrow> response" where
  "get_member_objects env r c u =
     (let body = trim_space (rq_body r) in
      if body \<noteq> [] \<and> \<not> ee_member_body env body
      then graph_error_response (ee_ids env) r \<lparr>ge_status = 400, ge_code = ''Request_BadRequest'',
             ge_message = ''The request body is not valid JSON.''\<rparr>
      else graph_json 200 (VObj [(''@odata.context'', VStr (graph_context c r ''Collection(Edm.String)'')),
             (''value'', VArr (map VStr (group_ids_of (cr_sha1 (ee_crypto env)) c u)))]))"

definition graph_user_route :: "entra_env \<Rightarrow> request \<Rightarrow> config \<Rightarrow> user \<Rightarrow> string list \<Rightarrow> go_panic + response" where
  "graph_user_route env r c u path =
     (let get = (rq_method r = ''GET''); post = (rq_method r = ''POST''); sub = str_join path ''/''; ids = ee_ids env;
          sha1 = cr_sha1 (ee_crypto env)
      in if get \<and> sub = [] then
           (case expand_manager r c [u] of
              Inl e \<Rightarrow> Inr (graph_error_response ids r e)
            | Inr items \<Rightarrow> Inr (render_entity ids r c ctx_user_entity (hd items) type_user True))
         else if get \<and> (sub = ''memberOf'' \<or> sub = ''transitiveMemberOf'') then
           graph_collection ids r c ctx_dir_objects (graph_groups (groups_of sha1 c u)) type_group
         else if get \<and> sub = ''manager'' then
           (case manager_of c u of
              None \<Rightarrow> Inr (graph_error_response ids r (no_such ''manager''))
            | Some m \<Rightarrow> Inr (graph_entity ids r c ctx_user_entity (graph_user c m) type_user))
         else if get \<and> sub = ''directReports'' then
           graph_collection ids r c ctx_dir_objects (graph_users c (direct_reports c u)) type_user
         else if post \<and> (sub = ''getMemberObjects'' \<or> sub = ''getMemberGroups'') then
           Inr (get_member_objects env r c u)
         else if get \<and> (sub = ''photo'' \<or> sub = ''photo/$value'') then
           Inr (graph_error_response ids r \<lparr>ge_status = 404, ge_code = ''ImageNotFound'',
             ge_message = ''The photo wasn'' @ [CHR 0x27] @ ''t found.''\<rparr>)
         else Inr (graph_error_response ids r no_resource))"

definition graph_users_route :: "entra_env \<Rightarrow> request \<Rightarrow> config \<Rightarrow> caller \<Rightarrow> string list \<Rightarrow> go_panic + response" where
  "graph_users_route env r c ca path =
     (case path of
        [] \<Rightarrow>
          if rq_method r \<noteq> ''GET'' then Inr (graph_error_response (ee_ids env) r no_resource)
          else (case expand_manager r c (users_ordered_in c (ca_tid ca)) of
                  Inl e \<Rightarrow> Inr (graph_error_response (ee_ids env) r e)
                | Inr items \<Rightarrow> render_collection (ee_ids env) r c ctx_users items type_user True)
      | key # rest \<Rightarrow>
          (case user_by_upn_or_oid c (ca_tid ca) key of
             None \<Rightarrow> Inr (graph_error_response (ee_ids env) r (no_such key))
           | Some u \<Rightarrow> graph_user_route env r c u rest))"

definition graph_groups_route :: "entra_env \<Rightarrow> request \<Rightarrow> config \<Rightarrow> caller \<Rightarrow> string list \<Rightarrow> go_panic + response" where
  "graph_groups_route env r c ca path =
     (let sha1 = cr_sha1 (ee_crypto env); ids = ee_ids env in
      if rq_method r \<noteq> ''GET'' then Inr (graph_error_response ids r no_resource)
      else (case path of
              [] \<Rightarrow> graph_collection ids r c ctx_groups (graph_groups (groups_in sha1 c (ca_tid ca))) type_group
            | key # rest \<Rightarrow>
                (case group_by_id sha1 c (ca_tid ca) key of
                   None \<Rightarrow> Inr (graph_error_response ids r (no_such key))
                 | Some g \<Rightarrow>
                     let sub = str_join rest ''/'' in
                     if sub = [] then Inr (graph_entity ids r c ctx_group_ent (graph_group g) type_group)
                     else if sub = ''members'' \<or> sub = ''transitiveMembers'' then
                       graph_collection ids r c ctx_dir_objects
                         (graph_users c (members_of sha1 c (ca_tid ca) (dg_oid g))) type_user
                     else Inr (graph_error_response ids r no_resource))))"

definition graph :: "entra_env \<Rightarrow> key_set \<Rightarrow> request \<Rightarrow> config \<Rightarrow> string list \<Rightarrow> go_panic + response" where
  "graph env ks r c segs =
     (let ids = ee_ids env in
      if str_join segs ''/'' = user_info_path then
        (if \<not> user_info_on c then Inr (graph_error_response ids r no_resource)
         else user_info (ee_crypto env) ks (ee_now env) r c)
      else if length segs < 2 \<or> hd segs \<noteq> ''v1.0'' then Inr (graph_error_response ids r no_resource)
      else (case validate_access_token (ee_crypto env) ks (ee_now env) r c (bearer_token r) of
              Inl e \<Rightarrow> Inr (graph_error_response ids r e)
            | Inr ca \<Rightarrow>
                let p = segs ! 1; rest = drop 2 segs in
                if p = ''me'' then
                  (if \<not> caller_delegated ca
                   then Inr (graph_error_response ids r (graph_forbidden ''/me requires a delegated user token.''))
                   else (case ca_user ca of
                           None \<Rightarrow> Inl nil_deref
                         | Some u \<Rightarrow> graph_user_route env r c u rest))
                else if p = ''users'' then graph_users_route env r c ca rest
                else if p = ''groups'' then graph_groups_route env r c ca rest
                else Inr (graph_error_response ids r no_resource)))"

end
