(* ===== verification/Entra_Handler.thy ===== *)
theory Entra_Handler
  imports Entra_Graph
begin

text \<open>
  The entry points of Entra mode: dispatch, scopes, discovery and logout (internal/entra/handler.go),
  the helpers for automated tests (testapi.go) and the token mint they share with the admin
  console (\<open>AdminMintToken\<close> of admin.go).
\<close>

section \<open>Scopes (handler.go)\<close>


definition tenant_not_found :: "string \<Rightarrow> oauth_error" where
  "tenant_not_found tid = invalid_request (''AADSTS90002: Tenant '' @ quoted tid @ '' not found.'')"

definition resolve_scope :: "config \<Rightarrow> string \<Rightarrow> oauth_error + scope" where
  "resolve_scope c seg0 =
     (let seg = to_lower seg0 in
      if seg = scope_organizations \<or> seg = scope_common then Inr \<lparr>sc_segment = seg, sc_tenant = None\<rparr>
      else case tenant_by_id c seg of
             Some t \<Rightarrow> Inr \<lparr>sc_segment = t_tid t, sc_tenant = Some t\<rparr>
           | None \<Rightarrow> Inl (tenant_not_found seg))"

section \<open>Discovery and logout\<close>

definition issuer_tid :: "scope \<Rightarrow> string" where
  "issuer_tid sc = (case sc_tenant sc of None \<Rightarrow> ''{tenantid}'' | Some t \<Rightarrow> t_tid t)"

definition discovery_endpoint :: "request \<Rightarrow> config \<Rightarrow> scope \<Rightarrow> string" where
  "discovery_endpoint r c sc = issuer_origin r @ ''/'' @ c_base_path c @ ''/'' @ sc_segment sc"

definition discovery_doc :: "request \<Rightarrow> config \<Rightarrow> (string \<times> gval) list \<Rightarrow> (string \<times> gval) list" where
  "discovery_doc r c doc =
     (if user_info_on c then doc @ [(''userinfo_endpoint'', VStr (graph_base_url c r @ ''/'' @ user_info_path))] else doc)"

definition discovery_fields :: "request \<Rightarrow> config \<Rightarrow> scope \<Rightarrow> (string \<times> gval) list" where
  "discovery_fields r c sc =
     (let base = issuer_origin r @ ''/'' @ c_base_path c; ep = discovery_endpoint r c sc in
      discovery_doc r c
        [(''token_endpoint'', VStr (ep @ ''/oauth2/v2.0/token'')),
         (''token_endpoint_auth_methods_supported'', VStrs [''client_secret_post'', ''private_key_jwt'', ''client_secret_basic'']),
         (''jwks_uri'', VStr (ep @ ''/discovery/v2.0/keys'')),
         (''response_modes_supported'', VStrs [''query'', ''fragment'', ''form_post'']),
         (''subject_types_supported'', VStrs [''pairwise'']),
         (''id_token_signing_alg_values_supported'', VStrs [''RS256'']),
         (''response_types_supported'', VStrs [''code'', ''id_token'', ''code id_token'', ''id_token token'']),
         (''scopes_supported'', VStrs [''openid'', ''profile'', ''email'', ''offline_access'']),
         (''issuer'', VStr (base @ ''/'' @ issuer_tid sc @ ''/v2.0'')),
         (''request_uri_parameter_supported'', VBool False),
         (''authorization_endpoint'', VStr (ep @ ''/oauth2/v2.0/authorize'')),
         (''end_session_endpoint'', VStr (ep @ ''/oauth2/v2.0/logout'')),
         (''claims_supported'', VStrs [''sub'', ''iss'', ''aud'', ''exp'', ''iat'', ''nbf'', ''name'', ''nonce'', ''oid'',
            ''preferred_username'', ''tid'', ''ver'', ''email'', ''groups'', ''amr'', ''xms_edov'']),
         (''tenant_region_scope'', VStr ''NA''), (''cloud_instance_name'', VStr ''microsoftonline.com'')])"

definition discovery :: "request \<Rightarrow> config \<Rightarrow> scope \<Rightarrow> response" where
  "discovery r c sc = json_response (VObj (discovery_fields r c sc))"

definition signed_out_page :: string where
  "signed_out_page = ''<!DOCTYPE html><html><body><p>You signed out of your account.</p></body></html>''"

definition logout :: "request \<Rightarrow> response" where
  "logout r =
     (let uri = query_param r ''post_logout_redirect_uri'' in
      if uri = [] then html_response signed_out_page
      else case url_parse uri of
             None \<Rightarrow> error_response (invalid_request ''invalid post_logout_redirect_uri'')
           | Some u \<Rightarrow>
               let st = query_param r ''state'';
                   u' = (if st = [] then u else url_set_query (values_set ''state'' st (parse_query (url_query u))) u)
               in redirect_response (url_string u'))"

section \<open>Minted tokens (admin.go)\<close>

record mint_input =
  mi_tid :: string
  mi_username :: string
  mi_client_id :: string
  mi_scope :: string

record minted_token =
  mt_token_type :: string
  mt_expires_in :: int
  mt_scope :: string
  mt_access_token :: string
  mt_id_token :: string

datatype mint_error = MintNotFound | MintDisabled

definition minted_obj :: "minted_token \<Rightarrow> (string \<times> gval) list" where
  "minted_obj t =
     [(''token_type'', VStr (mt_token_type t)), (''expires_in'', VInt (mt_expires_in t)), (''scope'', VStr (mt_scope t)),
      (''access_token'', VStr (mt_access_token t)), (''id_token'', VStr (mt_id_token t))]"

definition mint_client :: "mint_input \<Rightarrow> string" where
  "mint_client inp = (if mi_client_id inp = [] then ''mock'' else mi_client_id inp)"

definition mint_scopes :: "mint_input \<Rightarrow> string list" where
  "mint_scopes inp = (let scopes = str_fields (mi_scope inp) in if scopes = [] then [''openid'', ''profile'', ''email''] else scopes)"

definition mint_token_input :: "string \<Rightarrow> config \<Rightarrow> tenant \<Rightarrow> user \<Rightarrow> mint_input \<Rightarrow> int \<Rightarrow> token_input" where
  "mint_token_input origin c t u inp now =
     \<lparr>in_graph_base = graph_base c, in_overage_self = overage_self_hosted c, in_origin = origin,
      in_base_path = c_base_path c, in_tenant = t, in_user = u, in_client_id = mint_client inp, in_nonce = [],
      in_scopes = mint_scopes inp, in_now = now, in_expiry = c_token_expiry c,
      in_mapped = mapped_claims c (mint_client inp) u\<rparr>"

definition admin_mint_token ::
  "entra_env \<Rightarrow> string \<Rightarrow> mint_input \<Rightarrow> entra_state \<Rightarrow> go_panic + (mint_error + minted_token)" where
  "admin_mint_token env origin inp s =
     (let c = conf s; k = ee_crypto env in
      case user_by_name c (mi_tid inp) (mi_username inp) of
        None \<Rightarrow> Inr (Inl MintNotFound)
      | Some u \<Rightarrow>
          if \<not> user_enabled u then Inr (Inl MintDisabled)
          else (case tenant_by_id c (u_tid u) of
                  None \<Rightarrow> Inl nil_deref
                | Some t \<Rightarrow>
                    let ti = mint_token_input origin c t u inp (ee_now env) in
                    Inr (Inr \<lparr>mt_token_type = ''Bearer'', mt_expires_in = c_token_expiry c,
                      mt_scope = str_join (mint_scopes inp) '' '',
                      mt_access_token = ks_sign k (es_keys s) (access_token_claims k (ee_uti_access env) ti),
                      mt_id_token = ks_sign k (es_keys s) (id_token_claims k (ee_uti_id env) ti)\<rparr>)))"

section \<open>The test API (testapi.go)\<close>

definition mint_param :: "request \<Rightarrow> string \<Rightarrow> string" where
  "mint_param r name = (if form_param r name \<noteq> [] then form_param r name else query_param r name)"

definition mint_request :: "request \<Rightarrow> mint_input" where
  "mint_request r = \<lparr>mi_tid = mint_param r ''tid'', mi_username = mint_param r ''username'',
     mi_client_id = mint_param r ''clientId'', mi_scope = mint_param r ''scope''\<rparr>"

definition mint_token :: "entra_env \<Rightarrow> request \<Rightarrow> entra_state \<Rightarrow> go_panic + response" where
  "mint_token env r s =
     (case admin_mint_token env (issuer_origin r) (mint_request r) s of
        Inl p \<Rightarrow> Inl p
      | Inr (Inl MintNotFound) \<Rightarrow>
          Inr (error_response (invalid_request ''AADSTS50034: The user account does not exist in this directory.''))
      | Inr (Inl MintDisabled) \<Rightarrow> Inr (error_response (invalid_grant_error ''AADSTS50057: The user account is disabled.''))
      | Inr (Inr t) \<Rightarrow> Inr (json_response (VObj (minted_obj t))))"

definition consent_obj :: "consent \<Rightarrow> gval" where
  "consent_obj c = VObj [(''clientId'', VStr (cs_client_id c)), (''tid'', VStr (cs_tid c))]"

definition api_user :: "(string \<Rightarrow> string) \<Rightarrow> config \<Rightarrow> user \<Rightarrow> gval" where
  "api_user sha1 c u =
     VObj [(''username'', VStr (u_username u)), (''tid'', VStr (u_tid u)), (''oid'', VStr (u_oid u)),
       (''displayName'', VStr (u_name u)), (''userPrincipalName'', VStr (principal_name (user_tenant c u) u)),
       (''accountEnabled'', VBool (user_enabled u)),
       (''groups'', VArr (map (\<lambda>g. VObj [(''name'', VStr (dg_name g)), (''oid'', VStr (dg_oid g))]) (groups_of sha1 c u)))]"

definition api_users :: "(string \<Rightarrow> string) \<Rightarrow> request \<Rightarrow> config \<Rightarrow> response" where
  "api_users sha1 r c =
     (let tid = query_param r ''tid'' in
      if tid \<noteq> [] \<and> tenant_by_id c tid = None then error_response (tenant_not_found tid)
      else json_response (VArr (map (api_user sha1 c) (sort_users (users_in c tid)))))"

definition api_groups :: "(string \<Rightarrow> string) \<Rightarrow> request \<Rightarrow> config \<Rightarrow> response" where
  "api_groups sha1 r c =
     (case tenant_by_id c (query_param r ''tid'') of
        None \<Rightarrow> error_response (tenant_not_found (query_param r ''tid''))
      | Some t \<Rightarrow>
          let names = sort (uniq_from [] (concat (map member_groups (users_in c (t_tid t))))) in
          json_response (VObj (map (\<lambda>n. (n, VStr (group_object_id sha1 (t_tid t) n))) names)))"

definition test_api :: "entra_env \<Rightarrow> request \<Rightarrow> string \<Rightarrow> entra_state \<Rightarrow> entra_result" where
  "test_api env r action s =
     (let get = (rq_method r = ''GET''); post = (rq_method r = ''POST''); sha1 = cr_sha1 (ee_crypto env) in
      if get \<and> action = ''consents'' then ok (json_response (VArr (map consent_obj (consent_list (es_consents s))))) s
      else if post \<and> action = ''reset'' then
        ok (json_response (VObj [(''status'', VStr ''ok'')])) (s\<lparr>es_consents := consent_reset (es_consents s)\<rparr>)
      else if post \<and> action = ''rotate-keys'' then
        (let (kid, ks) = ks_rotate (ee_rsa env) (es_keys s)
         in ok (json_response (VObj [(''kid'', VStr kid)])) (s\<lparr>es_keys := ks\<rparr>))
      else if get \<and> action = ''users'' then ok (api_users sha1 r (conf s)) s
      else if post \<and> action = ''mint-token'' then (mint_token env r s, s)
      else if get \<and> action = ''groups'' then ok (api_groups sha1 r (conf s)) s
      else ok (not_found_response ''not found'') s)"

section \<open>Dispatch (handler.go)\<close>

definition entra_route :: "entra_env \<Rightarrow> request \<Rightarrow> scope \<Rightarrow> string \<Rightarrow> entra_state \<Rightarrow> entra_result" where
  "entra_route env r sc rest s =
     (let get = (rq_method r = ''GET''); post = (rq_method r = ''POST'') in
      if get \<and> rest = ''v2.0/.well-known/openid-configuration'' then ok (discovery r (conf s) sc) s
      else if get \<and> rest = ''discovery/v2.0/keys'' then ok (json_string_response (ks_jwks (ee_crypto env) (es_keys s))) s
      else if get \<and> rest = ''oauth2/v2.0/authorize'' then authorize_get env r sc s
      else if post \<and> rest = ''oauth2/v2.0/authorize'' then authorize_post env r sc s
      else if post \<and> rest = ''oauth2/v2.0/token'' then entra_token env r sc s
      else if get \<and> rest = ''v2.0/adminconsent'' then admin_consent_get env r sc s
      else if post \<and> rest = ''v2.0/adminconsent'' then admin_consent_post env r sc s
      else if rest = ''oauth2/v2.0/logout'' then ok (logout r) s
      else ok (not_found_response ''not found'') s)"

definition entra_handle :: "entra_env \<Rightarrow> request \<Rightarrow> entra_state \<Rightarrow> entra_result" where
  "entra_handle env r s =
     (if rq_method r = ''OPTIONS'' then ok (new_response 204) s
      else
        let segs = str_split (trim_slash (rq_path r)) ''/'' in
        if length segs < 3 then ok (not_found_response ''not found'') s
        else if segs ! 1 = test_api_segment then test_api env r (str_join (drop 2 segs) ''/'') s
        else if graph_on (conf s) \<and> segs ! 1 = graph_base (conf s) then (graph env (es_keys s) r (conf s) (drop 2 segs), s)
        else case resolve_scope (conf s) (segs ! 1) of
               Inl e \<Rightarrow> ok (error_response e) s
             | Inr sc \<Rightarrow> entra_route env r sc (str_join (drop 2 segs) ''/'') s)"

definition route_pattern :: "config \<Rightarrow> string" where
  "route_pattern seed = ''/'' @ c_base_path seed @ ''/*''"

end
