(* ===== verification/Entra_Admin.thy ===== *)
theory Entra_Admin
  imports Entra_Handler
begin

text \<open>
  The administration of a running Entra handler (internal/entra/admin.go), and the handler as a
  state machine: every request and every administrative operation is one step.

  A \<open>*bool\<close> of the snapshot is rendered by encoding/json as its value or null.
\<close>

section \<open>The snapshot\<close>

definition opt_bool :: "bool option \<Rightarrow> gval" where
  "opt_bool b = (case b of None \<Rightarrow> VNil | Some v \<Rightarrow> VBool v)"

definition tenant_group_obj :: "(string \<Rightarrow> string) \<Rightarrow> tenant \<Rightarrow> group \<Rightarrow> gval" where
  "tenant_group_obj sha1 t g =
     VObj [(''name'', VStr (gr_name g)), (''description'', VStr (gr_description g)),
       (''oid'', VStr (if gr_oid g = [] then group_object_id sha1 (t_tid t) (gr_name g) else gr_oid g)),
       (''configuredOid'', VStr (gr_oid g)), (''mailNickname'', VStr (gr_mail_nickname g)), (''mail'', VStr (gr_mail g)),
       (''securityEnabled'', opt_bool (gr_security_enabled g)), (''mailEnabled'', opt_bool (gr_mail_enabled g)),
       (''membershipRule'', VStr (gr_membership_rule g))]"

definition tenant_groups :: "(string \<Rightarrow> string) \<Rightarrow> tenant \<Rightarrow> gval" where
  "tenant_groups sha1 t = VArr (map (tenant_group_obj sha1 t) (t_groups t))"

definition snapshot_tenant :: "(string \<Rightarrow> string) \<Rightarrow> tenant \<Rightarrow> gval" where
  "snapshot_tenant sha1 t =
     VObj [(''tid'', VStr (t_tid t)), (''name'', VStr (t_name t)), (''domains'', VStrs (t_domains t)),
       (''groupClaimFormat'', VStr (t_group_claim_format t)), (''groupLimit'', VInt (t_group_limit t)),
       (''consentRequired'', VBool (t_consent_required t)), (''groups'', tenant_groups sha1 t)]"

definition snapshot_user :: "user \<Rightarrow> gval" where
  "snapshot_user u =
     VObj [(''username'', VStr (u_username u)), (''tid'', VStr (u_tid u)), (''oid'', VStr (u_oid u)),
       (''name'', VStr (u_name u)), (''email'', VStr (u_email u)), (''emailVerified'', opt_bool (u_email_verified u)),
       (''groups'', VStrs (u_groups u)), (''dynamicGroups'', VStrs (u_dynamic_groups u)), (''amr'', VStrs (u_amr u)),
       (''admin'', VBool (u_admin u)), (''error'', VStr (u_error u)), (''mfa'', VStr (u_mfa u)),
       (''givenName'', VStr (u_given_name u)), (''surname'', VStr (u_surname u)), (''upn'', VStr (u_upn u)),
       (''accountEnabled'', VBool (user_enabled u)), (''jobTitle'', VStr (u_job_title u)),
       (''officeLocation'', VStr (u_office_location u)), (''businessPhones'', VStrs (u_business_phones u)),
       (''mobilePhone'', VStr (u_mobile_phone u)), (''preferredLanguage'', VStr (u_preferred_language u)),
       (''roles'', VStrs (u_roles u)), (''wids'', VStrs (u_wids u)), (''manager'', VStr (u_manager u)),
       (''department'', VStr (u_department u)), (''companyName'', VStr (u_company_name u)),
       (''employeeId'', VStr (u_employee_id u)),
       (''onPremisesExtensionAttributes'', VObj [(''extensionAttribute1'', VStr (ext1 (u_ext u))),
          (''extensionAttribute2'', VStr (ext2 (u_ext u))), (''extensionAttribute3'', VStr (ext3 (u_ext u)))])]"

definition admin_snapshot :: "(string \<Rightarrow> string) \<Rightarrow> entra_state \<Rightarrow> gval" where
  "admin_snapshot sha1 s =
     (let c = conf s in
      VObj [(''basePath'', VStr (c_base_path c)), (''defaultGroupLimit'', VInt (c_default_group_limit c)),
        (''tokenExpiry'', VInt (c_token_expiry c)), (''ignoreLoginHint'', VBool (c_ignore_login_hint c)),
        (''graph'', VObj [(''enabled'', VBool (graph_on c)), (''basePath'', VStr (graph_base c)),
           (''userinfo'', VBool (user_info_on c)), (''appOnly'', VBool (app_only_on c)),
           (''overageSelfHosted'', VBool (overage_self_hosted c))]),
        (''apps'', VArr (map (\<lambda>a. VObj [(''clientId'', VStr (a_client_id a)), (''tid'', VStr (a_tid a)),
           (''roles'', VStrs (a_roles a))]) (c_apps c))),
        (''tenants'', VArr (map (snapshot_tenant sha1) (c_tenants c))),
        (''users'', VArr (map snapshot_user (c_users c))),
        (''consents'', VArr (map consent_obj (consent_list (es_consents s)))),
        (''keys'', VObj [(''activeKid'', VStr (ks_active_kid (es_keys s))),
           (''publishedKids'', VStrs (ks_published_kids (es_keys s)))])])"

section \<open>Operations\<close>

type_synonym admin_result = "cfg_error option \<times> entra_state"

definition on_store :: "(store \<Rightarrow> cfg_error option \<times> store) \<Rightarrow> entra_state \<Rightarrow> admin_result" where
  "on_store f s = (case f (es_store s) of (e, st) \<Rightarrow> (e, s\<lparr>es_store := st\<rparr>))"

definition admin_graph_enabled :: "entra_state \<Rightarrow> bool" where
  "admin_graph_enabled s = graph_on (conf s)"

definition admin_set_graph_enabled :: "(string \<Rightarrow> string) \<Rightarrow> bool \<Rightarrow> entra_state \<Rightarrow> admin_result" where
  "admin_set_graph_enabled sha1 v = on_store (set_graph_enabled sha1 v)"

definition admin_create_tenant :: "(string \<Rightarrow> string) \<Rightarrow> tenant \<Rightarrow> entra_state \<Rightarrow> admin_result" where
  "admin_create_tenant sha1 t = on_store (create_tenant sha1 t)"

definition admin_update_tenant :: "(string \<Rightarrow> string) \<Rightarrow> string \<Rightarrow> tenant \<Rightarrow> entra_state \<Rightarrow> admin_result" where
  "admin_update_tenant sha1 tid t = on_store (update_tenant sha1 tid t)"

definition admin_delete_tenant :: "(string \<Rightarrow> string) \<Rightarrow> string \<Rightarrow> entra_state \<Rightarrow> admin_result" where
  "admin_delete_tenant sha1 tid s =
     (case on_store (delete_tenant sha1 tid) s of
        (Some e, s') \<Rightarrow> (Some e, s')
      | (None, s') \<Rightarrow> (None, s'\<lparr>es_consents := consent_remove_tenant tid (es_consents s')\<rparr>))"

definition admin_create_user :: "(string \<Rightarrow> string) \<Rightarrow> user \<Rightarrow> entra_state \<Rightarrow> admin_result" where
  "admin_create_user sha1 u = on_store (create_user sha1 u)"

definition admin_update_user :: "(string \<Rightarrow> string) \<Rightarrow> string \<Rightarrow> string \<Rightarrow> user \<Rightarrow> entra_state \<Rightarrow> admin_result" where
  "admin_update_user sha1 tid username u = on_store (update_user sha1 tid username u)"

definition admin_delete_user :: "(string \<Rightarrow> string) \<Rightarrow> string \<Rightarrow> string \<Rightarrow> entra_state \<Rightarrow> admin_result" where
  "admin_delete_user sha1 tid username = on_store (delete_user sha1 tid username)"

definition admin_revoke_consent :: "string \<Rightarrow> string \<Rightarrow> entra_state \<Rightarrow> entra_state" where
  "admin_revoke_consent client_id tid s = s\<lparr>es_consents := consent_remove client_id tid (es_consents s)\<rparr>"

definition admin_reset_to_seed :: "entra_state \<Rightarrow> entra_state" where
  "admin_reset_to_seed s =
     s\<lparr>es_store := store_reset (es_store s), es_consents := consent_reset (es_consents s)\<rparr>"

definition admin_rotate_keys :: "nat \<Rightarrow> entra_state \<Rightarrow> string \<times> entra_state" where
  "admin_rotate_keys rsa s = (case ks_rotate rsa (es_keys s) of (kid, ks) \<Rightarrow> (kid, s\<lparr>es_keys := ks\<rparr>))"

section \<open>The running handler\<close>

inductive entra_step :: "(string \<Rightarrow> string) \<Rightarrow> entra_state \<Rightarrow> entra_state \<Rightarrow> bool" for sha1 where
  step_request: "cr_sha1 (ee_crypto env) = sha1 \<Longrightarrow> entra_handle env r s = (res, s') \<Longrightarrow> entra_step sha1 s s'"
| step_graph: "admin_set_graph_enabled sha1 v s = (e, s') \<Longrightarrow> entra_step sha1 s s'"
| step_create_tenant: "admin_create_tenant sha1 t s = (e, s') \<Longrightarrow> entra_step sha1 s s'"
| step_update_tenant: "admin_update_tenant sha1 tid t s = (e, s') \<Longrightarrow> entra_step sha1 s s'"
| step_delete_tenant: "admin_delete_tenant sha1 tid s = (e, s') \<Longrightarrow> entra_step sha1 s s'"
| step_create_user: "admin_create_user sha1 u s = (e, s') \<Longrightarrow> entra_step sha1 s s'"
| step_update_user: "admin_update_user sha1 tid name u s = (e, s') \<Longrightarrow> entra_step sha1 s s'"
| step_delete_user: "admin_delete_user sha1 tid name s = (e, s') \<Longrightarrow> entra_step sha1 s s'"
| step_revoke: "entra_step sha1 s (admin_revoke_consent client tid s)"
| step_reset: "entra_step sha1 s (admin_reset_to_seed s)"
| step_rotate: "admin_rotate_keys rsa s = (kid, s') \<Longrightarrow> entra_step sha1 s s'"

inductive entra_reach :: "(string \<Rightarrow> string) \<Rightarrow> config \<Rightarrow> entra_state \<Rightarrow> bool" for sha1 seed where
  reach_new: "entra_reach sha1 seed (entra_new seed rsa)"
| reach_step: "entra_reach sha1 seed s \<Longrightarrow> entra_step sha1 s s' \<Longrightarrow> entra_reach sha1 seed s'"

end
