(* ===== verification/Entra_Graph_Laws.thy ===== *)
theory Entra_Graph_Laws
  imports Entra_Graph
begin

text \<open>
  What makes the Graph surface correct: following the next links of a collection visits every
  item once and in order, \<open>$select\<close> keeps exactly the named properties, an answer depends on
  no other tenant than the caller's, and nothing is answered without a valid token.
\<close>

section \<open>Numbers in a query\<close>

lemma digits_value_append: "digits_value acc (xs @ [d]) = 10 * digits_value acc xs + digit_value d"
  by (induction xs arbitrary: acc) simp_all

lemma digit_value_nth: "k < 10 \<Longrightarrow> digit_value (''0123456789'' ! k) = int k"
proof -
  have "list_all (\<lambda>k. digit_value (''0123456789'' ! k) = int k) [0..<10]" by code_simp
  then show "k < 10 \<Longrightarrow> digit_value (''0123456789'' ! k) = int k" by (simp add: list_all_iff)
qed

lemma digits_value_show: "digits_value 0 (show_nat n) = int n"
proof (induction n rule: show_nat.induct)
  case (1 n)
  show ?case
  proof (cases "n < 10")
    case True
    then show ?thesis by (subst show_nat.simps) (simp add: digit_value_nth)
  next
    case False
    have "10 * int (n div 10) + int (n mod 10) = int n" by presburger
    then show ?thesis using 1 False
      by (subst show_nat.simps) (simp add: digits_value_append digit_value_nth)
  qed
qed

lemma show_nat_digits: "show_nat n \<noteq> [] \<and> list_all is_digit (show_nat n)"
proof (induction n rule: show_nat.induct)
  case (1 n)
  have d: "k < 10 \<Longrightarrow> is_digit (''0123456789'' ! k)" for k
    unfolding is_digit_def by (rule nth_mem) simp
  show ?case
  proof (cases "n < 10")
    case True
    then show ?thesis by (subst (1 2) show_nat.simps) (simp add: d)
  next
    case False
    then show ?thesis using 1 by (subst (1 2) show_nat.simps) (simp add: d)
  qed
qed

lemma digit_not_space: "is_digit c \<Longrightarrow> \<not> is_space c \<and> c \<noteq> CHR ''-'' \<and> c \<noteq> CHR ''+''"
  by (auto simp: is_digit_def is_space_def)

lemma parse_skip_show:
  assumes "0 \<le> e" and "e < 2 ^ 63"
  shows "parse_skip (show_int e) = e"
proof -
  obtain n where e: "e = int n" using assms(1) nonneg_int_cases by blast
  obtain c cs where s: "show_nat n = c # cs" using show_nat_digits[of n] by (cases "show_nat n") auto
  have c: "is_digit c" "list_all is_digit (c # cs)" using show_nat_digits[of n] s by simp_all
  have t: "trim_space (c # cs) = c # cs"
    unfolding trim_space_def using c by (intro trim_by_id) (auto simp: list_all_iff dest: digit_not_space)
  have "show_int e = c # cs" by (simp add: show_int_def e s)
  moreover have "atoi (c # cs) = Some e"
    using c digit_not_space[OF c(1)] assms digits_value_show[of n] s
    by (simp add: atoi_def has_prefix_def Let_def e)
  ultimately show ?thesis using assms t by (simp add: parse_skip_def)
qed


section \<open>Next links\<close>

definition kept_pairs :: "request \<Rightarrow> int \<Rightarrow> (string \<times> string) list" where
  "kept_pairs r next_skip =
     concat (map (\<lambda>(k, vs). map (\<lambda>v. (k, v)) vs) (sort_key fst (filter (\<lambda>(k, _). k \<noteq> ''$skiptoken'') (query_values r)))) @
     [(''$skiptoken'', show_int next_skip)]"

definition next_query :: "request \<Rightarrow> int \<Rightarrow> string" where
  "next_query r next_skip = str_join (map (\<lambda>p. fst p @ ''='' @ query_escape (snd p)) (kept_pairs r next_skip)) ''&''"

definition page_request :: "request \<Rightarrow> int \<Rightarrow> request" where
  "page_request r next_skip = r\<lparr>rq_raw_query := next_query r next_skip\<rparr>"

definition plain_keys :: "request \<Rightarrow> bool" where
  "plain_keys r \<longleftrightarrow> list_all plain_key (map fst (query_values r))"

lemma show_int_plain: "0 \<le> e \<Longrightarrow> query_escape (show_int e) = show_int e"
proof -
  have "list_all (\<lambda>c. escape_char c = [c]) ''0123456789''" by code_simp
  then have "is_digit c \<Longrightarrow> escape_char c = [c]" for c
    by (simp only: is_digit_def list_all_iff)
  then have "list_all is_digit s \<Longrightarrow> query_escape s = s" for s
    by (induction s) (simp_all add: query_escape_def)
  then show "0 \<le> e \<Longrightarrow> query_escape (show_int e) = show_int e"
    using show_nat_digits by (simp add: show_int_def)
qed

lemma next_link_query:
  assumes "0 \<le> e"
  shows "next_link r e = issuer_origin r @ rq_path r @ ''?'' @ next_query r e"
proof -
  have "concat (map (\<lambda>(k, vs). map (\<lambda>v. k @ ''='' @ query_escape v) vs) q) =
      map (\<lambda>p. fst p @ ''='' @ query_escape (snd p)) (concat (map (\<lambda>(k, vs). map (\<lambda>v. (k, v)) vs) q))" for q :: url_values
    by (induction q) (auto simp: comp_def)
  then show ?thesis
    by (simp add: next_link_def next_query_def kept_pairs_def Let_def show_int_plain[OF assms])
qed

lemma query_values_page:
  assumes "plain_keys r"
  shows "query_values (page_request r e) = add_pairs (kept_pairs r e) []"
proof -
  have k: "plain_key (fst p)" if "p \<in> set (kept_pairs r e)" for p
  proof -
    have "fst p = ''$skiptoken'' \<or> fst p \<in> set (map fst (query_values r))"
      using that by (force simp: kept_pairs_def)
    moreover have "plain_key ''$skiptoken''" by code_simp
    ultimately show ?thesis using assms by (auto simp: plain_keys_def list_all_iff)
  qed
  show ?thesis unfolding query_values_def page_request_def next_query_def
    using read_plain_pair[OF k] by (simp add: parse_query_pairs)
qed


lemma values_pairs_all:
  assumes "distinct (map fst v)"
  shows "map snd (filter (\<lambda>p. fst p = k) (values_pairs v)) = values_all v k"
  using parse_query_encode[OF assms, of k]
  by (simp add: values_encode_def parse_query_encode_pairs values_all_add_pairs) (simp add: values_all_def)

lemma kept_pairs_values:
  "kept_pairs r e = values_pairs (map_del ''$skiptoken'' (query_values r)) @ [(''$skiptoken'', show_int e)]"
  by (simp add: kept_pairs_def values_pairs_def map_del_def case_prod_unfold)

lemma distinct_query_values: "distinct (map fst (query_values r))"
  by (simp add: query_values_def distinct_parse_query)

lemma page_values:
  assumes "plain_keys r"
  shows "values_all (query_values (page_request r e)) k =
    (if k = ''$skiptoken'' then [show_int e] else values_all (query_values r) k)"
proof -
  have d: "distinct (map fst (map_del ''$skiptoken'' (query_values r)))"
    using distinct_query_values[of r] by (simp add: map_del_def distinct_map_filter)
  show ?thesis
    by (simp add: query_values_page[OF assms] values_all_add_pairs kept_pairs_values values_pairs_all[OF d])
      (simp add: values_all_def)
qed

lemma page_param:
  assumes "plain_keys r" and "k \<noteq> ''$skiptoken''"
  shows "query_param (page_request r e) k = query_param r k"
  using page_values[OF assms(1), of e k] assms(2) by (simp add: query_param_def values_get_all)

lemma page_skip:
  assumes "plain_keys r" and "0 \<le> e" and "e < 2 ^ 63"
  shows "parse_skip (query_param (page_request r e) ''$skiptoken'') = e"
  using page_values[OF assms(1), of e "''$skiptoken''"]
  by (simp add: query_param_def values_get_all parse_skip_show[OF assms(2,3)])


lemma keys_add_pairs: "fst ` set (add_pairs ps v) = fst ` set v \<union> fst ` set ps"
proof (induction ps arbitrary: v)
  case (Cons p ps)
  have "add_pairs (p # ps) v = add_pairs ps (values_add (fst p) (snd p) v)" by (simp add: add_pairs_def case_prod_unfold)
  then show ?case using Cons[of "values_add (fst p) (snd p) v"]
    by (simp add: values_add_def map_put_def dom_update)
qed (simp add: add_pairs_def)

lemma plain_keys_iff: "plain_keys q \<longleftrightarrow> (\<forall>k\<in>fst ` set (query_values q). plain_key k)"
  by (simp add: plain_keys_def list_all_iff)

lemma page_plain_keys:
  assumes "plain_keys r"
  shows "plain_keys (page_request r e)"
proof -
  have t: "plain_key ''$skiptoken''" by code_simp
  have sub: "fst ` set (query_values (page_request r e)) \<subseteq> insert ''$skiptoken'' (fst ` set (query_values r))"
    unfolding query_values_page[OF assms] keys_add_pairs by (force simp: kept_pairs_def)
  have "plain_key k" if "k \<in> fst ` set (query_values (page_request r e))" for k
    using subsetD[OF sub that]
  proof (rule insertE)
    show "k = ''$skiptoken'' \<Longrightarrow> plain_key k" using t by simp
    show "k \<in> fst ` set (query_values r) \<Longrightarrow> plain_key k" using assms unfolding plain_keys_iff by (rule bspec)
  qed
  then show ?thesis unfolding plain_keys_iff by blast
qed

lemma in_update: "p \<in> set (AList.update k x v) \<Longrightarrow> p = (k, x) \<or> p \<in> set v"
  by (induction v) (auto split: if_splits)

lemma parse_query_nonempty: "(k, xs) \<in> set (parse_query q) \<Longrightarrow> xs \<noteq> []"
proof -
  have step: "(\<forall>p\<in>set v. snd p \<noteq> []) \<Longrightarrow> \<forall>p\<in>set (fold (\<lambda>p v. case read_pair p of None \<Rightarrow> v | Some (k, x) \<Rightarrow> values_add k x v) ps v). snd p \<noteq> []" for ps v
  proof (induction ps arbitrary: v)
    case (Cons a ps)
    have "\<forall>p\<in>set (values_add k x v). snd p \<noteq> []" for k x
      using Cons.prems by (force simp: values_add_def map_put_def dest: in_update)
    from Cons.IH[OF Cons.prems] Cons.IH[OF this] show ?case by (simp split: option.split)
  qed simp
  show "(k, xs) \<in> set (parse_query q) \<Longrightarrow> xs \<noteq> []"
    using step[of "[]" "str_split q ''&''"] by (auto simp: parse_query_def)
qed

lemma has_param_values: "has_param r k \<longleftrightarrow> values_all (query_values r) k \<noteq> []"
proof -
  have "map_of (query_values r) k = Some xs \<Longrightarrow> xs \<noteq> []" for xs
    unfolding query_values_def by (rule parse_query_nonempty) (rule map_of_SomeD)
  moreover have "k \<in> fst ` set (query_values r) \<longleftrightarrow> map_of (query_values r) k \<noteq> None"
    by (auto simp: map_of_eq_None_iff)
  ultimately show ?thesis by (auto simp: has_param_def values_all_def map_get_def split: option.splits)
qed

lemma page_has_param: "plain_keys r \<Longrightarrow> k \<noteq> ''$skiptoken'' \<Longrightarrow> has_param (page_request r e) k = has_param r k"
  by (simp add: has_param_values page_values)

lemma page_filter_items: "plain_keys r \<Longrightarrow> filter_items (page_request r e) ty xs = filter_items r ty xs"
  by (simp add: filter_items_def page_has_param page_param)

section \<open>Paging\<close>

lemma page_bounds_min: "page_bounds a b n = (min a n, min (wrap64 (min a n + b)) n)"
  by (auto simp: page_bounds_def min_def Let_def)

lemma page_size_bounds:
  assumes "\<And>g. c_graph c = Some g \<Longrightarrow> g_max_page_size g \<le> m" and "999 \<le> m"
  shows "1 \<le> page_size c n \<and> page_size c n \<le> m"
  using assms by (auto simp: page_size_def default_graph_page_size_def default_graph_max_page_size_def Let_def split: option.splits)

text \<open>The client that follows the next links: the items of each page until there is no link.\<close>

fun follow_pages :: "nat \<Rightarrow> request \<Rightarrow> config \<Rightarrow> 'a list \<Rightarrow> 'a list option" where
  "follow_pages 0 r c items = None"
| "follow_pages (Suc fuel) r c items =
     (case page_bounds (parse_skip (query_param r ''$skiptoken'')) (parse_top c (query_param r ''$top'')) (int (length items)) of
        (skip, e) \<Rightarrow>
          (case page_of skip e items of
             None \<Rightarrow> None
           | Some page \<Rightarrow>
               if e < int (length items) then map_option (\<lambda>rest. page @ rest) (follow_pages fuel (page_request r e) c items)
               else Some page))"

lemma follow_pages_from:
  assumes "plain_keys r" and "parse_skip (query_param r ''$skiptoken'') = int k" and "k \<le> length items"
    and "1 \<le> parse_top c (query_param r ''$top'')"
    and "parse_top c (query_param r ''$top'') + int (length items) < 2 ^ 63" and "length items - k < fuel"
  shows "follow_pages fuel r c items = Some (drop k items)"
  using assms
proof (induction fuel arbitrary: r k)
  case (Suc fuel)
  let ?lim = "parse_top c (query_param r ''$top'')" and ?n = "int (length items)"
  define l where "l = nat ?lim"
  then have l: "?lim = int l" "1 \<le> l" using Suc.prems(4) by auto
  let ?e = "min (k + l) (length items)"
  have w: "wrap64 (int k + int l) = int k + int l"
    using Suc.prems(3,5) l by (intro wrap64_id) simp_all
  have b: "page_bounds (int k) ?lim ?n = (int k, int ?e)"
    using Suc.prems(3) by (simp add: page_bounds_def Let_def l w)
  have p: "page_of (int k) (int ?e) items = Some (take (?e - k) (drop k items))"
    using Suc.prems(3) by (simp add: page_of_def nat_diff_distrib')
  show ?case
  proof (cases "?e < length items")
    case True
    let ?r = "page_request r (int ?e)"
    have ih: "follow_pages fuel ?r c items = Some (drop ?e items)"
    proof (rule Suc.IH)
      show "plain_keys ?r" by (rule page_plain_keys[OF Suc.prems(1)])
      show "parse_skip (query_param ?r ''$skiptoken'') = int ?e"
        using Suc.prems(5) l by (intro page_skip[OF Suc.prems(1)]) simp_all
      have t: "query_param ?r ''$top'' = query_param r ''$top''" by (rule page_param[OF Suc.prems(1)]) simp
      show "1 \<le> parse_top c (query_param ?r ''$top'')" "parse_top c (query_param ?r ''$top'') + ?n < 2 ^ 63"
        using Suc.prems(4,5) by (simp_all add: t)
      show "?e \<le> length items" by simp
      show "length items - ?e < fuel" using Suc.prems(6) True l(2) by linarith
    qed
    have "?e - k + k = ?e" using Suc.prems(3) by simp
    then have "drop ?e items = drop (?e - k) (drop k items)" by (simp only: drop_drop)
    then have "take (?e - k) (drop k items) @ drop ?e items = drop k items" by (simp only: append_take_drop_id)
    then show ?thesis using b p ih True by (simp add: Suc.prems(2) l(1))
  next
    case False
    then have e: "?e = length items" by simp
    show ?thesis using b p by (simp add: Suc.prems(2) l(1) e)
  qed
qed simp


text \<open>The same client on the answers of the server: the projected items of each page.\<close>

fun crawl :: "nat \<Rightarrow> request \<Rightarrow> config \<Rightarrow> entity list \<Rightarrow> string \<Rightarrow> bool \<Rightarrow> gval list option" where
  "crawl 0 r c items ty expandable = None"
| "crawl (Suc fuel) r c items ty expandable =
     (case collection_page r c items ty expandable of
        Inr (Inr (vs, None)) \<Rightarrow> Some vs
      | Inr (Inr (vs, Some e)) \<Rightarrow> map_option (\<lambda>rest. vs @ rest) (crawl fuel (page_request r e) c items ty expandable)
      | _ \<Rightarrow> None)"

lemma select_all_append:
  "select_all raw ty (xs @ ys) = ebind (select_all raw ty xs) (\<lambda>a. ebind (select_all raw ty ys) (\<lambda>b. Inr (a @ b)))"
  by (induction xs) (simp_all add: ebind_def split: sum.split)

lemma page_rejects:
  assumes "plain_keys r"
  shows "reject_unsupported_options (page_request r e) (refused_here True x) = reject_unsupported_options r (refused_here True x)"
proof -
  have "list_all (\<lambda>k. k \<noteq> ''$skiptoken'') (unsupported_options @ refused_here True x)"
    by (simp add: unsupported_options_def refused_here_def)
  then have "find (has_param (page_request r e)) xs = find (has_param r) xs" if "set xs \<subseteq> set (unsupported_options @ refused_here True x)" for xs
    using that by (induction xs) (simp_all add: page_has_param[OF assms] list_all_iff)
  then show ?thesis by (simp add: reject_unsupported_options_def)
qed

lemma crawl_follows:
  assumes "plain_keys r" and "reject_unsupported_options r (refused_here True x) = None"
    and "filter_items r ty items = Inr kept"
    and "follow_pages fuel r c kept = Some es" and "select_all (query_param r ''$select'') ty es = Inr vs"
  shows "crawl fuel r c items ty x = Some vs"
  using assms
proof (induction fuel arbitrary: r es vs)
  case (Suc fuel)
  obtain skip e where b: "page_bounds (parse_skip (query_param r ''$skiptoken'')) (parse_top c (query_param r ''$top'')) (int (length kept)) = (skip, e)"
    by (rule prod.exhaust)
  with Suc.prems(4) obtain page where p: "page_of skip e kept = Some page" by (auto split: option.splits)
  show ?case
  proof (cases "e < int (length kept)")
    case True
    with Suc.prems(4) b p obtain rest where rest: "follow_pages fuel (page_request r e) c kept = Some rest" "es = page @ rest" by auto
    with Suc.prems(5) obtain v w where v: "select_all (query_param r ''$select'') ty page = Inr v"
      "select_all (query_param r ''$select'') ty rest = Inr w" "vs = v @ w"
      by (auto simp: select_all_append ebind_def split: sum.splits)
    have "crawl fuel (page_request r e) c items ty x = Some w"
    proof (rule Suc.IH[OF _ _ _ rest(1)])
      show "plain_keys (page_request r e)" by (rule page_plain_keys[OF Suc.prems(1)])
      show "reject_unsupported_options (page_request r e) (refused_here True x) = None"
        using Suc.prems(1,2) by (simp add: page_rejects)
      show "filter_items (page_request r e) ty items = Inr kept" using Suc.prems(1,3) by (simp add: page_filter_items)
      have "query_param (page_request r e) ''$select'' = query_param r ''$select''" by (rule page_param[OF Suc.prems(1)]) simp
      then show "select_all (query_param (page_request r e) ''$select'') ty rest = Inr w" using v(2) by simp
    qed
    then show ?thesis using b p v True Suc.prems(2,3) by (simp add: collection_page_def)
  next
    case False
    then have "es = page" using Suc.prems(4) b p by simp
    then show ?thesis using b p False Suc.prems(2,3,5) by (simp add: collection_page_def)
  qed
qed simp

text \<open>C18: next_links_cover_collection. A client that starts without \<open>$skiptoken\<close> and follows every
  next link is given the whole filtered collection, each item projected once and in order; the link
  is the request's own address with the query that asks for the next page and keeps every other
  option. The names of the query parameters are plain text, and the page limit leaves room for the size of the
  collection in 64 bits.\<close>

theorem next_links_cover_collection:
  assumes "plain_keys r" and "reject_unsupported_options r (refused_here True x) = None"
    and "parse_skip (query_param r ''$skiptoken'') = 0" and "filter_items r ty items = Inr kept"
    and "select_all (query_param r ''$select'') ty kept = Inr vs"
    and "\<And>g. c_graph c = Some g \<Longrightarrow> g_max_page_size g \<le> m" and "999 \<le> m" and "m + int (length kept) < 2 ^ 63"
  shows "crawl (Suc (length kept)) r c items ty x = Some vs \<and>
    (\<forall>e\<ge>0. next_link r e = issuer_origin r @ rq_path r @ ''?'' @ rq_raw_query (page_request r e))"
proof -
  have t: "1 \<le> parse_top c (query_param r ''$top'')" "parse_top c (query_param r ''$top'') \<le> m"
    using page_size_bounds[OF assms(6,7)] by (simp_all add: parse_top_def)
  have "follow_pages (Suc (length kept)) r c kept = Some (drop 0 kept)"
    using t assms(3,8) by (intro follow_pages_from[OF assms(1)]) simp_all
  then have "crawl (Suc (length kept)) r c items ty x = Some vs"
    by (intro crawl_follows[OF assms(1,2,4) _ assms(5)]) (simp only: drop_0)
  moreover have "next_link r e = issuer_origin r @ rq_path r @ ''?'' @ rq_raw_query (page_request r e)" if "0 \<le> e" for e
    by (simp add: next_link_query[OF that] page_request_def)
  ultimately show ?thesis by blast
qed

lemma wrap64_over:
  assumes "2 ^ 63 \<le> x" and "x < 2 ^ 64 + 2 ^ 63"
  shows "wrap64 x = x - 2 ^ 64"
proof -
  have "x + 2 ^ 63 = (x - 2 ^ 63) + 2 ^ 64" by simp
  then have "(x + 2 ^ 63) mod 2 ^ 64 = (x - 2 ^ 63) mod 2 ^ 64" by (metis mod_add_self2)
  also have "\<dots> = x - 2 ^ 63" using assms by (intro mod_pos_pos_trivial) simp_all
  finally show ?thesis by (simp add: wrap64_def)
qed

text \<open>Where the configured page limit lets \<open>$top\<close> reach the end of the
  64-bit range, \<open>skip + top\<close> wraps and the request for a later page is not answered: the
  slice is made with a capacity out of range and the handler panics.\<close>

lemma page_overflow_panics:
  assumes "reject_unsupported_options r (refused_here True x) = None" and "filter_items r ty items = Inr kept"
    and "0 < parse_skip (query_param r ''$skiptoken'')" and "kept \<noteq> []" and "int (length kept) < 2 ^ 63"
    and "min (parse_skip (query_param r ''$skiptoken'')) (int (length kept)) + parse_top c (query_param r ''$top'') \<ge> 2 ^ 63"
    and "parse_top c (query_param r ''$top'') < 2 ^ 63"
  shows "render_collection ids r c ctx items ty x = Inl makeslice_panic"
proof -
  let ?n = "int (length kept)" and ?top = "parse_top c (query_param r ''$top'')"
  define skip where "skip = min (parse_skip (query_param r ''$skiptoken'')) ?n"
  have s: "0 < skip" "skip \<le> ?n" using assms(3,4) by (auto simp: skip_def)
  have w: "wrap64 (skip + ?top) = skip + ?top - 2 ^ 64"
    using assms(5-7) s unfolding skip_def[symmetric] by (intro wrap64_over) simp_all
  have "page_bounds (parse_skip (query_param r ''$skiptoken'')) ?top ?n = (skip, min (skip + ?top - 2 ^ 64) ?n)"
    unfolding page_bounds_min skip_def[symmetric] w ..
  then have "page_bounds (parse_skip (query_param r ''$skiptoken'')) ?top ?n = (skip, skip + ?top - 2 ^ 64)"
    using s assms(5,7) by (simp add: min_def)
  moreover have "page_of skip (skip + ?top - 2 ^ 64) kept = None"
    using assms(7) s by (simp add: page_of_def)
  ultimately show ?thesis by (simp add: render_collection_def collection_page_def assms(1,2))
qed

section \<open>Tenant isolation\<close>

text \<open>
  Two configurations that agree on what tenant \<open>tid\<close> may see: the server-wide settings, the
  tenant itself and its own users; other tenants, users, applications and consents may differ.
\<close>

definition same_view :: "string \<Rightarrow> config \<Rightarrow> config \<Rightarrow> bool" where
  "same_view tid c c' \<longleftrightarrow> to_lower tid = tid \<and> tid \<noteq> [] \<and> c_base_path c = c_base_path c' \<and> c_graph c = c_graph c' \<and>
     tenant_by_id c tid = tenant_by_id c' tid \<and>
     filter (\<lambda>u. u_tid u = tid) (c_users c) = filter (\<lambda>u. u_tid u = tid) (c_users c')"

lemma find_filter_and: "find (\<lambda>x. P x \<and> Q x) xs = find Q (filter P xs)"
  by (induction xs) simp_all

text \<open>Each lookup gives the same result in both configurations, and stays in the tenant.\<close>

lemma view_users:
  assumes "same_view tid c c'"
  shows "users_in c tid = users_in c' tid" "u \<in> set (users_in c tid) \<Longrightarrow> u_tid u = tid"
  using assms by (auto simp: users_in_def same_view_def)

lemma view_tenant:
  assumes "same_view tid c c'"
  shows "tenant_by_id c tid = tenant_by_id c' tid" "tenant_by_id c tid = Some t \<Longrightarrow> t_tid t = tid"
  using assms tenant_by_idD[of c tid t] by (auto simp: same_view_def)

lemma view_user_by_name:
  assumes "same_view tid c c'"
  shows "user_by_name c tid n = user_by_name c' tid n" "user_by_name c tid n = Some u \<Longrightarrow> u_tid u = tid"
  using assms by (auto simp: user_by_name_def same_view_def find_filter_and dest: find_SomeD)

lemma view_user_by_oid:
  assumes "same_view tid c c'"
  shows "user_by_oid c tid i = user_by_oid c' tid i" "user_by_oid c tid i = Some u \<Longrightarrow> u_tid u = tid"
  using view_users[OF assms] assms
  by (auto simp: user_by_oid_def Let_def same_view_def dest!: find_SomeD split: if_splits)

lemma view_upn:
  assumes "same_view tid c c'"
  shows "user_by_upn_or_oid c tid key = user_by_upn_or_oid c' tid key"
    "user_by_upn_or_oid c tid key = Some u \<Longrightarrow> u_tid u = tid"
proof -
  show "user_by_upn_or_oid c tid key = user_by_upn_or_oid c' tid key"
    using view_tenant[OF assms] view_users(1)[OF assms]
    by (auto simp: user_by_upn_or_oid_def view_user_by_oid(1)[OF assms] Let_def split: option.splits)
  show "user_by_upn_or_oid c tid key = Some u \<Longrightarrow> u_tid u = tid"
    using view_tenant[OF assms] view_users(2)[OF assms] view_user_by_oid(2)[OF assms]
    by (auto simp: user_by_upn_or_oid_def Let_def dest!: find_SomeD split: option.splits if_splits)
qed

lemma view_manager:
  assumes "same_view tid c c'" and "u_tid u = tid"
  shows "manager_of c u = manager_of c' u" "manager_of c u = Some m \<Longrightarrow> u_tid m = tid"
  using assms(2) view_user_by_name[OF assms(1)] by (auto simp: manager_of_def split: if_splits)

lemma view_graph_user: "same_view tid c c' \<Longrightarrow> u_tid u = tid \<Longrightarrow> graph_user c u = graph_user c' u"
  by (simp add: graph_user_def user_tenant_def view_tenant(1))

lemma view_graph_users:
  "same_view tid c c' \<Longrightarrow> (\<And>u. u \<in> set us \<Longrightarrow> u_tid u = tid) \<Longrightarrow> graph_users c us = graph_users c' us"
  by (simp add: graph_users_def view_graph_user)

lemma view_expand_items:
  assumes "same_view tid c c'"
  shows "(\<And>u. u \<in> set us \<Longrightarrow> u_tid u = tid) \<Longrightarrow> expand_items c sel us = expand_items c' sel us"
proof (induction us)
  case (Cons u us)
  have u: "u_tid u = tid" using Cons.prems by simp
  have ih: "expand_items c sel us = expand_items c' sel us" using Cons by simp
  note m = view_manager[OF assms u]
  show ?case
    by (cases "manager_of c' u") (simp_all add: ih m(1)[symmetric] view_graph_user[OF assms] u m(2))
qed simp

lemma view_expand:
  assumes "same_view tid c c'" and "\<And>u. u \<in> set us \<Longrightarrow> u_tid u = tid"
  shows "expand_manager r c us = expand_manager r c' us"
proof -
  have e: "expand_items c sel us = expand_items c' sel us" for sel
    using assms by (intro view_expand_items) simp_all
  have g: "graph_users c us = graph_users c' us"
    using assms by (intro view_graph_users) simp_all
  show ?thesis unfolding expand_manager_def e g ..
qed

lemma view_context:
  assumes "same_view tid c c'"
  shows "graph_context c = graph_context c'" "parse_top c = parse_top c'" "user_info_on c = user_info_on c'"
    "clock_skew c = clock_skew c'"
  using assms
  by (simp_all add: same_view_def graph_context_def graph_base_url_def graph_base_def parse_top_def page_size_def
      user_info_on_def graph_on_def clock_skew_def fun_eq_iff)

lemma view_render:
  assumes "same_view tid c c'"
  shows "render_entity env r c = render_entity env r c'" "render_collection env r c = render_collection env r c'"
  by (intro ext, simp only: render_entity_def render_collection_def collection_page_def view_context[OF assms])+

lemma view_groups:
  assumes "same_view tid c c'" and "u_tid u = tid"
  shows "groups_of sha1 c u = groups_of sha1 c' u" "group_ids_of sha1 c u = group_ids_of sha1 c' u"
    "direct_reports c u = direct_reports c' u" "v \<in> set (direct_reports c u) \<Longrightarrow> u_tid v = tid"
  using assms(2) view_tenant(1)[OF assms(1)] view_users[OF assms(1)]
  by (auto simp: groups_of_def group_ids_of_def direct_reports_def)

lemma view_tenant_groups:
  assumes "same_view tid c c'"
  shows "groups_in sha1 c tid = groups_in sha1 c' tid" "group_by_id sha1 c tid g = group_by_id sha1 c' tid g"
    "members_of sha1 c tid g = members_of sha1 c' tid g" "v \<in> set (members_of sha1 c tid g) \<Longrightarrow> u_tid v = tid"
proof -
  show g: "groups_in sha1 c tid = groups_in sha1 c' tid"
    using view_tenant[OF assms] view_users(1)[OF assms] by (auto simp: groups_in_def split: option.split)
  show i: "group_by_id sha1 c tid g = group_by_id sha1 c' tid g" unfolding group_by_id_def g ..
  show "members_of sha1 c tid g = members_of sha1 c' tid g" unfolding members_of_def i view_users(1)[OF assms] ..
  show "v \<in> set (members_of sha1 c tid g) \<Longrightarrow> u_tid v = tid"
    using view_users(2)[OF assms] by (auto simp: members_of_def split: option.splits)
qed

lemma view_user_route:
  assumes "same_view tid c c'" and "u_tid u = tid"
  shows "graph_user_route env r c u path = graph_user_route env r c' u path"
proof -
  note m = view_manager[OF assms]
  have e: "expand_manager r c [u] = expand_manager r c' [u]"
    using assms by (intro view_expand) simp_all
  have d: "graph_users c (direct_reports c' u) = graph_users c' (direct_reports c' u)"
    using view_groups(3,4)[OF assms] by (intro view_graph_users[OF assms(1)]) simp
  show ?thesis
  proof (cases "manager_of c' u")
    case None
    show ?thesis
      unfolding graph_user_route_def graph_collection_def graph_entity_def get_member_objects_def
        view_render[OF assms(1)] view_context[OF assms(1)] view_groups(1-3)[OF assms] e d m(1) None option.case ..
  next
    case (Some v)
    have g: "graph_user c v = graph_user c' v"
      using m Some by (intro view_graph_user[OF assms(1)]) simp
    show ?thesis
      unfolding graph_user_route_def graph_collection_def graph_entity_def get_member_objects_def
        view_render[OF assms(1)] view_context[OF assms(1)] view_groups(1-3)[OF assms] e d m(1) Some option.case g ..
  qed
qed

lemma view_users_route:
  assumes "same_view tid c c'" and "ca_tid ca = tid"
  shows "graph_users_route env r c ca path = graph_users_route env r c' ca path"
proof -
  have o: "users_ordered_in c tid = users_ordered_in c' tid"
    using view_users(1)[OF assms(1)] by (simp add: users_ordered_in_def)
  have e: "expand_manager r c (users_ordered_in c' tid) = expand_manager r c' (users_ordered_in c' tid)"
    using view_users[OF assms(1)] by (intro view_expand[OF assms(1)]) (simp add: users_ordered_in_def)
  show ?thesis
    using view_upn(2)[OF assms(1)]
    by (auto simp: graph_users_route_def assms(2) o e view_render[OF assms(1)] view_upn(1)[OF assms(1)]
        view_user_route[OF assms(1)] split: list.split option.split sum.split)
qed

lemma view_groups_route:
  assumes "same_view tid c c'" and "ca_tid ca = tid"
  shows "graph_groups_route env r c ca path = graph_groups_route env r c' ca path"
proof -
  note g = view_tenant_groups[OF assms(1)]
  have m: "graph_users c (members_of sha1 c' tid i) = graph_users c' (members_of sha1 c' tid i)" for sha1 i
    using g(3,4) by (intro view_graph_users[OF assms(1)]) metis
  show ?thesis
    unfolding graph_groups_route_def graph_collection_def graph_entity_def view_render[OF assms(1)] assms(2)
      g(1-3) m ..
qed

text \<open>Every token of the request that verifies under a published key names the tenant.\<close>

definition token_of_tenant :: "crypto \<Rightarrow> key_set \<Rightarrow> request \<Rightarrow> string \<Rightarrow> bool" where
  "token_of_tenant k ks r tid \<longleftrightarrow>
     (case ks_verify k ks (bearer_token r) of None \<Rightarrow> True | Some (_, cl) \<Rightarrow> to_lower (claim_string cl ''tid'') = tid)"

lemma view_token:
  assumes "same_view tid c c'" and "token_of_tenant k ks r tid"
  shows "validate_access_token k ks now r c (bearer_token r) = validate_access_token k ks now r c' (bearer_token r)"
proof (cases "ks_verify k ks (bearer_token r)")
  case None
  then show ?thesis by (simp add: validate_access_token_def)
next
  case (Some x)
  obtain h cl where x: "x = (h, cl)" by (cases x)
  with assms(2) Some have t: "to_lower (claim_string cl ''tid'') = tid" by (simp add: token_of_tenant_def)
  have b: "c_base_path c = c_base_path c'" using assms(1) by (simp add: same_view_def)
  show ?thesis
    unfolding validate_access_token_def Some x option.case prod.case Let_def t b view_context(4)[OF assms(1)]
      view_tenant(1)[OF assms(1)] view_user_by_oid(1)[OF assms(1)] ..
qed

lemma caller_of_tenant:
  assumes "token_of_tenant k ks r tid" and "validate_access_token k ks now r c (bearer_token r) = Inr ca"
  shows "ca_tid ca = tid" "ca_user ca = Some u \<Longrightarrow> u_tid u = tid"
  using assms
  by (auto simp: validate_access_token_def token_of_tenant_def Let_def users_in_def
      dest!: tenant_by_idD user_by_oidD split: if_splits option.splits)

lemma view_user_info:
  assumes "same_view tid c c'" and "token_of_tenant k ks r tid"
  shows "user_info k ks now r c = user_info k ks now r c'"
  unfolding user_info_def view_token[OF assms] ..

lemma view_graph:
  assumes "same_view tid c c'" and "token_of_tenant (ee_crypto env) ks r tid"
  shows "graph env ks r c segs = graph env ks r c' segs"
proof (cases "validate_access_token (ee_crypto env) ks (ee_now env) r c (bearer_token r)")
  case (Inl e)
  then have "validate_access_token (ee_crypto env) ks (ee_now env) r c' (bearer_token r) = Inl e"
    using view_token[OF assms] by metis
  with Inl show ?thesis
    by (simp add: graph_def view_user_info[OF assms] view_context(3)[OF assms(1)] Let_def)
next
  case (Inr ca)
  then have v: "validate_access_token (ee_crypto env) ks (ee_now env) r c' (bearer_token r) = Inr ca"
    using view_token[OF assms] by metis
  note ca = caller_of_tenant[OF assms(2) Inr]
  have u: "ca_user ca = Some u \<Longrightarrow> graph_user_route env r c u p = graph_user_route env r c' u p" for u p
    using ca(2) by (intro view_user_route[OF assms(1)]) simp
  show ?thesis
    using u by (auto simp: graph_def Inr v view_user_info[OF assms] view_context(3)[OF assms(1)]
        view_users_route[OF assms(1) ca(1)] view_groups_route[OF assms(1) ca(1)] Let_def split: option.split)
qed

text \<open>C7: graph_tenant_isolation. What the Graph surface answers to a caller depends on the caller's own
  tenant alone: two configurations that agree on that tenant and its users, whatever the other
  tenants, users, applications and consents are, give the same answer to every request below
  every path.\<close>

theorem graph_tenant_isolation:
  assumes "same_view tid c c'" and "token_of_tenant (ee_crypto env) ks r tid"
  shows "graph env ks r c segs = graph env ks r c' segs"
  by (rule view_graph[OF assms])

lemma error_status:
  "rs_status (graph_error_response ids r e) = ge_status e"
  "rs_status (set_header h v resp) = rs_status resp" "rs_status (graph_json st v') = st"
  by (simp_all add: graph_error_response_def graph_json_def set_header_def Let_def)

text \<open>C17: graph_needs_valid_token. A directory route answers with success only to a bearer token that the
  check accepts; \<open>/me\<close> answers only to one that names a user; every other request is
  answered with the Graph's error document.\<close>

theorem graph_needs_valid_token:
  assumes "graph env ks r c segs = Inr resp" and "rs_status resp = 200"
  shows "\<exists>ca. validate_access_token (ee_crypto env) ks (ee_now env) r c (bearer_token r) = Inr ca \<and>
    (ca_user ca = None \<longrightarrow> segs ! 1 \<noteq> ''me'' \<and> str_join segs ''/'' \<noteq> user_info_path)"
proof (cases "str_join segs ''/'' = user_info_path")
  case True
  with assms have "user_info (ee_crypto env) ks (ee_now env) r c = Inr resp" "rs_status resp = 200"
    by (auto simp: graph_def error_status no_resource_def graph_not_found_def Let_def split: if_splits)
  then show ?thesis
    by (auto simp: user_info_def error_status method_not_allowed_def bearer_error_def no_store_def
        new_response_def split: if_splits sum.splits option.splits)
next
  case False
  note d = graph_def error_status no_resource_def graph_not_found_def graph_forbidden_def Let_def
  show ?thesis
  proof (cases "validate_access_token (ee_crypto env) ks (ee_now env) r c (bearer_token r)")
    case (Inl e)
    then have "ge_status e = 401"
      by (auto simp: validate_access_token_def invalid_token_def Let_def split: if_splits option.splits)
    then show ?thesis using assms False by (auto simp: d Inl split: if_splits)
  next
    case (Inr ca)
    have "segs ! 1 \<noteq> ''me''" if "ca_user ca = None"
    proof
      assume me: "segs ! 1 = ''me''"
      have "graph env ks r c segs \<in> {Inr (graph_error_response (ee_ids env) r no_resource), Inl nil_deref,
          Inr (graph_error_response (ee_ids env) r (graph_forbidden ''/me requires a delegated user token.''))}"
        using False me by (simp add: graph_def Inr that Let_def)
      with assms show False by (auto simp: error_status no_resource_def graph_not_found_def graph_forbidden_def)
    qed
    with False Inr show ?thesis by simp
  qed
qed


section \<open>Instances\<close>

text \<open>A user token of the second tenant, and a cryptographic service that reads it.\<close>

definition view_claims :: claims where
  "view_claims = [(''alg'', VStr ''RS256''), (''kid'', VStr ''entra-1''), (''aud'', VStr graph_app_id), (''ver'', VStr ''2.0''),
     (''tid'', VStr tid_b), (''iss'', VStr (issuer (issuer_origin sample_request) ''entra'' tid_b)), (''exp'', VInt 3600),
     (''nbf'', VInt 0), (''oid'', VStr oid_carol), (''appid'', VStr ''app-1''), (''sub'', VStr ''s'')]"

definition view_env :: entra_env where
  "view_env = sample_env\<lparr>ee_crypto := (ee_crypto sample_env)\<lparr>cr_verify := \<lambda>_ _ _. True, cr_unmarshal := \<lambda>_. Some view_claims\<rparr>\<rparr>"

definition view_request :: request where
  "view_request = sample_request\<lparr>rq_header := rq_header sample_request @ [(''Authorization'', ''Bearer ..'')],
     rq_raw_query := ''$top=1''\<rparr>"

definition without_tenant_a :: config where
  "without_tenant_a = sample_seed\<lparr>c_tenants := filter (\<lambda>t. t_tid t = tid_b) (c_tenants sample_seed),
     c_users := filter (\<lambda>u. u_tid u = tid_b) (c_users sample_seed)\<rparr>"

definition many_config :: config where
  "many_config = sample_seed\<lparr>c_graph := map_option (\<lambda>g. g\<lparr>g_max_page_size := 2 ^ 63 - 1\<rparr>) (c_graph sample_seed)\<rparr>"

definition many_items :: "entity list" where
  "many_items = map (graph_user sample_seed) (c_users sample_seed)"

definition late_request :: request where
  "late_request = sample_request\<lparr>rq_raw_query := ''$top=9223372036854775807&$skiptoken=1''\<rparr>"

lemma view_verifies:
  "ks_verify (ee_crypto view_env) (new_key_set 7) (bearer_token view_request) = Some (view_claims, view_claims)"
proof -
  have a: "bearer_token view_request = ''..''" "str_split ''..'' ''.'' = [[], [], []]" "b64_decode [] = Some []"
    "map_option sk_alg (ks_by_kid (new_key_set 7) ''entra-1'') = Some ''RS256''" by code_simp+
  have "string_claim (claim_get view_claims ''alg'') = ''RS256''" "string_claim (claim_get view_claims ''kid'') = ''entra-1''"
    by (simp_all add: view_claims_def claim_get_def map_get_def string_claim_def)
  with a show ?thesis by (auto simp: ks_verify_def view_env_def)
qed

lemma view_claim_facts:
  "claim_string view_claims ''aud'' = graph_app_id" "claim_string view_claims ''ver'' = ''2.0''"
  "claim_string view_claims ''tid'' = tid_b" "claim_string view_claims ''iss'' = issuer (issuer_origin sample_request) ''entra'' tid_b"
  "claim_string view_claims ''oid'' = oid_carol" "claim_string view_claims ''appid'' = ''app-1''"
  "claim_time view_claims ''exp'' = Some 3600" "claim_time view_claims ''nbf'' = Some 0"
  by (simp_all add: view_claims_def claim_string_def claim_time_def claim_get_def map_get_def string_claim_def)

lemma view_tids:
  "to_lower tid_b = tid_b" "to_lower oid_carol = oid_carol" "tid_b \<noteq> []" "oid_carol \<noteq> []" "c_base_path sample_seed = ''entra''"
  "u_tid sample_user = tid_b" "u_oid sample_user = oid_carol"
  by code_simp+

lemma view_origin: "issuer_origin view_request = issuer_origin sample_request"
proof -
  have h: "header_get view_request ''x-forwarded-proto'' = header_get sample_request ''x-forwarded-proto''"
    "header_get view_request ''Host'' = header_get sample_request ''Host''"
    "header_get view_request ''x-forwarded-port'' = header_get sample_request ''x-forwarded-port''"
    "rq_scheme view_request = rq_scheme sample_request" by code_simp+
  show ?thesis unfolding issuer_origin_def proxy_aware_url_def h ..
qed

theorem graph_tenant_isolation_witness:
  "graph view_env (new_key_set 7) view_request sample_seed [''v1.0'', ''users''] =
   graph view_env (new_key_set 7) view_request without_tenant_a [''v1.0'', ''users'']"
proof -
  have "same_view tid_b sample_seed without_tenant_a" by code_simp
  moreover have "token_of_tenant (ee_crypto view_env) (new_key_set 7) view_request tid_b"
    by (simp add: token_of_tenant_def view_verifies view_claim_facts view_tids)
  ultimately show ?thesis by (rule graph_tenant_isolation)
qed

lemma view_caller:
  "\<exists>ca. validate_access_token (ee_crypto view_env) (new_key_set 7) (ee_now view_env) view_request sample_seed (bearer_token view_request) = Inr ca \<and>
     ca_user ca = Some sample_user \<and> ca_kind ca = TokenDelegated"
proof -
  have now: "ee_now view_env = 0" "unix_of 0 = 0" by (simp_all add: view_env_def sample_env_def unix_of_def)
  have b: "bearer_token view_request \<noteq> []" by code_simp
  note f = sample_user_facts[unfolded view_tids(6,7)]
  show ?thesis unfolding now(1)
    by (subst validate_accepts[OF view_verifies b view_claim_facts(1-3) view_tids(1,3) f(1) _ view_claim_facts(7,8)])
      (simp_all add: view_claim_facts view_tids view_origin now f Let_def)
qed

theorem graph_needs_valid_token_witness:
  "\<exists>ca. validate_access_token (ee_crypto view_env) (new_key_set 7) (ee_now view_env) view_request sample_seed
      (bearer_token view_request) = Inr ca"
proof -
  have p: "str_join [''oidc'', ''userinfo''] ''/'' = user_info_path" "user_info_on sample_seed" "rq_method view_request = ''GET''"
    by code_simp+
  obtain resp where "graph view_env (new_key_set 7) view_request sample_seed [''oidc'', ''userinfo''] = Inr resp" "rs_status resp = 200"
    using view_caller p by (auto simp: graph_def user_info_def caller_delegated_def no_store_def error_status)
  from graph_needs_valid_token[OF this] show ?thesis by blast
qed

theorem next_links_cover_collection_witness:
  "\<exists>vs. crawl 4 view_request sample_seed many_items type_user True = Some vs \<and> length vs = 3"
proof -
  let ?vs = "case select_all (query_param view_request ''$select'') type_user many_items of Inr v \<Rightarrow> v | Inl _ \<Rightarrow> []"
  have "is_ok (select_all (query_param view_request ''$select'') type_user many_items)" "length ?vs = 3" by code_simp+
  then have v: "select_all (query_param view_request ''$select'') type_user many_items = Inr ?vs"
    by (auto simp: is_ok_def split: sum.splits)
  have p: "plain_keys view_request" "reject_unsupported_options view_request (refused_here True True) = None"
    "parse_skip (query_param view_request ''$skiptoken'') = 0" "length many_items = 3"
    by code_simp+
  have f: "filter_items view_request type_user many_items = Inr many_items"
  proof -
    have "\<not> has_param view_request ''$filter''" by code_simp
    then show ?thesis by (simp add: filter_items_def)
  qed
  have g: "g_max_page_size g \<le> 999" if "c_graph sample_seed = Some g" for g
  proof -
    have "case c_graph sample_seed of None \<Rightarrow> True | Some g \<Rightarrow> g_max_page_size g \<le> 999" by code_simp
    with that show ?thesis by simp
  qed
  from next_links_cover_collection[OF p(1-3) f v g] show ?thesis
    using p(4) \<open>length ?vs = 3\<close> by auto
qed

end
