(* ===== verification/Entra_Handler_Laws.thy ===== *)
theory Entra_Handler_Laws
  imports Entra_Admin Entra_Graph_Laws
begin

text \<open>
  What holds of a running Entra handler, whatever requests and administrative operations came
  before: the invariant of its state, the few requests that can panic, discovery, minted
  tokens and the deletion of a tenant.
\<close>

section \<open>The invariant\<close>

definition codes_ok :: "code_store \<Rightarrow> bool" where
  "codes_ok codes \<longleftrightarrow> distinct (map fst codes) \<and>
     (\<forall>(_, a)\<in>set codes. guid_re (ac_tid a) \<and> implies_code_flow (ac_req a))"

definition entra_inv :: "(string \<Rightarrow> string) \<Rightarrow> config \<Rightarrow> entra_state \<Rightarrow> bool" where
  "entra_inv sha1 seed s \<longleftrightarrow>
     store_reach sha1 seed (es_store s) \<and> config_wf (conf s) \<and> key_set_wf (es_keys s) \<and>
     consent_store_wf (es_consents s) \<and> co_seed (es_consents s) = c_consents seed \<and> codes_ok (es_codes s)"

lemma tenant_guid: "config_wf c \<Longrightarrow> tenant_by_id c tid = Some t \<Longrightarrow> guid_re (t_tid t)"
  by (auto simp: config_wf_def list_all_iff tenant_wf_def dest!: tenant_by_idD)

lemma codes_put_ok:
  assumes "codes_ok codes" and "guid_re (ac_tid a)" and "implies_code_flow (ac_req a)"
  shows "codes_ok (codes_put code a now codes)"
proof -
  have d: "distinct (map fst (filter (\<lambda>(_, v). \<not> ac_expires v < now) codes))"
    using assms(1) by (intro Go_Prelude.distinct_map_filter) (simp add: codes_ok_def)
  show ?thesis using assms distinct_map_put[OF d] map_put_set[OF d, of code a]
    by (auto simp: codes_ok_def codes_put_def)
qed

lemma codes_del_ok: "codes_ok codes \<Longrightarrow> codes_ok (map_del k codes)"
  by (auto simp: codes_ok_def map_del_def intro: Go_Prelude.distinct_map_filter)

text \<open>What a request may do to the state.\<close>

lemma issue_code_inv:
  assumes "entra_inv sha1 seed s" and "implies_code_flow ar" and "c = conf s"
  shows "entra_inv sha1 seed (snd (issue_code env ar sc c u s))"
proof -
  have "codes_ok (codes_put (ee_code env) \<lparr>ac_req = ar, ac_tid = t_tid t, ac_username = u_username u,
      ac_segment = sc_segment sc, ac_expires = ee_now env + code_ttl\<rparr> (ee_now env) (es_codes s))"
    if "tenant_by_id c (u_tid u) = Some t" for t
    using assms tenant_guid[of c "u_tid u" t] that by (intro codes_put_ok) (simp_all add: entra_inv_def)
  then show ?thesis using assms(1)
    by (auto simp: issue_code_def entra_inv_def conf_def ok_def Let_def split: option.split sum.split)
qed

lemma authorize_inv:
  assumes "entra_inv sha1 seed s"
  shows "entra_inv sha1 seed (snd (authorize_get env r sc s))" "entra_inv sha1 seed (snd (authorize_post env r sc s))"
  using assms
  by (auto simp: authorize_get_def authorize_post_def ok_def Let_def issue_code_inv split: sum.split)

lemma entra_token_inv:
  assumes "entra_inv sha1 seed s"
  shows "entra_inv sha1 seed (snd (entra_token env r sc s))"
  using assms codes_del_ok
  by (auto simp: entra_token_def client_credentials_def codes_take_def ok_def entra_inv_def conf_def Let_def
      split: sum.split option.split)

lemma admin_consent_inv:
  assumes "entra_inv sha1 seed s"
  shows "entra_inv sha1 seed (snd (admin_consent_get env r sc s))" "entra_inv sha1 seed (snd (admin_consent_post env r sc s))"
proof -
  show "entra_inv sha1 seed (snd (admin_consent_get env r sc s))"
    using assms by (auto simp: admin_consent_get_def ok_def Let_def split: option.split)
  have g: "guid_re (t_tid t)" if "posted_user (conf s) r sc = Inr (Some t, u)" for t u
    using that assms tenant_guid by (fastforce simp: posted_user_def entra_inv_def split: option.splits if_splits)
  have c: "consent_store_wf (consent_grant cl (t_tid t) (es_consents s))"
    if "posted_user (conf s) r sc = Inr (Some t, u)" for t u cl
    using consent_grant_pairs[OF _ g[OF that]] assms by (simp add: entra_inv_def)
  show "entra_inv sha1 seed (snd (admin_consent_post env r sc s))"
    using assms c
    by (auto simp: admin_consent_post_def ok_def Let_def entra_inv_def conf_def consent_grant_def split: option.split sum.split)
qed

lemma consents_inv:
  assumes "entra_inv sha1 seed s" and "config_wf seed"
  shows "consent_store_wf (consent_reset (es_consents s))" "consent_store_wf (consent_remove c t (es_consents s))"
    "consent_store_wf (consent_remove_tenant t (es_consents s))"
proof -
  have w: "consent_store_wf (es_consents s)" and e: "co_seed (es_consents s) = c_consents seed"
    using assms(1) by (simp_all add: entra_inv_def)
  have "\<forall>c\<in>set (co_seed (es_consents s)). guid_re (cs_tid c)"
    using assms(2) unfolding e by (fastforce simp: config_wf_def list_all_iff consent_wf_def tenant_wf_def)
  then show "consent_store_wf (consent_reset (es_consents s))" by (rule consent_reset_pairs)
  show "consent_store_wf (consent_remove c t (es_consents s))" "consent_store_wf (consent_remove_tenant t (es_consents s))"
    unfolding consent_remove_def consent_remove_tenant_def map_del_def by (rule consent_filter_wf[OF w])+
qed

lemma snd_ok: "snd (ok r s) = s"
  by (simp add: ok_def)

lemma test_api_inv:
  assumes "entra_inv sha1 seed s" and "config_wf seed"
  shows "entra_inv sha1 seed (snd (test_api env r action s))"
proof -
  have c: "entra_inv sha1 seed (s\<lparr>es_consents := consent_reset (es_consents s)\<rparr>)"
    using assms(1) consents_inv(1)[OF assms] by (simp add: entra_inv_def conf_def consent_reset_def)
  have k: "entra_inv sha1 seed (snd (case ks_rotate (ee_rsa env) (es_keys s) of
      (kid, ks) \<Rightarrow> ok (json_response (VObj [(''kid'', VStr kid)])) (s\<lparr>es_keys := ks\<rparr>)))"
    using assms(1) key_set_wf_rotate[of "es_keys s" "ee_rsa env"]
    by (cases "ks_rotate (ee_rsa env) (es_keys s)") (simp add: entra_inv_def conf_def ok_def)
  show ?thesis
    unfolding test_api_def Let_def
    by (simp only: snd_ok snd_conv assms(1) c k simp_thms split: if_split)
qed

lemma entra_handle_inv:
  assumes "entra_inv sha1 seed s" and "config_wf seed"
  shows "entra_inv sha1 seed (snd (entra_handle env r s))"
proof -
  have "entra_inv sha1 seed (snd (entra_route env r sc rest s))" for sc rest
    unfolding entra_route_def Let_def
    by (simp only: snd_ok snd_conv assms(1) authorize_inv[OF assms(1)] entra_token_inv[OF assms(1)]
        admin_consent_inv[OF assms(1)] simp_thms split: if_split)
  then show ?thesis
    unfolding entra_handle_def Let_def
    by (simp only: snd_ok snd_conv assms(1) test_api_inv[OF assms] simp_thms split: if_split sum.split)
qed

section \<open>Every reachable state\<close>

lemma on_store_inv:
  assumes "entra_inv sha1 seed s" and "config_wf seed" and "on_store (store_apply sha1 op) s = (e, s')"
  shows "entra_inv sha1 seed s'"
proof -
  obtain st where st: "store_apply sha1 op (es_store s) = (e, st)" "s' = s\<lparr>es_store := st\<rparr>"
    using assms(3) by (auto simp: on_store_def split: prod.splits)
  have r: "store_reach sha1 seed st"
    using assms(1) st(1) by (auto simp: entra_inv_def intro: store_reach.reach_op)
  then show ?thesis
    using assms(1) store_reach_wf[OF assms(2) r] st(2) by (simp add: entra_inv_def conf_def snapshot_def)
qed

lemma entra_step_inv:
  assumes "entra_step sha1 s s'" and "entra_inv sha1 seed s" and "config_wf seed"
  shows "entra_inv sha1 seed s'"
  using assms(1)
proof cases
  case (step_request env r res)
  then show ?thesis using entra_handle_inv[OF assms(2,3), of env r] by simp
next
  case (step_delete_tenant tid e)
  obtain e1 s1 where d: "on_store (store_apply sha1 (OpDeleteTenant tid)) s = (e1, s1)" by (rule prod.exhaust)
  have i: "entra_inv sha1 seed s1" by (rule on_store_inv[OF assms(2,3) d])
  then show ?thesis
    using step_delete_tenant d consents_inv(3)[OF i assms(3)]
    by (auto simp: admin_delete_tenant_def on_store_def entra_inv_def conf_def consent_remove_tenant_def
        split: prod.splits option.splits)
next
  case (step_graph v e)
  then show ?thesis using on_store_inv[OF assms(2,3), of "OpGraph v"] by (simp add: admin_set_graph_enabled_def on_store_def)
next
  case (step_create_tenant t e)
  then show ?thesis using on_store_inv[OF assms(2,3), of "OpCreateTenant t"] by (simp add: admin_create_tenant_def on_store_def)
next
  case (step_update_tenant tid t e)
  then show ?thesis using on_store_inv[OF assms(2,3), of "OpUpdateTenant tid t"] by (simp add: admin_update_tenant_def on_store_def)
next
  case (step_create_user u e)
  then show ?thesis using on_store_inv[OF assms(2,3), of "OpCreateUser u"] by (simp add: admin_create_user_def on_store_def)
next
  case (step_update_user tid name u e)
  then show ?thesis using on_store_inv[OF assms(2,3), of "OpUpdateUser tid name u"] by (simp add: admin_update_user_def on_store_def)
next
  case (step_delete_user tid name e)
  then show ?thesis using on_store_inv[OF assms(2,3), of "OpDeleteUser tid name"] by (simp add: admin_delete_user_def on_store_def)
next
  case (step_revoke client tid)
  then show ?thesis using assms(2) consents_inv(2)[OF assms(2,3)]
    by (simp add: admin_revoke_consent_def entra_inv_def conf_def consent_remove_def)
next
  case step_reset
  have "entra_inv sha1 seed (s\<lparr>es_store := store_reset (es_store s)\<rparr>)"
    by (rule on_store_inv[OF assms(2,3), of OpReset None]) (simp add: on_store_def)
  then show ?thesis using consents_inv(1)[OF assms(2,3)] step_reset
    by (simp add: admin_reset_to_seed_def entra_inv_def conf_def consent_reset_def)
next
  case (step_rotate rsa kid)
  then show ?thesis using assms(2) key_set_wf_rotate[of "es_keys s" rsa]
    by (auto simp: admin_rotate_keys_def entra_inv_def conf_def split: prod.splits)
qed

lemma entra_new_inv:
  assumes "config_wf seed"
  shows "entra_inv sha1 seed (entra_new seed rsa)"
proof -
  have g: "\<forall>c\<in>set (c_consents seed). guid_re (cs_tid c)"
    using assms by (fastforce simp: config_wf_def list_all_iff consent_wf_def tenant_wf_def)
  have "consent_store_wf (consent_reset \<lparr>co_seed = c_consents seed, co_granted = []\<rparr>)"
    by (rule consent_reset_pairs) (use g in simp)
  then show ?thesis
    using assms store_reach.reach_new[of sha1 seed] key_set_wf_new
    by (simp add: entra_inv_def entra_new_def conf_def snapshot_def new_store_def new_consent_store_def consent_reset_def codes_ok_def)
qed

lemma entra_reach_inv:
  assumes "config_wf seed" and "entra_reach sha1 seed s"
  shows "entra_inv sha1 seed s"
  using assms(2)
  by (induction rule: entra_reach.induct) (use assms(1) entra_new_inv entra_step_inv in blast)+

section \<open>Panics\<close>

text \<open>The page limit in force, and a bound of every collection of the directory.\<close>

definition page_cap :: "config \<Rightarrow> int" where
  "page_cap c = (case c_graph c of Some g \<Rightarrow> g_max_page_size g | None \<Rightarrow> default_graph_max_page_size)"

definition directory_size :: "config \<Rightarrow> nat" where
  "directory_size c = length (c_users c) + sum_list (map (\<lambda>t. length (t_groups t)) (c_tenants c)) +
     sum_list (map (\<lambda>u. length (member_groups u)) (c_users c))"

lemma page_cap_bounds:
  assumes "config_wf c"
  shows "1 \<le> parse_top c raw" "parse_top c raw \<le> page_cap c"
proof -
  have "1 \<le> page_size c n \<and> page_size c n \<le> page_cap c" for n
    using assms by (auto simp: config_wf_def graph_wf_def page_size_def page_cap_def Let_def split: option.splits)
  then show "1 \<le> parse_top c raw" "parse_top c raw \<le> page_cap c" by (simp_all add: parse_top_def)
qed

lemma page_fits:
  assumes "0 \<le> skip0" and "1 \<le> lim" and "0 \<le> n" and "lim + n < 2 ^ 63" and "page_bounds skip0 lim n = (skip, e)"
  shows "0 \<le> skip \<and> skip \<le> e \<and> e \<le> n"
proof -
  have w: "wrap64 (min skip0 n + lim) = min skip0 n + lim" using assms(1-4) by (intro wrap64_id) simp_all
  show ?thesis using assms unfolding page_bounds_min w by auto
qed

text \<open>
  A route of the Graph surface answers, unless the page limit and the size of the directory together
  leave the 64-bit range: then the end of a page can wrap, and making the page panics.
\<close>

definition page_answered :: "config \<Rightarrow> go_panic + response \<Rightarrow> bool" where
  "page_answered c x \<longleftrightarrow> (case x of Inr _ \<Rightarrow> True
     | Inl p \<Rightarrow> p = makeslice_panic \<and> 2 ^ 63 \<le> page_cap c + int (directory_size c))"

lemma page_answered_Inr [simp]: "page_answered c (Inr x)"
  by (simp add: page_answered_def)

lemma collection_answers:
  assumes "config_wf c" and "length items \<le> directory_size c"
  shows "page_answered c (render_collection ids r c ctx items ty x)"
proof -
  have s: "0 \<le> parse_skip raw" for raw by (simp add: parse_skip_def split: option.split)
  have "\<exists>y. collection_page r c items ty x = y \<and> (case y of Inr _ \<Rightarrow> True | Inl p \<Rightarrow> page_answered c (Inl p))"
  proof (cases "filter_items r ty items")
    case (Inl e)
    then have "e \<noteq> FilterFuel" using parse_filter_total[where src = "query_param r ''$filter''" and ty = ty]
      by (auto simp: filter_items_def ebind_def split: if_splits sum.splits)
    then show ?thesis using Inl by (cases e) (auto simp: collection_page_def split: option.split)
  next
    case (Inr kept)
    then have n: "length kept \<le> length items" by (auto simp: filter_items_def ebind_def split: if_splits sum.splits)
    obtain skip e where b: "page_bounds (parse_skip (query_param r ''$skiptoken'')) (parse_top c (query_param r ''$top''))
        (int (length kept)) = (skip, e)" by (rule prod.exhaust)
    show ?thesis
    proof (cases "page_cap c + int (directory_size c) < 2 ^ 63")
      case True
      then have "0 \<le> skip \<and> skip \<le> e \<and> e \<le> int (length kept)"
        using page_cap_bounds[OF assms(1), of "query_param r ''$top''"] assms(2) n by (intro page_fits[OF s _ _ _ b]) simp_all
      then have "\<exists>page. page_of skip e kept = Some page" by (simp add: page_of_def)
      then show ?thesis using b Inr by (auto simp: collection_page_def split: option.split sum.split)
    next
      case False
      then show ?thesis using b Inr by (auto simp: collection_page_def page_answered_def split: option.split sum.split)
    qed
  qed
  then show ?thesis by (auto simp: render_collection_def split: sum.splits)
qed

lemma uniq_from_length: "length (uniq_from seen xs) \<le> length xs"
  by (induction seen xs rule: uniq_from.induct) auto

lemma sum_list_filter_le: "sum_list (map f (filter P xs)) \<le> sum_list (map f xs)" for f :: "'a \<Rightarrow> nat"
  by (induction xs) simp_all

lemma member_sum_list: "x \<in> set xs \<Longrightarrow> f x \<le> sum_list (map f xs)" for f :: "'a \<Rightarrow> nat"
  by (induction xs) auto

lemma directory_bounds:
  shows "length (users_ordered_in c tid) \<le> directory_size c" "length (direct_reports c u) \<le> directory_size c"
    "length (members_of sha1 c tid gid) \<le> directory_size c" "length (groups_in sha1 c tid) \<le> directory_size c"
    "u \<in> set (c_users c) \<Longrightarrow> length (groups_of sha1 c u) \<le> directory_size c"
proof -
  have u: "length (filter P (users_in c t)) \<le> directory_size c" for P t
    using length_filter_le[of P "users_in c t"] length_filter_le[of _ "c_users c"]
    unfolding users_in_def directory_size_def by (meson le_trans trans_le_add1)
  show "length (users_ordered_in c tid) \<le> directory_size c"
    using u[of "\<lambda>_. True" tid] by (simp add: users_ordered_in_def sort_users_def)
  show "length (direct_reports c u) \<le> directory_size c" using u by (simp add: direct_reports_def sort_users_def)
  show "length (members_of sha1 c tid gid) \<le> directory_size c"
    using u by (simp add: members_of_def sort_users_def split: option.split)
  show "length (groups_in sha1 c tid) \<le> directory_size c"
  proof (cases "tenant_by_id c tid")
    case (Some t)
    let ?m = "\<lambda>u. length (member_groups u)"
    have "length (t_groups t) \<le> sum_list (map (\<lambda>t. length (t_groups t)) (c_tenants c))"
      using tenant_by_idD[OF Some] member_sum_list[of t "c_tenants c" "\<lambda>t. length (t_groups t)"] by simp
    moreover have "length (concat (map member_groups (users_in c (t_tid t)))) \<le> sum_list (map ?m (c_users c))"
      using sum_list_filter_le[of ?m _ "c_users c"] by (simp add: users_in_def length_concat comp_def)
    ultimately show ?thesis
      using uniq_from_length[of "[ [] ]" "map gr_name (t_groups t) @ concat (map member_groups (users_in c (t_tid t)))"]
      by (simp add: groups_in_def Some sort_groups_def directory_size_def)
  qed (simp add: groups_in_def)
  show "length (groups_of sha1 c u) \<le> directory_size c" if "u \<in> set (c_users c)"
  proof (cases "tenant_by_id c (u_tid u)")
    case (Some t)
    have "length (member_groups u) \<le> directory_size c"
      using member_sum_list[OF that, of "\<lambda>u. length (member_groups u)"] by (simp add: directory_size_def)
    then show ?thesis using uniq_from_length[of "[ [] ]" "member_groups u"] by (simp add: groups_of_def Some sort_groups_def)
  qed (simp add: groups_of_def)
qed

lemma expand_manager_length: "expand_manager r c us = Inr items \<Longrightarrow> length items = length us"
proof -
  have "expand_items c sel us = Inr items \<Longrightarrow> length items = length us" for sel
    by (induction us arbitrary: items) (auto simp: ebind_def split: sum.splits)
  then show "expand_manager r c us = Inr items \<Longrightarrow> length items = length us"
    by (auto simp: expand_manager_def graph_users_def ebind_def Let_def split: if_splits sum.splits prod.splits)
qed

lemma user_route_answers:
  assumes "config_wf c" and "u \<in> set (c_users c)"
  shows "page_answered c (graph_user_route env r c u path)"
proof -
  have g: "page_answered c (graph_collection ids r c ctx (graph_groups (groups_of sha1 c u)) ty)" for ids ctx ty sha1
    unfolding graph_collection_def using directory_bounds(5)[OF assms(2)] by (intro collection_answers[OF assms(1)]) (simp add: graph_groups_def)
  have d: "page_answered c (graph_collection ids r c ctx (graph_users c (direct_reports c u)) ty)" for ids ctx ty
    unfolding graph_collection_def using directory_bounds(2) by (intro collection_answers[OF assms(1)]) (simp add: graph_users_def)
  show ?thesis unfolding graph_user_route_def Let_def
    by (simp only: g d page_answered_Inr simp_thms split: if_split option.split sum.split)
qed

lemma users_route_answers:
  assumes "config_wf c"
  shows "page_answered c (graph_users_route env r c ca path)"
proof (cases path)
  case Nil
  have l: "page_answered c (render_collection ids r c ctx items ty x)"
    if "expand_manager r c (users_ordered_in c (ca_tid ca)) = Inr items" for ids ctx items ty x
    using expand_manager_length[OF that] directory_bounds(1)[of c "ca_tid ca"]
    by (intro collection_answers[OF assms(1)]) simp
  show ?thesis using l by (auto simp: graph_users_route_def Nil split: sum.split)
next
  case (Cons key rest)
  have "user_by_upn_or_oid c (ca_tid ca) key = Some u \<Longrightarrow> u \<in> set (c_users c)" for u
    by (auto simp: user_by_upn_or_oid_def Let_def users_in_def split: option.splits if_splits
        dest!: find_SomeD user_by_oidD)
  then show ?thesis using user_route_answers[OF assms] by (auto simp: graph_users_route_def Cons split: option.split)
qed

lemma groups_route_answers:
  assumes "config_wf c"
  shows "page_answered c (graph_groups_route env r c ca path)"
proof -
  have l: "page_answered c (graph_collection ids r c ctx items ty)" if "length items \<le> directory_size c" for ids ctx items ty
    unfolding graph_collection_def using that by (rule collection_answers[OF assms])
  have g: "page_answered c (graph_collection ids r c ctx (graph_groups (groups_in sha1 c tid)) ty)" for ids ctx ty sha1 tid
    using directory_bounds(4) by (intro l) (simp add: graph_groups_def)
  have m: "page_answered c (graph_collection ids r c ctx (graph_users c (members_of sha1 c tid i)) ty)" for ids ctx ty sha1 tid i
    using directory_bounds(3) by (intro l) (simp add: graph_users_def)
  show ?thesis unfolding graph_groups_route_def Let_def
    by (simp only: g m page_answered_Inr simp_thms split: if_split option.split list.split)
qed

lemma graph_answers:
  assumes "config_wf c"
  shows "page_answered c (graph env ks r c segs)"
proof -
  have v: "caller_delegated ca \<longrightarrow> (\<exists>u. ca_user ca = Some u \<and> u \<in> set (c_users c))"
    if "validate_access_token (ee_crypto env) ks (ee_now env) r c (bearer_token r) = Inr ca" for ca
    using that
    by (auto simp: validate_access_token_def caller_delegated_def Let_def users_in_def dest!: user_by_oidD split: if_splits option.splits)
  have ui: "page_answered c (user_info (ee_crypto env) ks (ee_now env) r c)"
    using v by (fastforce simp: user_info_def split: sum.split)
  have me: "page_answered c (case ca_user ca of None \<Rightarrow> Inl nil_deref | Some u \<Rightarrow> graph_user_route env r c u p)"
    if "validate_access_token (ee_crypto env) ks (ee_now env) r c (bearer_token r) = Inr ca" "caller_delegated ca" for ca p
    using v[OF that(1)] that(2) user_route_answers[OF assms] by auto
  show ?thesis
  proof (cases "validate_access_token (ee_crypto env) ks (ee_now env) r c (bearer_token r)")
    case (Inl e)
    show ?thesis unfolding graph_def Let_def Inl sum.case by (simp only: ui page_answered_Inr simp_thms split: if_split)
  next
    case (Inr ca)
    show ?thesis unfolding graph_def Let_def Inr sum.case
      using me[OF Inr] by (simp only: ui users_route_answers[OF assms] groups_route_answers[OF assms] page_answered_Inr simp_thms split: if_split) blast
  qed
qed

section \<open>Who grants a consent\<close>

lemma issue_code_consents: "es_consents (snd (issue_code env ar sc c u s)) = es_consents s"
  by (auto simp: issue_code_def ok_def Let_def split: option.split sum.split)

lemma authorize_consents:
  "es_consents (snd (authorize_get env r sc s)) = es_consents s" "es_consents (snd (authorize_post env r sc s)) = es_consents s"
  by (auto simp: authorize_get_def authorize_post_def ok_def Let_def issue_code_consents split: sum.split list.split)

lemma entra_token_consents: "es_consents (snd (entra_token env r sc s)) = es_consents s"
  by (auto simp: entra_token_def client_credentials_def codes_take_def ok_def Let_def split: sum.split option.split)

lemma admin_consent_get_consents: "es_consents (snd (admin_consent_get env r sc s)) = es_consents s"
  by (auto simp: admin_consent_get_def ok_def Let_def split: option.split)

lemma test_api_consents:
  "rq_method r \<noteq> ''POST'' \<or> action \<noteq> ''reset'' \<Longrightarrow> es_consents (snd (test_api env r action s)) = es_consents s"
  "rq_method r = ''POST'' \<Longrightarrow> action = ''reset'' \<Longrightarrow> snd (test_api env r action s) = s\<lparr>es_consents := consent_reset (es_consents s)\<rparr>"
  by (auto simp: test_api_def Let_def ok_def split: prod.split)

lemma route_consents:
  assumes "entra_route env r sc rest s = (res, s')" "es_consents s' \<noteq> es_consents s"
  shows "rq_method r = ''POST''" "rest = ''v2.0/adminconsent''" "admin_consent_post env r sc s = (res, s')"
proof -
  have "es_consents (snd (entra_route env r sc rest s)) = es_consents s" if "rq_method r \<noteq> ''POST'' \<or> rest \<noteq> ''v2.0/adminconsent''"
    using that unfolding entra_route_def Let_def
    by (simp add: snd_ok authorize_consents entra_token_consents admin_consent_get_consents split: if_split) blast
  with assms show m: "rq_method r = ''POST''" "rest = ''v2.0/adminconsent''" by auto
  show "admin_consent_post env r sc s = (res, s')" using assms(1) by (simp add: entra_route_def Let_def m)
qed

lemma consent_grant_has:
  "consent_has (consent_grant client tid s) client' tid' \<longleftrightarrow> consent_key client' tid' = consent_key client tid \<or> consent_has s client' tid'"
  by (auto simp: consent_has_def consent_grant_def)

text \<open>The path of a request, without the leading slash.\<close>

definition path_segments :: "request \<Rightarrow> string list" where
  "path_segments r = str_split (trim_slash (rq_path r)) ''/''"

text \<open>C16: consent_granted_only_by_admin. A request to the Entra endpoints changes the recorded consents in two cases only. One is the reset of the test
  API. The other is a POST to the admin consent endpoint of a path that resolves, whose form names an administrator of the directory and is not
  cancelled, on a path of the administrator's own tenant or a multi-tenant one; it
  adds the consent for that client and the tenant of that administrator, no other, and leaves the rest of the state alone.\<close>

theorem consent_granted_only_by_admin:
  assumes "entra_handle env r s = (res, s')" and "es_consents s' \<noteq> es_consents s"
  shows "rq_method r = ''POST'' \<and>
    (path_segments r ! 1 = test_api_segment \<and> str_join (drop 2 (path_segments r)) ''/'' = ''reset'' \<and>
       s' = s\<lparr>es_consents := consent_reset (es_consents s)\<rparr> \<or>
     str_join (drop 2 (path_segments r)) ''/'' = ''v2.0/adminconsent'' \<and>
     (\<exists>sc t u. resolve_scope (conf s) (path_segments r ! 1) = Inr sc \<and>
        user_by_name (conf s) (form_param r ''tid'') (form_param r ''username'') = Some u \<and> u_admin u \<and>
        tenant_by_id (conf s) (u_tid u) = Some t \<and> form_param r ''action'' \<noteq> ''cancel'' \<and>
        (\<forall>st. sc_tenant sc = Some st \<longrightarrow> u_tid u = t_tid st) \<and> query_param r ''client_id'' \<noteq> [] \<and>
        (\<forall>client tid. consent_has (es_consents s') client tid \<longleftrightarrow>
           consent_key client tid = consent_key (query_param r ''client_id'') (t_tid t) \<or> consent_has (es_consents s) client tid) \<and>
        s' = s\<lparr>es_consents := consent_grant (query_param r ''client_id'') (t_tid t) (es_consents s)\<rparr>))"
proof -
  let ?seg = "path_segments r" let ?rest = "str_join (drop 2 (path_segments r)) ''/''"
  have run: "if rq_method r = ''OPTIONS'' \<or> length ?seg < 3 then s' = s
    else if ?seg ! 1 = test_api_segment then test_api env r ?rest s = (res, s')
    else s' = s \<or> (\<exists>sc. resolve_scope (conf s) (?seg ! 1) = Inr sc \<and> entra_route env r sc ?rest s = (res, s'))"
    using assms(1) by (auto simp: entra_handle_def path_segments_def Let_def ok_def split: if_splits sum.splits)
  show ?thesis
  proof (cases "?seg ! 1 = test_api_segment \<and> \<not> (rq_method r = ''OPTIONS'' \<or> length ?seg < 3)")
    case True
    then have t: "snd (test_api env r ?rest s) = s'" using run by simp
    then have m: "rq_method r = ''POST''" "?rest = ''reset''" using assms(2) test_api_consents(1)[of r ?rest env s] by auto
    then show ?thesis using True m t test_api_consents(2)[OF m, of env s] by simp
  next
    case False
    then obtain sc where sc: "resolve_scope (conf s) (?seg ! 1) = Inr sc" "entra_route env r sc ?rest s = (res, s')"
      using run assms(2) by (auto split: if_splits)
    note c = route_consents[OF sc(2) assms(2)]
    show ?thesis using admin_consent_post_grants[OF c(3) assms(2)] sc(1) c(1,2) consent_grant_has by force
  qed
qed

definition consent_here :: request where
  "consent_here = consent_request\<lparr>rq_path := ''/iam/'' @ tid_a @ ''/v2.0/adminconsent''\<rparr>"

theorem consent_granted_only_by_admin_witness:
  "\<exists>u s'. snd (entra_handle sample_env consent_here admin_state) = s' \<and> user_by_name admin_seed tid_a ''bob'' = Some u \<and> u_admin u \<and>
     consent_has (es_consents s') ''iam'' tid_a \<and> \<not> consent_has (es_consents s') ''other'' tid_a"
proof -
  let ?x = "entra_handle sample_env consent_here admin_state"
  have "co_granted (es_consents (snd ?x)) \<noteq> [] \<and> co_granted (es_consents admin_state) = []" by code_simp
  then have ne: "es_consents (snd ?x) \<noteq> es_consents admin_state" by auto
  have q: "query_param consent_here ''client_id'' = ''iam''" "form_param consent_here ''tid'' = tid_a"
    "form_param consent_here ''username'' = ''bob''" by code_simp+
  have seg: "path_segments consent_here ! 1 \<noteq> test_api_segment" by code_simp
  have old: "\<not> consent_has (es_consents admin_state) client tid" for client tid
    using \<open>_ \<and> co_granted (es_consents admin_state) = []\<close> by (simp add: consent_has_def map_get_def)
  from consent_granted_only_by_admin[OF prod.collapse[symmetric] ne] seg obtain sc t u where
    u: "resolve_scope admin_seed (path_segments consent_here ! 1) = Inr sc" "user_by_name admin_seed tid_a ''bob'' = Some u" "u_admin u"
      "tenant_by_id admin_seed (u_tid u) = Some t"
    and has: "\<And>client tid. consent_has (es_consents (snd ?x)) client tid \<longleftrightarrow> consent_key client tid = consent_key ''iam'' (t_tid t)"
    unfolding q admin_conf using old by blast
  have "to_lower (to_lower tid_a) = tid_a" by code_simp
  then have "t_tid t = tid_a" using user_by_nameD[OF u(2)] tenant_by_idD[OF u(4)] by simp
  then have "consent_has (es_consents (snd ?x)) ''iam'' tid_a" "\<not> consent_has (es_consents (snd ?x)) ''other'' tid_a"
    by (simp_all add: has consent_key_def)
  then show ?thesis using u by blast
qed

end
