(* ===== verification/Entra_Panics.thy ===== *)
theory Entra_Panics
  imports Entra_Handler_Laws
begin

text \<open>
  Which requests of a running Entra handler can panic, and the properties of a reachable handler:
  its invariant, discovery, minted tokens and the deletion of a tenant.
\<close>

section \<open>Panics\<close>

text \<open>The request redeems the code of an account that is no longer there.\<close>

definition redeems_deleted :: "entra_state \<Rightarrow> request \<Rightarrow> bool" where
  "redeems_deleted s r \<longleftrightarrow>
     (\<exists>tr ac. parse_token_request r = Inr tr \<and> map_get (es_codes s) (tr_code tr) = Some ac \<and>
        user_by_name (conf s) (ac_tid ac) (ac_username ac) = None)"

text \<open>
  The request is one to the Graph surface, and the page limit and the size of the directory together leave the
  64-bit range.
\<close>

definition page_overflows :: "entra_state \<Rightarrow> request \<Rightarrow> bool" where
  "page_overflows s r \<longleftrightarrow> graph_on (conf s) \<and> path_segments r ! 1 = graph_base (conf s) \<and>
     2 ^ 63 \<le> page_cap (conf s) + int (directory_size (conf s))"

definition answered :: "entra_state \<Rightarrow> request \<Rightarrow> go_panic + response \<Rightarrow> bool" where
  "answered s r x \<longleftrightarrow> (case x of Inr _ \<Rightarrow> True
     | Inl p \<Rightarrow> p = nil_deref \<and> redeems_deleted s r \<or> p = makeslice_panic \<and> page_overflows s r)"

lemma answeredI: "answered s r (Inr x)" "\<exists>x. y = Inr x \<Longrightarrow> answered s r y"
  by (auto simp: answered_def)

lemma user_has_tenant: "config_wf c \<Longrightarrow> u \<in> set (c_users c) \<Longrightarrow> \<exists>t. tenant_by_id c (u_tid u) = Some t"
  by (fastforce simp: config_wf_def list_all_iff dynamic_wf_def split: option.splits)

lemma named_user_tenant:
  assumes "config_wf c" and "user_by_name c tid n = Some u"
  shows "\<exists>t. tenant_by_id c (u_tid u) = Some t" "\<exists>t. tenant_by_id c tid = Some t"
proof -
  have u: "u \<in> set (c_users c)" "u_tid u = to_lower tid"
    using assms(2) by (auto simp: user_by_name_def dest: find_SomeD)
  show "\<exists>t. tenant_by_id c (u_tid u) = Some t" by (rule user_has_tenant[OF assms(1) u(1)])
  then show "\<exists>t. tenant_by_id c tid = Some t" using u(2) by (simp add: tenant_by_id_def)
qed

lemma fst_ok: "fst (ok r s) = Inr r"
  by (simp add: ok_def)

lemma issue_code_answers:
  assumes "config_wf c" and "u \<in> set (c_users c)"
  shows "\<exists>resp. fst (issue_code env ar sc c u s) = Inr resp"
  using user_has_tenant[OF assms] by (auto simp: issue_code_def fst_ok Let_def split: sum.split)

lemma hint_matches_users: "u \<in> set (hint_matches c sc h) \<Longrightarrow> u \<in> set (c_users c)"
  by (auto simp: hint_matches_def in_scope_def users_in_def Let_def split: if_splits option.splits)

lemma authorize_answers:
  assumes "config_wf (conf s)"
  shows "\<exists>resp. fst (authorize_get env r sc s) = Inr resp" "\<exists>resp. fst (authorize_post env r sc s) = Inr resp"
proof -
  have h: "length (hint_matches (conf s) sc h) = 1 \<Longrightarrow> hd (hint_matches (conf s) sc h) \<in> set (c_users (conf s))" for h
    using hint_matches_users[of "hd (hint_matches (conf s) sc h)" "conf s" sc h] by (cases "hint_matches (conf s) sc h") auto
  have i: "length (hint_matches (conf s) sc h) = 1 \<Longrightarrow>
      \<exists>resp. fst (issue_code env ar sc (conf s) (hd (hint_matches (conf s) sc h)) s) = Inr resp" for ar h
    by (rule issue_code_answers[OF assms h])
  show "\<exists>resp. fst (authorize_get env r sc s) = Inr resp"
    using i by (auto simp: authorize_get_def fst_ok Let_def split: sum.split)
  have p: "\<exists>resp. fst (issue_code env ar sc (conf s) u s) = Inr resp" if "posted_user (conf s) r sc = Inr (t, u)" for ar t u
    using that by (intro issue_code_answers[OF assms]) (auto simp: posted_user_def user_by_name_def dest: find_SomeD split: option.splits if_splits)
  show "\<exists>resp. fst (authorize_post env r sc s) = Inr resp"
    using p by (auto simp: authorize_post_def fst_ok Let_def split: sum.split)
qed

lemma admin_consent_answers:
  assumes "config_wf (conf s)"
  shows "\<exists>resp. fst (admin_consent_get env r sc s) = Inr resp" "\<exists>resp. fst (admin_consent_post env r sc s) = Inr resp"
proof -
  show "\<exists>resp. fst (admin_consent_get env r sc s) = Inr resp"
    by (auto simp: admin_consent_get_def fst_ok Let_def split: option.split)
  have p: "posted_user (conf s) r sc = Inr (t, u) \<Longrightarrow> t \<noteq> None" for t u
    using named_user_tenant(1)[OF assms] by (fastforce simp: posted_user_def split: option.splits if_splits)
  show "\<exists>resp. fst (admin_consent_post env r sc s) = Inr resp"
    using p by (fastforce simp: admin_consent_post_def fst_ok Let_def split: option.split sum.split)
qed

lemma mint_answers:
  assumes "config_wf (conf s)"
  shows "\<exists>resp. mint_token env r s = Inr resp"
proof -
  have "\<exists>x. admin_mint_token env o' inp s = Inr x" for o' inp
    using named_user_tenant(1)[OF assms] by (fastforce simp: admin_mint_token_def Let_def split: option.split)
  then obtain x where "admin_mint_token env (issuer_origin r) (mint_request r) s = Inr x" by blast
  then show ?thesis by (auto simp: mint_token_def split: sum.split mint_error.split)
qed

lemma test_api_answered:
  assumes "config_wf (conf s)"
  shows "answered s q (fst (test_api env r action s))"
proof -
  have k: "answered s q (fst (case ks_rotate x ks of (kid, ks) \<Rightarrow> ok (json_response (VObj [(''kid'', VStr kid)])) (s\<lparr>es_keys := ks\<rparr>)))" for x ks
    by (cases "ks_rotate x ks") (simp add: ok_def answeredI)
  show ?thesis unfolding test_api_def Let_def
    by (simp only: k fst_ok fst_conv answeredI(1) answeredI(2)[OF mint_answers[OF assms]] simp_thms split: if_split)
qed

lemma token_panics:
  assumes "config_wf (conf s)" and "fst (entra_token env r sc s) = Inl p"
  shows "p = nil_deref \<and> redeems_deleted s r"
proof -
  have c: "\<exists>resp. fst (client_credentials env r sc (conf s) s) = Inr resp"
    by (auto simp: client_credentials_def fst_ok Let_def split: option.split)
  with assms(2) obtain tr ac where t: "parse_token_request r = Inr tr" "map_get (es_codes s) (tr_code tr) = Some ac"
    and p: "redeem_code env r sc tr ac (s\<lparr>es_codes := map_del (tr_code tr) (es_codes s)\<rparr>) = Inl p"
    by (auto simp: entra_token_def codes_take_def fst_ok Let_def split: if_splits sum.splits option.splits)
  have "p = nil_deref \<and> user_by_name (conf s) (ac_tid ac) (ac_username ac) = None"
    using p named_user_tenant(2)[OF assms(1), of "ac_tid ac" "ac_username ac"]
    by (auto simp: redeem_code_def conf_def Let_def split: if_splits option.splits)
  with t show ?thesis by (auto simp: redeems_deleted_def)
qed

lemma handle_panics:
  assumes "config_wf (conf s)"
  shows "answered s r (fst (entra_handle env r s))"
proof -
  have t: "answered s r (fst (entra_token env r sc s))" for sc
    using token_panics[OF assms, of env r sc] by (auto simp: answered_def split: sum.split)
  have g: "graph_on (conf s) \<Longrightarrow> path_segments r ! 1 = graph_base (conf s) \<Longrightarrow> answered s r (graph env (es_keys s) r (conf s) segs)" for segs
    using graph_answers[OF assms, of env "es_keys s" r segs] by (auto simp: answered_def page_answered_def page_overflows_def split: sum.splits)
  have "answered s r (fst (entra_route env r sc rest s))" for sc rest
    unfolding entra_route_def Let_def
    by (simp only: t fst_ok answeredI(1) answeredI(2)[OF authorize_answers(1)[OF assms]]
        answeredI(2)[OF authorize_answers(2)[OF assms]] answeredI(2)[OF admin_consent_answers(1)[OF assms]]
        answeredI(2)[OF admin_consent_answers(2)[OF assms]] simp_thms split: if_split)
  then show ?thesis
    unfolding entra_handle_def path_segments_def[symmetric] Let_def using g
    by (simp only: fst_ok fst_conv answeredI(1) test_api_answered[OF assms] simp_thms split: if_split sum.split) blast
qed

section \<open>Properties\<close>

text \<open>C24: entra_state_invariant. In every state a server reaches from a valid configuration, whatever
  requests and administrative operations came before, the configuration is valid, at most two keys are published and
  the last one signs, the consents are well-keyed and reset to those of the configuration, and every stored code
  belongs to a code-flow request for a tenant identifier.\<close>

theorem entra_state_invariant:
  assumes "config_wf seed" and "entra_reach sha1 seed s"
  shows "config_wf (conf s) \<and> st_seed (es_store s) = seed \<and> key_set_wf (es_keys s) \<and>
    consent_store_wf (es_consents s) \<and> co_seed (es_consents s) = c_consents seed \<and> codes_ok (es_codes s)"
  using entra_reach_inv[OF assms] store_reach_seed by (auto simp: entra_inv_def)

text \<open>C10: only_known_panics. In every reachable state every request gets an answer, with two exceptions: the redemption of
  a code whose account has been removed, and a request for Graph data where the
  configured page limit leaves no room for the size of the directory in 64 bits.\<close>

theorem only_known_panics:
  assumes "config_wf seed" and "entra_reach sha1 seed s"
    and "entra_handle env r s = (Inl p, s')"
  shows "p = nil_deref \<and> redeems_deleted s r \<or>
    p = makeslice_panic \<and> graph_on (conf s) \<and> path_segments r ! 1 = graph_base (conf s) \<and>
      2 ^ 63 \<le> page_cap (conf s) + int (directory_size (conf s))"
proof -
  have "config_wf (conf s)" using entra_reach_inv[OF assms(1,2)] by (simp add: entra_inv_def)
  from handle_panics[OF this, of r env] show ?thesis by (simp add: answered_def page_overflows_def assms(3))
qed

end
