(* ===== verification/Entra_Running.thy ===== *)
theory Entra_Running
  imports Entra_Panics
begin

text \<open>
  Properties of a running Entra handler that span its parts: the discovery document and the routes it
  names, tokens minted for tests and the Graph surface, the deletion of a tenant and its
  consents; and the instances of the properties of the handler.
\<close>

section \<open>Discovery\<close>

definition endpoint_path :: "config \<Rightarrow> scope \<Rightarrow> string \<Rightarrow> string" where
  "endpoint_path c sc rest = ''/'' @ c_base_path c @ ''/'' @ sc_segment sc @ ''/'' @ rest"

definition advertised :: "(string \<times> string) list" where
  "advertised = [(''token_endpoint'', ''oauth2/v2.0/token''), (''jwks_uri'', ''discovery/v2.0/keys''),
     (''authorization_endpoint'', ''oauth2/v2.0/authorize''), (''end_session_endpoint'', ''oauth2/v2.0/logout'')]"

lemma resolved_scope:
  assumes "config_wf c" and "resolve_scope c seg = Inr sc"
  shows "resolve_scope c (sc_segment sc) = Inr sc" "CHR ''/'' \<notin> set (sc_segment sc)" "sc_segment sc \<noteq> []"
    "sc_segment sc \<noteq> test_api_segment" "graph_on c \<Longrightarrow> sc_segment sc \<noteq> graph_base c"
proof -
  have names: "CHR ''/'' \<notin> set s \<and> s \<noteq> [] \<and> s \<noteq> test_api_segment \<and> to_lower s = s \<and> \<not> guid_re s"
    if "s = scope_organizations \<or> s = scope_common" for s
  proof -
    have "list_all (\<lambda>s. CHR ''/'' \<notin> set s \<and> s \<noteq> [] \<and> s \<noteq> test_api_segment \<and> to_lower s = s \<and> \<not> guid_re s)
        [scope_organizations, scope_common]" by code_simp
    with that show ?thesis by auto
  qed
  have api: "\<not> guid_re test_api_segment" by code_simp
  have gb: "\<not> guid_re (graph_base c)" "\<not> reserved_graph_base (graph_base c)"
  proof -
    have d: "\<not> guid_re default_graph_base_path" "\<not> reserved_graph_base default_graph_base_path"
      unfolding reserved_graph_base_def by code_simp+
    show "\<not> guid_re (graph_base c)" "\<not> reserved_graph_base (graph_base c)"
      using assms(1) d by (auto simp: config_wf_def graph_wf_def graph_base_def split: option.splits)
  qed
  from assms(2) consider (special) "sc_segment sc = scope_organizations \<or> sc_segment sc = scope_common" "sc_tenant sc = None"
    | (tenant) t where "sc_segment sc = t_tid t" "sc_tenant sc = Some t" "tenant_by_id c seg = Some t"
    by (auto simp: resolve_scope_def tenant_by_id_def Let_def split: if_splits option.splits)
  then have "resolve_scope c (sc_segment sc) = Inr sc \<and> CHR ''/'' \<notin> set (sc_segment sc) \<and> sc_segment sc \<noteq> [] \<and>
    sc_segment sc \<noteq> test_api_segment \<and> sc_segment sc \<noteq> graph_base c"
  proof cases
    case special
    then show ?thesis using names[of "sc_segment sc"] gb(2)
      by (auto simp: resolve_scope_def reserved_graph_base_def Let_def)
  next
    case tenant
    have g: "guid_re (t_tid t)" by (rule tenant_guid[OF assms(1) tenant(3)])
    have "tenant_by_id c (t_tid t) = Some t"
      using tenant(3) tenant_by_idD[OF tenant(3)] g by (simp add: tenant_by_id_def)
    moreover have "t_tid t \<noteq> scope_organizations" "t_tid t \<noteq> scope_common" "t_tid t \<noteq> test_api_segment"
      "t_tid t \<noteq> graph_base c" "t_tid t \<noteq> []"
      using g names[of "t_tid t"] api gb(1) by fastforce+
    ultimately show ?thesis using tenant(1,2) g guid_no_slash[OF g]
      by (simp add: resolve_scope_def)
  qed
  then show "resolve_scope c (sc_segment sc) = Inr sc" "CHR ''/'' \<notin> set (sc_segment sc)" "sc_segment sc \<noteq> []"
    "sc_segment sc \<noteq> test_api_segment" "graph_on c \<Longrightarrow> sc_segment sc \<noteq> graph_base c" by blast+
qed

lemma endpoint_routed:
  assumes "config_wf (conf s)" and "resolve_scope (conf s) seg = Inr sc"
    and "rest \<noteq> []" "last rest \<noteq> CHR ''/''" "rq_path q = endpoint_path (conf s) sc rest" "rq_method q \<noteq> ''OPTIONS''"
  shows "entra_handle env q s = entra_route env q sc rest s"
proof -
  note sc = resolved_scope[OF assms(1,2)]
  let ?b = "c_base_path (conf s)" and ?seg = "sc_segment sc"
  have b: "?b \<noteq> []" "CHR ''/'' \<notin> set ?b"
    using assms(1) by (auto simp: config_wf_def base_path_re_def list_all_iff)
  let ?p = "?b @ CHR ''/'' # (?seg @ CHR ''/'' # rest)"
  have t: "trim_slash (rq_path q) = ?p"
  proof -
    have "hd ?p \<noteq> CHR ''/''" using b by (cases ?b) auto
    moreover have "last ?p \<noteq> CHR ''/''" using assms(3,4) by simp
    ultimately have "trim_slash (CHR ''/'' # ?p) = ?p" by (intro trim_slash_path) simp_all
    then show ?thesis using assms(5) by (simp add: endpoint_path_def)
  qed
  have split: "str_split ?p ''/'' = ?b # ?seg # str_split rest ''/''"
    using b sc(2) by (simp add: str_split_char_cons)
  have len: "\<not> length (?b # ?seg # str_split rest ''/'') < 3"
    using str_split_nonempty[of rest "''/''"] by (cases "str_split rest ''/''") simp_all
  have d: "str_join (drop 2 (?b # ?seg # str_split rest ''/'')) ''/'' = rest" by (simp add: str_join_split)
  have n: "(?b # ?seg # str_split rest ''/'') ! 1 = ?seg" by simp
  have g: "\<not> (graph_on (conf s) \<and> ?seg = graph_base (conf s))" using sc(5) by blast
  show ?thesis
    unfolding entra_handle_def Let_def t split d n if_not_P[OF assms(6)] if_not_P[OF len] if_not_P[OF sc(4)] if_not_P[OF g]
      sc(1) sum.case ..
qed

text \<open>The discovery document of a scope names, under the caller's own origin,
  endpoints that are dispatched to the same scope and to nothing else (neither the test API nor the Graph surface
  can shadow them), and for a tenant it names exactly the issuer its tokens carry.\<close>

lemma discovery_leads_back:
  assumes "config_wf (conf s)" and "resolve_scope (conf s) seg = Inr sc" and "(name, rest) \<in> set advertised"
  shows "map_of (discovery_fields r (conf s) sc) name = Some (VStr (issuer_origin r @ endpoint_path (conf s) sc rest)) \<and>
    (rq_path q = endpoint_path (conf s) sc rest \<longrightarrow> rq_method q \<noteq> ''OPTIONS'' \<longrightarrow>
       entra_handle env q s = entra_route env q sc rest s) \<and>
    (\<forall>t. sc_tenant sc = Some t \<longrightarrow>
       map_of (discovery_fields r (conf s) sc) ''issuer'' =
         Some (claim_get (base_claims k uti (redeem_input env r (conf s) t u cid nonce scopes)) ''iss''))"
proof (intro conjI allI impI)
  have "list_all (\<lambda>(n, p). p \<noteq> [] \<and> last p \<noteq> CHR ''/'') advertised" by code_simp
  then have p: "rest \<noteq> []" "last rest \<noteq> CHR ''/''" using assms(3) by (auto simp: list_all_iff)
  show "map_of (discovery_fields r (conf s) sc) name = Some (VStr (issuer_origin r @ endpoint_path (conf s) sc rest))"
    using assms(3) by (auto simp: advertised_def discovery_fields_def discovery_doc_def discovery_endpoint_def endpoint_path_def Let_def)
  show "entra_handle env q s = entra_route env q sc rest s"
    if "rq_path q = endpoint_path (conf s) sc rest" "rq_method q \<noteq> ''OPTIONS''"
    by (rule endpoint_routed[OF assms(1,2) p that])
  fix t assume "sc_tenant sc = Some t"
  then show "map_of (discovery_fields r (conf s) sc) ''issuer'' =
      Some (claim_get (base_claims k uti (redeem_input env r (conf s) t u cid nonce scopes)) ''iss'')"
    by (simp add: discovery_fields_def discovery_doc_def issuer_tid_def base_claims_get redeem_input_def issuer_def Let_def)
qed

section \<open>Minted tokens\<close>

text \<open>A token is minted exactly for an existing, enabled account; the access
  token in the answer is accepted by the Graph surface of the same origin for that account and
  client until it expires, with no sign-in, consent or simulated error in between.\<close>

lemma minted_token_accepted:
  fixes env :: entra_env and r :: request and inp :: mint_input and s :: entra_state and u :: user and t :: tenant
  defines "k \<equiv> ee_crypto env"
    and "at \<equiv> access_token_claims (ee_crypto env) (ee_uti_access env) (mint_token_input (issuer_origin r) (conf s) t u inp (ee_now env))"
  assumes conf: "config_wf (conf s)" "tenant_by_id (conf s) (u_tid u) = Some t" "user_by_name (conf s) (mi_tid inp) (mi_username inp) = Some u"
      "user_by_oid (conf s) (u_tid u) (u_oid u) = Some u" "c_token_expiry (conf s) < 9223372036"
    and keys: "key_set_wf (es_keys s)" "sound_signature k" "reads_header k (ks_active_kid (es_keys s))"
    and json: "cr_unmarshal k (cr_marshal k at) = Some cl" "json_keeps at cl"
    and time: "unix_of (ee_now env) \<le> unix_of now"
      "unix_of now < unix_of (ee_now env) + c_token_expiry (conf s) + clock_skew (conf s)"
      "0 \<le> unix_of now" "unix_of now + clock_skew (conf s) < 2 ^ 63"
  shows "if user_enabled u
    then \<exists>tok ca. admin_mint_token env (issuer_origin r) inp s = Inr (Inr tok) \<and>
           validate_access_token k (es_keys s) now r (conf s) (mt_access_token tok) = Inr ca \<and>
           ca_user ca = Some u \<and> ca_tenant ca = t \<and> ca_client_id ca = mint_client inp
    else admin_mint_token env (issuer_origin r) inp s = Inr (Inl MintDisabled)"
proof (cases "user_enabled u")
  case True
  have u: "u \<in> set (c_users (conf s))" using conf(3) by (auto simp: user_by_name_def dest: find_SomeD)
  have at: "at = access_token_claims k (ee_uti_access env) (access_input r (conf s) t u (mint_client inp) (mint_scopes inp) (ee_now env))"
    by (simp add: at_def k_def mint_token_input_def access_input_def)
  have cl: "mint_client inp \<noteq> []" by (simp add: mint_client_def)
  from issued_access_token_accepted[OF keys conf(1,2) u True conf(4,5) json[unfolded at] time cl]
  show ?thesis using True conf(2,3)
    by (auto simp: admin_mint_token_def Let_def k_def at[unfolded at_def k_def])
next
  case False
  then show ?thesis using conf(3) by (simp add: admin_mint_token_def Let_def)
qed

section \<open>Deleting a tenant\<close>

lemma trim_by_parts: "\<exists>pre post. s = pre @ trim_by p s @ post \<and> list_all p pre \<and> list_all p post"
proof -
  let ?d = "dropWhile p s"
  have a: "s = takeWhile p s @ ?d" by simp
  have b: "?d = trim_by p s @ rev (takeWhile p (rev ?d))"
    unfolding trim_by_def by (metis rev_append rev_rev_ident takeWhile_dropWhile_id)
  have "list_all p (takeWhile p s)" "list_all p (rev (takeWhile p (rev ?d)))"
    by (auto simp: list_all_iff dest: set_takeWhileD)
  with a b show ?thesis by metis
qed

lemma padded_suffix:
  assumes "guid_re g" and "guid_re (trim_space x)" and "x \<noteq> trim_space x"
  shows "\<not> has_suffix (c @ ''|'' @ g) (''|'' @ x)"
proof
  assume "has_suffix (c @ ''|'' @ g) (''|'' @ x)"
  then obtain r where r: "c @ ''|'' @ g = r @ ''|'' @ x" by (auto simp: has_suffix_iff)
  obtain pre post where x: "x = pre @ trim_space x @ post" and sp: "list_all is_space pre" "list_all is_space post"
    using trim_by_parts[of x is_space] by (auto simp: trim_space_def)
  have len: "length g = length (trim_space x)" using guid_length assms(1,2) by simp
  show False
  proof (cases "post = []")
    case False
    have "g \<noteq> []" using assms(1) by auto
    then have "last (c @ ''|'' @ g) \<in> set g" by simp
    moreover have "last (r @ ''|'' @ x) = last post" using False x by (metis append_assoc append_is_Nil_conv last_appendR)
    ultimately have "last post \<in> set g" using r by metis
    moreover have "is_space (last post)" using sp(2) False by (auto simp: list_all_iff)
    ultimately show False using guid_chars[OF assms(1)] guid_char_cases by blast
  next
    case True
    then have "(c @ ''|'') @ g = (r @ ''|'' @ pre) @ trim_space x" using r x by (metis append.assoc append_Nil2)
    then have "c @ ''|'' = r @ ''|'' @ pre" by (rule append_eq_append_conv[OF disjI2[OF len], THEN iffD1, THEN conjunct1])
    moreover have "pre \<noteq> []" using True x assms(3) by auto
    ultimately have "last pre = CHR ''|''" by (metis append_is_Nil_conv last_appendR last_snoc)
    moreover have "is_space (last pre)" using sp(1) \<open>pre \<noteq> []\<close> by (auto simp: list_all_iff)
    ultimately show False by (simp add: is_space_def)
  qed
qed

text \<open>Deleting a tenant through the admin console also revokes exactly the
  consents of that tenant, provided its identifier is given without surrounding white space; with white space
  the tenant and its users are removed all the same but every consent stays, and a tenant created
  later with the same identifier finds them.\<close>

lemma tenant_removal_consents:
  assumes "config_wf seed" and "entra_reach sha1 seed s" and "admin_delete_tenant sha1 tid s = (None, s')"
  shows "consent_pairs (es_consents s') =
    (if to_lower tid = norm_tid tid then {p \<in> consent_pairs (es_consents s). snd p \<noteq> norm_tid tid}
     else consent_pairs (es_consents s))"
proof -
  have inv: "config_wf (conf s)" "consent_store_wf (es_consents s)"
    using entra_reach_inv[OF assms(1,2)] by (simp_all add: entra_inv_def)
  let ?t = "norm_tid tid"
  obtain st where d: "delete_tenant sha1 tid (es_store s) = (None, st)"
    and s': "es_consents s' = consent_remove_tenant tid (es_consents s)"
    using assms(3) by (auto simp: admin_delete_tenant_def on_store_def split: prod.splits option.splits)
  have "list_ex (\<lambda>t. t_tid t = ?t) (c_tenants (conf s))"
    using d by (simp add: delete_tenant_removed conf_def snapshot_def split: if_splits)
  then have t: "guid_re ?t" using inv(1) by (auto simp: config_wf_def list_all_iff list_ex_iff tenant_wf_def)
  show ?thesis
  proof (cases "to_lower tid = ?t")
    case True
    then have "consent_remove_tenant tid (es_consents s) = consent_remove_tenant ?t (es_consents s)"
      using t by (simp add: consent_remove_tenant_def)
    then show ?thesis using consent_remove_tenant_pairs(1)[OF inv(2) t] True s' by simp
  next
    case False
    have x: "trim_space (to_lower tid) = ?t" by (simp add: norm_tid_def trim_space_to_lower)
    have "\<not> has_suffix (fst p) (''|'' @ to_lower tid)" if "p \<in> set (co_granted (es_consents s))" for p
    proof -
      have k: "fst p = consent_key (fst (entry_pair p)) (snd (entry_pair p))" "guid_re (snd (entry_pair p))"
        using inv(2) that by (simp_all add: consent_store_wf_def)
      show ?thesis
        using padded_suffix[OF k(2), of "to_lower tid" "fst (entry_pair p)"] t x False k by (simp add: consent_key_def)
    qed
    then have "consent_remove_tenant tid (es_consents s) = es_consents s"
      by (auto simp: consent_remove_tenant_def intro!: consent_store.equality filter_True)
    then show ?thesis using False s' by simp
  qed
qed

section \<open>Instances\<close>

definition sign_in_request :: request where
  "sign_in_request = sample_request\<lparr>rq_path := ''/entra/'' @ tid_b @ ''/oauth2/v2.0/authorize'',
     rq_raw_query := ''client_id=iam&response_type=code&redirect_uri=http://app.test/cb&scope=openid&login_hint=carol''\<rparr>"

definition redeem_here :: request where
  "redeem_here = redeem_request\<lparr>rq_path := ''/entra/'' @ tid_b @ ''/oauth2/v2.0/token''\<rparr>"

definition waiting_state :: entra_state where
  "waiting_state = snd (entra_handle sample_env sign_in_request sample_state)"

definition deleted_state :: entra_state where
  "deleted_state = snd (admin_delete_user (\<lambda>s. s) tid_b ''carol'' waiting_state)"

lemma sample_reach:
  "entra_reach (\<lambda>s. s) sample_seed sample_state" "entra_reach (\<lambda>s. s) sample_seed waiting_state"
  "entra_reach (\<lambda>s. s) sample_seed deleted_state"
proof -
  have e: "cr_sha1 (ee_crypto sample_env) = (\<lambda>s. s)" by (simp add: sample_env_def toy_crypto_def)
  show a: "entra_reach (\<lambda>s. s) sample_seed sample_state" unfolding sample_state_def by (rule entra_reach.reach_new)
  show b: "entra_reach (\<lambda>s. s) sample_seed waiting_state" unfolding waiting_state_def
    by (rule entra_reach.reach_step[OF a]) (rule entra_step.step_request[OF e prod.collapse[symmetric]])
  show "entra_reach (\<lambda>s. s) sample_seed deleted_state" unfolding deleted_state_def
    by (rule entra_reach.reach_step[OF b]) (rule entra_step.step_delete_user[OF prod.collapse[symmetric]])
qed

theorem entra_state_invariant_witness:
  "config_wf (conf waiting_state) \<and> codes_ok (es_codes waiting_state) \<and> map fst (es_codes waiting_state) = [''code-1'']"
proof -
  have "map fst (es_codes waiting_state) = [''code-1'']" by code_simp
  then show ?thesis using entra_state_invariant[OF sample_wf sample_reach(2)] by blast
qed

theorem only_known_panics_witness: "redeems_deleted deleted_state redeem_here"
proof -
  have other: "makeslice_panic \<noteq> nil_deref" by (simp add: makeslice_panic_def nil_deref_def)
  have "case fst (entra_handle sample_env redeem_here deleted_state) of Inl p \<Rightarrow> p = nil_deref | Inr _ \<Rightarrow> False" by code_simp
  then have "entra_handle sample_env redeem_here deleted_state = (Inl nil_deref, snd (entra_handle sample_env redeem_here deleted_state))"
    by (cases "entra_handle sample_env redeem_here deleted_state") (auto split: sum.splits)
  from only_known_panics[OF sample_wf sample_reach(3) this] show ?thesis using other by metis
qed

definition mint_carol :: mint_input where
  "mint_carol = \<lparr>mi_tid = tid_b, mi_username = ''carol'', mi_client_id = [], mi_scope = []\<rparr>"

end
