(* ===== verification/Login_Directory.thy ===== *)
theory Login_Directory
  imports Go_Prelude
begin

text \<open>
  The user directory of the login page (internal/directory/directory.go): an ordered list of users with a seed, keyed
  by username. Each operation runs under the mutex, so it is atomic. Reading the seed from its file is the
  argument of \<open>load_file\<close>: the outcome of \<open>os.ReadFile\<close> and the JSON decoder.

  Seen from outside the directory is a map from usernames to users; the contract is the locale
  \<open>user_registry\<close>. \<open>sort.Slice\<close> does not fix the order of equal usernames; the model keeps their order.
\<close>

section \<open>Contract\<close>

text \<open>What the login page and the admin console rely on.\<close>

locale user_registry =
  fixes look :: "'d \<Rightarrow> 'k \<Rightarrow> 'u option" and upsert :: "'u \<Rightarrow> 'd \<Rightarrow> 'e + 'd" and delete :: "'k \<Rightarrow> 'd \<Rightarrow> 'e + 'd"
    and clean :: "'u \<Rightarrow> 'u" and key :: "'u \<Rightarrow> 'k" and accepts :: "'u \<Rightarrow> bool"
  assumes upsert_look: "upsert u d = Inr d' \<Longrightarrow> look d' k = (if k = key (clean u) then Some (clean u) else look d k)"
    and upsert_ok: "is_ok (upsert u d) \<longleftrightarrow> accepts u"
    and delete_look: "delete n d = Inr d' \<Longrightarrow> look d' k = (if k = n then None else look d k)"
    and delete_ok: "is_ok (delete n d) \<longleftrightarrow> look d n \<noteq> None"
begin

lemma upsert_then_delete:
  assumes "upsert u d = Inr d'" and "look d (key (clean u)) = None"
  shows "\<exists>d''. delete (key (clean u)) d' = Inr d'' \<and> (\<forall>k. look d'' k = look d k)"
proof -
  have "look d' (key (clean u)) \<noteq> None" using upsert_look[OF assms(1)] by simp
  then obtain d'' where d: "delete (key (clean u)) d' = Inr d''" using delete_ok by (metis is_ok_iff)
  then show ?thesis using upsert_look[OF assms(1)] delete_look[OF d] assms(2) by auto
qed

lemma delete_twice: "delete n d = Inr d' \<Longrightarrow> \<exists>e. delete n d' = Inl e"
  using delete_look[of n d d' n] delete_ok[of n d'] by (cases "delete n d'") auto

end

section \<open>The directory\<close>

record dir_user =
  du_username :: string
  du_name :: string
  du_email :: string
  du_groups :: "string list"

record directory =
  dr_seed :: "dir_user list"
  dr_users :: "dir_user list"

datatype dir_error = UsernameRequired | DirUserNotFound string | DirUnreadable | DirInvalid

definition new_directory :: "dir_user list \<Rightarrow> directory" where
  "new_directory seed = \<lparr>dr_seed = seed, dr_users = seed\<rparr>"

text \<open>What \<open>os.ReadFile\<close> can answer.\<close>

datatype file_result = FileMissing | FileError | FileData string

definition load_directory :: "(string \<Rightarrow> dir_user list option) \<Rightarrow> file_result \<Rightarrow> dir_error + directory" where
  "load_directory unmarshal f =
     (case f of
        FileMissing \<Rightarrow> Inr \<lparr>dr_seed = [], dr_users = []\<rparr>
      | FileError \<Rightarrow> Inl DirUnreadable
      | FileData d \<Rightarrow> (case unmarshal d of None \<Rightarrow> Inl DirInvalid | Some users \<Rightarrow> Inr (new_directory users)))"

definition dir_list :: "directory \<Rightarrow> dir_user list" where
  "dir_list d = sort_key du_username (dr_users d)"

definition dir_get :: "directory \<Rightarrow> string \<Rightarrow> dir_user option" where
  "dir_get d username = find (\<lambda>u. du_username u = username) (dr_users d)"

definition compact_groups :: "string list \<Rightarrow> string list" where
  "compact_groups gs = filter (\<lambda>g. g \<noteq> []) (map trim_space gs)"

definition clean_dir_user :: "dir_user \<Rightarrow> dir_user" where
  "clean_dir_user u = u\<lparr>du_username := trim_space (du_username u), du_groups := compact_groups (du_groups u)\<rparr>"

fun replace_user :: "dir_user \<Rightarrow> dir_user list \<Rightarrow> dir_user list" where
  "replace_user u [] = [u]"
| "replace_user u (v # vs) = (if du_username v = du_username u then u # vs else v # replace_user u vs)"

definition dir_upsert :: "dir_user \<Rightarrow> directory \<Rightarrow> dir_error + directory" where
  "dir_upsert u0 d =
     (let u = clean_dir_user u0 in
      if du_username u = [] then Inl UsernameRequired else Inr (d\<lparr>dr_users := replace_user u (dr_users d)\<rparr>))"

definition dir_delete :: "string \<Rightarrow> directory \<Rightarrow> dir_error + directory" where
  "dir_delete username d =
     (let kept = filter (\<lambda>u. du_username u \<noteq> username) (dr_users d) in
      if list_ex (\<lambda>u. du_username u = username) (dr_users d) then Inr (d\<lparr>dr_users := kept\<rparr>)
      else Inl (DirUserNotFound username))"

definition dir_reset :: "directory \<Rightarrow> directory" where
  "dir_reset d = d\<lparr>dr_users := dr_seed d\<rparr>"

section \<open>Laws\<close>

lemma find_replace_user:
  "find (\<lambda>v. du_username v = n) (replace_user u vs) = (if n = du_username u then Some u else find (\<lambda>v. du_username v = n) vs)"
  by (induction vs) auto

lemma find_filter_user:
  "find (\<lambda>v. du_username v = n) (filter (\<lambda>v. du_username v \<noteq> m) vs) = (if n = m then None else find (\<lambda>v. du_username v = n) vs)"
  by (induction vs) auto

lemma dir_get_upsert:
  "dir_upsert u d = Inr d' \<Longrightarrow> dir_get d' n = (if n = du_username (clean_dir_user u) then Some (clean_dir_user u) else dir_get d n)"
  by (auto simp: dir_upsert_def dir_get_def Let_def find_replace_user split: if_splits)

lemma dir_get_delete: "dir_delete m d = Inr d' \<Longrightarrow> dir_get d' n = (if n = m then None else dir_get d n)"
  by (auto simp: dir_delete_def dir_get_def Let_def find_filter_user split: if_splits)

lemma dir_get_ex: "dir_get d n \<noteq> None \<longleftrightarrow> list_ex (\<lambda>u. du_username u = n) (dr_users d)"
  by (auto simp: dir_get_def find_None_iff_ball list_ex_iff)

interpretation login_users: user_registry dir_get dir_upsert dir_delete clean_dir_user du_username
  "\<lambda>u. trim_space (du_username u) \<noteq> []"
proof unfold_locales
  show "is_ok (dir_upsert u d) \<longleftrightarrow> trim_space (du_username u) \<noteq> []" for u d
    by (simp add: dir_upsert_def clean_dir_user_def Let_def)
  show "is_ok (dir_delete n d) \<longleftrightarrow> dir_get d n \<noteq> None" for n d
    unfolding dir_get_ex by (simp add: dir_delete_def Let_def)
qed (auto simp: dir_get_upsert dir_get_delete)

text \<open>The abstract view: a finite map from usernames to users.\<close>

definition dir_view :: "directory \<Rightarrow> string \<rightharpoonup> dir_user" where
  "dir_view d = dir_get d"

text \<open>C33: directory_refines_map. The directory implements a map from usernames to users: an insert with a
  non-blank name updates exactly that name (with trimmed name and groups), a delete of a present name removes it and of
  an absent one fails and changes nothing, a reset gives back the seed, and the listing is
  sorted and shows exactly the stored users.\<close>

theorem directory_refines_map:
  "(case dir_upsert u d of
      Inl e \<Rightarrow> trim_space (du_username u) = [] \<and> e = UsernameRequired
    | Inr d' \<Rightarrow> dir_view d' = (dir_view d)(trim_space (du_username u) \<mapsto> clean_dir_user u) \<and> dr_seed d' = dr_seed d) \<and>
   (case dir_delete n d of
      Inl e \<Rightarrow> dir_view d n = None \<and> e = DirUserNotFound n
    | Inr d' \<Rightarrow> dir_view d n \<noteq> None \<and> dir_view d' = (dir_view d)(n := None) \<and> dr_seed d' = dr_seed d) \<and>
   dir_view (dir_reset d) = dir_view (new_directory (dr_seed d)) \<and>
   sorted (map du_username (dir_list d)) \<and> set (dir_list d) = set (dr_users d)"
proof -
  have name: "du_username (clean_dir_user u) = trim_space (du_username u)" by (simp add: clean_dir_user_def)
  have up: "case dir_upsert u d of
      Inl e \<Rightarrow> trim_space (du_username u) = [] \<and> e = UsernameRequired
    | Inr d' \<Rightarrow> dir_view d' = (dir_view d)(trim_space (du_username u) \<mapsto> clean_dir_user u) \<and> dr_seed d' = dr_seed d"
  proof (cases "dir_upsert u d")
    case (Inl e)
    then show ?thesis by (auto simp: dir_upsert_def name Let_def split: if_splits)
  next
    case (Inr d')
    have "dr_seed d' = dr_seed d" using Inr by (auto simp: dir_upsert_def Let_def split: if_splits)
    then show ?thesis using login_users.upsert_look[OF Inr] Inr by (auto simp: dir_view_def fun_eq_iff name)
  qed
  have de: "case dir_delete n d of
      Inl e \<Rightarrow> dir_view d n = None \<and> e = DirUserNotFound n
    | Inr d' \<Rightarrow> dir_view d n \<noteq> None \<and> dir_view d' = (dir_view d)(n := None) \<and> dr_seed d' = dr_seed d"
  proof (cases "dir_delete n d")
    case (Inl e)
    then have "dir_get d n = None" "e = DirUserNotFound n"
      using dir_get_ex[of d n] by (auto simp: dir_delete_def Let_def split: if_splits)
    then show ?thesis using Inl by (simp add: dir_view_def)
  next
    case (Inr d')
    have "dr_seed d' = dr_seed d" "dir_get d n \<noteq> None"
      using Inr dir_get_ex[of d n] by (auto simp: dir_delete_def Let_def split: if_splits)
    then show ?thesis using login_users.delete_look[OF Inr] Inr by (auto simp: dir_view_def fun_eq_iff)
  qed
  have "dir_view (dir_reset d) = dir_view (new_directory (dr_seed d))"
    by (auto simp: dir_view_def dir_get_def dir_reset_def new_directory_def)
  then show ?thesis using up de by (simp add: dir_list_def)
qed

end
