(* ===== verification/Token_Keys.thy ===== *)
theory Token_Keys
  imports Entra_Keys
begin

text \<open>
  The signing keys of the built-in issuers (internal/token/keyprovider.go): one key per issuer,
  taken from an ordered pool of initial keys and generated once the pool is empty.

  A private key is named by a number; a generated one is an argument. \<open>signing_key_of\<close> is the operation
  run alone. Concurrent calls interleave at the three atomic points of the code, the load of the map,
  the locked removal from the pool and the \<open>LoadOrStore\<close>; they are the steps of \<open>kp_step\<close>. Token_Lock opens the
  locked removal and shows that it may be taken for one step.
\<close>

section \<open>The provider\<close>

definition supported_algorithms :: "(string \<times> string) list" where
  "supported_algorithms =
     [(''RS256'', ''RSA''), (''RS384'', ''RSA''), (''RS512'', ''RSA''), (''ES256'', ''EC''), (''ES384'', ''EC'')]"

definition algorithm_family :: "string \<Rightarrow> string option" where
  "algorithm_family alg = map_of supported_algorithms alg"

record key_provider =
  kp_initial :: "signing_key list"
  kp_keys :: "(string, signing_key) gomap"
  kp_alg :: string
  kp_family :: string

text \<open>\<open>NewKeyProvider\<close> after the key set has been read, and the provider of one configured key.\<close>

definition new_key_provider :: "signing_key list \<Rightarrow> string \<Rightarrow> key_provider option" where
  "new_key_provider initial alg =
     map_option (\<lambda>family. \<lparr>kp_initial = initial, kp_keys = [], kp_alg = alg, kp_family = family\<rparr>) (algorithm_family alg)"

definition key_provider_from_initial :: "signing_key \<Rightarrow> string \<Rightarrow> key_provider option" where
  "key_provider_from_initial key alg =
     (case algorithm_family alg of
        None \<Rightarrow> None
      | Some family \<Rightarrow> if sk_kty key \<noteq> family then None else new_key_provider [key] alg)"

definition generate_key :: "string \<Rightarrow> string \<Rightarrow> string \<Rightarrow> nat \<Rightarrow> signing_key" where
  "generate_key iss alg family rsa =
     \<lparr>sk_kty = (if family = ''EC'' then ''EC'' else ''RSA''), sk_kid = iss, sk_alg = alg, sk_use = ''sig'', sk_private = rsa\<rparr>"

definition key_from_pool_or_new :: "string \<Rightarrow> nat \<Rightarrow> key_provider \<Rightarrow> signing_key \<times> key_provider" where
  "key_from_pool_or_new iss rsa p =
     (case kp_initial p of
        pooled # rest \<Rightarrow>
          (\<lparr>sk_kty = sk_kty pooled, sk_kid = iss, sk_alg = kp_alg p, sk_use = ''sig'', sk_private = sk_private pooled\<rparr>,
           p\<lparr>kp_initial := rest\<rparr>)
      | [] \<Rightarrow> (generate_key iss (kp_alg p) (kp_family p) rsa, p))"

text \<open>\<open>sync.Map.LoadOrStore\<close>.\<close>

definition load_or_store :: "string \<Rightarrow> signing_key \<Rightarrow> key_provider \<Rightarrow> signing_key \<times> key_provider" where
  "load_or_store iss key p =
     (case map_get (kp_keys p) iss of
        Some k \<Rightarrow> (k, p)
      | None \<Rightarrow> (key, p\<lparr>kp_keys := map_put iss key (kp_keys p)\<rparr>))"

definition signing_key_of :: "nat \<Rightarrow> string \<Rightarrow> key_provider \<Rightarrow> signing_key \<times> key_provider" where
  "signing_key_of rsa iss p =
     (case map_get (kp_keys p) iss of
        Some k \<Rightarrow> (k, p)
      | None \<Rightarrow> (case key_from_pool_or_new iss rsa p of (key, p') \<Rightarrow> load_or_store iss key p'))"

definition public_jwks_for :: "crypto \<Rightarrow> nat \<Rightarrow> string \<Rightarrow> key_provider \<Rightarrow> string \<times> key_provider" where
  "public_jwks_for k rsa iss p =
     (case signing_key_of rsa iss p of (key, p') \<Rightarrow> (public_jwks_of k [key], p'))"

section \<open>Concurrent calls\<close>

datatype kp_call =
    CallStart string
  | CallMissed string
  | CallHolding string signing_key
  | CallDone string signing_key

record kp_system =
  ks_provider :: key_provider
  ks_calls :: "kp_call list"

inductive kp_step :: "kp_system \<Rightarrow> kp_system \<Rightarrow> bool" where
  step_hit: "i < length (ks_calls s) \<Longrightarrow> ks_calls s ! i = CallStart iss \<Longrightarrow>
    map_get (kp_keys (ks_provider s)) iss = Some k \<Longrightarrow> kp_step s (s\<lparr>ks_calls := (ks_calls s)[i := CallDone iss k]\<rparr>)"
| step_miss: "i < length (ks_calls s) \<Longrightarrow> ks_calls s ! i = CallStart iss \<Longrightarrow>
    map_get (kp_keys (ks_provider s)) iss = None \<Longrightarrow> kp_step s (s\<lparr>ks_calls := (ks_calls s)[i := CallMissed iss]\<rparr>)"
| step_take: "i < length (ks_calls s) \<Longrightarrow> ks_calls s ! i = CallMissed iss \<Longrightarrow>
    key_from_pool_or_new iss rsa (ks_provider s) = (key, p') \<Longrightarrow>
    kp_step s (s\<lparr>ks_provider := p', ks_calls := (ks_calls s)[i := CallHolding iss key]\<rparr>)"
| step_store: "i < length (ks_calls s) \<Longrightarrow> ks_calls s ! i = CallHolding iss key \<Longrightarrow>
    load_or_store iss key (ks_provider s) = (actual, p') \<Longrightarrow>
    kp_step s (s\<lparr>ks_provider := p', ks_calls := (ks_calls s)[i := CallDone iss actual]\<rparr>)"

inductive kp_reach :: "kp_system \<Rightarrow> kp_system \<Rightarrow> bool" for s0 where
  kp_refl: "kp_reach s0 s0"
| kp_trans: "kp_reach s0 s \<Longrightarrow> kp_step s s' \<Longrightarrow> kp_reach s0 s'"

section \<open>Laws\<close>

text \<open>The key of an issuer carries the issuer as its identifier and the algorithm of the server.\<close>

definition key_for :: "key_provider \<Rightarrow> string \<Rightarrow> signing_key \<Rightarrow> bool" where
  "key_for p iss k \<longleftrightarrow> sk_kid k = iss \<and> sk_alg k = kp_alg p"

definition provider_wf :: "key_provider \<Rightarrow> bool" where
  "provider_wf p \<longleftrightarrow> (\<forall>iss k. map_get (kp_keys p) iss = Some k \<longrightarrow> key_for p iss k)"

lemma pool_key:
  assumes "key_from_pool_or_new iss rsa p = (key, p')"
  shows "key_for p iss key" "kp_keys p' = kp_keys p" "kp_alg p' = kp_alg p" "kp_family p' = kp_family p"
  using assms by (auto simp: key_from_pool_or_new_def key_for_def generate_key_def split: list.splits)

lemma load_or_store_wf:
  assumes "load_or_store iss key p = (actual, p')" and "provider_wf p" and "key_for p iss key"
  shows "provider_wf p'" "map_get (kp_keys p') iss = Some actual" "key_for p' iss actual" "kp_alg p' = kp_alg p"
    "map_get (kp_keys p) i = Some k \<Longrightarrow> map_get (kp_keys p') i = Some k"
  using assms by (auto simp: load_or_store_def provider_wf_def key_for_def split: option.splits if_splits)

lemma signing_key_wf:
  assumes "provider_wf p" and "signing_key_of rsa iss p = (key, p')"
  shows "provider_wf p'" "map_get (kp_keys p') iss = Some key" "key_for p' iss key"
    "map_get (kp_keys p) i = Some k \<Longrightarrow> map_get (kp_keys p') i = Some k" "kp_alg p' = kp_alg p"
proof -
  have "provider_wf p' \<and> map_get (kp_keys p') iss = Some key \<and> key_for p' iss key \<and> kp_alg p' = kp_alg p \<and>
      (\<forall>i k. map_get (kp_keys p) i = Some k \<longrightarrow> map_get (kp_keys p') i = Some k)"
  proof (cases "map_get (kp_keys p) iss")
    case (Some k)
    then show ?thesis using assms by (auto simp: signing_key_of_def provider_wf_def)
  next
    case None
    obtain key0 p0 where k0: "key_from_pool_or_new iss rsa p = (key0, p0)" by (rule prod.exhaust)
    have l: "load_or_store iss key0 p0 = (key, p')" using assms(2) None k0 by (simp add: signing_key_of_def)
    have w: "provider_wf p0" "key_for p0 iss key0"
      using assms(1) pool_key[OF k0] by (simp_all add: provider_wf_def key_for_def)
    show ?thesis using load_or_store_wf[OF l w] pool_key(2,3)[OF k0] by simp
  qed
  then show "provider_wf p'" "map_get (kp_keys p') iss = Some key" "key_for p' iss key"
    "map_get (kp_keys p) i = Some k \<Longrightarrow> map_get (kp_keys p') i = Some k" "kp_alg p' = kp_alg p" by blast+
qed

text \<open>The invariant of the interleaving: a finished call holds the published key of its issuer.\<close>

definition call_ok :: "key_provider \<Rightarrow> kp_call \<Rightarrow> bool" where
  "call_ok p c = (case c of
     CallHolding iss k \<Rightarrow> key_for p iss k
   | CallDone iss k \<Rightarrow> map_get (kp_keys p) iss = Some k
   | _ \<Rightarrow> True)"

definition system_ok :: "kp_system \<Rightarrow> bool" where
  "system_ok s \<longleftrightarrow> provider_wf (ks_provider s) \<and> (\<forall>c\<in>set (ks_calls s). call_ok (ks_provider s) c)"

lemma system_ok_update:
  assumes "system_ok s" and "provider_wf p'" and "call_ok p' c"
    and "\<And>d. call_ok (ks_provider s) d \<Longrightarrow> call_ok p' d"
  shows "system_ok (s\<lparr>ks_provider := p', ks_calls := (ks_calls s)[i := c]\<rparr>)"
  using assms set_update_subset_insert[of "ks_calls s" i c] by (auto simp: system_ok_def)

lemma kp_step_ok:
  assumes "kp_step s s'" and "system_ok s"
  shows "system_ok s'"
  using assms(1)
proof cases
  case (step_hit i iss k)
  then show ?thesis using assms(2) system_ok_update[OF assms(2), of "ks_provider s" "CallDone iss k" i]
    by (simp add: system_ok_def call_ok_def)
next
  case (step_miss i iss)
  then show ?thesis using assms(2) system_ok_update[OF assms(2), of "ks_provider s" "CallMissed iss" i]
    by (simp add: system_ok_def call_ok_def)
next
  case (step_take i iss rsa key p')
  note k = pool_key[OF step_take(4)]
  have "call_ok (ks_provider s) d \<Longrightarrow> call_ok p' d" for d
    using k(2,3) by (auto simp: call_ok_def key_for_def split: kp_call.splits)
  then show ?thesis unfolding step_take(1)
    using assms(2) k by (intro system_ok_update) (auto simp: system_ok_def call_ok_def provider_wf_def key_for_def)
next
  case (step_store i iss key actual p')
  have w: "provider_wf (ks_provider s)" "key_for (ks_provider s) iss key"
    using assms(2) step_store(2,3) nth_mem[OF step_store(2)] by (auto simp: system_ok_def call_ok_def)
  note l = load_or_store_wf[OF step_store(4) w]
  have "call_ok (ks_provider s) d \<Longrightarrow> call_ok p' d" for d
    using l(4,5) by (auto simp: call_ok_def key_for_def split: kp_call.splits)
  then show ?thesis unfolding step_store(1)
    using assms(2) l(1,2) by (intro system_ok_update) (auto simp: call_ok_def)
qed

lemma kp_reach_ok: "kp_reach s0 s \<Longrightarrow> system_ok s0 \<Longrightarrow> system_ok s"
  by (induction rule: kp_reach.induct) (auto intro: kp_step_ok)

text \<open>C22: one_key_per_issuer. However concurrent requests for signing keys interleave, every call that has
  returned for an issuer holds the same key: the published one, whose identifier is
  the issuer and whose algorithm is the configured one.\<close>

theorem one_key_per_issuer:
  assumes "provider_wf p" and "kp_reach \<lparr>ks_provider = p, ks_calls = map CallStart isss\<rparr> s"
    and "CallDone iss k \<in> set (ks_calls s)" and "CallDone iss k' \<in> set (ks_calls s)"
  shows "k = k' \<and> map_get (kp_keys (ks_provider s)) iss = Some k \<and> sk_kid k = iss \<and> sk_alg k = kp_alg (ks_provider s)"
proof -
  have "system_ok \<lparr>ks_provider = p, ks_calls = map CallStart isss\<rparr>"
    using assms(1) by (auto simp: system_ok_def call_ok_def)
  then have ok: "system_ok s" by (rule kp_reach_ok[OF assms(2)])
  then have "call_ok (ks_provider s) (CallDone iss k)" "call_ok (ks_provider s) (CallDone iss k')"
    using assms(3,4) by (auto simp: system_ok_def)
  then show ?thesis using ok by (auto simp: call_ok_def system_ok_def provider_wf_def key_for_def)
qed

text \<open>Two calls for one new issuer can both take a key of the pool: the key of the next issuer
  is then the third of the pool, and not the second as in a run without the race.\<close>

definition pool_key_of :: "nat \<Rightarrow> signing_key" where
  "pool_key_of n = \<lparr>sk_kty = ''RSA'', sk_kid = [], sk_alg = ''RS256'', sk_use = ''sig'', sk_private = n\<rparr>"

definition pool_provider :: key_provider where
  "pool_provider = \<lparr>kp_initial = map pool_key_of [1, 2, 3], kp_keys = [], kp_alg = ''RS256'', kp_family = ''RSA''\<rparr>"

definition raced_provider :: key_provider where
  "raced_provider = pool_provider\<lparr>kp_initial := [pool_key_of 3], kp_keys := [(''a'', rs256_key ''a'' 1)]\<rparr>"

definition raced_system :: kp_system where
  "raced_system = \<lparr>ks_provider = raced_provider, ks_calls = [CallDone ''a'' (rs256_key ''a'' 1), CallDone ''a'' (rs256_key ''a'' 1)]\<rparr>"

lemma raced_reach: "kp_reach \<lparr>ks_provider = pool_provider, ks_calls = map CallStart [''a'', ''a'']\<rparr> raced_system"
proof -
  let ?s0 = "\<lparr>ks_provider = pool_provider, ks_calls = [CallStart ''a'', CallStart ''a'']\<rparr>"
  let ?s1 = "\<lparr>ks_provider = pool_provider, ks_calls = [CallMissed ''a'', CallStart ''a'']\<rparr>"
  let ?s2 = "\<lparr>ks_provider = pool_provider, ks_calls = [CallMissed ''a'', CallMissed ''a'']\<rparr>"
  let ?k = "\<lambda>n. rs256_key ''a'' n"
  let ?s3 = "\<lparr>ks_provider = pool_provider\<lparr>kp_initial := map pool_key_of [2, 3]\<rparr>, ks_calls = [CallHolding ''a'' (?k 1), CallMissed ''a'']\<rparr>"
  let ?s4 = "\<lparr>ks_provider = pool_provider\<lparr>kp_initial := [pool_key_of 3]\<rparr>, ks_calls = [CallHolding ''a'' (?k 1), CallHolding ''a'' (?k 2)]\<rparr>"
  let ?s5 = "\<lparr>ks_provider = raced_provider, ks_calls = [CallDone ''a'' (?k 1), CallHolding ''a'' (?k 2)]\<rparr>"
  note d = pool_provider_def raced_provider_def key_from_pool_or_new_def load_or_store_def pool_key_of_def rs256_key_def
    map_get_def map_put_def
  have "kp_step ?s0 ?s1" using kp_step.step_miss[of 0 ?s0 "''a''"] by (simp add: d)
  moreover have "kp_step ?s1 ?s2" using kp_step.step_miss[of 1 ?s1 "''a''"] by (simp add: d)
  moreover have "kp_step ?s2 ?s3" using kp_step.step_take[of 0 ?s2 "''a''" 0] by (simp add: d)
  moreover have "kp_step ?s3 ?s4" using kp_step.step_take[of 1 ?s3 "''a''" 0] by (simp add: d)
  moreover have "kp_step ?s4 ?s5" using kp_step.step_store[of 0 ?s4 "''a''" "?k 1"] by (simp add: d)
  moreover have "kp_step ?s5 raced_system" using kp_step.step_store[of 1 ?s5 "''a''" "?k 2"] by (simp add: d raced_system_def)
  ultimately have "kp_reach ?s0 raced_system" by (meson kp_reach.intros)
  then show ?thesis by simp
qed

theorem one_key_per_issuer_witness:
  "map_get (kp_keys (ks_provider raced_system)) ''a'' = Some (rs256_key ''a'' 1)"
proof -
  have "provider_wf pool_provider" by (simp add: provider_wf_def pool_provider_def map_get_def)
  from one_key_per_issuer[OF this raced_reach, of "''a''" "rs256_key ''a'' 1" "rs256_key ''a'' 1"]
  show ?thesis by (simp add: raced_system_def)
qed

lemma raced_pool_order:
  "sk_private (fst (signing_key_of 0 ''b'' (snd (signing_key_of 0 ''a'' pool_provider)))) = 2 \<and>
   sk_private (fst (signing_key_of 0 ''b'' (ks_provider raced_system))) = 3"
  by (simp add: signing_key_of_def key_from_pool_or_new_def load_or_store_def pool_provider_def raced_provider_def
      raced_system_def pool_key_of_def rs256_key_def map_get_def map_put_def)

end
