(* ===== verification/Token_Callback.thy ===== *)
theory Token_Callback
  imports Token_Keys
begin

text \<open>
  Token callbacks (internal/token/callback.go) and the two that the grants wrap around them
  (internal/grant): who the subject and the audience of a token are, and which claims are added.

  The dynamic types behind the interface \<open>Callback\<close> are the constructors of \<open>callback\<close>; a type
  assertion is a case distinction. \<open>OtherCallback\<close> is an implementation supplied by a user of
  the Go library. The regular expressions of request mappings (\<open>regexp\<close>), the decoding of the claims a user
  types on the login page (encoding/json) and the order in which Go ranges over a map are
  arguments, collected in \<open>callback_env\<close>.
\<close>

section \<open>Data\<close>

record callback_env =
  ce_regex :: "string \<Rightarrow> string \<Rightarrow> bool"
  ce_unmarshal :: "string \<Rightarrow> claims option"
  ce_order :: "(string, string) gomap \<Rightarrow> (string \<times> string) list"

record default_callback =
  dc_issuer :: string
  dc_subject :: string
  dc_type :: string
  dc_audience :: "string list option"
  dc_claims :: claims
  dc_expiry :: int

record mapping =
  mp_param :: string
  mp_match :: string
  mp_claims :: claims
  mp_type :: string

record mapping_callback =
  mc_issuer :: string
  mc_mappings :: "mapping list"
  mc_expiry :: int

record login =
  lg_username :: string
  lg_claims :: string

record other_callback =
  oc_issuer :: string
  oc_subject :: "token_request \<Rightarrow> string"
  oc_type :: "token_request \<Rightarrow> string"
  oc_audience :: "token_request \<Rightarrow> string list"
  oc_claims :: "token_request \<Rightarrow> claims"
  oc_expiry :: int

datatype callback =
    DefaultCallback default_callback
  | MappingCallback mapping_callback
  | MappingWithExtra mapping_callback "(string, string) gomap"
  | LoginCallback login callback
  | PasswordCallback string callback
  | OtherCallback other_callback

definition new_default_callback :: "string \<Rightarrow> string \<Rightarrow> callback" where
  "new_default_callback uuid iss = DefaultCallback
     \<lparr>dc_issuer = iss, dc_subject = uuid, dc_type = ''JWT'', dc_audience = None, dc_claims = [], dc_expiry = 3600\<rparr>"

section \<open>The default callback\<close>

definition default_subject :: "default_callback \<Rightarrow> token_request \<Rightarrow> string" where
  "default_subject c tr = (if tr_grant_type tr = grant_client_credentials then tr_client_id tr else dc_subject c)"

definition default_audience :: "default_callback \<Rightarrow> token_request \<Rightarrow> string list" where
  "default_audience c tr =
     (case dc_audience c of
        Some a \<Rightarrow> a
      | None \<Rightarrow> if tr_audience tr \<noteq> [] then tr_audience tr
                else if tr_scope tr \<noteq> [] then scopes_without_oidc tr else [''default''])"

definition default_add_claims :: "default_callback \<Rightarrow> token_request \<Rightarrow> claims" where
  "default_add_claims c tr =
     (let claims = fold (\<lambda>(k, v). map_put k v) (dc_claims c) [(''tid'', VStr (dc_issuer c))]
      in if tr_grant_type tr = grant_authorization_code then map_put ''azp'' (VStr (tr_client_id tr)) claims else claims)"

section \<open>Request mappings\<close>

definition mapping_matches :: "callback_env \<Rightarrow> mapping \<Rightarrow> token_request \<Rightarrow> (string, string) gomap \<Rightarrow> bool" where
  "mapping_matches env m tr extra =
     (let vs = values_all (tr_form tr) (mp_param m);
          values = (if vs \<noteq> [] then vs
                    else if mp_param m = ''client_id'' then (if tr_client_id tr \<noteq> [] then [tr_client_id tr] else [])
                    else (case map_get extra (mp_param m) of Some v \<Rightarrow> [v] | None \<Rightarrow> []))
      in list_ex (\<lambda>v. mp_match m = ''*'' \<or> mp_match m = v \<or> ce_regex env (mp_match m) v) values)"

definition replace_all :: "string \<Rightarrow> string \<Rightarrow> string \<Rightarrow> string" where
  "replace_all s old new = str_join (str_split s old) new"

definition template_text :: "(string \<times> string) list \<Rightarrow> string \<Rightarrow> string" where
  "template_text params s = fold (\<lambda>(name, val) s. replace_all s (''${'' @ name @ ''}'') val) params s"

definition template_values :: "callback_env \<Rightarrow> claims \<Rightarrow> (string, string) gomap \<Rightarrow> claims" where
  "template_values env claims params =
     map (\<lambda>(k, v). (k, case v of VStr s \<Rightarrow> VStr (template_text (ce_order env params) s) | _ \<Rightarrow> v)) claims"

text \<open>Template variables: the extra values, over them the form, over that the client.\<close>

definition template_params :: "token_request \<Rightarrow> (string, string) gomap \<Rightarrow> (string, string) gomap" where
  "template_params tr extra =
     map_put ''client_id'' (tr_client_id tr) (map_put ''clientId'' (tr_client_id tr)
       (fold (\<lambda>(k, vs). map_put k (str_join vs '' '')) (tr_form tr) extra))"

definition mapping_resolve ::
  "callback_env \<Rightarrow> mapping_callback \<Rightarrow> token_request \<Rightarrow> (string, string) gomap \<Rightarrow> claims \<times> string" where
  "mapping_resolve env c tr extra =
     (let matched = find (\<lambda>m. mapping_matches env m tr extra) (mc_mappings c);
          claims = (case matched of Some m \<Rightarrow> mp_claims m | None \<Rightarrow> []);
          typ = (case matched of Some m \<Rightarrow> if mp_type m \<noteq> [] then mp_type m else ''JWT'' | None \<Rightarrow> ''JWT'')
      in (template_values env claims (template_params tr extra), typ))"

definition audience_from :: "gval \<Rightarrow> string list" where
  "audience_from v = (case v of VStr s \<Rightarrow> [s] | VArr vs \<Rightarrow> string_elems vs | _ \<Rightarrow> [])"

definition mapping_subject :: "callback_env \<Rightarrow> mapping_callback \<Rightarrow> token_request \<Rightarrow> (string, string) gomap \<Rightarrow> string" where
  "mapping_subject env c tr extra = string_claim (claim_get (fst (mapping_resolve env c tr extra)) ''sub'')"

definition mapping_audience :: "callback_env \<Rightarrow> mapping_callback \<Rightarrow> token_request \<Rightarrow> (string, string) gomap \<Rightarrow> string list" where
  "mapping_audience env c tr extra = audience_from (claim_get (fst (mapping_resolve env c tr extra)) ''aud'')"

section \<open>Wrapped callbacks\<close>

definition subject_param :: string where "subject_param = ''subject''"

definition with_subject :: "string \<Rightarrow> callback \<Rightarrow> callback" where
  "with_subject username cb = (case cb of MappingCallback m \<Rightarrow> MappingWithExtra m [(subject_param, username)] | _ \<Rightarrow> cb)"

definition password_resolved :: "string \<Rightarrow> callback \<Rightarrow> callback" where
  "password_resolved username cb = (if username \<noteq> [] then with_subject username cb else cb)"

text \<open>Claims of the login page are added where the callback has none of that name.\<close>

definition put_absent :: "string \<times> gval \<Rightarrow> claims \<Rightarrow> claims" where
  "put_absent p claims = (if map_get claims (fst p) = None then map_put (fst p) (snd p) claims else claims)"

definition merge_login_claims :: "callback_env \<Rightarrow> login \<Rightarrow> claims \<Rightarrow> claims" where
  "merge_login_claims env lg claims =
     (if lg_claims lg = [] then claims
      else case ce_unmarshal env (lg_claims lg) of
             None \<Rightarrow> claims
           | Some typed \<Rightarrow> fold put_absent typed claims)"

section \<open>The interface\<close>

fun cb_issuer :: "callback \<Rightarrow> string" where
  "cb_issuer (DefaultCallback c) = dc_issuer c"
| "cb_issuer (MappingCallback c) = mc_issuer c"
| "cb_issuer (MappingWithExtra c x) = mc_issuer c"
| "cb_issuer (LoginCallback lg cb) = cb_issuer cb"
| "cb_issuer (PasswordCallback u cb) = cb_issuer cb"
| "cb_issuer (OtherCallback c) = oc_issuer c"

fun cb_expiry :: "callback \<Rightarrow> int" where
  "cb_expiry (DefaultCallback c) = dc_expiry c"
| "cb_expiry (MappingCallback c) = mc_expiry c"
| "cb_expiry (MappingWithExtra c x) = mc_expiry c"
| "cb_expiry (LoginCallback lg cb) = cb_expiry cb"
| "cb_expiry (PasswordCallback u cb) = cb_expiry cb"
| "cb_expiry (OtherCallback c) = oc_expiry c"

lemma size_with_subject: "size (with_subject u cb) = size cb"
  by (simp add: with_subject_def split: callback.split)

text \<open>The size of a wrapper does not depend on the mapping below it.\<close>

function cb_type_header :: "callback_env \<Rightarrow> callback \<Rightarrow> token_request \<Rightarrow> string" where
  "cb_type_header env (DefaultCallback c) tr = dc_type c"
| "cb_type_header env (MappingCallback c) tr = snd (mapping_resolve env c tr [])"
| "cb_type_header env (MappingWithExtra c x) tr = snd (mapping_resolve env c tr x)"
| "cb_type_header env (LoginCallback lg cb) tr = cb_type_header env (with_subject (lg_username lg) cb) tr"
| "cb_type_header env (PasswordCallback u cb) tr = cb_type_header env (password_resolved u cb) tr"
| "cb_type_header env (OtherCallback c) tr = oc_type c tr"
  by pat_completeness auto
termination
  by (relation "measure (\<lambda>(_, cb, _). size cb)") (auto simp: size_with_subject password_resolved_def)

function cb_audience :: "callback_env \<Rightarrow> callback \<Rightarrow> token_request \<Rightarrow> string list" where
  "cb_audience env (DefaultCallback c) tr = default_audience c tr"
| "cb_audience env (MappingCallback c) tr = mapping_audience env c tr []"
| "cb_audience env (MappingWithExtra c x) tr = mapping_audience env c tr x"
| "cb_audience env (LoginCallback lg cb) tr = cb_audience env (with_subject (lg_username lg) cb) tr"
| "cb_audience env (PasswordCallback u cb) tr = cb_audience env (password_resolved u cb) tr"
| "cb_audience env (OtherCallback c) tr = oc_audience c tr"
  by pat_completeness auto
termination
  by (relation "measure (\<lambda>(_, cb, _). size cb)") (auto simp: size_with_subject password_resolved_def)

function cb_subject :: "callback_env \<Rightarrow> callback \<Rightarrow> token_request \<Rightarrow> string" where
  "cb_subject env (DefaultCallback c) tr = default_subject c tr"
| "cb_subject env (MappingCallback c) tr = mapping_subject env c tr []"
| "cb_subject env (MappingWithExtra c x) tr = mapping_subject env c tr x"
| "cb_subject env (LoginCallback lg cb) tr =
     (case cb of
        MappingCallback m \<Rightarrow>
          let s = mapping_subject env m tr [(subject_param, lg_username lg)] in if s \<noteq> [] then s else lg_username lg
      | _ \<Rightarrow> lg_username lg)"
| "cb_subject env (PasswordCallback u cb) tr = (if u \<noteq> [] then u else cb_subject env cb tr)"
| "cb_subject env (OtherCallback c) tr = oc_subject c tr"
  by pat_completeness auto
termination
  by (relation "measure (\<lambda>(_, cb, _). size cb)") auto

function cb_add_claims :: "callback_env \<Rightarrow> callback \<Rightarrow> token_request \<Rightarrow> claims" where
  "cb_add_claims env (DefaultCallback c) tr = default_add_claims c tr"
| "cb_add_claims env (MappingCallback c) tr = fst (mapping_resolve env c tr [])"
| "cb_add_claims env (MappingWithExtra c x) tr = fst (mapping_resolve env c tr x)"
| "cb_add_claims env (LoginCallback lg cb) tr =
     merge_login_claims env lg (cb_add_claims env (with_subject (lg_username lg) cb) tr)"
| "cb_add_claims env (PasswordCallback u cb) tr = cb_add_claims env (password_resolved u cb) tr"
| "cb_add_claims env (OtherCallback c) tr = oc_claims c tr"
  by pat_completeness auto
termination
  by (relation "measure (\<lambda>(_, cb, _). size cb)") (auto simp: size_with_subject password_resolved_def)

section \<open>Laws\<close>

lemma put_absent_get: "map_get (put_absent p c) n = (case map_get c n of Some v \<Rightarrow> Some v | None \<Rightarrow> if n = fst p then Some (snd p) else None)"
  by (auto simp: put_absent_def split: option.split)

text \<open>The order of the template variables shows when the value of one contains the name of another.\<close>

lemma template_order_matters:
  "template_text [(''a'', ''${b}''), (''b'', ''x'')] ''${a}'' = ''x'' \<and>
   template_text [(''b'', ''x''), (''a'', ''${b}'')] ''${a}'' = ''${b}''"
  by code_simp

end
