(* ===== verification/Token_Provider.thy ===== *)
theory Token_Provider
  imports Token_Callback Entra_Verify
begin

text \<open>
  Minting and verifying the tokens of the built-in issuers (internal/token/tokenprovider.go).

  The decoding of a JOSE header into its struct is an argument (\<open>te_header\<close>); random identifiers are
  arguments of the operations that draw them. A key is created when it is first used, so every
  operation returns the key provider.
\<close>

record jose_header =
  jh_kid :: string
  jh_typ :: string
  jh_alg :: string

record token_env =
  te_callback :: callback_env
  te_crypto :: crypto
  te_header :: "string \<Rightarrow> jose_header option"
  te_now :: int
  te_private :: nat

definition clock_skew_seconds :: int where "clock_skew_seconds = 60"

definition audience_claim :: "string list \<Rightarrow> gval" where
  "audience_claim audience = (case audience of [a] \<Rightarrow> VStr a | _ \<Rightarrow> VStrs audience)"

definition put_claims :: "claims \<Rightarrow> claims \<Rightarrow> claims" where
  "put_claims added claims = fold (\<lambda>(k, v). map_put k v) added claims"

definition default_claims ::
  "token_env \<Rightarrow> string \<Rightarrow> string \<Rightarrow> string \<Rightarrow> string list \<Rightarrow> string \<Rightarrow> claims \<Rightarrow> int \<Rightarrow> claims" where
  "default_claims env jti iss subject audience nonce added expiry =
     (let now = te_now env;
          base = [(''sub'', VStr subject), (''aud'', audience_claim audience), (''iss'', VStr iss), (''iat'', VInt (unix_of now)),
                  (''nbf'', VInt (unix_of now)), (''exp'', VInt (unix_of (now + seconds expiry))), (''jti'', VStr jti)];
          claims = (if nonce \<noteq> [] then map_put ''nonce'' (VStr nonce) base else base)
      in put_claims added claims)"

definition sign_for :: "token_env \<Rightarrow> claims \<Rightarrow> string \<Rightarrow> string \<Rightarrow> key_provider \<Rightarrow> string \<times> key_provider" where
  "sign_for env claims iss_id typ p =
     (case signing_key_of (te_private env) iss_id p of (key, p') \<Rightarrow> (sign_jwt (te_crypto env) key claims typ, p'))"

definition id_token ::
  "token_env \<Rightarrow> string \<Rightarrow> token_request \<Rightarrow> string \<Rightarrow> string \<Rightarrow> callback \<Rightarrow> string \<Rightarrow> key_provider \<Rightarrow> string \<times> key_provider" where
  "id_token env jti tr iss iss_id cb nonce =
     (let ce = te_callback env in
      sign_for env (default_claims env jti iss (cb_subject ce cb tr) [tr_client_id tr] nonce (cb_add_claims ce cb tr) (cb_expiry cb))
        iss_id (cb_type_header ce cb tr))"

definition access_claims :: "token_env \<Rightarrow> string \<Rightarrow> token_request \<Rightarrow> string \<Rightarrow> callback \<Rightarrow> string \<Rightarrow> claims" where
  "access_claims env jti tr iss cb nonce =
     (let ce = te_callback env in
      default_claims env jti iss (cb_subject ce cb tr) (cb_audience ce cb tr) nonce (cb_add_claims ce cb tr) (cb_expiry cb))"

definition access_token ::
  "token_env \<Rightarrow> string \<Rightarrow> token_request \<Rightarrow> string \<Rightarrow> string \<Rightarrow> callback \<Rightarrow> string \<Rightarrow> key_provider \<Rightarrow> string \<times> key_provider" where
  "access_token env jti tr iss iss_id cb nonce =
     sign_for env (access_claims env jti tr iss cb nonce) iss_id (cb_type_header (te_callback env) cb tr)"

definition issue_request :: token_request where
  "issue_request = empty_token_request\<lparr>tr_grant_type := grant_client_credentials, tr_client_id := ''mock-oidc'',
     tr_scope := ''default'', tr_scope_list := [''default'']\<rparr>"

definition issue_token :: "token_env \<Rightarrow> string \<Rightarrow> string \<Rightarrow> string \<Rightarrow> callback \<Rightarrow> key_provider \<Rightarrow> string \<times> key_provider" where
  "issue_token env jti iss iss_id cb = access_token env jti issue_request iss iss_id cb []"

definition exchange_access_token ::
  "token_env \<Rightarrow> string \<Rightarrow> token_request \<Rightarrow> string \<Rightarrow> string \<Rightarrow> claims \<Rightarrow> callback \<Rightarrow> key_provider \<Rightarrow> string \<times> key_provider" where
  "exchange_access_token env jti tr iss iss_id incoming cb =
     (let ce = te_callback env; now = te_now env;
          over = [(''iss'', VStr iss), (''exp'', VInt (unix_of (now + seconds (cb_expiry cb)))), (''nbf'', VInt (unix_of now)),
                  (''iat'', VInt (unix_of now)), (''jti'', VStr jti), (''aud'', audience_claim (cb_audience ce cb tr))]
      in sign_for env (put_claims (cb_add_claims ce cb tr) (put_claims over incoming)) iss_id (cb_type_header ce cb tr))"

section \<open>Verification\<close>

text \<open>The path of a URL, decoded.\<close>

definition path_unescape :: "string \<Rightarrow> string" where
  "path_unescape s = (case query_unescape (concat (map (\<lambda>c. if c = CHR ''+'' then ''%2B'' else [c]) s)) of Some d \<Rightarrow> d | None \<Rightarrow> s)"

definition url_path :: "url \<Rightarrow> string" where
  "url_path u =
     (case get_scheme (url_prefix u) of
        Some (scheme, rest) \<Rightarrow>
          if has_prefix rest ''//'' then path_unescape (dropWhile (\<lambda>c. c \<noteq> CHR ''/'') (drop 2 rest))
          else if scheme = [] \<or> has_prefix rest ''/'' then path_unescape rest
          else []
      | None \<Rightarrow> [])"

definition last_segment :: "string \<Rightarrow> string" where
  "last_segment seg = (case last_index (CHR ''/'') seg of Some i \<Rightarrow> drop (i + 1) seg | None \<Rightarrow> seg)"

definition issuer_id_from_url :: "string \<Rightarrow> string" where
  "issuer_id_from_url iss = (case url_parse iss of None \<Rightarrow> [] | Some u \<Rightarrow> last_segment (trim_slash (url_path u)))"

definition numeric :: "gval \<Rightarrow> int option" where
  "numeric v = (case v of VInt i \<Rightarrow> Some i | _ \<Rightarrow> None)"

definition claims_in_force :: "string \<Rightarrow> int \<Rightarrow> claims \<Rightarrow> oauth_error + claims" where
  "claims_in_force iss now claims =
     (if string_claim (claim_get claims ''iss'') \<noteq> iss then Inl (invalid_token_error ''invalid issuer'')
      else if map_get claims ''iat'' = None \<or> map_get claims ''exp'' = None then Inl (invalid_token_error ''missing iat/exp claims'')
      else if (case numeric (claim_get claims ''exp'') of None \<Rightarrow> True | Some e \<Rightarrow> e \<le> now - clock_skew_seconds)
      then Inl (invalid_token_error ''expired token'')
      else if (case numeric (claim_get claims ''nbf'') of None \<Rightarrow> False | Some n \<Rightarrow> n > now + clock_skew_seconds)
      then Inl (invalid_token_error ''token not yet valid'')
      else Inr claims)"

definition verify_token :: "token_env \<Rightarrow> string \<Rightarrow> string \<Rightarrow> key_provider \<Rightarrow> (oauth_error + claims) \<times> key_provider" where
  "verify_token env iss tok p =
     (case str_split tok ''.'' of
        [p0, p1, p2] \<Rightarrow>
          if p2 = [] then (Inl (invalid_token_error ''signed JWT expected''), p)
          else (case Option.bind (b64_decode p0) (te_header env) of
            None \<Rightarrow> (Inl (invalid_token_error ''invalid JWT header''), p)
          | Some h \<Rightarrow>
              if jh_typ h \<noteq> ''JWT'' then (Inl (invalid_token_error ''invalid typ header''), p)
              else
                let k = te_crypto env; (key, p') = signing_key_of (te_private env) (issuer_id_from_url iss) p in
                if jh_alg h \<noteq> sk_alg key \<or> jh_kid h \<noteq> sk_kid key then (Inl (invalid_token_error ''invalid alg/kid header''), p')
                else (case Option.bind (b64_decode p1) (cr_unmarshal k) of
                  None \<Rightarrow> (Inl (invalid_token_error ''invalid JWT payload''), p')
                | Some claims \<Rightarrow>
                    (case b64_decode p2 of
                       None \<Rightarrow> (Inl (invalid_token_error ''invalid JWT signature''), p')
                     | Some sig \<Rightarrow>
                         if \<not> cr_verify k (sk_private key) (hash_digest k (sk_alg key) (p0 @ ''.'' @ p1)) sig
                         then (Inl (invalid_token_error ''invalid signature''), p')
                         else (claims_in_force iss (unix_of (te_now env)) claims, p'))))
      | _ \<Rightarrow> (Inl (invalid_token_error ''signed JWT expected''), p))"

end
