(* ===== verification/Token_Laws.thy ===== *)
theory Token_Laws
  imports Token_Provider
begin

text \<open>
  Laws of the token provider: a token it signs is accepted exactly inside its validity window, an
  accepted token was signed with the published key of the issuer, and the lookup of
  that key by the last path segment.
\<close>

section \<open>Split of a verification\<close>

text \<open>What \<open>json.Unmarshal\<close> does on the header \<open>SignJWT\<close> writes.\<close>

definition reads_jose :: "token_env \<Rightarrow> string \<Rightarrow> string \<Rightarrow> bool" where
  "reads_jose env kid alg \<longleftrightarrow> te_header env (jwt_header kid ''JWT'' alg) = Some \<lparr>jh_kid = kid, jh_typ = ''JWT'', jh_alg = alg\<rparr>"

lemma split_signed:
  "str_split (sign_jwt k key c typ) ''.'' =
     [b64_encode (jwt_header (sk_kid key) typ (sk_alg key)), b64_encode (cr_marshal k c),
      b64_encode (cr_sign k (sk_private key) (hash_digest k (sk_alg key)
        (b64_encode (jwt_header (sk_kid key) typ (sk_alg key)) @ ''.'' @ b64_encode (cr_marshal k c))))]"
  using split_jwt by (simp add: sign_jwt_def Let_def)

lemma b64_encode_Nil: "b64_encode s = [] \<Longrightarrow> s = []"
  using b64_decode_encode[of s] b64_decode_encode[of "[]"] by (simp add: b64_encode_def chunks.simps)

lemma signing_key_stored: "map_get (kp_keys p) iss = Some k \<Longrightarrow> signing_key_of rsa iss p = (k, p)"
  by (simp add: signing_key_of_def)

lemma verify_signed:
  assumes "sound_signature (te_crypto env)" "reads_jose env (sk_kid key) (sk_alg key)" "cr_sign (te_crypto env) (sk_private key) = sg" "\<And>d. sg d \<noteq> []"
    and "map_get (kp_keys p) (issuer_id_from_url iss) = Some key"
    and "cr_unmarshal (te_crypto env) (cr_marshal (te_crypto env) c) = Some c'"
  shows "verify_token env iss (sign_jwt (te_crypto env) key c ''JWT'') p = (claims_in_force iss (unix_of (te_now env)) c', p)"
proof -
  have "b64_encode (sg d) \<noteq> []" for d using assms(4) b64_encode_Nil by blast
  moreover have "cr_verify (te_crypto env) (sk_private key) d (sg d)" for d
    using assms(1,3) by (auto simp: sound_signature_def)
  ultimately show ?thesis
    using assms(2,3,6) signing_key_stored[OF assms(5)]
    by (simp add: verify_token_def split_signed b64_decode_encode reads_jose_def Let_def)
qed

lemma verify_foreign_kid:
  assumes "reads_jose env (sk_kid key) (sk_alg key)" "\<And>d. cr_sign (te_crypto env) (sk_private key) d \<noteq> []"
    and "signing_key_of (te_private env) (issuer_id_from_url iss) p = (key', p')" and "sk_kid key \<noteq> sk_kid key'"
  shows "verify_token env iss (sign_jwt (te_crypto env) key c ''JWT'') p = (Inl (invalid_token_error ''invalid alg/kid header''), p')"
proof -
  have "b64_encode (cr_sign (te_crypto env) (sk_private key) d) \<noteq> []" for d using assms(2) b64_encode_Nil by blast
  then show ?thesis
    using assms(1,3,4)
    by (auto simp: verify_token_def split_signed b64_decode_encode reads_jose_def Let_def)
qed

section \<open>The claims of a token\<close>

lemma put_claims_get: "map_get (put_claims added c) n = (case map_get (rev added) n of Some v \<Rightarrow> Some v | None \<Rightarrow> map_get c n)"
proof (induction added arbitrary: c)
  case (Cons p added)
  obtain k v where p: "p = (k, v)" by fastforce
  have e: "put_claims (p # added) c = put_claims added (map_put k v c)" by (simp add: put_claims_def p)
  have "map_get (rev added @ [(k, v)]) n = (case map_get (rev added) n of Some w \<Rightarrow> Some w | None \<Rightarrow> if n = k then Some v else None)"
    by (auto simp: map_get_def map_add_def split: option.split)
  then show ?case unfolding e Cons.IH by (auto simp: p split: option.split)
qed (simp add: put_claims_def)

lemma put_claims_absent: "map_get added n = None \<Longrightarrow> map_get (put_claims added c) n = map_get c n"
proof -
  assume "map_get added n = None"
  then have "map_get (rev added) n = None" by (simp add: map_get_def map_of_eq_None_iff)
  then show ?thesis by (simp add: put_claims_get)
qed

lemma default_claims_get:
  assumes "n \<in> {''iss'', ''iat'', ''nbf'', ''exp''}" and "map_get added n = None"
  shows "map_get (default_claims env jti iss sub aud nonce added expiry) n =
    Some (if n = ''iss'' then VStr iss else VInt (unix_of (if n = ''exp'' then te_now env + seconds expiry else te_now env)))"
proof -
  let ?now = "te_now env"
  let ?base = "[(''sub'', VStr sub), (''aud'', audience_claim aud), (''iss'', VStr iss), (''iat'', VInt (unix_of ?now)),
    (''nbf'', VInt (unix_of ?now)), (''exp'', VInt (unix_of (?now + seconds expiry))), (''jti'', VStr jti)]"
  have "map_get (default_claims env jti iss sub aud nonce added expiry) n = map_get ?base n"
    using assms by (auto simp: default_claims_def Let_def put_claims_absent)
  then show ?thesis using assms(1) by (auto simp: map_get_def)
qed

text \<open>The claims after their way through JSON, and the window in which they are in force.\<close>

lemma claims_in_force_window:
  assumes "json_keeps c c'" and "map_get c ''iss'' = Some (VStr iss)" and "map_get c ''iat'' = Some (VInt i)"
    and "map_get c ''nbf'' = Some (VInt n)" and "map_get c ''exp'' = Some (VInt e)"
  shows "claims_in_force iss now c' =
    (if e + 60 \<le> now then Inl (invalid_token_error ''expired token'')
     else if now + 60 < n then Inl (invalid_token_error ''token not yet valid'') else Inr c')"
proof -
  have t: "claim_time c' ''iat'' = Some i" "claim_time c' ''nbf'' = Some n" "claim_time c' ''exp'' = Some e"
    "claim_string c' ''iss'' = iss"
    using assms by (simp_all add: json_keeps_def claim_time_def claim_string_def claim_get_def string_claim_def)
  have g: "claim_get c' m = VInt x" if "claim_time c' m = Some x" for m x
    using that by (auto simp: claim_time_def split: gval.splits)
  have ex: "map_get c' m \<noteq> None" if "claim_time c' m = Some x" for m x
    using that by (auto simp: claim_time_def claim_get_def split: option.splits)
  show ?thesis using g[OF t(2)] g[OF t(3)] ex[OF t(1)] ex[OF t(3)] t(4)
    by (auto simp: claims_in_force_def numeric_def clock_skew_seconds_def claim_string_def)
qed

section \<open>Properties\<close>

text \<open>An access token of an issuer whose callback leaves the
  protocol claims alone verifies under that issuer from the moment it was issued until its expiry,
  with a minute of clock skew on both sides, in the provider it came from and in every
  later state of it; outside this window it is rejected as expired or not yet valid.\<close>

lemma token_window:
  assumes "provider_wf p" "sound_signature (te_crypto env)" "\<And>rsa d. cr_sign (te_crypto env) rsa d \<noteq> []"
      "reads_jose env iss_id (kp_alg p)"
    and "cb_type_header (te_callback env) cb tr = ''JWT''"
    and "\<forall>n\<in>{''iss'', ''iat'', ''nbf'', ''exp''}. map_get (cb_add_claims (te_callback env) cb tr) n = None"
    and "issuer_id_from_url iss = iss_id"
    and "cr_unmarshal (te_crypto env) (cr_marshal (te_crypto env) (access_claims env jti tr iss cb nonce)) = Some c'"
      "json_keeps (access_claims env jti tr iss cb nonce) c'"
    and tok: "access_token env jti tr iss iss_id cb nonce p = (tok, p1)"
    and later: "\<And>i k. map_get (kp_keys p1) i = Some k \<Longrightarrow> map_get (kp_keys p2) i = Some k"
  shows "verify_token (env\<lparr>te_now := now\<rparr>) iss tok p2 =
    (if unix_of (te_now env + seconds (cb_expiry cb)) + 60 \<le> unix_of now then Inl (invalid_token_error ''expired token'')
     else if unix_of now + 60 < unix_of (te_now env) then Inl (invalid_token_error ''token not yet valid'')
     else Inr c', p2)"
proof -
  obtain key where k: "signing_key_of (te_private env) iss_id p = (key, p1)"
    and t: "tok = sign_jwt (te_crypto env) key (access_claims env jti tr iss cb nonce) ''JWT''"
    using tok assms(5) by (auto simp: access_token_def sign_for_def split: prod.splits)
  let ?e = "env\<lparr>te_now := now\<rparr>"
  have key: "map_get (kp_keys p2) (issuer_id_from_url iss) = Some key"
    using signing_key_wf(2)[OF assms(1) k] later assms(7) by simp
  have r: "reads_jose ?e (sk_kid key) (sk_alg key)"
    using assms(4) signing_key_wf(3,5)[OF assms(1) k] by (simp add: reads_jose_def key_for_def)
  have v: "verify_token ?e iss tok p2 = (claims_in_force iss (unix_of now) c', p2)"
    using verify_signed[of ?e key "cr_sign (te_crypto env) (sk_private key)" p2 iss
        "access_claims env jti tr iss cb nonce" c'] assms(2,3,8) key r t by simp
  have c: "map_get (access_claims env jti tr iss cb nonce) n =
      Some (if n = ''iss'' then VStr iss else VInt (unix_of (if n = ''exp'' then te_now env + seconds (cb_expiry cb) else te_now env)))"
    if "n \<in> {''iss'', ''iat'', ''nbf'', ''exp''}" for n
    unfolding access_claims_def Let_def using that assms(6) by (intro default_claims_get) auto
  have g: "map_get (access_claims env jti tr iss cb nonce) ''iss'' = Some (VStr iss)"
    "map_get (access_claims env jti tr iss cb nonce) ''iat'' = Some (VInt (unix_of (te_now env)))"
    "map_get (access_claims env jti tr iss cb nonce) ''nbf'' = Some (VInt (unix_of (te_now env)))"
    "map_get (access_claims env jti tr iss cb nonce) ''exp'' = Some (VInt (unix_of (te_now env + seconds (cb_expiry cb))))"
    by (subst c; simp)+
  show ?thesis unfolding v claims_in_force_window[OF assms(9) g] by (rule refl)
qed

text \<open>The sample provider of the witnesses: the built-in callback of the issuer \<open>default\<close>.\<close>

definition plain_callback_env :: callback_env where
  "plain_callback_env = \<lparr>ce_regex = (\<lambda>_ _. False), ce_unmarshal = (\<lambda>_. None), ce_order = (\<lambda>m. m)\<rparr>"

definition sample_token_request :: token_request where
  "sample_token_request = empty_token_request\<lparr>tr_grant_type := grant_client_credentials, tr_client_id := ''app''\<rparr>"

definition sample_claims :: "string \<Rightarrow> claims" where
  "sample_claims iss =
     [(''sub'', VStr ''app''), (''aud'', VStr ''default''), (''iss'', VStr iss), (''iat'', VInt 0), (''nbf'', VInt 0),
      (''exp'', VInt 3600), (''jti'', VStr ''j''), (''tid'', VStr ''default'')]"

definition sample_token_env :: "string \<Rightarrow> string \<Rightarrow> token_env" where
  "sample_token_env iss kid =
     \<lparr>te_callback = plain_callback_env, te_crypto = toy_crypto kid (sample_claims iss),
      te_header = (\<lambda>s. if s = jwt_header kid ''JWT'' ''RS256'' then Some \<lparr>jh_kid = kid, jh_typ = ''JWT'', jh_alg = ''RS256''\<rparr> else None),
      te_now = 0, te_private = 9\<rparr>"

lemma sample_token_claims:
  "access_claims (sample_token_env iss kid) ''j'' sample_token_request iss (new_default_callback ''u'' ''default'') [] = sample_claims iss"
  by (simp add: access_claims_def default_claims_def new_default_callback_def default_add_claims_def default_subject_def
      default_audience_def sample_token_request_def empty_token_request_def sample_token_env_def put_claims_def map_put_def
      audience_claim_def sample_claims_def unix_of_def seconds_def nanos_def wrap64_def Let_def grant_defs)

lemma sample_token_env_ok:
  "provider_wf pool_provider" "sound_signature (te_crypto (sample_token_env iss kid))"
  "cr_sign (te_crypto (sample_token_env iss kid)) rsa d \<noteq> []" "reads_jose (sample_token_env iss kid) kid (kp_alg pool_provider)"
  "cb_type_header (te_callback (sample_token_env iss kid)) (new_default_callback ''u'' i) sample_token_request = ''JWT''"
  by (simp_all add: provider_wf_def pool_provider_def sample_token_env_def toy_crypto_sound reads_jose_def new_default_callback_def)
    (simp add: toy_crypto_def)

lemma sample_json:
  fixes iss defines "e \<equiv> sample_token_env iss ''default''" and "cb \<equiv> new_default_callback ''u'' ''default''"
  shows "cr_unmarshal (te_crypto e) (cr_marshal (te_crypto e) (access_claims e ''j'' sample_token_request iss cb [])) = Some (sample_claims iss)"
    "json_keeps (access_claims e ''j'' sample_token_request iss cb []) (sample_claims iss)"
    "\<forall>n\<in>{''iss'', ''iat'', ''nbf'', ''exp''}. map_get (cb_add_claims (te_callback e) cb sample_token_request) n = None"
    "unix_of (te_now e + seconds (cb_expiry cb)) = 3600" "unix_of (te_now e) = 0"
  unfolding assms sample_token_claims
  by (simp_all add: sample_token_env_def toy_crypto_def json_keeps_def unix_of_def seconds_def nanos_def wrap64_def
      new_default_callback_def default_add_claims_def sample_token_request_def empty_token_request_def map_get_def grant_defs)

definition sample_issuer :: string where "sample_issuer = ''http://app.test:8080/default''"

definition sample_env :: token_env where "sample_env = sample_token_env sample_issuer ''default''"

definition sample_issue :: "string \<times> key_provider" where
  "sample_issue = access_token sample_env ''j'' sample_token_request sample_issuer ''default''
     (new_default_callback ''u'' ''default'') [] pool_provider"

lemma sample_issuer_id: "issuer_id_from_url sample_issuer = ''default''" by code_simp

lemma sample_verifies:
  "verify_token sample_env sample_issuer (fst sample_issue) (snd sample_issue) = (Inr (sample_claims sample_issuer), snd sample_issue)"
proof -
  have t: "access_token (sample_token_env sample_issuer ''default'') ''j'' sample_token_request sample_issuer ''default''
      (new_default_callback ''u'' ''default'') [] pool_provider = (fst sample_issue, snd sample_issue)"
    by (simp add: sample_issue_def sample_env_def)
  note w = token_window[OF sample_token_env_ok sample_json(3) sample_issuer_id sample_json(1,2) t, of "snd sample_issue", unfolded sample_json(4,5)]
  have "unix_of 0 = 0" "sample_env\<lparr>te_now := 0\<rparr> = sample_env" by (simp_all add: unix_of_def sample_env_def sample_token_env_def)
  then show ?thesis using w[of 0] by (simp add: sample_env_def)
qed

text \<open>C19: verified_token_signed. A token that verifies under an issuer URL carries a signature that checks
  under the key this provider publishes for the last path segment of the URL, was issued by exactly that URL,
  and has not expired more than a minute ago; verification never changes a published key.\<close>

theorem verified_token_signed:
  assumes "provider_wf p" and "verify_token env iss tok p = (Inr c, p')"
  shows "\<exists>p0 p1 p2 sig key e. str_split tok ''.'' = [p0, p1, p2] \<and> b64_decode p2 = Some sig \<and>
      map_get (kp_keys p') (issuer_id_from_url iss) = Some key \<and>
      (\<forall>k. map_get (kp_keys p) (issuer_id_from_url iss) = Some k \<longrightarrow> k = key) \<and>
      cr_verify (te_crypto env) (sk_private key) (hash_digest (te_crypto env) (sk_alg key) (p0 @ ''.'' @ p1)) sig \<and>
      Option.bind (b64_decode p1) (cr_unmarshal (te_crypto env)) = Some c \<and>
      string_claim (claim_get c ''iss'') = iss \<and> claim_get c ''exp'' = VInt e \<and> unix_of (te_now env) < e + 60"
proof -
  from assms(2) obtain p0 p1 p2 where s: "str_split tok ''.'' = [p0, p1, p2]"
    by (auto simp: verify_token_def split: list.splits)
  obtain key p'' where k: "signing_key_of (te_private env) (issuer_id_from_url iss) p = (key, p'')" by (rule prod.exhaust)
  from assms(2) s k obtain sig cl where d: "b64_decode p2 = Some sig" "Option.bind (b64_decode p1) (cr_unmarshal (te_crypto env)) = Some cl"
    and v: "cr_verify (te_crypto env) (sk_private key) (hash_digest (te_crypto env) (sk_alg key) (p0 @ ''.'' @ p1)) sig"
    and f: "claims_in_force iss (unix_of (te_now env)) cl = Inr c" "p'' = p'"
    by (auto simp: verify_token_def Let_def split: if_splits option.splits)
  from f(1) have c: "cl = c" "string_claim (claim_get c ''iss'') = iss"
    by (auto simp: claims_in_force_def split: if_splits)
  from f(1) obtain e where e: "claim_get c ''exp'' = VInt e" "unix_of (te_now env) < e + 60"
    unfolding c(1) by (auto simp: claims_in_force_def numeric_def clock_skew_seconds_def split: if_splits gval.splits)
  note w = signing_key_wf[OF assms(1) k, unfolded f(2)]
  have "\<forall>k. map_get (kp_keys p) (issuer_id_from_url iss) = Some k \<longrightarrow> k = key"
    using w(2) w(4)[of "issuer_id_from_url iss"] by auto
  then show ?thesis using s d v e w(2) c by blast
qed

theorem verified_token_signed_witness:
  "\<exists>p0 p1 p2 sig key. str_split (fst sample_issue) ''.'' = [p0, p1, p2] \<and> b64_decode p2 = Some sig \<and>
     map_get (kp_keys (snd sample_issue)) ''default'' = Some key \<and> sig = show_nat (sk_private key) @ '':'' @ p0 @ ''.'' @ p1"
proof -
  have "provider_wf (snd (signing_key_of (te_private sample_env) ''default'' pool_provider))"
    by (rule signing_key_wf(1)[OF sample_token_env_ok(1) prod.collapse[symmetric]])
  moreover have "snd sample_issue = snd (signing_key_of (te_private sample_env) ''default'' pool_provider)"
    by (simp add: sample_issue_def access_token_def sign_for_def split: prod.split)
  ultimately have wf: "provider_wf (snd sample_issue)" by simp
  have c: "cr_verify (te_crypto sample_env) k d s \<longleftrightarrow> s = show_nat k @ '':'' @ d" "hash_digest (te_crypto sample_env) a d = d" for k d s a
    by (simp_all add: sample_env_def sample_token_env_def toy_crypto_def hash_digest_def)
  from verified_token_signed[OF wf sample_verifies, unfolded sample_issuer_id c] show ?thesis by blast
qed

text \<open>Tokens are signed with the key of the whole issuer identifier, but verified with
  the key of the last segment of the issuer URL: where these differ, as for an issuer whose
  identifier contains a slash, every token the issuer mints is rejected by its own endpoints.\<close>

lemma nested_issuer_rejected:
  assumes "provider_wf p" "\<And>rsa d. cr_sign (te_crypto env) rsa d \<noteq> []" "reads_jose env iss_id (kp_alg p)"
    and "cb_type_header (te_callback env) cb tr = ''JWT''" and "issuer_id_from_url iss \<noteq> iss_id"
    and tok: "access_token env jti tr iss iss_id cb nonce p = (tok, p1)"
  shows "fst (verify_token env iss tok p1) = Inl (invalid_token_error ''invalid alg/kid header'')"
proof -
  obtain key where k: "signing_key_of (te_private env) iss_id p = (key, p1)"
    and t: "tok = sign_jwt (te_crypto env) key (access_claims env jti tr iss cb nonce) ''JWT''"
    using tok assms(4) by (auto simp: access_token_def sign_for_def split: prod.splits)
  note w = signing_key_wf[OF assms(1) k]
  obtain key' p' where k': "signing_key_of (te_private env) (issuer_id_from_url iss) p1 = (key', p')" by (rule prod.exhaust)
  have kid: "sk_kid key = iss_id" "sk_alg key = kp_alg p" "sk_kid key' = issuer_id_from_url iss"
    using w(3,5) signing_key_wf(3)[OF w(1) k'] by (simp_all add: key_for_def)
  have r: "reads_jose env (sk_kid key) (sk_alg key)" using assms(3) kid by simp
  show ?thesis unfolding t
    by (subst verify_foreign_kid[OF r assms(2) k']) (use assms(5) kid in auto)
qed

definition nested_request :: request where
  "nested_request = sample_request\<lparr>rq_path := ''/org/default/userinfo'', rq_header := []\<rparr>"

end
