(* ===== verification/Token_Jwk.thy ===== *)
theory Token_Jwk
  imports Token_Keys
begin

text \<open>
  Private JWK documents (the second half of internal/token/keyprovider.go), and more laws of the key
  provider: what it hands out and keeps stays of the type of its algorithm under the steps of \<open>kp_step\<close>, and a call that runs alone behaves
  like the sequential operation.

  JSON decoding and the validation of RSA numbers are arguments (\<open>jwk_env\<close>); a key is named by a number.
\<close>

section \<open>Reading a private JWK\<close>

record jwk_env =
  je_raw :: "string \<Rightarrow> string option"
  je_set :: "string \<Rightarrow> string list option"
  je_unmarshal :: "string \<Rightarrow> claims option"
  je_rsa :: "nat \<Rightarrow> int \<Rightarrow> nat \<Rightarrow> nat \<Rightarrow> nat \<Rightarrow> nat option"
  je_ec :: "string \<Rightarrow> nat \<Rightarrow> nat \<Rightarrow> nat \<Rightarrow> nat"

datatype jwk_error =
    InvalidKeySet
  | InvalidJwk
  | JwkNumber string
  | InvalidRsaKey
  | UnsupportedCurve string
  | UnsupportedKeyType string

definition bytes_nat :: "string \<Rightarrow> nat" where
  "bytes_nat bs = fold (\<lambda>c n. 256 * n + of_char c) bs 0"

definition trim_right_eq :: "string \<Rightarrow> string" where
  "trim_right_eq s = rev (dropWhile (\<lambda>c. c = CHR ''='') (rev s))"

definition jwk_bigint :: "gval \<Rightarrow> nat option" where
  "jwk_bigint v = (case v of VStr s \<Rightarrow> map_option bytes_nat (b64_decode (trim_right_eq s)) | _ \<Rightarrow> None)"

definition jwk_number :: "claims \<Rightarrow> string \<Rightarrow> jwk_error + nat" where
  "jwk_number jwk n = (case jwk_bigint (claim_get jwk n) of Some x \<Rightarrow> Inr x | None \<Rightarrow> Inl (JwkNumber n))"

definition read_key :: "string \<Rightarrow> string \<Rightarrow> string \<Rightarrow> nat \<Rightarrow> signing_key" where
  "read_key kty kid alg private = \<lparr>sk_kty = kty, sk_kid = kid, sk_alg = alg, sk_use = ''sig'', sk_private = private\<rparr>"

definition parse_private_jwk :: "jwk_env \<Rightarrow> string \<Rightarrow> jwk_error + signing_key" where
  "parse_private_jwk env raw =
     (case je_unmarshal env raw of
        None \<Rightarrow> Inl InvalidJwk
      | Some jwk \<Rightarrow>
          let str = \<lambda>n. string_claim (claim_get jwk n); kty = str ''kty''; num = jwk_number jwk in
          if kty = ''RSA'' then
            ebind (num ''n'') (\<lambda>n. ebind (num ''e'') (\<lambda>e. ebind (num ''d'') (\<lambda>d. ebind (num ''p'') (\<lambda>p. ebind (num ''q'') (\<lambda>q.
              case je_rsa env n (wrap64 (int e)) d p q of
                None \<Rightarrow> Inl InvalidRsaKey
              | Some private \<Rightarrow> Inr (read_key ''RSA'' (str ''kid'') (str ''alg'') private))))))
          else if kty = ''EC'' then
            (if str ''crv'' \<notin> {''P-256'', ''P-384'', ''P-521''} then Inl (UnsupportedCurve (str ''crv''))
             else ebind (num ''x'') (\<lambda>x. ebind (num ''y'') (\<lambda>y. ebind (num ''d'') (\<lambda>d.
                    Inr (read_key ''EC'' (str ''kid'') (str ''alg'') (je_ec env (str ''crv'') x y d))))))
          else Inl (UnsupportedKeyType kty))"

definition parse_private_jwk_doc :: "jwk_env \<Rightarrow> string \<Rightarrow> jwk_error + signing_key" where
  "parse_private_jwk_doc env data =
     (case je_raw env data of None \<Rightarrow> Inl InvalidJwk | Some raw \<Rightarrow> parse_private_jwk env raw)"

definition parse_private_key_set :: "jwk_env \<Rightarrow> string \<Rightarrow> jwk_error + signing_key list" where
  "parse_private_key_set env data =
     (case je_set env data of
        None \<Rightarrow> Inl InvalidKeySet
      | Some raws \<Rightarrow>
          ebind (map_err (\<lambda>u _ raw. ebind (parse_private_jwk env raw) (\<lambda>k. Inr (u, k))) () 0 raws) (\<lambda>(_, keys). Inr keys))"

section \<open>Keys fit the algorithm\<close>

definition provider_typed :: "key_provider \<Rightarrow> bool" where
  "provider_typed p \<longleftrightarrow> algorithm_family (kp_alg p) = Some (kp_family p) \<and>
     (\<forall>k\<in>set (kp_initial p). sk_kty k = kp_family p) \<and>
     (\<forall>iss k. map_get (kp_keys p) iss = Some k \<longrightarrow> sk_kty k = kp_family p)"

definition call_typed :: "key_provider \<Rightarrow> kp_call \<Rightarrow> bool" where
  "call_typed p c = (case c of
     CallHolding iss k \<Rightarrow> sk_kty k = kp_family p
   | CallDone iss k \<Rightarrow> sk_kty k = kp_family p
   | _ \<Rightarrow> True)"

lemma family_cases: "algorithm_family alg = Some f \<Longrightarrow> f = ''RSA'' \<or> f = ''EC''"
  by (auto simp: algorithm_family_def supported_algorithms_def split: if_splits)

lemma pool_typed:
  assumes "provider_typed p" and "key_from_pool_or_new iss rsa p = (key, p')"
  shows "provider_typed p'" "sk_kty key = kp_family p" "kp_family p' = kp_family p" "kp_alg p' = kp_alg p"
proof -
  have f: "kp_family p = ''RSA'' \<or> kp_family p = ''EC''" using assms(1) family_cases by (auto simp: provider_typed_def)
  show "provider_typed p'" "sk_kty key = kp_family p" "kp_family p' = kp_family p" "kp_alg p' = kp_alg p"
    using assms f by (auto simp: key_from_pool_or_new_def generate_key_def provider_typed_def split: list.splits if_splits)
qed

lemma store_typed:
  assumes "provider_typed p" and "sk_kty key = kp_family p" and "load_or_store iss key p = (actual, p')"
  shows "provider_typed p'" "sk_kty actual = kp_family p" "kp_family p' = kp_family p" "kp_alg p' = kp_alg p"
  using assms by (auto simp: load_or_store_def provider_typed_def split: option.splits if_splits)

definition system_typed :: "kp_system \<Rightarrow> bool" where
  "system_typed s \<longleftrightarrow> provider_typed (ks_provider s) \<and> (\<forall>c\<in>set (ks_calls s). call_typed (ks_provider s) c)"

lemma system_typed_update:
  assumes "system_typed s" and "provider_typed p'" and "kp_family p' = kp_family (ks_provider s)" and "call_typed p' c"
  shows "system_typed (s\<lparr>ks_provider := p', ks_calls := (ks_calls s)[i := c]\<rparr>)"
proof -
  have "call_typed p' d = call_typed (ks_provider s) d" for d
    using assms(3) by (simp add: call_typed_def split: kp_call.split)
  then show ?thesis using assms set_update_subset_insert[of "ks_calls s" i c] by (auto simp: system_typed_def)
qed

lemma kp_step_typed: "kp_step s s' \<Longrightarrow> system_typed s \<Longrightarrow> system_typed s' \<and> kp_alg (ks_provider s') = kp_alg (ks_provider s)"
proof (induction rule: kp_step.induct)
  case (step_hit i s iss k)
  then show ?case using system_typed_update[of s "ks_provider s" "CallDone iss k" i]
    by (auto simp: system_typed_def call_typed_def provider_typed_def)
next
  case (step_miss i s iss)
  then show ?case using system_typed_update[of s "ks_provider s" "CallMissed iss" i]
    by (auto simp: system_typed_def call_typed_def)
next
  case (step_take i s iss rsa key p')
  have p: "provider_typed (ks_provider s)" using step_take.prems by (simp add: system_typed_def)
  note t = pool_typed[OF p step_take.hyps(3)]
  show ?case using system_typed_update[OF step_take.prems t(1,3), of "CallHolding iss key" i] t by (simp add: call_typed_def)
next
  case (step_store i s iss key actual p')
  have p: "provider_typed (ks_provider s)" "sk_kty key = kp_family (ks_provider s)"
    using step_store.prems step_store.hyps(2) nth_mem[OF step_store.hyps(1)] by (auto simp: system_typed_def call_typed_def)
  note t = store_typed[OF p step_store.hyps(3)]
  show ?case using system_typed_update[OF step_store.prems t(1,3), of "CallDone iss actual" i] t by (simp add: call_typed_def)
qed

lemma kp_reach_typed:
  "kp_reach s0 s \<Longrightarrow> system_typed s0 \<Longrightarrow> system_typed s \<and> kp_alg (ks_provider s) = kp_alg (ks_provider s0)"
  by (induction rule: kp_reach.induct) (auto dest: kp_step_typed)

section \<open>A call that runs alone\<close>

text \<open>The states one call passes through.\<close>

definition lone_state :: "key_provider \<Rightarrow> string \<Rightarrow> kp_system \<Rightarrow> bool" where
  "lone_state p iss s \<longleftrightarrow>
     s = \<lparr>ks_provider = p, ks_calls = [CallStart iss]\<rparr> \<or>
     (map_get (kp_keys p) iss = None \<and> s = \<lparr>ks_provider = p, ks_calls = [CallMissed iss]\<rparr>) \<or>
     (\<exists>rsa key p'. map_get (kp_keys p) iss = None \<and> key_from_pool_or_new iss rsa p = (key, p') \<and>
        s = \<lparr>ks_provider = p', ks_calls = [CallHolding iss key]\<rparr>) \<or>
     (\<exists>rsa key p'. signing_key_of rsa iss p = (key, p') \<and> s = \<lparr>ks_provider = p', ks_calls = [CallDone iss key]\<rparr>)"

lemma lone_step: "kp_step s s' \<Longrightarrow> lone_state p iss s \<Longrightarrow> lone_state p iss s'"
proof (induction rule: kp_step.induct)
  case (step_hit i s iss' k)
  then show ?case by (auto simp: lone_state_def signing_key_of_def)
next
  case (step_miss i s iss')
  then show ?case by (auto simp: lone_state_def)
next
  case (step_take i s iss' rsa key p')
  then show ?case by (auto simp: lone_state_def)
next
  case (step_store i s iss' key actual p')
  then obtain rsa key' p1 where h: "map_get (kp_keys p) iss = None" "key_from_pool_or_new iss rsa p = (key', p1)"
      "s = \<lparr>ks_provider = p1, ks_calls = [CallHolding iss key']\<rparr>"
    by (auto simp: lone_state_def)
  with step_store.hyps have "i = 0" "iss' = iss" "key = key'" "signing_key_of rsa iss p = (actual, p')"
    by (auto simp: signing_key_of_def)
  then show ?case using h(3) by (auto simp: lone_state_def)
qed

text \<open>A request for a signing key that is not interleaved with others ends exactly in
  the results of the sequential reading of \<open>SigningKey\<close>.\<close>

lemma lone_call_sequential:
  "kp_reach \<lparr>ks_provider = p, ks_calls = [CallStart iss]\<rparr> \<lparr>ks_provider = p', ks_calls = [CallDone iss key]\<rparr> \<longleftrightarrow>
   (\<exists>rsa. signing_key_of rsa iss p = (key, p'))"
proof
  have "kp_reach s0 s \<Longrightarrow> lone_state p iss s0 \<Longrightarrow> lone_state p iss s" for s0 s
    by (induction rule: kp_reach.induct) (auto intro: lone_step)
  moreover have "lone_state p iss \<lparr>ks_provider = p, ks_calls = [CallStart iss]\<rparr>" by (simp add: lone_state_def)
  moreover assume "kp_reach \<lparr>ks_provider = p, ks_calls = [CallStart iss]\<rparr> \<lparr>ks_provider = p', ks_calls = [CallDone iss key]\<rparr>"
  ultimately have "lone_state p iss \<lparr>ks_provider = p', ks_calls = [CallDone iss key]\<rparr>" by blast
  then show "\<exists>rsa. signing_key_of rsa iss p = (key, p')" by (auto simp: lone_state_def)
next
  let ?s0 = "\<lparr>ks_provider = p, ks_calls = [CallStart iss]\<rparr>" and ?s1 = "\<lparr>ks_provider = p, ks_calls = [CallMissed iss]\<rparr>"
  assume "\<exists>rsa. signing_key_of rsa iss p = (key, p')"
  then obtain rsa where r: "signing_key_of rsa iss p = (key, p')" ..
  show "kp_reach ?s0 \<lparr>ks_provider = p', ks_calls = [CallDone iss key]\<rparr>"
  proof (cases "map_get (kp_keys p) iss")
    case (Some k)
    then have "kp_step ?s0 \<lparr>ks_provider = p', ks_calls = [CallDone iss key]\<rparr>"
      using kp_step.step_hit[of 0 ?s0 iss k] r by (simp add: signing_key_of_def)
    then show ?thesis by (meson kp_reach.intros)
  next
    case None
    obtain key0 p0 where k: "key_from_pool_or_new iss rsa p = (key0, p0)" by (rule prod.exhaust)
    have l: "load_or_store iss key0 p0 = (key, p')" using r None k by (simp add: signing_key_of_def)
    let ?s2 = "\<lparr>ks_provider = p0, ks_calls = [CallHolding iss key0]\<rparr>"
    have "kp_step ?s0 ?s1" using kp_step.step_miss[of 0 ?s0 iss] None by simp
    moreover have "kp_step ?s1 ?s2" using kp_step.step_take[of 0 ?s1 iss rsa key0 p0] k by simp
    moreover have "kp_step ?s2 \<lparr>ks_provider = p', ks_calls = [CallDone iss key]\<rparr>"
      using kp_step.step_store[of 0 ?s2 iss key0 key p'] l by simp
    ultimately show ?thesis by (meson kp_reach.intros)
  qed
qed

end
