(* ===== verification/Token_Grants.thy ===== *)
theory Token_Grants
  imports Token_Laws Token_Jwk Routing
begin

text \<open>
  The grants of the built-in issuers (internal/grant) over the mutable state of the server: signing keys,
  authorization codes with their logins, refresh tokens, the queue of callbacks
  and the runtime flags (internal/server).

  What a request draws from outside is its \<open>grant_env\<close>: random identifiers, the wall clock in
  seconds, and the environment of the token provider. A panic of a handler is a value.
\<close>

section \<open>State\<close>

record oidc =
  os_keys :: key_provider
  os_auth :: "(string, auth_request) gomap"
  os_login :: "(string, login) gomap"
  os_refresh :: "(string, callback) gomap"
  os_queue :: "callback list"
  os_interactive :: bool
  os_rotate :: bool

record grant_env =
  gx_token :: token_env
  gx_wall :: int
  gx_code :: string
  gx_subject :: string
  gx_id_jti :: string
  gx_access_jti :: string
  gx_refresh_jti :: string

type_synonym 's outcome = "(go_panic + response) \<times> 's"

definition oauth_panic :: "oauth_error \<Rightarrow> 's \<Rightarrow> 's outcome" where
  "oauth_panic e s = (Inl (PanicOAuth e), s)"

section \<open>The callback queue (server.go)\<close>

definition queue_enqueue :: "callback \<Rightarrow> 'a oidc_scheme \<Rightarrow> 'a oidc_scheme" where
  "queue_enqueue cb s = s\<lparr>os_queue := os_queue s @ [cb]\<rparr>"

definition queue_poll :: "string \<Rightarrow> 'a oidc_scheme \<Rightarrow> callback option \<times> 'a oidc_scheme" where
  "queue_poll iss_id s =
     (case os_queue s of
        cb # rest \<Rightarrow> if cb_issuer cb = iss_id then (Some cb, s\<lparr>os_queue := rest\<rparr>) else (None, s)
      | [] \<Rightarrow> (None, s))"

section \<open>Refresh tokens (refreshmanager.go)\<close>

definition refresh_get :: "string \<Rightarrow> 'a oidc_scheme \<Rightarrow> callback option" where
  "refresh_get t s = map_get (os_refresh s) t"

definition refresh_remove :: "string \<Rightarrow> 'a oidc_scheme \<Rightarrow> 'a oidc_scheme" where
  "refresh_remove t s = s\<lparr>os_refresh := map_del t (os_refresh s)\<rparr>"

definition plain_jwt :: "string \<Rightarrow> string \<Rightarrow> string" where
  "plain_jwt jti nonce =
     ''eyJhbGciOiJub25lIn0.'' @
     b64_encode (''{'' @ [CHR 0x22] @ ''jti'' @ [CHR 0x22] @ '':'' @ [CHR 0x22] @ jti @ [CHR 0x22] @ '','' @ [CHR 0x22] @ ''nonce'' @
       [CHR 0x22] @ '':'' @ [CHR 0x22] @ nonce @ [CHR 0x22] @ ''}'') @ ''.''"

definition refresh_mint :: "string \<Rightarrow> callback \<Rightarrow> string \<Rightarrow> 'a oidc_scheme \<Rightarrow> string \<times> 'a oidc_scheme" where
  "refresh_mint jti cb nonce s =
     (let t = (if nonce \<noteq> [] then plain_jwt jti nonce else jti)
      in (t, s\<lparr>os_refresh := map_put t cb (os_refresh s)\<rparr>))"

definition refresh_rotate :: "string \<Rightarrow> string \<Rightarrow> callback \<Rightarrow> 'a oidc_scheme \<Rightarrow> string \<times> 'a oidc_scheme" where
  "refresh_rotate jti t fallback s =
     refresh_mint jti (case map_get (os_refresh s) t of Some cb \<Rightarrow> cb | None \<Rightarrow> fallback) [] (refresh_remove t s)"

section \<open>Authorization codes (authcode.go)\<close>

definition authorization_code_response ::
  "grant_env \<Rightarrow> auth_request \<Rightarrow> login option \<Rightarrow> 'a oidc_scheme \<Rightarrow> (oauth_error + string) \<times> 'a oidc_scheme" where
  "authorization_code_response env ar lg s =
     (if \<not> implies_code_flow ar then (Inl (invalid_grant_error ''hybrid og implicit flow not supported (yet).''), s)
      else (Inr (gx_code env),
            s\<lparr>os_auth := map_put (gx_code env) ar (os_auth s),
              os_login := (case lg of Some l \<Rightarrow> map_put (gx_code env) l (os_login s) | None \<Rightarrow> os_login s)\<rparr>))"

definition take_login :: "string \<Rightarrow> 'a oidc_scheme \<Rightarrow> login option \<times> 'a oidc_scheme" where
  "take_login code s = (map_get (os_login s) code, s\<lparr>os_login := map_del code (os_login s)\<rparr>)"

definition verify_pkce :: "crypto \<Rightarrow> auth_request \<Rightarrow> token_request \<Rightarrow> oauth_error option" where
  "verify_pkce k ar tr =
     (if tr_code_verifier tr = [] then None
      else if (if ar_code_challenge_method ar = ''S256'' then b64_encode (cr_sha256 k (tr_code_verifier tr)) else tr_code_verifier tr)
              \<noteq> ar_code_challenge ar
      then Some (invalid_grant_error ''invalid_pkce: code_verifier does not compute to code_challenge from request'')
      else None)"

text \<open>\<open>expiresIn\<close> reads the claims back from the token, against the wall clock.\<close>

definition expires_in :: "grant_env \<Rightarrow> string \<Rightarrow> int" where
  "expires_in env jwt =
     (case parse_jwt_claims (cr_unmarshal (te_crypto (gx_token env))) jwt of
        None \<Rightarrow> 0
      | Some c \<Rightarrow> numeric_date (claim_get c ''exp'') - gx_wall env)"

text \<open>The two tokens minted one after the other, as most grants do.\<close>

definition mint_id_token ::
  "grant_env \<Rightarrow> token_request \<Rightarrow> string \<Rightarrow> string \<Rightarrow> callback \<Rightarrow> string \<Rightarrow> 'a oidc_scheme \<Rightarrow> string \<times> 'a oidc_scheme" where
  "mint_id_token env tr iss iss_id cb nonce s =
     (case id_token (gx_token env) (gx_id_jti env) tr iss iss_id cb nonce (os_keys s) of (t, p) \<Rightarrow> (t, s\<lparr>os_keys := p\<rparr>))"

definition mint_access_token ::
  "grant_env \<Rightarrow> token_request \<Rightarrow> string \<Rightarrow> string \<Rightarrow> callback \<Rightarrow> string \<Rightarrow> 'a oidc_scheme \<Rightarrow> string \<times> 'a oidc_scheme" where
  "mint_access_token env tr iss iss_id cb nonce s =
     (case access_token (gx_token env) (gx_access_jti env) tr iss iss_id cb nonce (os_keys s) of (t, p) \<Rightarrow> (t, s\<lparr>os_keys := p\<rparr>))"

definition mint_exchange_token ::
  "grant_env \<Rightarrow> token_request \<Rightarrow> string \<Rightarrow> string \<Rightarrow> claims \<Rightarrow> callback \<Rightarrow> 'a oidc_scheme \<Rightarrow> string \<times> 'a oidc_scheme" where
  "mint_exchange_token env tr iss iss_id incoming cb s =
     (case exchange_access_token (gx_token env) (gx_access_jti env) tr iss iss_id incoming cb (os_keys s) of (t, p) \<Rightarrow> (t, s\<lparr>os_keys := p\<rparr>))"

definition login_callback :: "login option \<Rightarrow> callback \<Rightarrow> callback" where
  "login_callback lg cb = (case lg of Some l \<Rightarrow> LoginCallback l cb | None \<Rightarrow> cb)"

type_synonym 'a grant_handler =
  "grant_env \<Rightarrow> token_request \<Rightarrow> string \<Rightarrow> string \<Rightarrow> callback \<Rightarrow> 'a oidc_scheme \<Rightarrow> 'a oidc_scheme outcome"

definition code_grant :: "'a grant_handler" where
  "code_grant env tr iss iss_id cb s =
     (case map_get (os_auth s) (tr_code tr) of
        None \<Rightarrow> oauth_panic (invalid_grant_error ''unknown or already-used authorization code'') s
      | Some ar \<Rightarrow>
          let s1 = s\<lparr>os_auth := map_del (tr_code tr) (os_auth s)\<rparr> in
          (case verify_pkce (te_crypto (gx_token env)) ar tr of
             Some e \<Rightarrow> oauth_panic e (s1\<lparr>os_login := map_del (tr_code tr) (os_login s1)\<rparr>)
           | None \<Rightarrow>
               let (lg, s2) = take_login (tr_code tr) s1;
                   effective = login_callback lg cb;
                   (idt, s3) = mint_id_token env tr iss iss_id effective (ar_nonce ar) s2;
                   (access, s4) = mint_access_token env tr iss iss_id effective (ar_nonce ar) s3;
                   (rt, s5) = refresh_mint (gx_refresh_jti env) effective (ar_nonce ar) s4
               in (Inr (token_response ''Bearer'' [] idt access rt (expires_in env idt) (tr_scope tr)), s5)))"

section \<open>The other grants (grant.go)\<close>

definition client_credentials_grant :: "'a grant_handler" where
  "client_credentials_grant env tr iss iss_id cb s =
     (let (access, s1) = mint_access_token env tr iss iss_id cb [] s
      in (Inr (token_response ''Bearer'' [] [] access [] (expires_in env access) (tr_scope tr)), s1))"

definition password_grant :: "'a grant_handler" where
  "password_grant env tr iss iss_id cb s =
     (let wrapped = PasswordCallback (tr_username tr) cb;
          (access, s1) = mint_access_token env tr iss iss_id wrapped [] s;
          (idt, s2) = mint_id_token env tr iss iss_id wrapped [] s1
      in (Inr (token_response ''Bearer'' [] idt access [] (expires_in env access) (tr_scope tr)), s2))"

text \<open>The text of a parse error is that of the JSON and base64 decoders and is left out.\<close>

definition jwt_bearer :: "'a grant_handler" where
  "jwt_bearer env tr iss iss_id cb s =
     (case parse_jwt_claims (cr_unmarshal (te_crypto (gx_token env))) (tr_assertion tr) of
        None \<Rightarrow> oauth_panic (invalid_request ''failed to parse request: '') s
      | Some claims \<Rightarrow>
          let scope = (if tr_scope tr = [] then string_claim (claim_get claims ''scope'') else tr_scope tr) in
          if scope = [] then oauth_panic (invalid_request ''scope must be specified in request or as a claim in assertion parameter'') s
          else let (access, s1) = mint_exchange_token env tr iss iss_id claims cb s
               in (Inr (token_response ''Bearer'' [] [] access [] (expires_in env access) scope), s1))"

definition issued_token_type_access :: string where
  "issued_token_type_access = ''urn:ietf:params:oauth:token-type:access_token''"

definition token_exchange :: "'a grant_handler" where
  "token_exchange env tr iss iss_id cb s =
     (case parse_jwt_claims (cr_unmarshal (te_crypto (gx_token env))) (tr_subject_token tr) of
        None \<Rightarrow> oauth_panic (invalid_request ''failed to parse request: invalid subject_token JWT'') s
      | Some claims \<Rightarrow>
          let (access, s1) = mint_exchange_token env tr iss iss_id claims cb s
          in (Inr (token_response ''Bearer'' issued_token_type_access [] access [] (expires_in env access) []), s1))"

definition refresh_grant :: "'a grant_handler" where
  "refresh_grant env tr iss iss_id cb s =
     (let stored = refresh_get (tr_refresh_token tr) s in
      if (case stored of Some c \<Rightarrow> cb_issuer c \<noteq> iss_id | None \<Rightarrow> False)
      then oauth_panic (invalid_grant_error ''refresh_token was issued by a different issuer'') s
      else
        let (enqueued, s1) = queue_poll iss_id s in
        (case (case enqueued of Some c \<Rightarrow> Some c | None \<Rightarrow> stored) of
           None \<Rightarrow> oauth_panic (invalid_grant_error ''unknown refresh_token'') s1
         | Some resolved \<Rightarrow>
             let (rt, s2) = (if os_rotate s1 then refresh_rotate (gx_refresh_jti env) (tr_refresh_token tr) resolved s1
                             else (tr_refresh_token tr, s1));
                 (idt, s3) = mint_id_token env tr iss iss_id resolved [] s2;
                 (access, s4) = mint_access_token env tr iss iss_id resolved [] s3
             in (Inr (token_response ''Bearer'' [] idt access rt (expires_in env idt) (tr_scope tr)), s4)))"

section \<open>What a mint changes\<close>

lemma mint_keys:
  "snd (mint_id_token env tr iss iss_id cb nonce s) = s\<lparr>os_keys := snd (signing_key_of (te_private (gx_token env)) iss_id (os_keys s))\<rparr>"
  "snd (mint_access_token env tr iss iss_id cb nonce s) = s\<lparr>os_keys := snd (signing_key_of (te_private (gx_token env)) iss_id (os_keys s))\<rparr>"
  "snd (mint_exchange_token env tr iss iss_id cl cb s) = s\<lparr>os_keys := snd (signing_key_of (te_private (gx_token env)) iss_id (os_keys s))\<rparr>"
  by (simp_all add: mint_id_token_def mint_access_token_def mint_exchange_token_def id_token_def access_token_def
      exchange_access_token_def sign_for_def Let_def split: prod.split)

lemma mint_frame:
  "os_auth (snd (mint_id_token env tr iss iss_id cb nonce s)) = os_auth s" "os_login (snd (mint_id_token env tr iss iss_id cb nonce s)) = os_login s"
  "os_refresh (snd (mint_id_token env tr iss iss_id cb nonce s)) = os_refresh s" "os_queue (snd (mint_id_token env tr iss iss_id cb nonce s)) = os_queue s"
  "os_auth (snd (mint_access_token env tr iss iss_id cb nonce s)) = os_auth s" "os_login (snd (mint_access_token env tr iss iss_id cb nonce s)) = os_login s"
  "os_refresh (snd (mint_access_token env tr iss iss_id cb nonce s)) = os_refresh s" "os_queue (snd (mint_access_token env tr iss iss_id cb nonce s)) = os_queue s"
  by (simp_all add: mint_keys)

end
