(* ===== verification/Entra_Errors.thy ===== *)
theory Entra_Errors
  imports Entra_Admin
begin

text \<open>
  The texts of the errors of the configuration and of membership rules (internal/entra/config.go, graphconfig.go,
  store.go, rule.go), as the admin console shows them. \<open>go_quote\<close> is the verb \<open>%q\<close> on ASCII. Only the
  two constructors that wrap \<open>ErrNotFound\<close> count as not found.
\<close>

definition go_quote_char :: "char \<Rightarrow> string" where
  "go_quote_char c =
     (if c = CHR 0x22 then [CHR 0x5C, CHR 0x22]
      else if c = CHR 0x5C then [CHR 0x5C, CHR 0x5C]
      else if c = CHR 0x07 then [CHR 0x5C, CHR ''a'']
      else if c = CHR 0x08 then [CHR 0x5C, CHR ''b'']
      else if c = CHR 0x0C then [CHR 0x5C, CHR ''f'']
      else if c = CHR 0x0A then [CHR 0x5C, CHR ''n'']
      else if c = CHR 0x0D then [CHR 0x5C, CHR ''r'']
      else if c = CHR 0x09 then [CHR 0x5C, CHR ''t'']
      else if c = CHR 0x0B then [CHR 0x5C, CHR ''v'']
      else if (of_char c :: nat) < 32 \<or> c = CHR 0x7F
      then [CHR 0x5C, CHR ''x'', hex_nibble ((of_char c :: nat) div 16), hex_nibble ((of_char c :: nat) mod 16)]
      else [c])"

definition go_quote :: "string \<Rightarrow> string" where
  "go_quote s = CHR 0x22 # concat (map go_quote_char s) @ [CHR 0x22]"

fun rule_error_text :: "rule_error \<Rightarrow> string" where
  "rule_error_text RuleEmpty = ''empty rule''"
| "rule_error_text (RuleDirectReportsNotGuid m) =
     ''Direct Reports for needs the manager'' @ [CHR 0x27] @ ''s object ID (a GUID), got '' @ go_quote m"
| "rule_error_text RuleUnterminated = ''unterminated string''"
| "rule_error_text (RuleUnexpected t) = ''unexpected '' @ go_quote t"
| "rule_error_text RuleExpectedClose = ''expected )''"
| "rule_error_text (RuleExpectedProperty t) = ''expected a user property, got '' @ go_quote t"
| "rule_error_text (RuleUnsupportedProperty t) = ''unsupported property '' @ go_quote t"
| "rule_error_text (RuleExpectedOperator t) = ''expected an operator after '' @ t"
| "rule_error_text (RuleUnsupportedOperator t) = ''unsupported operator '' @ go_quote t"
| "rule_error_text (RuleOnlyEqNe t) = t @ '' only supports -eq and -ne''"
| "rule_error_text (RuleTrueOrFalse t) = t @ '' compares to true or false''"
| "rule_error_text (RuleExpectedValue t) = ''expected a value after '' @ t"
| "rule_error_text (RuleNeedsString t) = t @ '' needs a string value''"
| "rule_error_text (RuleExpectedValueGot t v) = ''expected a value after '' @ t @ '', got '' @ go_quote v"
| "rule_error_text (RuleNeedsArray t) = t @ '' needs an array value''"
| "rule_error_text (RuleArrayNotStrings t) = t @ '' array values must be strings''"
| "rule_error_text (RuleArrayExpected t) = t @ '' array: expected , or ]''"
| "rule_error_text RuleOutOfFuel = []"

abbreviation user_text :: "string \<Rightarrow> string \<Rightarrow> string" where "user_text u s \<equiv> ''user '' @ u @ '': '' @ s"
abbreviation tenant_text :: "string \<Rightarrow> string \<Rightarrow> string" where "tenant_text t s \<equiv> ''tenant '' @ t @ '': '' @ s"
abbreviation app_text :: "string \<Rightarrow> string \<Rightarrow> string" where "app_text a s \<equiv> ''app '' @ a @ '': '' @ s"

fun cfg_error_text :: "cfg_error \<Rightarrow> string" where
  "cfg_error_text (ErrBasePath p) = ''basePath '' @ go_quote p @ '' must be one path segment of [A-Za-z0-9_-]''"
| "cfg_error_text (ErrGraphBasePath p) = ''graph.basePath '' @ go_quote p @ '' must be one path segment of [A-Za-z0-9_-]''"
| "cfg_error_text (ErrGraphReserved p) = ''graph.basePath '' @ go_quote p @ '' is reserved''"
| "cfg_error_text (ErrGraphGuid p) = ''graph.basePath '' @ go_quote p @ '' must not be a GUID: it would shadow a tenant path''"
| "cfg_error_text ErrGraphOverage = ''graph.overageEndpoint must be '' @ go_quote overage_self @ '' or '' @ go_quote overage_microsoft"
| "cfg_error_text ErrGraphClockSkew = ''graph.clockSkew must not be negative''"
| "cfg_error_text ErrNoTenants = ''at least one tenant is required''"
| "cfg_error_text (ErrTidNotGuid t) = ''tenant '' @ go_quote t @ '': tid must be a GUID''"
| "cfg_error_text (ErrDuplicateTid t) = tenant_text t ''duplicate tid''"
| "cfg_error_text (ErrGroupClaimFormat t) =
     tenant_text t (''groupClaimFormat must be '' @ go_quote format_name @ '' or '' @ go_quote format_object_id)"
| "cfg_error_text (ErrGroupName t i) = tenant_text t (''group '' @ show_nat i @ '': name is required'')"
| "cfg_error_text (ErrDuplicateGroup t n) = tenant_text t (''duplicate group '' @ go_quote n)"
| "cfg_error_text (ErrGroupOid t n) = tenant_text t (''group '' @ n @ '': oid must be a GUID'')"
| "cfg_error_text (ErrGroupRule t n e) = tenant_text t (''group '' @ n @ '': membershipRule: '' @ rule_error_text e)"
| "cfg_error_text (ErrAppClientId i) = app_text (show_nat i) ''clientId is required''"
| "cfg_error_text (ErrAppTid a t) = app_text a (''unknown tid '' @ go_quote t)"
| "cfg_error_text (ErrClaimName a i) = app_text a (''claims['' @ show_nat i @ '']: name is required'')"
| "cfg_error_text (ErrClaimReserved a n) = app_text a (''claim '' @ go_quote n @ '' is emitted by Entra mode itself'')"
| "cfg_error_text (ErrDuplicateClaim a n) = app_text a (''duplicate claim '' @ go_quote n)"
| "cfg_error_text (ErrClaimSource a n s) = app_text a (''claim '' @ n @ '': unsupported source '' @ go_quote s)"
| "cfg_error_text (ErrConsent i) = ''consent '' @ show_nat i @ '': clientId and a configured tid are required''"
| "cfg_error_text (ErrUsername i) = user_text (show_nat i) ''username is required''"
| "cfg_error_text (ErrUserTid u t) = user_text u (''unknown tid '' @ go_quote t)"
| "cfg_error_text (ErrDuplicateUser u t) = user_text u (''duplicate username in tenant '' @ t)"
| "cfg_error_text (ErrUserError u) =
     user_text u (''error must be '' @ err_interaction_required @ '', '' @ err_access_denied @ '' or '' @ err_invalid_grant)"
| "cfg_error_text (ErrUserMfa u m) = user_text u (''mfa must be empty or '' @ mfa_passkey @ '', got '' @ go_quote m)"
| "cfg_error_text (ErrUserOid u) = user_text u ''oid must be a GUID''"
| "cfg_error_text (ErrUserWid u i) = user_text u (''wids['' @ show_nat i @ ''] must be a GUID'')"
| "cfg_error_text (ErrManagerSelf u) = user_text u ''manager cannot be the user itself''"
| "cfg_error_text (ErrManagerUnknown u m t) = user_text u (''unknown manager '' @ go_quote m @ '' in tenant '' @ t)"
| "cfg_error_text (ErrDynamicMember u g) =
     user_text u (''group '' @ go_quote g @ '' is dynamic; its members come from its membershipRule'')"
| "cfg_error_text ErrNilDeref = ''runtime error: invalid memory address or nil pointer dereference''"
| "cfg_error_text ErrTidChanged = ''tid cannot be changed''"
| "cfg_error_text (ErrTenantNotFound t) = tenant_text t ''not found''"
| "cfg_error_text (ErrUserNotFound u t) = ''user '' @ u @ '' in tenant '' @ t @ '': not found''"

text \<open>\<open>errors.Is(err, ErrNotFound)\<close>.\<close>

definition cfg_not_found :: "cfg_error \<Rightarrow> bool" where
  "cfg_not_found e = (case e of ErrTenantNotFound _ \<Rightarrow> True | ErrUserNotFound _ _ \<Rightarrow> True | _ \<Rightarrow> False)"

end
