(* ===== verification/Server_State.thy ===== *)
theory Server_State
  imports Token_Grants Entra_Errors Login_Directory
begin

text \<open>
  The state of a server (internal/server/server.go): that of the built-in issuers extended by the Entra
  handler, its runtime gate and the login directory, and the runtime settings the admin
  console changes (\<open>AdminSettings\<close>, \<open>AdminSetSetting\<close>).
\<close>

record server_config =
  sg_interactive :: bool
  sg_rotate :: bool
  sg_login_page :: string
  sg_static :: string
  sg_callbacks :: "mapping_callback list"
  sg_entra :: "config option"

record server = oidc +
  sv_entra :: "entra_state option"
  sv_entra_on :: bool
  sv_dir :: "directory option"

definition new_server :: "server_config \<Rightarrow> key_provider \<Rightarrow> directory option \<Rightarrow> nat \<Rightarrow> server" where
  "new_server cfg keys dir rsa =
     \<lparr>os_keys = keys, os_auth = [], os_login = [], os_refresh = [], os_queue = [],
      os_interactive = sg_interactive cfg, os_rotate = sg_rotate cfg,
      sv_entra = map_option (\<lambda>c. entra_new c rsa) (sg_entra cfg), sv_entra_on = (sg_entra cfg \<noteq> None), sv_dir = dir\<rparr>"

section \<open>Runtime settings\<close>

record admin_settings =
  as_interactive :: bool
  as_rotate :: bool
  as_entra_configured :: bool
  as_entra_enabled :: bool
  as_graph_enabled :: bool

definition admin_settings_of :: "server_config \<Rightarrow> server \<Rightarrow> admin_settings" where
  "admin_settings_of cfg s =
     \<lparr>as_interactive = os_interactive s, as_rotate = os_rotate s, as_entra_configured = (sg_entra cfg \<noteq> None),
      as_entra_enabled = sv_entra_on s,
      as_graph_enabled = (case sv_entra s of None \<Rightarrow> False | Some e \<Rightarrow> admin_graph_enabled e)\<rparr>"

datatype setting_error = SettingNotConfigured | SettingUnknown string | SettingRejected cfg_error

definition admin_set_setting ::
  "(string \<Rightarrow> string) \<Rightarrow> server_config \<Rightarrow> string \<Rightarrow> bool \<Rightarrow> server \<Rightarrow> setting_error option \<times> server" where
  "admin_set_setting sha1 cfg name v s =
     (if name = ''interactiveLogin'' then (None, s\<lparr>os_interactive := v\<rparr>)
      else if name = ''rotateRefreshToken'' then (None, s\<lparr>os_rotate := v\<rparr>)
      else if name = ''entra'' then
        (if sg_entra cfg = None then (Some SettingNotConfigured, s) else (None, s\<lparr>sv_entra_on := v\<rparr>))
      else if name = ''graph'' then
        (case sv_entra s of
           None \<Rightarrow> (Some SettingNotConfigured, s)
         | Some e \<Rightarrow>
             (case admin_set_graph_enabled sha1 v e of
                (err, e') \<Rightarrow> (map_option SettingRejected err, s\<lparr>sv_entra := Some e'\<rparr>)))
      else (Some (SettingUnknown name), s))"

definition setting_error_text :: "setting_error \<Rightarrow> string" where
  "setting_error_text e =
     (case e of
        SettingNotConfigured \<Rightarrow> ''entra mode is not configured for this server''
      | SettingUnknown n \<Rightarrow> ''unknown setting '' @ go_quote n
      | SettingRejected c \<Rightarrow> cfg_error_text c)"

section \<open>The invariant\<close>

text \<open>The Entra handler is there exactly when it is configured, and in a state it can reach; the keys of
  the built-in issuers are theirs.\<close>

definition server_inv :: "(string \<Rightarrow> string) \<Rightarrow> server_config \<Rightarrow> server \<Rightarrow> bool" where
  "server_inv sha1 cfg s \<longleftrightarrow> provider_wf (os_keys s) \<and>
     (case sg_entra cfg of
        None \<Rightarrow> sv_entra s = None \<and> \<not> sv_entra_on s
      | Some seed \<Rightarrow> \<exists>e. sv_entra s = Some e \<and> entra_reach sha1 seed e)"

lemma server_inv_new:
  assumes "provider_wf keys"
  shows "server_inv sha1 cfg (new_server cfg keys dir rsa)"
  using assms by (auto simp: server_inv_def new_server_def intro: entra_reach.intros split: option.split)

text \<open>
  A property of the server that every change the admin console can make keeps: an edit of the Entra handler
  is one of its steps, the other changes are those of the directory and of the runtime flags.
\<close>

locale state_kept =
  fixes sha1 :: "string \<Rightarrow> string" and cfg :: server_config and I :: "server \<Rightarrow> bool"
  assumes keep_entra: "I s \<Longrightarrow> sv_entra s = Some e \<Longrightarrow> entra_step sha1 e e' \<Longrightarrow> I (s\<lparr>sv_entra := Some e'\<rparr>)"
    and keep_dir: "I s \<Longrightarrow> I (s\<lparr>sv_dir := d\<rparr>)"
    and keep_interactive: "I s \<Longrightarrow> I (s\<lparr>os_interactive := v\<rparr>)"
    and keep_rotate: "I s \<Longrightarrow> I (s\<lparr>os_rotate := v\<rparr>)"
    and keep_gate: "I s \<Longrightarrow> sg_entra cfg \<noteq> None \<Longrightarrow> I (s\<lparr>sv_entra_on := v\<rparr>)"
begin

lemma keep_setting:
  assumes "I s" and "admin_set_setting sha1 cfg name v s = (err, s')"
  shows "I s'"
proof -
  have g: "I (s\<lparr>sv_entra := Some e'\<rparr>)" if "sv_entra s = Some e" "admin_set_graph_enabled sha1 v e = (x, e')" for e e' x
    using keep_entra[OF assms(1) that(1) step_graph[OF that(2)]] .
  show ?thesis
    using assms(2,1) g keep_interactive keep_rotate keep_gate
    by (auto simp: admin_set_setting_def split: if_splits option.splits prod.splits)
qed

end

interpretation server_ok: state_kept sha1 cfg "server_inv sha1 cfg" for sha1 cfg
  by unfold_locales (auto intro: entra_reach.reach_step simp: server_inv_def split: option.splits)

text \<open>The part of the state the built-in issuers own.\<close>

definition oidc_part :: "server \<Rightarrow> key_provider \<times> (string, auth_request) gomap \<times> (string, login) gomap \<times> (string, callback) gomap \<times> callback list" where
  "oidc_part s = (os_keys s, os_auth s, os_login s, os_refresh s, os_queue s)"

interpretation oidc_frame: state_kept sha1 cfg "\<lambda>s. oidc_part s = x" for sha1 cfg x
  by unfold_locales (simp_all add: oidc_part_def)

end
