(* ===== verification/Admin_Api.thy ===== *)
theory Admin_Api
  imports Server_State
begin

text \<open>
  The admin console (internal/adminui/adminui.go): the embedded assets and the JSON API over the
  runtime settings, the Entra handler and the login directory. The handler is built by the
  server, so its settings are always there.

  The decoders of the request bodies (encoding/json with unknown fields rejected; \<open>Inl\<close> is the text of their
  error) and the embedded files are arguments, collected in \<open>admin_env\<close>. Two
  extensions of the content types never apply to one name, so the order of their map does not matter.
\<close>

section \<open>Environment\<close>

record admin_env =
  ax_crypto :: crypto
  ax_rsa :: nat
  ax_files :: "(string \<times> string) list"
  ax_setting :: "string \<Rightarrow> string + (string \<times> bool)"
  ax_tenant :: "string \<Rightarrow> string + tenant"
  ax_user :: "string \<Rightarrow> string + user"
  ax_dir_user :: "string \<Rightarrow> string + dir_user"

type_synonym admin_answer = "response \<times> server"

section \<open>Responses\<close>

definition api_error :: "int \<Rightarrow> string \<Rightarrow> response" where
  "api_error status msg =
     (set_header ''Content-Type'' json_content (new_response status))\<lparr>rs_body := to_lower (json_render (VObj [(''error'', VStr msg)]))\<rparr>"

definition bad_request :: "string \<Rightarrow> response" where
  "bad_request msg = api_error 400 msg"

definition api_not_found :: response where
  "api_not_found = not_found_response ''not found''"

definition status_ok :: "(string \<times> gval) list" where
  "status_ok = [(''status'', VStr ''ok'')]"

definition delete_error :: "bool \<Rightarrow> string \<Rightarrow> response" where
  "delete_error is_not_found msg =
     (if is_not_found \<or> has_suffix msg '': not found'' then api_error 404 msg else bad_request msg)"

definition decode_body :: "(string \<Rightarrow> string + 'a) \<Rightarrow> request \<Rightarrow> string + 'a" where
  "decode_body dec r = (case dec (rq_body r) of Inl e \<Rightarrow> Inl (''invalid json body: '' @ e) | Inr x \<Rightarrow> Inr x)"

definition dir_error_text :: "dir_error \<Rightarrow> string" where
  "dir_error_text e = (case e of UsernameRequired \<Rightarrow> ''username is required'' | DirUserNotFound n \<Rightarrow> ''user '' @ n @ '': not found'' | _ \<Rightarrow> [])"

section \<open>Assets\<close>

definition asset_types :: "(string \<times> string) list" where
  "asset_types = [(''.html'', ''text/html; charset=utf-8''), (''.css'', ''text/css; charset=utf-8''),
     (''.js'', ''text/javascript; charset=utf-8''), (''.woff2'', ''font/woff2''), (''.txt'', ''text/plain; charset=utf-8'')]"

definition asset_type :: "string \<Rightarrow> string" where
  "asset_type name =
     (case find (\<lambda>(ext, _). has_suffix name ext) asset_types of Some (_, t) \<Rightarrow> t | None \<Rightarrow> ''application/octet-stream'')"

definition csp :: string where
  "csp = ''default-src '' @ quoted ''none'' @ ''; script-src '' @ quoted ''self'' @ ''; style-src '' @ quoted ''self'' @ '' '' @
     quoted ''unsafe-inline'' @ ''; img-src '' @ quoted ''self'' @ '' data:; font-src '' @ quoted ''self'' @ ''; connect-src '' @ quoted ''self''"

definition serve_asset :: "admin_env \<Rightarrow> string \<Rightarrow> response" where
  "serve_asset env name =
     (case map_of (ax_files env) name of
        None \<Rightarrow> api_not_found
      | Some body \<Rightarrow>
          (set_header ''X-Frame-Options'' ''DENY'' (set_header ''Content-Security-Policy'' csp
             (set_header ''Cache-Control'' ''no-cache'' (set_header ''Content-Type'' (asset_type name) (new_response 200)))))
            \<lparr>rs_body := body\<rparr>)"

section \<open>Documents\<close>

definition settings_obj :: "admin_settings \<Rightarrow> (string \<times> gval) list" where
  "settings_obj st =
     [(''interactiveLogin'', VBool (as_interactive st)), (''rotateRefreshToken'', VBool (as_rotate st)),
      (''entraConfigured'', VBool (as_entra_configured st)), (''entraEnabled'', VBool (as_entra_enabled st)),
      (''graphEnabled'', VBool (as_graph_enabled st))]"

definition directory_arr :: "directory \<Rightarrow> gval" where
  "directory_arr d = VArr (map (\<lambda>u. VObj [(''username'', VStr (du_username u)), (''name'', VStr (du_name u)),
     (''email'', VStr (du_email u)), (''groups'', VStrs (du_groups u))]) (dir_list d))"

definition overview :: "server_config \<Rightarrow> server \<Rightarrow> (string \<times> gval) list" where
  "overview cfg s =
     (let st = admin_settings_of cfg s in
      [(''interactiveLogin'', VBool (sg_interactive cfg)), (''rotateRefreshToken'', VBool (sg_rotate cfg)),
       (''entraConfigured'', VBool (sv_entra s \<noteq> None)),
       (''tokenCallbacks'', VArr (map (\<lambda>m. VObj [(''issuerId'', VStr (mc_issuer m)), (''tokenExpiry'', VInt (mc_expiry m))]) (sg_callbacks cfg)))] @
      (case sv_dir s of Some d \<Rightarrow> [(''directoryUsers'', VInt (int (length (dir_list d))))] | None \<Rightarrow> []) @
      (if sg_login_page cfg \<noteq> [] then [(''loginPagePath'', VStr (sg_login_page cfg))] else []) @
      (if sg_static cfg \<noteq> [] then [(''staticAssetsPath'', VStr (sg_static cfg))] else []) @
      [(''entra'', VBool (as_entra_enabled st)), (''graph'', VBool (as_graph_enabled st)),
       (''interactiveLoginLive'', VBool (as_interactive st)), (''rotateRefreshTokenLive'', VBool (as_rotate st))])"

section \<open>Edits\<close>

definition ok_answer :: "(string \<times> gval) list \<Rightarrow> server \<Rightarrow> admin_answer" where
  "ok_answer fs s = (json_response (VObj fs), s)"

text \<open>An edit of the Entra handler and its answer; \<open>fail\<close> renders an error.\<close>

definition entra_edit :: "(cfg_error \<Rightarrow> response) \<Rightarrow> (entra_state \<Rightarrow> admin_result) \<Rightarrow> server \<Rightarrow> admin_answer" where
  "entra_edit fail f s =
     (case sv_entra s of
        None \<Rightarrow> (api_not_found, s)
      | Some e \<Rightarrow>
          (case f e of
             (Some err, e') \<Rightarrow> (fail err, s\<lparr>sv_entra := Some e'\<rparr>)
           | (None, e') \<Rightarrow> ok_answer status_ok (s\<lparr>sv_entra := Some e'\<rparr>)))"

definition cfg_bad_request :: "cfg_error \<Rightarrow> response" where
  "cfg_bad_request e = bad_request (cfg_error_text e)"

definition cfg_delete_error :: "cfg_error \<Rightarrow> response" where
  "cfg_delete_error e = delete_error (cfg_not_found e) (cfg_error_text e)"

definition upsert_tenant :: "admin_env \<Rightarrow> request \<Rightarrow> string \<Rightarrow> server \<Rightarrow> admin_answer" where
  "upsert_tenant env r tid s =
     (if sv_entra s = None then (api_not_found, s)
      else case decode_body (ax_tenant env) r of
             Inl e \<Rightarrow> (bad_request e, s)
           | Inr t \<Rightarrow> entra_edit cfg_bad_request
               (if tid = [] then admin_create_tenant (cr_sha1 (ax_crypto env)) t
                else admin_update_tenant (cr_sha1 (ax_crypto env)) tid t) s)"

definition upsert_user :: "admin_env \<Rightarrow> request \<Rightarrow> string \<Rightarrow> string \<Rightarrow> server \<Rightarrow> admin_answer" where
  "upsert_user env r tid username s =
     (if sv_entra s = None then (api_not_found, s)
      else case decode_body (ax_user env) r of
             Inl e \<Rightarrow> (bad_request e, s)
           | Inr u \<Rightarrow> entra_edit cfg_bad_request
               (if tid = [] then admin_create_user (cr_sha1 (ax_crypto env)) u
                else admin_update_user (cr_sha1 (ax_crypto env)) tid username u) s)"

definition upsert_directory_user :: "admin_env \<Rightarrow> request \<Rightarrow> server \<Rightarrow> admin_answer" where
  "upsert_directory_user env r s =
     (case sv_dir s of
        None \<Rightarrow> (api_not_found, s)
      | Some d \<Rightarrow>
          (case decode_body (ax_dir_user env) r of
             Inl e \<Rightarrow> (bad_request e, s)
           | Inr u \<Rightarrow>
               (case dir_upsert u d of
                  Inl e \<Rightarrow> (bad_request (dir_error_text e), s)
                | Inr d' \<Rightarrow> ok_answer status_ok (s\<lparr>sv_dir := Some d'\<rparr>))))"

definition delete_directory_user :: "string \<Rightarrow> server \<Rightarrow> admin_answer" where
  "delete_directory_user username s =
     (case sv_dir s of
        None \<Rightarrow> (api_not_found, s)
      | Some d \<Rightarrow>
          (case dir_delete username d of
             Inl e \<Rightarrow> (delete_error False (dir_error_text e), s)
           | Inr d' \<Rightarrow> ok_answer status_ok (s\<lparr>sv_dir := Some d'\<rparr>)))"

definition reset_directory :: "server \<Rightarrow> admin_answer" where
  "reset_directory s =
     (case sv_dir s of None \<Rightarrow> (api_not_found, s) | Some d \<Rightarrow> ok_answer status_ok (s\<lparr>sv_dir := Some (dir_reset d)\<rparr>))"

definition post_setting :: "admin_env \<Rightarrow> server_config \<Rightarrow> request \<Rightarrow> server \<Rightarrow> admin_answer" where
  "post_setting env cfg r s =
     (case decode_body (ax_setting env) r of
        Inl e \<Rightarrow> (bad_request e, s)
      | Inr (name, v) \<Rightarrow>
          (case admin_set_setting (cr_sha1 (ax_crypto env)) cfg name v s of
             (Some e, s') \<Rightarrow> (bad_request (setting_error_text e), s')
           | (None, s') \<Rightarrow> ok_answer status_ok s'))"

definition reset_entra :: "server \<Rightarrow> admin_answer" where
  "reset_entra s = entra_edit cfg_bad_request (\<lambda>e. (None, admin_reset_to_seed e)) s"

definition revoke_consent :: "string \<Rightarrow> string \<Rightarrow> server \<Rightarrow> admin_answer" where
  "revoke_consent client_id tid s = entra_edit cfg_bad_request (\<lambda>e. (None, admin_revoke_consent client_id tid e)) s"

definition rotate_entra_keys :: "admin_env \<Rightarrow> server \<Rightarrow> admin_answer" where
  "rotate_entra_keys env s =
     (case sv_entra s of
        None \<Rightarrow> (api_not_found, s)
      | Some e \<Rightarrow> (case admin_rotate_keys (ax_rsa env) e of (kid, e') \<Rightarrow> ok_answer [(''kid'', VStr kid)] (s\<lparr>sv_entra := Some e'\<rparr>)))"

definition get_entra :: "admin_env \<Rightarrow> server \<Rightarrow> admin_answer" where
  "get_entra env s =
     (case sv_entra s of
        None \<Rightarrow> (api_not_found, s)
      | Some e \<Rightarrow> (json_response (admin_snapshot (cr_sha1 (ax_crypto env)) e), s))"

definition get_directory :: "server \<Rightarrow> admin_answer" where
  "get_directory s = (case sv_dir s of None \<Rightarrow> (api_not_found, s) | Some d \<Rightarrow> (json_response (directory_arr d), s))"

section \<open>Dispatch\<close>

definition admin_api :: "admin_env \<Rightarrow> server_config \<Rightarrow> request \<Rightarrow> string \<Rightarrow> server \<Rightarrow> admin_answer" where
  "admin_api env cfg r action s =
     (let get = (rq_method r = ''GET''); post = (rq_method r = ''POST''); put = (rq_method r = ''PUT''); del = (rq_method r = ''DELETE'');
          segs = str_split action ''/''; sha1 = cr_sha1 (ax_crypto env) in
      if get \<and> action = ''settings'' then ok_answer (settings_obj (admin_settings_of cfg s)) s
      else if post \<and> action = ''settings'' then post_setting env cfg r s
      else if get \<and> action = ''entra'' then get_entra env s
      else if post \<and> action = ''entra/reset'' then reset_entra s
      else if post \<and> action = ''entra/rotate-keys'' then rotate_entra_keys env s
      else if del \<and> length segs = 4 \<and> segs ! 0 = ''entra'' \<and> segs ! 1 = ''consents'' then revoke_consent (segs ! 2) (segs ! 3) s
      else if post \<and> action = ''entra/tenants'' then upsert_tenant env r [] s
      else if length segs = 3 \<and> segs ! 0 = ''entra'' \<and> segs ! 1 = ''tenants'' then
        (if put then upsert_tenant env r (segs ! 2) s
         else if del then entra_edit cfg_delete_error (admin_delete_tenant sha1 (segs ! 2)) s
         else (api_not_found, s))
      else if post \<and> action = ''entra/users'' then upsert_user env r [] [] s
      else if length segs = 4 \<and> segs ! 0 = ''entra'' \<and> segs ! 1 = ''users'' then
        (if put then upsert_user env r (segs ! 2) (segs ! 3) s
         else if del then entra_edit cfg_delete_error (admin_delete_user sha1 (segs ! 2) (segs ! 3)) s
         else (api_not_found, s))
      else if get \<and> action = ''directory'' then get_directory s
      else if post \<and> action = ''directory/users'' then upsert_directory_user env r s
      else if length segs = 3 \<and> segs ! 0 = ''directory'' \<and> segs ! 1 = ''users'' \<and> del then delete_directory_user (segs ! 2) s
      else if post \<and> action = ''directory/reset'' then reset_directory s
      else if get \<and> action = ''overview'' then ok_answer (overview cfg s) s
      else (api_not_found, s))"

section \<open>What the API keeps\<close>

context state_kept begin

lemma entra_edit_kept:
  assumes "I s" and "\<And>e err e'. f e = (err, e') \<Longrightarrow> entra_step sha1 e e'"
  shows "I (snd (entra_edit fail f s))"
proof (cases "sv_entra s")
  case None
  then show ?thesis using assms(1) by (simp add: entra_edit_def)
next
  case (Some e)
  obtain err e' where f: "f e = (err, e')" by fastforce
  have "snd (entra_edit fail f s) = s\<lparr>sv_entra := Some e'\<rparr>" using Some f by (auto simp: entra_edit_def ok_answer_def split: option.splits)
  then show ?thesis using keep_entra[OF assms(1) Some assms(2)[OF f]] by simp
qed

lemma admin_edits_kept:
  assumes "I s" and sha: "cr_sha1 (ax_crypto env) = sha1"
  shows "I (snd (upsert_tenant env r tid s))" "I (snd (upsert_user env r tid name s))"
    "I (snd (upsert_directory_user env r s))" "I (snd (delete_directory_user name s))" "I (snd (reset_directory s))"
    "I (snd (post_setting env cfg r s))" "I (snd (reset_entra s))" "I (snd (revoke_consent client tid s))"
    "I (snd (rotate_entra_keys env s))" "I (snd (entra_edit fail (admin_delete_tenant sha1 tid) s))"
    "I (snd (entra_edit fail (admin_delete_user sha1 tid name) s))"
proof -
  note ed = entra_edit_kept[OF assms(1)]
  show "I (snd (upsert_tenant env r tid s))"
    using assms by (auto simp: upsert_tenant_def sha intro!: ed intro: entra_step.intros split: sum.split)
  show "I (snd (upsert_user env r tid name s))"
    using assms by (auto simp: upsert_user_def sha intro!: ed intro: entra_step.intros split: sum.split)
  show "I (snd (reset_entra s))" unfolding reset_entra_def by (rule ed) (auto intro: entra_step.intros)
  show "I (snd (revoke_consent client tid s))" unfolding revoke_consent_def by (rule ed) (auto intro: entra_step.intros)
  show "I (snd (entra_edit fail (admin_delete_tenant sha1 tid) s))" by (rule ed) (rule step_delete_tenant)
  show "I (snd (entra_edit fail (admin_delete_user sha1 tid name) s))" by (rule ed) (rule step_delete_user)
  show "I (snd (post_setting env cfg r s))"
    using assms by (auto simp: post_setting_def ok_answer_def intro: keep_setting split: sum.split prod.split option.split)
  show "I (snd (rotate_entra_keys env s))"
    using assms by (auto simp: rotate_entra_keys_def ok_answer_def intro: keep_entra step_rotate split: option.split prod.split)
  show "I (snd (upsert_directory_user env r s))" "I (snd (delete_directory_user name s))" "I (snd (reset_directory s))"
    using assms(1) keep_dir by (auto simp: upsert_directory_user_def delete_directory_user_def reset_directory_def ok_answer_def
      split: option.split sum.split)
qed

lemma admin_api_kept:
  assumes "I s" and sha: "cr_sha1 (ax_crypto env) = sha1"
  shows "I (snd (admin_api env cfg r action s))"
proof -
  have same: "snd (get_entra env s) = s" "snd (get_directory s) = s" "\<And>x. snd (ok_answer x s) = s"
    by (simp_all add: get_entra_def get_directory_def ok_answer_def split: option.split)
  show ?thesis
    by (simp only: admin_api_def Let_def sha admin_edits_kept[OF assms] same snd_conv assms simp_thms split: if_split)
qed

end

end
