(* ===== verification/Admin_Tools.thy ===== *)
theory Admin_Tools
  imports Admin_Api
begin

text \<open>
  The tools of the MCP endpoint (internal/adminui/mcp_tools.go) and the schemas of their inputs
  (mcp_schema.go).

  Go's reflection over the input structs is the datatype \<open>go_type\<close>: the exported fields under their JSON
  names. The decoders of JSON arguments are arguments (\<open>tool_env\<close>): \<open>tx_object\<close> reads the
  top level of an object, \<open>tx_string\<close> a JSON string (empty for anything else), and there is one strict decoder
  per input type; \<open>Inl\<close> is the text of their error.
\<close>

section \<open>Schemas (mcp_schema.go)\<close>

datatype go_type =
    GoString
  | GoBool
  | GoInt
  | GoPointer go_type
  | GoSlice go_type
  | GoStruct "(string \<times> go_type) list"

record go_field =
  gf_name :: string
  gf_type :: go_type
  gf_enum :: "string list"
  gf_desc :: string
  gf_required :: bool

record input_spec =
  is_schema :: "(string \<times> gval) list"
  is_required :: "string list"
  is_enums :: "(string \<times> string list) list"

fun schema_for :: "go_type \<Rightarrow> (string \<times> gval) list" where
  "schema_for GoString = [(''type'', VStr ''string'')]"
| "schema_for GoBool = [(''type'', VStr ''boolean'')]"
| "schema_for GoInt = [(''type'', VStr ''integer'')]"
| "schema_for (GoPointer t) = schema_for t"
| "schema_for (GoSlice t) = [(''type'', VStr ''array''), (''items'', VObj (schema_for t))]"
| "schema_for (GoStruct fs) =
     [(''type'', VStr ''object''), (''properties'', VObj (map (\<lambda>(n, t). (n, VObj (schema_for t))) fs)),
      (''additionalProperties'', VBool False)]"

definition field_schema :: "go_field \<Rightarrow> (string \<times> gval) list" where
  "field_schema f =
     schema_for (gf_type f) @ (if gf_enum f \<noteq> [] then [(''enum'', VStrs (gf_enum f))] else []) @
     (if gf_desc f \<noteq> [] then [(''description'', VStr (gf_desc f))] else [])"

definition spec_for :: "go_field list \<Rightarrow> input_spec" where
  "spec_for fs =
     (let required = map gf_name (filter gf_required fs) in
      \<lparr>is_schema = [(''type'', VStr ''object''), (''properties'', VObj (map (\<lambda>f. (gf_name f, VObj (field_schema f))) fs))] @
         (if required \<noteq> [] then [(''required'', VStrs required)] else []) @ [(''additionalProperties'', VBool False)],
       is_required = required, is_enums = map (\<lambda>f. (gf_name f, gf_enum f)) (filter (\<lambda>f. gf_enum f \<noteq> []) fs)\<rparr>)"

section \<open>Inputs\<close>

definition dir_user_type :: go_type where
  "dir_user_type = GoStruct [(''username'', GoString), (''name'', GoString), (''email'', GoString), (''groups'', GoSlice GoString)]"

definition group_type :: go_type where
  "group_type = GoStruct [(''name'', GoString), (''description'', GoString), (''mailNickname'', GoString), (''mail'', GoString),
     (''oid'', GoString), (''securityEnabled'', GoPointer GoBool), (''mailEnabled'', GoPointer GoBool), (''membershipRule'', GoString)]"

definition tenant_type :: go_type where
  "tenant_type = GoStruct [(''tid'', GoString), (''name'', GoString), (''domains'', GoSlice GoString), (''groupClaimFormat'', GoString),
     (''groupLimit'', GoInt), (''consentRequired'', GoBool), (''groups'', GoSlice group_type)]"

definition ext_attrs_type :: go_type where
  "ext_attrs_type = GoStruct [(''extensionAttribute1'', GoString), (''extensionAttribute2'', GoString), (''extensionAttribute3'', GoString)]"

definition user_type :: go_type where
  "user_type = GoStruct [(''username'', GoString), (''tid'', GoString), (''oid'', GoString), (''name'', GoString), (''email'', GoString),
     (''emailVerified'', GoPointer GoBool), (''groups'', GoSlice GoString), (''amr'', GoSlice GoString), (''admin'', GoBool),
     (''error'', GoString), (''mfa'', GoString), (''givenName'', GoString), (''surname'', GoString), (''upn'', GoString),
     (''accountEnabled'', GoPointer GoBool), (''jobTitle'', GoString), (''officeLocation'', GoString), (''businessPhones'', GoSlice GoString),
     (''mobilePhone'', GoString), (''preferredLanguage'', GoString), (''roles'', GoSlice GoString), (''wids'', GoSlice GoString),
     (''manager'', GoString), (''department'', GoString), (''companyName'', GoString), (''employeeId'', GoString),
     (''onPremisesExtensionAttributes'', ext_attrs_type)]"

definition tool_field :: "string \<Rightarrow> go_type \<Rightarrow> string \<Rightarrow> bool \<Rightarrow> go_field" where
  "tool_field name t desc req = \<lparr>gf_name = name, gf_type = t, gf_enum = [], gf_desc = desc, gf_required = req\<rparr>"

definition no_input :: "go_field list" where "no_input = []"

definition settings_set_input :: "go_field list" where
  "settings_set_input =
     [(tool_field ''name'' GoString ''toggle name'' True)\<lparr>gf_enum := [''interactiveLogin'', ''rotateRefreshToken'', ''entra'', ''graph'']\<rparr>,
      tool_field ''value'' GoBool [] True]"

definition directory_user_input :: "go_field list" where "directory_user_input = [tool_field ''user'' dir_user_type [] True]"
definition username_input :: "go_field list" where "username_input = [tool_field ''username'' GoString [] True]"
definition tenant_create_input :: "go_field list" where "tenant_create_input = [tool_field ''tenant'' tenant_type [] True]"
definition tenant_update_input :: "go_field list" where
  "tenant_update_input = [tool_field ''tid'' GoString ''current tenant ID'' True,
     tool_field ''tenant'' tenant_type (''the tenant'' @ [CHR 0x27] @ ''s new fields'') True]"
definition tid_input :: "go_field list" where "tid_input = [tool_field ''tid'' GoString ''tenant ID'' True]"
definition user_create_input :: "go_field list" where "user_create_input = [tool_field ''user'' user_type [] True]"
definition user_update_input :: "go_field list" where
  "user_update_input = [tool_field ''tid'' GoString ''current tenant ID'' True, tool_field ''username'' GoString ''current username'' True,
     tool_field ''user'' user_type (''the user'' @ [CHR 0x27] @ ''s new fields'') True]"
definition user_key_input :: "go_field list" where
  "user_key_input = [tool_field ''tid'' GoString ''tenant ID'' True, tool_field ''username'' GoString [] True]"
definition consent_input :: "go_field list" where
  "consent_input = [tool_field ''clientId'' GoString [] True, tool_field ''tid'' GoString ''tenant ID'' True]"
definition mint_tool_input :: "go_field list" where
  "mint_tool_input = [tool_field ''tid'' GoString ''tenant ID'' True, tool_field ''username'' GoString [] True,
     tool_field ''clientId'' GoString ''audience app; default mock'' False,
     tool_field ''scope'' GoString ''space-separated scopes; default openid profile email'' False]"

section \<open>Strict decoding\<close>

record tool_env =
  tx_admin :: admin_env
  tx_entra :: entra_env
  tx_object :: "string \<Rightarrow> string + (string, string) gomap"
  tx_string :: "string \<Rightarrow> string"
  tx_none :: "string \<Rightarrow> string + unit"
  tx_setting :: "string \<Rightarrow> string + (string \<times> bool)"
  tx_dir_user :: "string \<Rightarrow> string + dir_user"
  tx_username :: "string \<Rightarrow> string + string"
  tx_tenant :: "string \<Rightarrow> string + tenant"
  tx_tid_tenant :: "string \<Rightarrow> string + (string \<times> tenant)"
  tx_tid :: "string \<Rightarrow> string + string"
  tx_user :: "string \<Rightarrow> string + user"
  tx_key_user :: "string \<Rightarrow> string + (string \<times> string \<times> user)"
  tx_key :: "string \<Rightarrow> string + (string \<times> string)"
  tx_consent :: "string \<Rightarrow> string + (string \<times> string)"
  tx_mint :: "string \<Rightarrow> string + mint_input"

definition enum_error :: "tool_env \<Rightarrow> (string, string) gomap \<Rightarrow> input_spec \<Rightarrow> string option" where
  "enum_error env present spec =
     (case find (\<lambda>(name, allowed). case map_get present name of None \<Rightarrow> False | Some v \<Rightarrow> tx_string env v \<notin> set allowed) (is_enums spec) of
        None \<Rightarrow> None
      | Some (name, allowed) \<Rightarrow> Some (''argument '' @ go_quote name @ '' must be one of '' @ str_join allowed '', ''))"

definition strict_decode :: "tool_env \<Rightarrow> string \<Rightarrow> input_spec \<Rightarrow> (string \<Rightarrow> string + 'a) \<Rightarrow> string + 'a" where
  "strict_decode env raw0 spec dec =
     (let raw = (if trim_space raw0 = [] \<or> trim_space raw0 = ''null'' then ''{}'' else raw0) in
      case tx_object env raw of
        Inl e \<Rightarrow> Inl (''arguments must be a JSON object: '' @ e)
      | Inr present \<Rightarrow>
          (case find (\<lambda>n. case map_get present n of None \<Rightarrow> True | Some v \<Rightarrow> v = ''null'') (is_required spec) of
             Some n \<Rightarrow> Inl (''missing required argument '' @ go_quote n)
           | None \<Rightarrow>
               (case dec raw of
                  Inl e \<Rightarrow> Inl (''invalid arguments: '' @ e)
                | Inr x \<Rightarrow> (case enum_error env present spec of Some e \<Rightarrow> Inl e | None \<Rightarrow> Inr x))))"

section \<open>Tools (mcp_tools.go)\<close>

datatype tool_owner = OwnerSettings | OwnerDirectory | OwnerEntra
datatype tool_effect = EffectReads | EffectWrites | EffectDestroys

type_synonym tool_result = "(go_panic + (string + (string \<times> gval) list)) \<times> server"

record tool =
  tl_name :: string
  tl_description :: string
  tl_owner :: tool_owner
  tl_effect :: tool_effect
  tl_schema :: "(string \<times> gval) list"
  tl_call :: "tool_env \<Rightarrow> server_config \<Rightarrow> string \<Rightarrow> string \<Rightarrow> server \<Rightarrow> tool_result"

definition define_tool ::
  "string \<Rightarrow> string \<Rightarrow> tool_owner \<Rightarrow> tool_effect \<Rightarrow> go_field list \<Rightarrow> (tool_env \<Rightarrow> string \<Rightarrow> string + 'a) \<Rightarrow>
   (tool_env \<Rightarrow> server_config \<Rightarrow> string \<Rightarrow> 'a \<Rightarrow> server \<Rightarrow> tool_result) \<Rightarrow> tool" where
  "define_tool name description own eff fs dec fn =
     \<lparr>tl_name = name, tl_description = description, tl_owner = own, tl_effect = eff, tl_schema = is_schema (spec_for fs),
      tl_call = (\<lambda>env cfg origin args s.
        case strict_decode env args (spec_for fs) (dec env) of
          Inl e \<Rightarrow> (Inr (Inl e), s)
        | Inr x \<Rightarrow> fn env cfg origin x s)\<rparr>"

definition tool_ok :: "(string \<times> gval) list \<Rightarrow> server \<Rightarrow> tool_result" where
  "tool_ok out s = (Inr (Inr out), s)"

text \<open>A tool that runs one edit of the Entra handler or of the directory. An absent owner is a nil pointer.\<close>

definition tool_entra :: "(entra_state \<Rightarrow> admin_result) \<Rightarrow> server \<Rightarrow> tool_result" where
  "tool_entra f s =
     (case sv_entra s of
        None \<Rightarrow> (Inl nil_deref, s)
      | Some e \<Rightarrow>
          (case f e of
             (Some err, e') \<Rightarrow> (Inr (Inl (cfg_error_text err)), s\<lparr>sv_entra := Some e'\<rparr>)
           | (None, e') \<Rightarrow> tool_ok status_ok (s\<lparr>sv_entra := Some e'\<rparr>)))"

definition tool_directory :: "(directory \<Rightarrow> dir_error + directory) \<Rightarrow> server \<Rightarrow> tool_result" where
  "tool_directory f s =
     (case sv_dir s of
        None \<Rightarrow> (Inl nil_deref, s)
      | Some d \<Rightarrow> (case f d of Inl e \<Rightarrow> (Inr (Inl (dir_error_text e)), s) | Inr d' \<Rightarrow> tool_ok status_ok (s\<lparr>sv_dir := Some d'\<rparr>)))"

definition tool_settings_get :: "tool_env \<Rightarrow> server_config \<Rightarrow> string \<Rightarrow> unit \<Rightarrow> server \<Rightarrow> tool_result" where
  "tool_settings_get env cfg origin x s = tool_ok (settings_obj (admin_settings_of cfg s)) s"

definition tool_settings_set :: "tool_env \<Rightarrow> server_config \<Rightarrow> string \<Rightarrow> string \<times> bool \<Rightarrow> server \<Rightarrow> tool_result" where
  "tool_settings_set env cfg origin x s =
     (case admin_set_setting (cr_sha1 (ax_crypto (tx_admin env))) cfg (fst x) (snd x) s of
        (Some e, s') \<Rightarrow> (Inr (Inl (setting_error_text e)), s')
      | (None, s') \<Rightarrow> tool_ok status_ok s')"

definition tool_directory_list :: "tool_env \<Rightarrow> server_config \<Rightarrow> string \<Rightarrow> unit \<Rightarrow> server \<Rightarrow> tool_result" where
  "tool_directory_list env cfg origin x s =
     (case sv_dir s of None \<Rightarrow> (Inl nil_deref, s) | Some d \<Rightarrow> tool_ok [(''users'', directory_arr d)] s)"

definition tool_entra_state :: "tool_env \<Rightarrow> server_config \<Rightarrow> string \<Rightarrow> unit \<Rightarrow> server \<Rightarrow> tool_result" where
  "tool_entra_state env cfg origin x s =
     (case sv_entra s of
        None \<Rightarrow> (Inl nil_deref, s)
      | Some e \<Rightarrow> (case admin_snapshot (cr_sha1 (ax_crypto (tx_admin env))) e of VObj fs \<Rightarrow> tool_ok fs s | _ \<Rightarrow> (Inl PanicOther, s)))"

definition tool_rotate_keys :: "tool_env \<Rightarrow> server_config \<Rightarrow> string \<Rightarrow> unit \<Rightarrow> server \<Rightarrow> tool_result" where
  "tool_rotate_keys env cfg origin x s =
     (case sv_entra s of
        None \<Rightarrow> (Inl nil_deref, s)
      | Some e \<Rightarrow> (case admin_rotate_keys (ax_rsa (tx_admin env)) e of (kid, e') \<Rightarrow> tool_ok [(''kid'', VStr kid)] (s\<lparr>sv_entra := Some e'\<rparr>)))"

definition mint_error_text :: "mint_input \<Rightarrow> mint_error \<Rightarrow> string" where
  "mint_error_text x e = ''user '' @ mi_username x @ '' in tenant '' @ mi_tid x @ '': '' @
     (case e of MintNotFound \<Rightarrow> ''not found'' | MintDisabled \<Rightarrow> ''account is disabled'')"

definition tool_mint_token :: "tool_env \<Rightarrow> server_config \<Rightarrow> string \<Rightarrow> mint_input \<Rightarrow> server \<Rightarrow> tool_result" where
  "tool_mint_token env cfg origin x s =
     (case sv_entra s of
        None \<Rightarrow> (Inl nil_deref, s)
      | Some e \<Rightarrow>
          (case admin_mint_token (tx_entra env) origin x e of
             Inl p \<Rightarrow> (Inl p, s)
           | Inr (Inl err) \<Rightarrow> (Inr (Inl (mint_error_text x err)), s)
           | Inr (Inr t) \<Rightarrow> tool_ok (minted_obj t) s))"

definition tool_registry :: "tool list" where
  "tool_registry =
     [define_tool ''settings_get'' ''Read the live runtime toggles (interactiveLogin, rotateRefreshToken, entra, graph).''
        OwnerSettings EffectReads no_input tx_none tool_settings_get,
      define_tool ''settings_set'' ''Turn one runtime toggle on or off. In-memory; a restart restores the config.''
        OwnerSettings EffectWrites settings_set_input tx_setting tool_settings_set,
      define_tool ''directory_list'' ''List the login-page directory users.''
        OwnerDirectory EffectReads no_input tx_none tool_directory_list,
      define_tool ''directory_upsert_user'' ''Create or replace a login-page directory user, keyed by username.''
        OwnerDirectory EffectWrites directory_user_input tx_dir_user (\<lambda>env cfg origin u. tool_directory (dir_upsert u)),
      define_tool ''directory_delete_user'' ''Delete a login-page directory user.''
        OwnerDirectory EffectDestroys username_input tx_username (\<lambda>env cfg origin n. tool_directory (dir_delete n)),
      define_tool ''directory_reset'' ''Restore the login-page directory to its startup seed.''
        OwnerDirectory EffectDestroys no_input tx_none (\<lambda>env cfg origin u. tool_directory (\<lambda>d. Inr (dir_reset d))),
      define_tool ''entra_get_state'' ''Snapshot of Entra mode: apps, tenants with group object IDs, users, consents and signing key IDs.''
        OwnerEntra EffectReads no_input tx_none tool_entra_state,
      define_tool ''entra_create_tenant'' ''Add an Entra tenant.''
        OwnerEntra EffectWrites tenant_create_input tx_tenant
        (\<lambda>env cfg origin t. tool_entra (admin_create_tenant (cr_sha1 (ax_crypto (tx_admin env))) t)),
      define_tool ''entra_update_tenant'' ''Replace the editable fields of the Entra tenant tid.''
        OwnerEntra EffectWrites tenant_update_input tx_tid_tenant
        (\<lambda>env cfg origin x. tool_entra (admin_update_tenant (cr_sha1 (ax_crypto (tx_admin env))) (fst x) (snd x))),
      define_tool ''entra_delete_tenant'' ''Delete an Entra tenant with its users and consents.''
        OwnerEntra EffectDestroys tid_input tx_tid
        (\<lambda>env cfg origin tid. tool_entra (admin_delete_tenant (cr_sha1 (ax_crypto (tx_admin env))) tid)),
      define_tool ''entra_create_user'' ''Add a user to an Entra tenant.''
        OwnerEntra EffectWrites user_create_input tx_user
        (\<lambda>env cfg origin u. tool_entra (admin_create_user (cr_sha1 (ax_crypto (tx_admin env))) u)),
      define_tool ''entra_update_user'' ''Replace the fields of the Entra user username in tenant tid.''
        OwnerEntra EffectWrites user_update_input tx_key_user
        (\<lambda>env cfg origin x. tool_entra (admin_update_user (cr_sha1 (ax_crypto (tx_admin env))) (fst x) (fst (snd x)) (snd (snd x)))),
      define_tool ''entra_delete_user'' ''Delete an Entra user.''
        OwnerEntra EffectDestroys user_key_input tx_key
        (\<lambda>env cfg origin x. tool_entra (admin_delete_user (cr_sha1 (ax_crypto (tx_admin env))) (fst x) (snd x))),
      define_tool ''entra_revoke_consent'' (''Revoke one app'' @ [CHR 0x27] @ ''s consent in a tenant. Revoking an absent consent succeeds.'')
        OwnerEntra EffectDestroys consent_input tx_consent
        (\<lambda>env cfg origin x. tool_entra (\<lambda>e. (None, admin_revoke_consent (fst x) (snd x) e))),
      define_tool ''entra_reset'' ''Restore Entra tenants, users and consents to the config seed. Signing keys are kept.''
        OwnerEntra EffectDestroys no_input tx_none (\<lambda>env cfg origin x. tool_entra (\<lambda>e. (None, admin_reset_to_seed e))),
      define_tool ''entra_rotate_keys'' ''Rotate the Entra signing key and return the new key ID.''
        OwnerEntra EffectWrites no_input tx_none tool_rotate_keys,
      define_tool ''entra_mint_token'' ''Issue access and ID tokens for a configured, enabled Entra user without the sign-in page.''
        OwnerEntra EffectWrites mint_tool_input tx_mint tool_mint_token]"

definition tool_available :: "server \<Rightarrow> tool \<Rightarrow> bool" where
  "tool_available s t =
     (case tl_owner t of OwnerSettings \<Rightarrow> True | OwnerDirectory \<Rightarrow> sv_dir s \<noteq> None | OwnerEntra \<Rightarrow> sv_entra s \<noteq> None)"

definition tool_defs :: "server \<Rightarrow> gval" where
  "tool_defs s =
     VArr (map (\<lambda>t. VObj [(''name'', VStr (tl_name t)), (''description'', VStr (tl_description t)), (''inputSchema'', VObj (tl_schema t)),
            (''annotations'', VObj [(''readOnlyHint'', VBool (tl_effect t = EffectReads)),
               (''destructiveHint'', VBool (tl_effect t = EffectDestroys))])])
          (filter (tool_available s) tool_registry))"

definition lookup_tool :: "string \<Rightarrow> server \<Rightarrow> tool option" where
  "lookup_tool name s = find (\<lambda>t. tl_name t = name \<and> tool_available s t) tool_registry"

text \<open>The tool result: the text of an error, or the rendered output and the output itself. A panic stays a panic.\<close>

definition run_tool :: "tool_env \<Rightarrow> server_config \<Rightarrow> tool \<Rightarrow> string \<Rightarrow> string \<Rightarrow> server \<Rightarrow> (go_panic + (string \<times> gval) list) \<times> server" where
  "run_tool env cfg t origin args s =
     (case tl_call t env cfg origin args s of
        (Inl p, s') \<Rightarrow> (Inl p, s')
      | (Inr (Inl e), s') \<Rightarrow>
          (Inr [(''resultType'', VStr ''complete''),
             (''content'', VArr [VObj [(''type'', VStr ''text''), (''text'', VStr e)]]), (''isError'', VBool True)], s')
      | (Inr (Inr out), s') \<Rightarrow>
          (Inr [(''resultType'', VStr ''complete''),
             (''content'', VArr [VObj [(''type'', VStr ''text''), (''text'', VStr (json_render (VObj out)))]]),
             (''structuredContent'', VObj out), (''isError'', VBool False)], s'))"

end
