(* ===== verification/Admin_Mcp.thy ===== *)
theory Admin_Mcp
  imports Admin_Tools
begin

text \<open>
  The MCP endpoint of the admin console (internal/adminui/mcp.go) and the dispatch of /admin
  (\<open>Handle\<close> of adminui.go).

  JSON decoding is again an argument (\<open>mcp_env\<close>): the JSON-RPC envelope, the parts of the parameters the
  endpoint looks at, and the media type of a header. A request identifier is a number or a string.
\<close>

section \<open>Envelopes\<close>

record rpc_request =
  rr_jsonrpc :: string
  rr_id :: "gval option"
  rr_method :: string
  rr_params :: string

record mcp_env =
  mx_tools :: tool_env
  mx_media_type :: "string \<Rightarrow> string"
  mx_request :: "string \<Rightarrow> string + rpc_request"
  mx_meta :: "string \<Rightarrow> (string, string) gomap option"
  mx_string :: "string \<Rightarrow> string"
  mx_name :: "string \<Rightarrow> string"
  mx_call :: "string \<Rightarrow> (string \<times> string) option"
  mx_protocol :: "string \<Rightarrow> string"
  mx_version :: string

definition modern_version :: string where "modern_version = ''2026-07-28''"
definition legacy_versions :: "string list" where "legacy_versions = [''2025-11-25'', ''2025-06-18'', ''2025-03-26'']"
definition meta_protocol_version :: string where "meta_protocol_version = ''io.modelcontextprotocol/protocolVersion''"

definition code_parse_error :: int where "code_parse_error = -32700"
definition code_invalid_request :: int where "code_invalid_request = -32600"
definition code_method_not_found :: int where "code_method_not_found = -32601"
definition code_invalid_params :: int where "code_invalid_params = -32602"
definition code_header_mismatch :: int where "code_header_mismatch = -32020"
definition code_unsupported_version :: int where "code_unsupported_version = -32022"

lemmas rpc_codes = code_parse_error_def code_invalid_request_def code_method_not_found_def code_invalid_params_def
  code_header_mismatch_def code_unsupported_version_def

record rpc_error =
  re_code :: int
  re_message :: string
  re_data :: "(string \<times> gval) list option"

definition rpc_err :: "int \<Rightarrow> string \<Rightarrow> rpc_error" where
  "rpc_err code msg = \<lparr>re_code = code, re_message = msg, re_data = None\<rparr>"

datatype mcp_era = LegacyEra | ModernEra

definition detect_era :: "mcp_env \<Rightarrow> string \<Rightarrow> mcp_era \<times> string" where
  "detect_era env params =
     (case mx_meta env params of
        None \<Rightarrow> (LegacyEra, [])
      | Some m \<Rightarrow> (case map_get m meta_protocol_version of None \<Rightarrow> (LegacyEra, []) | Some raw \<Rightarrow> (ModernEra, mx_string env raw)))"

definition era_status :: "mcp_era \<Rightarrow> int \<Rightarrow> int" where
  "era_status e code =
     (if code \<in> {code_parse_error, code_invalid_request, code_header_mismatch, code_unsupported_version} then 400
      else if code = code_method_not_found \<and> e = ModernEra then 404 else 200)"

definition rpc_response :: "int \<Rightarrow> gval option \<Rightarrow> rpc_error + (string \<times> gval) list \<Rightarrow> response" where
  "rpc_response status rid res =
     (let head = [(''jsonrpc'', VStr ''2.0'')] @ (case rid of Some i \<Rightarrow> [(''id'', i)] | None \<Rightarrow> []);
          tail = (case res of
              Inl e \<Rightarrow> (''error'', VObj ([(''code'', VInt (re_code e)), (''message'', VStr (re_message e))] @
                          (case re_data e of Some d \<Rightarrow> [(''data'', VObj d)] | None \<Rightarrow> [])))
            | Inr r \<Rightarrow> (''result'', VObj r))
      in (set_header ''Content-Type'' ''application/json'' (new_response status))\<lparr>rs_body := json_render (VObj (head @ [tail]))\<rparr>)"

section \<open>Checks\<close>

definition decode_header_value :: "string \<Rightarrow> string option" where
  "decode_header_value v =
     (case cut_prefix v ''=?base64?'' of
        None \<Rightarrow> Some v
      | Some inner \<Rightarrow>
          if \<not> has_suffix inner ''?='' then Some v
          else b64_std_decode (case cut_suffix inner ''?='' of Some b \<Rightarrow> b | None \<Rightarrow> inner))"

definition header_mismatch :: "string \<Rightarrow> string \<Rightarrow> string \<Rightarrow> rpc_error" where
  "header_mismatch header got want =
     (if got = [] then rpc_err code_header_mismatch (''Header mismatch: missing '' @ header @ '' header'')
      else rpc_err code_header_mismatch (''Header mismatch: '' @ header @ '' header value '' @ quoted got @
             '' does not match body value '' @ quoted want))"

definition check_modern :: "mcp_env \<Rightarrow> request \<Rightarrow> rpc_request \<Rightarrow> string \<Rightarrow> rpc_error option" where
  "check_modern env r m version =
     (let proto = header_get r ''MCP-Protocol-Version''; meth = header_get r ''Mcp-Method''; raw = header_get r ''Mcp-Name'' in
      if version \<noteq> modern_version then
        Some \<lparr>re_code = code_unsupported_version, re_message = ''Unsupported protocol version'',
              re_data = Some [(''supported'', VStrs [modern_version]), (''requested'', VStr version)]\<rparr>
      else if proto \<noteq> version then Some (header_mismatch ''MCP-Protocol-Version'' proto version)
      else if meth \<noteq> rr_method m then Some (header_mismatch ''Mcp-Method'' meth (rr_method m))
      else if rr_method m = ''tools/call'' then
        (case decode_header_value raw of
           None \<Rightarrow> Some (rpc_err code_header_mismatch ''Header mismatch: malformed Mcp-Name header'')
         | Some got \<Rightarrow> if got \<noteq> mx_name env (rr_params m) then Some (header_mismatch ''Mcp-Name'' raw (mx_name env (rr_params m))) else None)
      else None)"

definition check_legacy :: "request \<Rightarrow> rpc_error option" where
  "check_legacy r =
     (let v = header_get r ''MCP-Protocol-Version'' in
      if v = [] \<or> v = modern_version \<or> v \<in> set legacy_versions then None
      else Some (rpc_err code_invalid_request (''Unsupported MCP-Protocol-Version header: '' @ v)))"

section \<open>Methods\<close>

definition server_info :: "mcp_env \<Rightarrow> gval" where
  "server_info env = VObj [(''name'', VStr ''mock-oidc''), (''version'', VStr (mx_version env))]"

definition mcp_instructions :: "server \<Rightarrow> string" where
  "mcp_instructions s =
     ''Manages the running mock-oidc server'' @ [CHR 0x27] @ ''s in-memory state: runtime settings, the login-page directory '' @
     ''and Entra mode (tenants, users, consents, signing keys, token minting). Edits are lost on restart; '' @
     ''the reset tools restore the config seed.'' @
     (if sv_entra s = None then '' Entra mode is not configured on this server; entra_* tools are absent.'' else []) @
     (if sv_dir s = None then '' No login directory is loaded; directory_* tools are absent.'' else [])"

type_synonym rpc_result = "(go_panic + (rpc_error + (string \<times> gval) list)) \<times> server"

definition rpc_ok :: "(string \<times> gval) list \<Rightarrow> server \<Rightarrow> rpc_result" where
  "rpc_ok out s = (Inr (Inr out), s)"

definition mcp_initialize :: "mcp_env \<Rightarrow> string \<Rightarrow> server \<Rightarrow> rpc_result" where
  "mcp_initialize env params s =
     (let v = mx_protocol env params;
          version = (if v \<in> set legacy_versions then v else hd legacy_versions)
      in rpc_ok [(''protocolVersion'', VStr version),
           (''capabilities'', VObj [(''tools'', VObj [(''listChanged'', VBool False)])]),
           (''serverInfo'', server_info env), (''instructions'', VStr (mcp_instructions s))] s)"

definition mcp_discover :: "mcp_env \<Rightarrow> server \<Rightarrow> rpc_result" where
  "mcp_discover env s =
     rpc_ok [(''resultType'', VStr ''complete''), (''supportedVersions'', VStrs [modern_version]),
       (''capabilities'', VObj [(''tools'', VObj [])]), (''_meta'', VObj [(''io.modelcontextprotocol/serverInfo'', server_info env)]),
       (''instructions'', VStr (mcp_instructions s)), (''ttlMs'', VInt 0), (''cacheScope'', VStr ''private'')] s"

definition mcp_ping :: "server \<Rightarrow> rpc_result" where
  "mcp_ping s = rpc_ok [(''resultType'', VStr ''complete'')] s"

definition mcp_tools_list :: "server \<Rightarrow> rpc_result" where
  "mcp_tools_list s =
     rpc_ok [(''resultType'', VStr ''complete''), (''tools'', tool_defs s), (''ttlMs'', VInt 0), (''cacheScope'', VStr ''private'')] s"

definition mcp_tools_call :: "mcp_env \<Rightarrow> server_config \<Rightarrow> request \<Rightarrow> string \<Rightarrow> server \<Rightarrow> rpc_result" where
  "mcp_tools_call env cfg r params s =
     (case mx_call env params of
        None \<Rightarrow> (Inr (Inl (rpc_err code_invalid_params ''tools/call needs params.name'')), s)
      | Some (name, args) \<Rightarrow>
          if name = [] then (Inr (Inl (rpc_err code_invalid_params ''tools/call needs params.name'')), s)
          else (case lookup_tool name s of
                  None \<Rightarrow> (Inr (Inl (rpc_err code_invalid_params (''Unknown tool: '' @ name))), s)
                | Some t \<Rightarrow>
                    (case run_tool (mx_tools env) cfg t (issuer_origin r) args s of
                       (Inl p, s') \<Rightarrow> (Inl p, s')
                     | (Inr out, s') \<Rightarrow> rpc_ok out s')))"

text \<open>The method tables of the two eras.\<close>

definition mcp_method :: "mcp_env \<Rightarrow> server_config \<Rightarrow> request \<Rightarrow> mcp_era \<Rightarrow> string \<Rightarrow> string \<Rightarrow> server \<Rightarrow> rpc_result option" where
  "mcp_method env cfg r e meth params s =
     (if e = LegacyEra \<and> meth = ''initialize'' then Some (mcp_initialize env params s)
      else if e = ModernEra \<and> meth = ''server/discover'' then Some (mcp_discover env s)
      else if meth = ''ping'' then Some (mcp_ping s)
      else if meth = ''tools/list'' then Some (mcp_tools_list s)
      else if meth = ''tools/call'' then Some (mcp_tools_call env cfg r params s)
      else None)"

section \<open>The endpoint\<close>

definition serve_mcp :: "mcp_env \<Rightarrow> server_config \<Rightarrow> request \<Rightarrow> server \<Rightarrow> (go_panic + response) \<times> server" where
  "serve_mcp env cfg r s =
     (if rq_method r \<noteq> ''POST'' then (Inr (set_header ''Allow'' ''POST'' (new_response 405)), s)
      else if mx_media_type env (header_get r ''Content-Type'') \<noteq> ''application/json''
      then (Inr (rpc_response 415 None (Inl (rpc_err code_invalid_request ''Content-Type must be application/json''))), s)
      else
        let body = trim_space (rq_body r) in
        if has_prefix body ''['' then (Inr (rpc_response 400 None (Inl (rpc_err code_invalid_request ''JSON-RPC batches are not supported''))), s)
        else (case mx_request env body of
          Inl e \<Rightarrow> (Inr (rpc_response 400 None (Inl (rpc_err code_parse_error (''Parse error: '' @ e)))), s)
        | Inr m \<Rightarrow>
            if rr_jsonrpc m \<noteq> ''2.0'' \<or> rr_method m = []
            then (Inr (rpc_response 400 (rr_id m) (Inl (rpc_err code_invalid_request ''Invalid Request''))), s)
            else if rr_id m = None then (Inr (new_response 202), s)
            else
              (case detect_era env (rr_params m) of (e, version) \<Rightarrow>
                 (case (if e = ModernEra then check_modern env r m version else check_legacy r) of
                    Some err \<Rightarrow> (Inr (rpc_response (era_status e (re_code err)) (rr_id m) (Inl err)), s)
                  | None \<Rightarrow>
                      (case mcp_method env cfg r e (rr_method m) (rr_params m) s of
                         None \<Rightarrow>
                           (Inr (rpc_response (era_status e code_method_not_found) (rr_id m)
                              (Inl (rpc_err code_method_not_found (''Method not found: '' @ rr_method m)))), s)
                       | Some (Inl p, s') \<Rightarrow> (Inl p, s')
                       | Some (Inr (Inl err), s') \<Rightarrow> (Inr (rpc_response (era_status e (re_code err)) (rr_id m) (Inl err)), s')
                       | Some (Inr (Inr out), s') \<Rightarrow> (Inr (rpc_response 200 (rr_id m) (Inr out)), s'))))))"

text \<open>\<open>Handle\<close>: the route /admin and everything under it.\<close>

definition admin_handle :: "mcp_env \<Rightarrow> server_config \<Rightarrow> request \<Rightarrow> server \<Rightarrow> (go_panic + response) \<times> server" where
  "admin_handle env cfg r s =
     (if rq_method r = ''OPTIONS'' then (Inr (new_response 204), s)
      else
        let rest = trim_prefix (trim_prefix (trim_slash (rq_path r)) ''admin'') ''/''; ax = tx_admin (mx_tools env) in
        if rest = ''mcp'' then serve_mcp env cfg r s
        else if has_prefix rest ''api/'' then
          (if rq_method r \<notin> {''GET'', ''POST'', ''PUT'', ''DELETE''} then (Inr method_not_allowed, s)
           else case admin_api ax cfg r (trim_prefix rest ''api/'') s of (resp, s') \<Rightarrow> (Inr resp, s'))
        else if rq_method r \<noteq> ''GET'' \<and> rq_method r \<noteq> ''HEAD'' then (Inr method_not_allowed, s)
        else if rest = [] then (Inr (serve_asset ax ''index.html''), s)
        else (Inr (serve_asset ax rest), s))"

end
