(* ===== verification/Admin_Laws.thy ===== *)
theory Admin_Laws
  imports Admin_Mcp
begin

text \<open>
  Laws of the admin console: its requests and tools keep the invariant of the server, reading changes
  nothing, the JSON API and the MCP tools implement the same administrative operations, and
  an MCP request changes the server only through a tool it names consistently.
\<close>

section \<open>What a tool keeps\<close>

lemma define_tool_snd:
  "P s \<Longrightarrow> (\<And>x. P (snd (fn env cfg origin x s))) \<Longrightarrow> P (snd (tl_call (define_tool n d ow eff fs dec fn) env cfg origin args s))"
  by (simp add: define_tool_def split: sum.split)

definition all_tools :: "(tool \<Rightarrow> bool) \<Rightarrow> bool" where
  "all_tools P \<longleftrightarrow> list_all P tool_registry"

context state_kept begin

lemma tool_entra_kept:
  assumes "I s" and "\<And>e err e'. f e = (err, e') \<Longrightarrow> entra_step sha1 e e'"
  shows "I (snd (tool_entra f s))"
  using assms keep_entra[OF assms(1)]
  by (auto simp: tool_entra_def tool_ok_def split: option.split prod.split)

lemma tool_directory_kept: "I s \<Longrightarrow> I (snd (tool_directory f s))"
  by (auto simp: tool_directory_def tool_ok_def intro: keep_dir split: option.split sum.split)

lemma tools_kept:
  assumes "I s" and sha: "cr_sha1 (ax_crypto (tx_admin env)) = sha1"
  shows "all_tools (\<lambda>t. I (snd (tl_call t env cfg origin args s)))"
proof -
  note e = tool_entra_kept[OF assms(1)]
  have same: "snd (tool_settings_get env cfg origin x s) = s" "snd (tool_directory_list env cfg origin x s) = s"
    "snd (tool_entra_state env cfg origin x s) = s" "snd (tool_mint_token env cfg origin y s) = s" for x y
    by (simp_all add: tool_settings_get_def tool_directory_list_def tool_entra_state_def tool_mint_token_def tool_ok_def
        split: option.split gval.split sum.split)
  have set: "I (snd (tool_settings_set env cfg origin x s))" for x
    using assms keep_setting[OF assms(1)] by (auto simp: tool_settings_set_def tool_ok_def split: option.split prod.split)
  have rot: "I (snd (tool_rotate_keys env cfg origin x s))" for x
    using assms(1) by (auto simp: tool_rotate_keys_def tool_ok_def intro: keep_entra step_rotate split: option.split prod.split)
  show ?thesis
    unfolding all_tools_def tool_registry_def list.pred_inject
    by (intro conjI TrueI define_tool_snd[where P = I] assms(1) e tool_directory_kept[OF assms(1)] set rot)
      (auto simp: same assms intro: entra_step.intros)
qed

lemma tool_call_kept:
  assumes "I s" and "cr_sha1 (ax_crypto (tx_admin env)) = sha1" and "t \<in> set tool_registry"
  shows "I (snd (tl_call t env cfg origin args s))"
  using tools_kept[OF assms(1,2)] assms(3) by (auto simp: all_tools_def list_all_iff)

end

lemma lookup_toolD: "lookup_tool name s = Some t \<Longrightarrow> t \<in> set tool_registry \<and> tl_name t = name \<and> tool_available s t"
  by (auto simp: lookup_tool_def dest: find_SomeD)

lemma run_tool_snd: "snd (run_tool env cfg t origin args s) = snd (tl_call t env cfg origin args s)"
  by (simp add: run_tool_def split: prod.split sum.split)

lemma mcp_method_snd:
  assumes "mcp_method env cfg r e meth params s = Some (res, s')"
  shows "s' = s \<or> meth = ''tools/call'' \<and>
    (\<exists>name args t. mx_call env params = Some (name, args) \<and> name \<noteq> [] \<and> lookup_tool name s = Some t \<and>
       s' = snd (tl_call t (mx_tools env) cfg (issuer_origin r) args s))"
proof (cases "meth = ''tools/call''")
  case True
  then have m: "mcp_tools_call env cfg r params s = (res, s')"
    using assms by (simp add: mcp_method_def)
  show ?thesis
  proof (cases "mx_call env params")
    case None
    then show ?thesis using m by (simp add: mcp_tools_call_def)
  next
    case (Some p)
    obtain name args where p: "p = (name, args)" by (rule prod.exhaust)
    show ?thesis
    proof (cases "name = [] \<or> lookup_tool name s = None")
      case True
      then show ?thesis using m Some p by (auto simp: mcp_tools_call_def split: if_splits)
    next
      case False
      then obtain t where t: "lookup_tool name s = Some t" "name \<noteq> []" by blast
      have "s' = snd (run_tool (mx_tools env) cfg t (issuer_origin r) args s)"
        using m Some p t by (auto simp: mcp_tools_call_def rpc_ok_def split: prod.splits sum.splits)
      then show ?thesis using True Some p t by (simp add: run_tool_snd)
    qed
  qed
next
  case False
  then show ?thesis
    using assms by (auto simp: mcp_method_def mcp_initialize_def mcp_discover_def mcp_ping_def mcp_tools_list_def rpc_ok_def Let_def split: if_splits)
qed

lemma serve_mcp_method:
  assumes "serve_mcp env cfg r s = (res, s')" and "s' \<noteq> s"
  obtains m e v x where "rq_method r = ''POST''" "mx_media_type env (header_get r ''Content-Type'') = ''application/json''"
    "mx_request env (trim_space (rq_body r)) = Inr m" "rr_jsonrpc m = ''2.0''" "rr_id m \<noteq> None"
    "detect_era env (rr_params m) = (e, v)" "(if e = ModernEra then check_modern env r m v else check_legacy r) = None"
    "mcp_method env cfg r e (rr_method m) (rr_params m) s = Some (x, s')"
proof -
  from assms obtain m where a: "rq_method r = ''POST''" "mx_media_type env (header_get r ''Content-Type'') = ''application/json''"
      "mx_request env (trim_space (rq_body r)) = Inr m" "rr_jsonrpc m = ''2.0''" "rr_id m \<noteq> None"
    by (auto simp: serve_mcp_def Let_def split: if_splits sum.splits)
  obtain e v where ev: "detect_era env (rr_params m) = (e, v)" by (rule prod.exhaust)
  from assms a ev have c: "(if e = ModernEra then check_modern env r m v else check_legacy r) = None"
    by (cases "if e = ModernEra then check_modern env r m v else check_legacy r")
      (auto simp: serve_mcp_def Let_def split: if_splits)
  from assms a ev c obtain x where x: "mcp_method env cfg r e (rr_method m) (rr_params m) s = Some (x, s')"
    by (auto simp: serve_mcp_def Let_def split: if_splits option.splits sum.splits prod.splits)
  show thesis by (rule that[OF a ev c x])
qed

text \<open>C34: mcp_changes_only_by_tool. An MCP request changes the server only if it is a POST with a JSON content type and a
  JSON-RPC request (not a notification) that calls an available tool, and its version
  headers are those its protocol era demands; the new state is the one the tool leaves.\<close>

theorem mcp_changes_only_by_tool:
  assumes "serve_mcp env cfg r s = (res, s')" and "s' \<noteq> s"
  shows "\<exists>m name args t. rq_method r = ''POST'' \<and> mx_media_type env (header_get r ''Content-Type'') = ''application/json'' \<and>
    mx_request env (trim_space (rq_body r)) = Inr m \<and> rr_jsonrpc m = ''2.0'' \<and> rr_id m \<noteq> None \<and> rr_method m = ''tools/call'' \<and>
    mx_call env (rr_params m) = Some (name, args) \<and> lookup_tool name s = Some t \<and>
    (case detect_era env (rr_params m) of
       (ModernEra, v) \<Rightarrow> v = modern_version \<and> header_get r ''MCP-Protocol-Version'' = v \<and> header_get r ''Mcp-Method'' = ''tools/call'' \<and>
         decode_header_value (header_get r ''Mcp-Name'') = Some (mx_name env (rr_params m))
     | (LegacyEra, _) \<Rightarrow> header_get r ''MCP-Protocol-Version'' \<in> set ([] # modern_version # legacy_versions)) \<and>
    s' = snd (tl_call t (mx_tools env) cfg (issuer_origin r) args s)"
proof -
  from serve_mcp_method[OF assms] obtain m e v x where a: "rq_method r = ''POST''"
      "mx_media_type env (header_get r ''Content-Type'') = ''application/json''"
      "mx_request env (trim_space (rq_body r)) = Inr m" "rr_jsonrpc m = ''2.0''" "rr_id m \<noteq> None"
    and ev: "detect_era env (rr_params m) = (e, v)" and c: "(if e = ModernEra then check_modern env r m v else check_legacy r) = None"
    and x: "mcp_method env cfg r e (rr_method m) (rr_params m) s = Some (x, s')" by metis
  from mcp_method_snd[OF x] assms(2) obtain name args t where t: "rr_method m = ''tools/call''"
      "mx_call env (rr_params m) = Some (name, args)" "lookup_tool name s = Some t"
      "s' = snd (tl_call t (mx_tools env) cfg (issuer_origin r) args s)" by blast
  have h: "case (e, v) of
       (ModernEra, v) \<Rightarrow> v = modern_version \<and> header_get r ''MCP-Protocol-Version'' = v \<and> header_get r ''Mcp-Method'' = ''tools/call'' \<and>
         decode_header_value (header_get r ''Mcp-Name'') = Some (mx_name env (rr_params m))
     | (LegacyEra, _) \<Rightarrow> header_get r ''MCP-Protocol-Version'' \<in> set ([] # modern_version # legacy_versions)"
  proof (cases e)
    case LegacyEra
    then show ?thesis using c by (auto simp: check_legacy_def Let_def split: if_splits)
  next
    case ModernEra
    then show ?thesis using c t(1) by (auto simp: check_modern_def Let_def split: if_splits option.splits)
  qed
  show ?thesis
    by (rule exI[of _ m], rule exI[of _ name], rule exI[of _ args], rule exI[of _ t]) (use a t h in \<open>simp add: ev\<close>)
qed

section \<open>The abstract administration\<close>

datatype admin_op =
    SetSetting string bool
  | PutDirUser dir_user
  | DeleteDirUser string
  | ResetDir
  | CreateTenant tenant
  | UpdateTenant string tenant
  | DeleteTenant string
  | CreateUser user
  | UpdateUser string string user
  | DeleteUser string string
  | RevokeConsent string string
  | ResetEntra
  | RotateKeys

definition entra_apply :: "(entra_state \<Rightarrow> 'e option \<times> entra_state) \<Rightarrow> server \<Rightarrow> bool \<times> server" where
  "entra_apply f s =
     (case sv_entra s of
        None \<Rightarrow> (False, s)
      | Some e \<Rightarrow> (case f e of (err, e') \<Rightarrow> (err = None, s\<lparr>sv_entra := Some e'\<rparr>)))"

definition dir_apply :: "(directory \<Rightarrow> dir_error + directory) \<Rightarrow> server \<Rightarrow> bool \<times> server" where
  "dir_apply f s =
     (case sv_dir s of
        None \<Rightarrow> (False, s)
      | Some d \<Rightarrow> (case f d of Inl e \<Rightarrow> (False, s) | Inr d' \<Rightarrow> (True, s\<lparr>sv_dir := Some d'\<rparr>)))"

text \<open>Whether an operation is accepted, and the state it leaves.\<close>

fun admin_apply :: "(string \<Rightarrow> string) \<Rightarrow> nat \<Rightarrow> server_config \<Rightarrow> admin_op \<Rightarrow> server \<Rightarrow> bool \<times> server" where
  "admin_apply sha1 rsa cfg (SetSetting n v) s = (case admin_set_setting sha1 cfg n v s of (e, s') \<Rightarrow> (e = None, s'))"
| "admin_apply sha1 rsa cfg (PutDirUser u) s = dir_apply (dir_upsert u) s"
| "admin_apply sha1 rsa cfg (DeleteDirUser n) s = dir_apply (dir_delete n) s"
| "admin_apply sha1 rsa cfg ResetDir s = dir_apply (\<lambda>d. Inr (dir_reset d)) s"
| "admin_apply sha1 rsa cfg (CreateTenant t) s = entra_apply (admin_create_tenant sha1 t) s"
| "admin_apply sha1 rsa cfg (UpdateTenant tid t) s = entra_apply (admin_update_tenant sha1 tid t) s"
| "admin_apply sha1 rsa cfg (DeleteTenant tid) s = entra_apply (admin_delete_tenant sha1 tid) s"
| "admin_apply sha1 rsa cfg (CreateUser u) s = entra_apply (admin_create_user sha1 u) s"
| "admin_apply sha1 rsa cfg (UpdateUser tid n u) s = entra_apply (admin_update_user sha1 tid n u) s"
| "admin_apply sha1 rsa cfg (DeleteUser tid n) s = entra_apply (admin_delete_user sha1 tid n) s"
| "admin_apply sha1 rsa cfg (RevokeConsent c tid) s = entra_apply (\<lambda>e. (None :: unit option, admin_revoke_consent c tid e)) s"
| "admin_apply sha1 rsa cfg ResetEntra s = entra_apply (\<lambda>e. (None :: unit option, admin_reset_to_seed e)) s"
| "admin_apply sha1 rsa cfg RotateKeys s = entra_apply (\<lambda>e. (None :: unit option, snd (admin_rotate_keys rsa e))) s"

text \<open>How the JSON API and the tools spell an operation. A path segment holds no slash.\<close>

definition seg :: "string \<Rightarrow> bool" where "seg x \<longleftrightarrow> CHR ''/'' \<notin> set x"

fun api_request :: "admin_env \<Rightarrow> request \<Rightarrow> string \<Rightarrow> admin_op \<Rightarrow> bool" where
  "api_request ax r a (SetSetting n v) \<longleftrightarrow> rq_method r = ''POST'' \<and> a = ''settings'' \<and> ax_setting ax (rq_body r) = Inr (n, v)"
| "api_request ax r a (PutDirUser u) \<longleftrightarrow> rq_method r = ''POST'' \<and> a = ''directory/users'' \<and> ax_dir_user ax (rq_body r) = Inr u"
| "api_request ax r a (DeleteDirUser n) \<longleftrightarrow> rq_method r = ''DELETE'' \<and> a = str_join [''directory'', ''users'', n] ''/'' \<and> seg n"
| "api_request ax r a ResetDir \<longleftrightarrow> rq_method r = ''POST'' \<and> a = ''directory/reset''"
| "api_request ax r a (CreateTenant t) \<longleftrightarrow> rq_method r = ''POST'' \<and> a = ''entra/tenants'' \<and> ax_tenant ax (rq_body r) = Inr t"
| "api_request ax r a (UpdateTenant tid t) \<longleftrightarrow> rq_method r = ''PUT'' \<and> a = str_join [''entra'', ''tenants'', tid] ''/'' \<and> seg tid \<and>
     tid \<noteq> [] \<and> ax_tenant ax (rq_body r) = Inr t"
| "api_request ax r a (DeleteTenant tid) \<longleftrightarrow> rq_method r = ''DELETE'' \<and> a = str_join [''entra'', ''tenants'', tid] ''/'' \<and> seg tid"
| "api_request ax r a (CreateUser u) \<longleftrightarrow> rq_method r = ''POST'' \<and> a = ''entra/users'' \<and> ax_user ax (rq_body r) = Inr u"
| "api_request ax r a (UpdateUser tid n u) \<longleftrightarrow> rq_method r = ''PUT'' \<and> a = str_join [''entra'', ''users'', tid, n] ''/'' \<and> seg tid \<and>
     seg n \<and> tid \<noteq> [] \<and> ax_user ax (rq_body r) = Inr u"
| "api_request ax r a (DeleteUser tid n) \<longleftrightarrow> rq_method r = ''DELETE'' \<and> a = str_join [''entra'', ''users'', tid, n] ''/'' \<and> seg tid \<and> seg n"
| "api_request ax r a (RevokeConsent c tid) \<longleftrightarrow> rq_method r = ''DELETE'' \<and> a = str_join [''entra'', ''consents'', c, tid] ''/'' \<and> seg c \<and> seg tid"
| "api_request ax r a ResetEntra \<longleftrightarrow> rq_method r = ''POST'' \<and> a = ''entra/reset''"
| "api_request ax r a RotateKeys \<longleftrightarrow> rq_method r = ''POST'' \<and> a = ''entra/rotate-keys''"

fun tool_request :: "tool_env \<Rightarrow> string \<Rightarrow> string \<Rightarrow> admin_op \<Rightarrow> bool" where
  "tool_request env name args (SetSetting n v) \<longleftrightarrow> name = ''settings_set'' \<and>
     strict_decode env args (spec_for settings_set_input) (tx_setting env) = Inr (n, v)"
| "tool_request env name args (PutDirUser u) \<longleftrightarrow> name = ''directory_upsert_user'' \<and>
     strict_decode env args (spec_for directory_user_input) (tx_dir_user env) = Inr u"
| "tool_request env name args (DeleteDirUser n) \<longleftrightarrow> name = ''directory_delete_user'' \<and>
     strict_decode env args (spec_for username_input) (tx_username env) = Inr n"
| "tool_request env name args ResetDir \<longleftrightarrow> name = ''directory_reset'' \<and> is_ok (strict_decode env args (spec_for no_input) (tx_none env))"
| "tool_request env name args (CreateTenant t) \<longleftrightarrow> name = ''entra_create_tenant'' \<and>
     strict_decode env args (spec_for tenant_create_input) (tx_tenant env) = Inr t"
| "tool_request env name args (UpdateTenant tid t) \<longleftrightarrow> name = ''entra_update_tenant'' \<and>
     strict_decode env args (spec_for tenant_update_input) (tx_tid_tenant env) = Inr (tid, t)"
| "tool_request env name args (DeleteTenant tid) \<longleftrightarrow> name = ''entra_delete_tenant'' \<and>
     strict_decode env args (spec_for tid_input) (tx_tid env) = Inr tid"
| "tool_request env name args (CreateUser u) \<longleftrightarrow> name = ''entra_create_user'' \<and>
     strict_decode env args (spec_for user_create_input) (tx_user env) = Inr u"
| "tool_request env name args (UpdateUser tid n u) \<longleftrightarrow> name = ''entra_update_user'' \<and>
     strict_decode env args (spec_for user_update_input) (tx_key_user env) = Inr (tid, n, u)"
| "tool_request env name args (DeleteUser tid n) \<longleftrightarrow> name = ''entra_delete_user'' \<and>
     strict_decode env args (spec_for user_key_input) (tx_key env) = Inr (tid, n)"
| "tool_request env name args (RevokeConsent c tid) \<longleftrightarrow> name = ''entra_revoke_consent'' \<and>
     strict_decode env args (spec_for consent_input) (tx_consent env) = Inr (c, tid)"
| "tool_request env name args ResetEntra \<longleftrightarrow> name = ''entra_reset'' \<and> is_ok (strict_decode env args (spec_for no_input) (tx_none env))"
| "tool_request env name args RotateKeys \<longleftrightarrow> name = ''entra_rotate_keys'' \<and> is_ok (strict_decode env args (spec_for no_input) (tx_none env))"

section \<open>The API implements it\<close>

text \<open>An answer of the API as the abstract operation sees it.\<close>

definition api_view :: "admin_answer \<Rightarrow> bool \<times> server" where
  "api_view x = (rs_status (fst x) = 200, snd x)"

lemma api_statuses [simp]:
  "rs_status (json_response v) = 200" "rs_status (api_error st m) = st" "rs_status (bad_request m) = 400"
  "rs_status api_not_found = 404" "rs_status (cfg_bad_request e) = 400" "rs_status (delete_error b m) \<noteq> 200"
  "rs_status (cfg_delete_error e) \<noteq> 200"
  by (simp_all add: json_response_def api_error_def bad_request_def api_not_found_def not_found_response_def new_response_def
      cfg_bad_request_def cfg_delete_error_def delete_error_def)

lemma api_view_entra:
  "(\<And>err. rs_status (fail err) \<noteq> 200) \<Longrightarrow> api_view (entra_edit fail f s) = entra_apply f s"
  by (auto simp: api_view_def entra_edit_def entra_apply_def ok_answer_def split: option.split prod.split)

lemma entra_apply_unit: "entra_apply (\<lambda>e. (None :: 'a option, g e)) s = entra_apply (\<lambda>e. (None :: 'b option, g e)) s"
  by (simp add: entra_apply_def split: option.split)

lemma api_views:
  "api_view (reset_entra s) = entra_apply (\<lambda>e. (None :: unit option, admin_reset_to_seed e)) s"
  "api_view (revoke_consent c tid s) = entra_apply (\<lambda>e. (None :: unit option, admin_revoke_consent c tid e)) s"
  "api_view (rotate_entra_keys ax s) = entra_apply (\<lambda>e. (None :: unit option, snd (admin_rotate_keys (ax_rsa ax) e))) s"
  "api_view (reset_directory s) = dir_apply (\<lambda>d. Inr (dir_reset d)) s"
  "api_view (delete_directory_user n s) = dir_apply (dir_delete n) s"
  "ax_dir_user ax (rq_body r) = Inr u \<Longrightarrow> api_view (upsert_directory_user ax r s) = dir_apply (dir_upsert u) s"
  "ax_tenant ax (rq_body r) = Inr t \<Longrightarrow> api_view (upsert_tenant ax r tid s) =
     entra_apply (if tid = [] then admin_create_tenant (cr_sha1 (ax_crypto ax)) t else admin_update_tenant (cr_sha1 (ax_crypto ax)) tid t) s"
  "ax_user ax (rq_body r) = Inr v \<Longrightarrow> api_view (upsert_user ax r tid n s) =
     entra_apply (if tid = [] then admin_create_user (cr_sha1 (ax_crypto ax)) v else admin_update_user (cr_sha1 (ax_crypto ax)) tid n v) s"
  "ax_setting ax (rq_body r) = Inr (x, b) \<Longrightarrow> api_view (post_setting ax cfg r s) =
     (case admin_set_setting (cr_sha1 (ax_crypto ax)) cfg x b s of (e, s') \<Rightarrow> (e = None, s'))"
proof -
  show "api_view (reset_entra s) = entra_apply (\<lambda>e. (None :: unit option, admin_reset_to_seed e)) s"
    "api_view (revoke_consent c tid s) = entra_apply (\<lambda>e. (None :: unit option, admin_revoke_consent c tid e)) s"
    by (simp_all add: reset_entra_def revoke_consent_def api_view_entra entra_apply_unit)
  show "api_view (rotate_entra_keys ax s) = entra_apply (\<lambda>e. (None :: unit option, snd (admin_rotate_keys (ax_rsa ax) e))) s"
    by (simp add: rotate_entra_keys_def api_view_def entra_apply_def ok_answer_def split: option.split prod.split)
  show "api_view (reset_directory s) = dir_apply (\<lambda>d. Inr (dir_reset d)) s"
    "api_view (delete_directory_user n s) = dir_apply (dir_delete n) s"
    by (auto simp: reset_directory_def delete_directory_user_def dir_apply_def api_view_def ok_answer_def split: option.split sum.split)
  show "ax_dir_user ax (rq_body r) = Inr u \<Longrightarrow> api_view (upsert_directory_user ax r s) = dir_apply (dir_upsert u) s"
    by (auto simp: upsert_directory_user_def decode_body_def dir_apply_def api_view_def ok_answer_def split: option.split sum.split)
  have none: "entra_apply f s = (False, s)" if "sv_entra s = None" for f :: "entra_state \<Rightarrow> 'x option \<times> entra_state"
    using that by (simp add: entra_apply_def)
  show "ax_tenant ax (rq_body r) = Inr t \<Longrightarrow> api_view (upsert_tenant ax r tid s) =
     entra_apply (if tid = [] then admin_create_tenant (cr_sha1 (ax_crypto ax)) t else admin_update_tenant (cr_sha1 (ax_crypto ax)) tid t) s"
    by (simp add: upsert_tenant_def decode_body_def api_view_entra none) (simp add: api_view_def)
  show "ax_user ax (rq_body r) = Inr v \<Longrightarrow> api_view (upsert_user ax r tid n s) =
     entra_apply (if tid = [] then admin_create_user (cr_sha1 (ax_crypto ax)) v else admin_update_user (cr_sha1 (ax_crypto ax)) tid n v) s"
    by (simp add: upsert_user_def decode_body_def api_view_entra none) (simp add: api_view_def)
  show "ax_setting ax (rq_body r) = Inr (x, b) \<Longrightarrow> api_view (post_setting ax cfg r s) =
     (case admin_set_setting (cr_sha1 (ax_crypto ax)) cfg x b s of (e, s') \<Rightarrow> (e = None, s'))"
    by (auto simp: post_setting_def decode_body_def api_view_def ok_answer_def split: prod.split option.split)
qed

lemma seg_split: "xs \<noteq> [] \<Longrightarrow> list_all seg xs \<Longrightarrow> str_split (str_join xs ''/'') ''/'' = xs"
  by (rule str_split_join) (auto simp: list_all_iff seg_def)

lemma api_implements:
  assumes "api_request ax r a op"
  shows "api_view (admin_api ax cfg r a s) = admin_apply (cr_sha1 (ax_crypto ax)) (ax_rsa ax) cfg op s"
proof -
  have s3: "str_split (x @ ''/'' @ y @ ''/'' @ z) ''/'' = [x, y, z]" if "seg x" "seg y" "seg z" for x y z
    using seg_split[of "[x, y, z]"] that by simp
  have s4: "str_split (x @ ''/'' @ y @ ''/'' @ z @ ''/'' @ w) ''/'' = [x, y, z, w]" if "seg x" "seg y" "seg z" "seg w" for x y z w
    using seg_split[of "[x, y, z, w]"] that by simp
  have s2: "str_split ''directory/users'' ''/'' = [''directory'', ''users'']" "str_split ''directory/reset'' ''/'' = [''directory'', ''reset'']"
    "str_split ''entra/users'' ''/'' = [''entra'', ''users'']" by code_simp+
  have sg: "seg ''entra''" "seg ''tenants''" "seg ''users''" "seg ''consents''" "seg ''directory''" by (simp_all add: seg_def)
  show ?thesis
  proof (cases op)
    case (DeleteTenant tid)
    then show ?thesis using assms s3[OF sg(1,2)] by (simp add: admin_api_def Let_def api_view_entra)
  next
    case (UpdateTenant tid t)
    then show ?thesis using assms s3[OF sg(1,2)] by (simp add: admin_api_def Let_def api_views)
  next
    case (DeleteUser tid n)
    then show ?thesis using assms s4[OF sg(1,3)] by (simp add: admin_api_def Let_def api_view_entra)
  next
    case (UpdateUser tid n u)
    then show ?thesis using assms s4[OF sg(1,3)] by (simp add: admin_api_def Let_def api_views)
  next
    case (RevokeConsent c tid)
    then show ?thesis using assms s4[OF sg(1,4)] by (simp add: admin_api_def Let_def api_views)
  next
    case (DeleteDirUser n)
    then show ?thesis using assms s3[OF sg(5,3)] by (simp add: admin_api_def Let_def api_views)
  qed (use assms s2 in \<open>simp_all add: admin_api_def Let_def api_views\<close>)
qed

section \<open>The tools implement it\<close>

definition tool_view :: "tool_result \<Rightarrow> bool \<times> server" where
  "tool_view x = ((case fst x of Inr (Inr _) \<Rightarrow> True | _ \<Rightarrow> False), snd x)"

lemma tool_views:
  "tool_view (tool_entra f s) = entra_apply f s"
  "tool_view (tool_directory g s) = dir_apply g s"
  "tool_view (tool_settings_set env cfg origin (n, v) s) =
     (case admin_set_setting (cr_sha1 (ax_crypto (tx_admin env))) cfg n v s of (e, s') \<Rightarrow> (e = None, s'))"
  "tool_view (tool_rotate_keys env cfg origin u s) =
     entra_apply (\<lambda>e. (None :: unit option, snd (admin_rotate_keys (ax_rsa (tx_admin env)) e))) s"
  by (auto simp: tool_view_def tool_entra_def tool_directory_def tool_settings_set_def tool_rotate_keys_def entra_apply_def dir_apply_def
      tool_ok_def split: option.split prod.split sum.split)

lemma define_tool_call:
  "strict_decode env args (spec_for fs) (dec env) = Inr x \<Longrightarrow>
   tl_call (define_tool n d ow eff fs dec fn) env cfg origin args s = fn env cfg origin x s"
  by (simp add: define_tool_def)

lemma define_tool_fields [simp]:
  "tl_name (define_tool n d ow eff fs dec fn) = n" "tl_owner (define_tool n d ow eff fs dec fn) = ow"
  "tl_effect (define_tool n d ow eff fs dec fn) = eff"
  by (simp_all add: define_tool_def)

text \<open>The tool of a name, given that the names of the registry differ.\<close>

lemma registry_names: "distinct (map tl_name tool_registry)"
  by (simp add: tool_registry_def)

lemma lookup_tool_unique:
  assumes "lookup_tool name s = Some t" and "u \<in> set tool_registry" and "tl_name u = name"
  shows "t = u"
  using lookup_toolD[OF assms(1)] assms(2,3) registry_names by (metis distinct_map inj_onD)

lemma registry_length: "length tool_registry = 17"
  by (simp add: tool_registry_def)

lemma tool_implements:
  assumes "tool_request env name args op" and "lookup_tool name s = Some t"
  shows "tool_view (tl_call t env cfg origin args s) = admin_apply (cr_sha1 (ax_crypto (tx_admin env))) (ax_rsa (tx_admin env)) cfg op s"
proof -
  have at: "t = tool_registry ! i" if "i < 17" "tl_name (tool_registry ! i) = name" for i
    using lookup_tool_unique[OF assms(2)] nth_mem[of i tool_registry] that by (simp add: registry_length)
  note d = tool_registry_def define_tool_call tool_views is_ok_iff
  show ?thesis
  proof (cases op)
    case (SetSetting n v)
    then show ?thesis using assms(1) at[of 1] by (simp add: d)
  next
    case (PutDirUser u)
    then show ?thesis using assms(1) at[of 3] by (simp add: d)
  next
    case (DeleteDirUser n)
    then show ?thesis using assms(1) at[of 4] by (simp add: d)
  next
    case ResetDir
    then show ?thesis using assms(1) at[of 5] by (auto simp: d)
  next
    case (CreateTenant x)
    then show ?thesis using assms(1) at[of 7] by (simp add: d)
  next
    case (UpdateTenant x y)
    then show ?thesis using assms(1) at[of 8] by (simp add: d)
  next
    case (DeleteTenant x)
    then show ?thesis using assms(1) at[of 9] by (simp add: d)
  next
    case (CreateUser x)
    then show ?thesis using assms(1) at[of 10] by (simp add: d)
  next
    case (UpdateUser x y z)
    then show ?thesis using assms(1) at[of 11] by (simp add: d)
  next
    case (DeleteUser x y)
    then show ?thesis using assms(1) at[of 12] by (simp add: d)
  next
    case (RevokeConsent x y)
    then show ?thesis using assms(1) at[of 13] by (simp add: d) (rule entra_apply_unit)
  next
    case ResetEntra
    then show ?thesis using assms(1) at[of 14] by (auto simp: d intro: entra_apply_unit)
  next
    case RotateKeys
    then show ?thesis using assms(1) at[of 15] by (auto simp: d intro: entra_apply_unit)
  qed
qed

text \<open>C26: api_and_tools_agree. A request of the JSON API and an MCP tool call that spell the same
  administrative operation accept it or reject it together and leave the same server state.\<close>

theorem api_and_tools_agree:
  assumes "api_request (tx_admin env) r a op" and "tool_request env name args op" and "lookup_tool name s = Some t"
  shows "snd (admin_api (tx_admin env) cfg r a s) = snd (tl_call t env cfg origin args s) \<and>
    (rs_status (fst (admin_api (tx_admin env) cfg r a s)) = 200 \<longleftrightarrow>
     (\<exists>out. fst (tl_call t env cfg origin args s) = Inr (Inr out)))"
proof -
  have eq: "api_view (admin_api (tx_admin env) cfg r a s) = tool_view (tl_call t env cfg origin args s)"
    using api_implements[OF assms(1)] tool_implements[OF assms(2,3)] by simp
  have "(case x of Inr (Inr _) \<Rightarrow> True | _ \<Rightarrow> False) \<longleftrightarrow> (\<exists>out. x = Inr (Inr out))" for x :: "go_panic + (string + (string \<times> gval) list)"
    by (auto split: sum.splits)
  with eq show ?thesis by (auto simp: api_view_def tool_view_def)
qed

section \<open>Reading changes nothing\<close>

lemma read_tools_read:
  "all_tools (\<lambda>t. tl_effect t = EffectReads \<longrightarrow> snd (tl_call t env cfg origin args s) = s)"
proof -
  have r: "snd (tool_settings_get env cfg origin x s) = s" "snd (tool_directory_list env cfg origin x s) = s"
    "snd (tool_entra_state env cfg origin x s) = s" for x
    by (simp_all add: tool_settings_get_def tool_directory_list_def tool_entra_state_def tool_ok_def split: option.split gval.split)
  have d: "snd (tl_call (define_tool n ds ow eff fs dec fn) env cfg origin args s) = s"
    if "\<And>x. snd (fn env cfg origin x s) = s" for n ds ow eff fs dec and fn :: "tool_env \<Rightarrow> server_config \<Rightarrow> string \<Rightarrow> unit \<Rightarrow> server \<Rightarrow> tool_result"
    using that by (simp add: define_tool_def split: sum.split)
  show ?thesis
    unfolding all_tools_def tool_registry_def list.pred_inject by (simp add: d r)
qed

text \<open>A GET, HEAD or OPTIONS request to the admin console changes nothing and does not
  panic, and neither does an MCP tool that is announced as read-only change anything.\<close>

lemma admin_reads_change_nothing:
  assumes "rq_method r \<in> {''GET'', ''HEAD'', ''OPTIONS''}"
  shows "snd (admin_handle env cfg r s) = s \<and> is_ok (fst (admin_handle env cfg r s)) \<and>
    (\<forall>t\<in>set tool_registry. tl_effect t = EffectReads \<longrightarrow> snd (tl_call t tenv cfg origin args s) = s)"
proof -
  have m: "rq_method r \<noteq> ''POST''" "rq_method r \<noteq> ''PUT''" "rq_method r \<noteq> ''DELETE''" using assms by auto
  have same: "snd (get_entra ax s) = s" "snd (get_directory s) = s" "\<And>x. snd (ok_answer x s) = s" for ax
    by (simp_all add: get_entra_def get_directory_def ok_answer_def split: option.split)
  have api: "snd (admin_api ax cfg r a s) = s" for ax a
    by (simp only: admin_api_def Let_def m same snd_conv simp_thms if_False if_True split: if_split)
  have "snd (admin_handle env cfg r s) = s \<and> is_ok (fst (admin_handle env cfg r s))"
    using m api by (auto simp: admin_handle_def serve_mcp_def Let_def split: prod.split) (metis snd_conv)
  then show ?thesis using read_tools_read by (auto simp: all_tools_def list_all_iff)
qed

section \<open>What the console keeps\<close>

context state_kept begin

lemma serve_mcp_kept:
  assumes "I s" and "cr_sha1 (ax_crypto (tx_admin (mx_tools env))) = sha1"
  shows "I (snd (serve_mcp env cfg r s))"
proof -
  let ?x = "serve_mcp env cfg r s"
  have m: "I s'" if "mcp_method env cfg r e meth params s = Some (res, s')" for e meth params res s'
    using mcp_method_snd[OF that] assms tool_call_kept[OF assms] lookup_toolD by blast
  show ?thesis
  proof (cases "snd ?x = s")
    case False
    show ?thesis by (rule serve_mcp_method[OF prod.collapse[symmetric] False]) (rule m)
  qed (use assms in simp)
qed

lemma admin_handle_kept:
  assumes "I s" and "cr_sha1 (ax_crypto (tx_admin (mx_tools env))) = sha1"
  shows "I (snd (admin_handle env cfg r s))"
  using assms(1) serve_mcp_kept[OF assms] admin_api_kept[OF assms]
  by (simp add: admin_handle_def Let_def split: prod.split) (metis snd_conv)

end

section \<open>Concrete requests\<close>

definition plain_admin_env :: admin_env where
  "plain_admin_env = \<lparr>ax_crypto = toy_crypto [] [], ax_rsa = 9, ax_files = [], ax_setting = (\<lambda>_. Inr (''interactiveLogin'', True)),
     ax_tenant = (\<lambda>_. Inl ''EOF''), ax_user = (\<lambda>_. Inl ''EOF''), ax_dir_user = (\<lambda>_. Inl ''EOF'')\<rparr>"

definition plain_tool_env :: tool_env where
  "plain_tool_env = \<lparr>tx_admin = plain_admin_env, tx_entra = Entra_Authorize.sample_env,
     tx_object = (\<lambda>_. Inr [(''name'', ''interactiveLogin''), (''value'', ''true'')]), tx_string = id, tx_none = (\<lambda>_. Inr ()),
     tx_setting = (\<lambda>_. Inr (''interactiveLogin'', True)), tx_dir_user = (\<lambda>_. Inl ''EOF''), tx_username = (\<lambda>_. Inl ''EOF''),
     tx_tenant = (\<lambda>_. Inl ''EOF''), tx_tid_tenant = (\<lambda>_. Inl ''EOF''), tx_tid = (\<lambda>_. Inl ''EOF''), tx_user = (\<lambda>_. Inl ''EOF''),
     tx_key_user = (\<lambda>_. Inl ''EOF''), tx_key = (\<lambda>_. Inl ''EOF''), tx_consent = (\<lambda>_. Inl ''EOF''), tx_mint = (\<lambda>_. Inl ''EOF'')\<rparr>"

definition plain_mcp_env :: mcp_env where
  "plain_mcp_env = \<lparr>mx_tools = plain_tool_env, mx_media_type = id,
     mx_request = (\<lambda>_. Inr \<lparr>rr_jsonrpc = ''2.0'', rr_id = Some (VInt 1), rr_method = ''tools/call'', rr_params = ''{}''\<rparr>),
     mx_meta = (\<lambda>_. None), mx_string = id, mx_name = (\<lambda>_. ''settings_set''), mx_call = (\<lambda>_. Some (''settings_set'', ''{}'')),
     mx_protocol = (\<lambda>_. []), mx_version = ''1''\<rparr>"

definition plain_server_config :: server_config where
  "plain_server_config = \<lparr>sg_interactive = False, sg_rotate = False, sg_login_page = [], sg_static = [], sg_callbacks = [], sg_entra = None\<rparr>"

definition plain_server :: server where
  "plain_server = new_server plain_server_config pool_provider None 9"

definition settings_post :: request where
  "settings_post = sample_request\<lparr>rq_method := ''POST'', rq_path := ''/admin/api/settings'', rq_body := ''{}'',
     rq_header := [(''Content-Type'', ''application/json'')]\<rparr>"

lemma plain_lookup: "lookup_tool ''settings_set'' plain_server = Some (tool_registry ! 1)"
  by (simp add: lookup_tool_def tool_registry_def tool_available_def define_tool_def)

theorem api_and_tools_agree_witness:
  "snd (admin_api plain_admin_env plain_server_config settings_post ''settings'' plain_server) =
     snd (tl_call (tool_registry ! 1) plain_tool_env plain_server_config [] ''{}'' plain_server) \<and>
   (\<exists>out. fst (tl_call (tool_registry ! 1) plain_tool_env plain_server_config [] ''{}'' plain_server) = Inr (Inr out))"
proof -
  have a: "api_request (tx_admin plain_tool_env) settings_post ''settings'' (SetSetting ''interactiveLogin'' True)"
    by (simp add: plain_tool_env_def plain_admin_env_def settings_post_def)
  have b: "tool_request plain_tool_env ''settings_set'' ''{}'' (SetSetting ''interactiveLogin'' True)" by code_simp
  have c: "rs_status (fst (admin_api (tx_admin plain_tool_env) plain_server_config settings_post ''settings'' plain_server)) = 200" by code_simp
  have d: "tx_admin plain_tool_env = plain_admin_env" by (simp add: plain_tool_env_def)
  show ?thesis using api_and_tools_agree[OF a b plain_lookup, of plain_server_config "[]"] c unfolding d by simp
qed

theorem mcp_changes_only_by_tool_witness:
  "\<exists>t. lookup_tool ''settings_set'' plain_server = Some t \<and>
     snd (serve_mcp plain_mcp_env plain_server_config settings_post plain_server) =
       snd (tl_call t plain_tool_env plain_server_config (issuer_origin settings_post) ''{}'' plain_server)"
proof -
  let ?x = "serve_mcp plain_mcp_env plain_server_config settings_post plain_server"
  have "os_interactive (snd ?x)" "\<not> os_interactive plain_server" by code_simp+
  then have n: "snd ?x \<noteq> plain_server" by auto
  have e: "mx_call plain_mcp_env p = Some (''settings_set'', ''{}'')" "mx_tools plain_mcp_env = plain_tool_env" for p
    by (simp_all add: plain_mcp_env_def)
  from mcp_changes_only_by_tool[OF prod.collapse[symmetric] n] show ?thesis unfolding e by auto
qed

end
