(* ===== verification/Token_Endpoints.thy ===== *)
theory Token_Endpoints
  imports Token_Grants
begin

text \<open>
  The endpoints that read tokens back (internal/userinfo, internal/introspect), and the login
  page (internal/login).

  The embedded HTML template of the login page and the iteration order of the query parameters it
  lists are arguments, as is the file system.
\<close>

section \<open>User information (userinfo.go)\<close>

definition check_token :: "grant_env \<Rightarrow> request \<Rightarrow> string \<Rightarrow> 'a oidc_scheme \<Rightarrow> (oauth_error + claims) \<times> 'a oidc_scheme" where
  "check_token env r tok s =
     (case verify_token (gx_token env) (issuer_url r) tok (os_keys s) of (res, p) \<Rightarrow> (res, s\<lparr>os_keys := p\<rparr>))"

definition verify_bearer_token :: "grant_env \<Rightarrow> request \<Rightarrow> 'a oidc_scheme \<Rightarrow> (oauth_error + claims) \<times> 'a oidc_scheme" where
  "verify_bearer_token env r s =
     (let parts = str_split (header_get r ''Authorization'') ''Bearer '' in
      if length parts \<noteq> 2 then (Inl (invalid_token_error ''missing bearer token''), s)
      else case check_token env r (last parts) s of
             (Inl e, s') \<Rightarrow> (Inl (invalid_token_error (oe_desc e)), s')
           | (Inr claims, s') \<Rightarrow> (Inr claims, s'))"

definition user_info_endpoint :: "grant_env \<Rightarrow> request \<Rightarrow> 'a oidc_scheme \<Rightarrow> 'a oidc_scheme outcome" where
  "user_info_endpoint env r s =
     (case verify_bearer_token env r s of
        (Inl e, s') \<Rightarrow> oauth_panic e s'
      | (Inr claims, s') \<Rightarrow> (Inr (json_response (VObj (sort_fields claims))), s'))"

section \<open>Introspection (introspect.go)\<close>

definition introspect_authenticated :: "request \<Rightarrow> bool" where
  "introspect_authenticated r =
     (let auth = header_get r ''Authorization'' in
      auth \<noteq> [] \<and>
      list_ex (\<lambda>prefix. let parts = str_split auth prefix in length parts = 2 \<and> parts ! 1 \<noteq> []) [''Bearer '', ''Basic ''])"

definition introspect_claims :: "grant_env \<Rightarrow> request \<Rightarrow> 'a oidc_scheme \<Rightarrow> claims option \<times> 'a oidc_scheme" where
  "introspect_claims env r s =
     (let tok = form_param r ''token'' in
      if tok = [] then (None, s)
      else case check_token env r tok s of (Inl e, s') \<Rightarrow> (None, s') | (Inr claims, s') \<Rightarrow> (Some claims, s'))"

text \<open>A string claim is always written, as an empty string when it is absent; a date only when it is a number.\<close>

definition introspect_date :: "claims \<Rightarrow> string \<Rightarrow> (string \<times> gval) list" where
  "introspect_date claims n = (case claim_get claims n of VInt i \<Rightarrow> [(n, VInt i)] | _ \<Rightarrow> [])"

definition introspect_audience :: "claims \<Rightarrow> (string \<times> gval) list" where
  "introspect_audience claims =
     (case audience_list (claim_get claims ''aud'') of
        [] \<Rightarrow> []
      | [a] \<Rightarrow> [(''aud'', VStr a)]
      | as \<Rightarrow> [(''aud'', VStrs as)])"

definition introspect_fields :: "claims \<Rightarrow> (string \<times> gval) list" where
  "introspect_fields claims =
     (let str = \<lambda>n. string_claim (claim_get claims n) in
      [(''active'', VBool True), (''scope'', VStr (str ''scope'')), (''client_id'', VStr (str ''client_id'')),
       (''username'', VStr (str ''username'')), (''token_type'', VStr (if str ''token_type'' = [] then ''Bearer'' else str ''token_type''))] @
      introspect_date claims ''exp'' @ introspect_date claims ''iat'' @ introspect_date claims ''nbf'' @
      [(''sub'', VStr (str ''sub''))] @ introspect_audience claims @
      [(''iss'', VStr (str ''iss'')), (''jti'', VStr (str ''jti''))])"

definition introspect :: "grant_env \<Rightarrow> request \<Rightarrow> 'a oidc_scheme \<Rightarrow> 'a oidc_scheme outcome" where
  "introspect env r s =
     (if \<not> introspect_authenticated r then oauth_panic (invalid_client ''The client authentication was invalid'') s
      else case introspect_claims env r s of
             (None, s') \<Rightarrow> (Inr (json_response (VObj [(''active'', VBool False)])), s')
           | (Some claims, s') \<Rightarrow> (Inr (json_response (VObj (introspect_fields claims))), s'))"

section \<open>The login page (login.go)\<close>

record login_env =
  le_read :: "string \<Rightarrow> string option"
  le_order :: "url_values \<Rightarrow> url_values"
  le_template :: "(string \<times> string) list \<Rightarrow> string + string"

definition login_params :: "url_values \<Rightarrow> (string \<times> string) list" where
  "login_params q = map (\<lambda>(name, vs). (name, case vs of v # _ \<Rightarrow> v | [] \<Rightarrow> [])) q"

definition builtin_login_html :: "login_env \<Rightarrow> request \<Rightarrow> oauth_error + string" where
  "builtin_login_html env r =
     (case le_template env (login_params (le_order env (query_values r))) of
        Inl e \<Rightarrow> Inl (server_error (''login template: '' @ e))
      | Inr html \<Rightarrow> Inr html)"

definition login_html :: "login_env \<Rightarrow> string \<Rightarrow> request \<Rightarrow> oauth_error + string" where
  "login_html env path r =
     (if path \<noteq> [] then
        (case le_read env path of
           None \<Rightarrow> Inl (not_found_error (''The configured loginPagePath '' @ [CHR 0x27] @ path @ [CHR 0x27] @
             '' is invalid, please ensure that it points to a valid html file''))
         | Some data \<Rightarrow> Inr data)
      else builtin_login_html env r)"

definition login_submit :: "request \<Rightarrow> oauth_error + login" where
  "login_submit r =
     (let username = form_param r ''username'' in
      if username = [] then Inl (missing_parameter ''username'')
      else Inr \<lparr>lg_username = username, lg_claims = form_param r ''claims''\<rparr>)"

section \<open>Laws\<close>

lemma check_token_keys:
  "snd (check_token env r tok s) = s\<lparr>os_keys := snd (verify_token (gx_token env) (issuer_url r) tok (os_keys s))\<rparr>"
  by (simp add: check_token_def split: prod.split)

end
