(* ===== verification/Debugger.thy ===== *)
theory Debugger
  imports Routing Entra_Errors
begin

text \<open>
  The client debugger (internal/debugger): a form that drives the server's own authorization code
  flow, the client state in an encrypted cookie, and the callback that redeems the code.

  Templates, JSON of the session, AES-GCM under the key of the handler (\<open>dx_seal\<close>, \<open>dx_open\<close> take the nonce and
  the additional data) and the HTTP client are arguments (\<open>debug_env\<close>). The client may change the state of the
  server, which it calls. The texts of errors of url.Parse are left out; as in
  Go_Url, paths are in their escaped form. A cookie that decrypts to JSON null is not modelled: no
  cookie of the server does.
\<close>

section \<open>URLs\<close>

definition url_scheme :: "url \<Rightarrow> string" where
  "url_scheme u = (case get_scheme (url_prefix u) of Some (scheme, _) \<Rightarrow> scheme | None \<Rightarrow> [])"

definition url_rest :: "url \<Rightarrow> string" where
  "url_rest u = (case get_scheme (url_prefix u) of Some (_, rest) \<Rightarrow> rest | None \<Rightarrow> [])"

definition url_authority :: "url \<Rightarrow> string" where
  "url_authority u = (if has_prefix (url_rest u) ''//'' then takeWhile (\<lambda>c. c \<noteq> CHR ''/'') (drop 2 (url_rest u)) else [])"

definition after_last :: "char \<Rightarrow> string \<Rightarrow> string" where
  "after_last c s = (case last_index c s of Some i \<Rightarrow> drop (Suc i) s | None \<Rightarrow> s)"

definition url_host :: "url \<Rightarrow> string" where
  "url_host u = after_last (CHR ''@'') (url_authority u)"

definition url_escaped_path :: "url \<Rightarrow> string" where
  "url_escaped_path u =
     (if has_prefix (url_rest u) ''//'' then dropWhile (\<lambda>c. c \<noteq> CHR ''/'') (drop 2 (url_rest u))
      else if url_scheme u = [] \<or> has_prefix (url_rest u) ''/'' then url_rest u else [])"

text \<open>\<open>splitHostPort\<close>: a port is a possibly empty run of digits after the last colon; brackets are dropped.\<close>

definition split_host_port :: "string \<Rightarrow> string \<times> string" where
  "split_host_port hp =
     (let (host, port) = (case last_index (CHR '':'') hp of
            Some i \<Rightarrow> if list_all is_digit (drop (Suc i) hp) then (take i hp, drop (Suc i) hp) else (hp, [])
          | None \<Rightarrow> (hp, []))
      in (if has_prefix host ''['' \<and> has_suffix host '']'' then take (length host - 2) (drop 1 host) else host, port))"

definition url_hostname :: "url \<Rightarrow> string" where "url_hostname u = fst (split_host_port (url_host u))"
definition url_port :: "url \<Rightarrow> string" where "url_port u = snd (split_host_port (url_host u))"

text \<open>\<open>String\<close> after \<open>u.Host\<close> has been replaced; an opaque URL prints no host.\<close>

definition url_set_host :: "string \<Rightarrow> url \<Rightarrow> url" where
  "url_set_host h u =
     (let scheme = url_scheme u; rest = url_rest u;
          head = (if scheme = [] then [] else scheme @ '':'');
          user = (case last_index (CHR ''@'') (url_authority u) of Some i \<Rightarrow> take (Suc i) (url_authority u) | None \<Rightarrow> []);
          path = url_escaped_path u
      in if scheme \<noteq> [] \<and> \<not> has_prefix rest ''/'' then u
         else u\<lparr>url_prefix := head @ ''//'' @ user @ h @ (if path \<noteq> [] \<and> \<not> has_prefix path ''/'' then ''/'' @ path else path)\<rparr>)"

section \<open>The own address (server.go)\<close>

definition own_url :: "string \<Rightarrow> string \<Rightarrow> string" where
  "own_url base path =
     (case url_parse base of
        None \<Rightarrow> base @ path
      | Some u \<Rightarrow>
          url_string (if url_hostname u \<in> {''0.0.0.0'', ''::'', []}
            then url_set_host (if url_port u \<noteq> [] then ''localhost:'' @ url_port u else ''localhost'') u else u) @ path)"

section \<open>The session cookie (session.go)\<close>

record http_request =
  hq_url :: string
  hq_header :: "(string \<times> string) list"
  hq_body :: string

type_synonym session = "(string, string) gomap"

record 's debug_env =
  dx_own :: string
  dx_iv :: string
  dx_seal :: "string \<Rightarrow> string \<Rightarrow> string \<Rightarrow> string"
  dx_open :: "string \<Rightarrow> string \<Rightarrow> string \<Rightarrow> string option"
  dx_marshal :: "session \<Rightarrow> string"
  dx_unmarshal :: "string \<Rightarrow> session option"
  dx_error_page :: "(string \<times> string) list \<Rightarrow> string option"
  dx_form_page :: "(string \<times> string) list \<Rightarrow> string + string"
  dx_callback_page :: "(string \<times> string) list \<Rightarrow> string + string"
  dx_client :: "http_request \<Rightarrow> 's \<Rightarrow> (string + string) \<times> 's"

definition session_cookie_name :: string where "session_cookie_name = ''debugger-session''"

definition jwe_header :: string where
  "jwe_header = b64_encode (''{'' @ [CHR 0x22] @ ''alg'' @ [CHR 0x22] @ '':'' @ [CHR 0x22] @ ''dir'' @ [CHR 0x22] @ '','' @ [CHR 0x22] @
     ''enc'' @ [CHR 0x22] @ '':'' @ [CHR 0x22] @ ''A128GCM'' @ [CHR 0x22] @ ''}'')"

text \<open>The tag is the last 16 bytes of what GCM returns; opening takes them together again.\<close>

definition session_encrypt :: "'s debug_env \<Rightarrow> string \<Rightarrow> string" where
  "session_encrypt env plaintext =
     (let sealed = dx_seal env (dx_iv env) jwe_header plaintext; n = length sealed - 16 in
      str_join [jwe_header, [], b64_encode (dx_iv env), b64_encode (take n sealed), b64_encode (drop n sealed)] ''.'')"

definition session_decrypt :: "'s debug_env \<Rightarrow> string \<Rightarrow> string option" where
  "session_decrypt env jwe =
     (case str_split jwe ''.'' of
        [header, key, iv, ct, tag] \<Rightarrow>
          (case (b64_decode iv, b64_decode ct, b64_decode tag) of
             (Some i, Some c, Some t) \<Rightarrow> dx_open env i header (c @ t)
           | _ \<Rightarrow> None)
      | _ \<Rightarrow> None)"

definition header_values :: "request \<Rightarrow> string \<Rightarrow> string list" where
  "header_values r name = map snd (filter (\<lambda>(k, _). equal_fold k name) (rq_header r))"

definition cookie_value :: "request \<Rightarrow> string \<Rightarrow> string" where
  "cookie_value r name =
     (let parts = map (\<lambda>p. str_cut (trim_space p) ''='') (concat (map (\<lambda>c. str_split c '';'') (header_values r ''Cookie''))) in
      case find (\<lambda>(k, _, found). found \<and> k = name) parts of Some (_, v, _) \<Rightarrow> v | None \<Rightarrow> [])"

definition load_session :: "'s debug_env \<Rightarrow> request \<Rightarrow> session" where
  "load_session env r =
     (let cookie = cookie_value r session_cookie_name in
      if cookie = [] then []
      else case Option.bind (session_decrypt env cookie) (dx_unmarshal env) of Some params \<Rightarrow> params | None \<Rightarrow> [])"

definition session_put_all :: "(string \<times> string) list \<Rightarrow> session \<Rightarrow> session" where
  "session_put_all kvs s = fold (\<lambda>(k, v). map_put k v) kvs s"

definition session_get :: "session \<Rightarrow> string \<Rightarrow> string + string" where
  "session_get s key =
     (case map_get s key of Some v \<Rightarrow> Inr v | None \<Rightarrow> Inl (''could not get '' @ key @ '' from session.''))"

definition session_cookie :: "'s debug_env \<Rightarrow> session \<Rightarrow> string" where
  "session_cookie env s = session_cookie_name @ ''='' @ session_encrypt env (dx_marshal env s) @ ''; HttpOnly; Path=/''"

section \<open>The pages (debugger.go)\<close>

type_synonym 's page = "request \<Rightarrow> 's \<Rightarrow> (go_panic + response) \<times> 's"

definition panic_text :: "go_panic \<Rightarrow> string" where
  "panic_text p = (case p of PanicError m \<Rightarrow> m | PanicOAuth e \<Rightarrow> (if oe_desc e \<noteq> [] then oe_desc e else oe_code e) | PanicOther \<Rightarrow> [])"

definition debug_error_response :: "'s debug_env \<Rightarrow> request \<Rightarrow> go_panic \<Rightarrow> response" where
  "debug_error_response env r p =
     (case dx_error_page env [(''debugger_url'', endpoint_url r ep_debugger), (''stacktrace'', panic_text p)] of
        None \<Rightarrow> html_response (''debugger error: '' @ panic_text p)
      | Some body \<Rightarrow>
          (set_header ''Set-Cookie'' (session_cookie env (load_session env r))
             (set_header ''Content-Type'' ''text/html'' (new_response 500)))\<lparr>rs_body := body\<rparr>)"

definition debug_wrap :: "'s debug_env \<Rightarrow> 's page \<Rightarrow> 's page" where
  "debug_wrap env fn r s =
     (case fn r s of (Inl p, s') \<Rightarrow> (Inr (debug_error_response env r p), s') | (Inr resp, s') \<Rightarrow> (Inr resp, s'))"

definition debug_prefill :: "request \<Rightarrow> url_values" where
  "debug_prefill r =
     fold (\<lambda>(k, v). values_set k v)
       [(''client_id'', ''debugger''), (''response_type'', ''code''), (''redirect_uri'', endpoint_url r ep_debugger_callback),
        (''response_mode'', ''query''), (''scope'', ''openid somescope''), (''state'', ''1234''), (''nonce'', ''5678'')] []"

definition debug_form :: "'s debug_env \<Rightarrow> 's page" where
  "debug_form env r s =
     (let prefill = debug_prefill r; get = values_get prefill in
      case dx_form_page env
        [(''authorize_url'', endpoint_url r ep_authorization @ ''?'' @ values_encode prefill), (''token_url'', endpoint_url r ep_token),
         (''client_auth_method'', ''CLIENT_SECRET_BASIC''), (''client_id'', get ''client_id''), (''client_secret'', ''someSecret''),
         (''scope'', get ''scope''), (''response_type'', get ''response_type''), (''response_mode'', get ''response_mode''),
         (''state'', get ''state''), (''nonce'', get ''nonce''), (''redirect_uri'', endpoint_url r ep_debugger_callback)] of
        Inl e \<Rightarrow> (Inl (PanicError e), s)
      | Inr html \<Rightarrow> (Inr (html_response html), s))"

definition internal_fields :: "string list" where
  "internal_fields = [''authorize_url'', ''token_url'', ''client_secret'', ''client_auth_method'', ''redirect_uri'']"

definition pair_key :: "string \<Rightarrow> string" where
  "pair_key pair = decode_form_value (fst (str_cut pair ''=''))"

definition submitted_pairs :: "request \<Rightarrow> string list" where
  "submitted_pairs r = filter (\<lambda>p. p \<noteq> [] \<and> pair_key p \<notin> set internal_fields) (str_split (rq_body r) ''&'')"

definition submitted_form :: "request \<Rightarrow> (string \<times> string) list" where
  "submitted_form r = concat (map (\<lambda>(k, vs). if vs = [] then [] else [(k, last vs)]) (request_form r))"

definition debug_submit :: "'s debug_env \<Rightarrow> 's page" where
  "debug_submit env r s =
     (let callback = endpoint_url r ep_debugger_callback;
          target = endpoint_url r ep_authorization @ ''?'' @ str_join (submitted_pairs r @ [''redirect_uri='' @ query_escape callback]) ''&'';
          session = map_put ''redirect_uri'' callback (session_put_all (submitted_form r) (load_session env r))
      in (Inr (set_header ''Set-Cookie'' (session_cookie env session) (redirect_response target)), s))"

section \<open>The callback\<close>

definition default_port :: "string \<Rightarrow> string" where
  "default_port scheme = (if scheme = ''https'' then ''443'' else ''80'')"

definition port_of :: "url \<Rightarrow> string" where
  "port_of u = (if url_port u \<noteq> [] then url_port u else default_port (url_scheme u))"

definition host_header :: "url \<Rightarrow> bool \<Rightarrow> string" where
  "host_header u include_default =
     (let host = (if CHR '':'' \<in> set (url_hostname u) then ''['' @ url_hostname u @ '']'' else url_hostname u); port = port_of u in
      if include_default \<or> \<not> (url_scheme u = ''http'' \<and> port = ''80'' \<or> url_scheme u = ''https'' \<and> port = ''443'')
      then host @ '':'' @ port else host)"

definition token_endpoint_path :: "string \<Rightarrow> string" where
  "token_endpoint_path iss_id = (if iss_id = [] then ep_token else ''/'' @ iss_id @ ep_token)"

definition b64_std_encode :: "string \<Rightarrow> string" where
  "b64_std_encode s =
     map (\<lambda>g. b64_std ! bits_nat g) (chunks 6 False (concat (map byte_bits s))) @ replicate ((3 - length s mod 3) mod 3) (CHR ''='')"

definition base64_basic :: "string \<Rightarrow> string \<Rightarrow> string" where
  "base64_basic user password = b64_std_encode (user @ '':'' @ password)"

definition token_request_dump :: "url \<Rightarrow> string \<Rightarrow> string \<Rightarrow> string \<Rightarrow> string \<Rightarrow> string" where
  "token_request_dump u auth_method client_id client_secret body =
     ''POST '' @ url_escaped_path u @ '' HTTP/1.1'' @ [CHR 0x0A] @ ''Host: '' @ host_header u True @ [CHR 0x0A] @
     ''Content-Type: application/x-www-form-urlencoded'' @ [CHR 0x0A] @
     (if auth_method = ''CLIENT_SECRET_BASIC'' then ''Authorization: Basic '' @ base64_basic client_id client_secret @ [CHR 0x0A] else []) @
     [CHR 0x0A, CHR 0x0A] @ body"

definition callback_body :: "string \<Rightarrow> string \<Rightarrow> string \<Rightarrow> string \<Rightarrow> string \<Rightarrow> string \<Rightarrow> string" where
  "callback_body code scope redirect_uri auth_method client_id client_secret =
     ''grant_type=authorization_code&code='' @ code @ ''&scope='' @ query_escape scope @ ''&redirect_uri='' @ query_escape redirect_uri @
     (if auth_method = ''CLIENT_SECRET_POST''
      then ''&client_id='' @ query_escape client_id @ ''&client_secret='' @ query_escape client_secret else [])"

text \<open>The header fields in the order they are set. A Host among the header fields of a client request is ignored by net/http,
  which sends the host of the URL; \<open>dx_client\<close> sees the fields as they are set.\<close>

definition exchange_request :: "string \<Rightarrow> url \<Rightarrow> string \<Rightarrow> string \<Rightarrow> string \<Rightarrow> string \<Rightarrow> http_request" where
  "exchange_request target u auth_method client_id client_secret body =
     \<lparr>hq_url = target,
      hq_header = [(''Content-Type'', ''application/x-www-form-urlencoded''), (''Host'', host_header u False),
          (''x-forwarded-proto'', url_scheme u), (''x-forwarded-port'', port_of u)] @
        (if auth_method = ''CLIENT_SECRET_BASIC'' then [(''Authorization'', ''Basic '' @ base64_basic client_id client_secret)] else []),
      hq_body = body\<rparr>"

definition callback_code :: "request \<Rightarrow> string" where
  "callback_code r = (if query_param r ''code'' \<noteq> [] then query_param r ''code'' else form_param r ''code'')"

definition auth_method_error :: "string \<Rightarrow> string option" where
  "auth_method_error m =
     (if m = ''CLIENT_SECRET_BASIC'' \<or> m = ''CLIENT_SECRET_POST'' then None
      else Some (''invalid client_auth_method '' @ go_quote m))"

text \<open>What the callback sends, or why it does not.\<close>

definition callback_exchange :: "'s debug_env \<Rightarrow> request \<Rightarrow> string + (http_request \<times> string)" where
  "callback_exchange env r =
     (let session = load_session env r; code = callback_code r; get = session_get session in
      if code = [] then Inl ''no code parameter present''
      else ebind (get ''client_id'') (\<lambda>client_id. ebind (get ''client_secret'') (\<lambda>client_secret.
        ebind (get ''client_auth_method'') (\<lambda>m.
          case auth_method_error m of
            Some e \<Rightarrow> Inl e
          | None \<Rightarrow>
              ebind (get ''scope'') (\<lambda>scope. ebind (get ''redirect_uri'') (\<lambda>redirect_uri.
                let body = callback_body code scope redirect_uri m client_id client_secret;
                    target = own_url (dx_own env) (token_endpoint_path (issuer_id r))
                in case url_parse (endpoint_url r ep_token) of
                     None \<Rightarrow> Inl []
                   | Some u \<Rightarrow>
                       if url_parse target = None then Inl []
                       else Inr (exchange_request target u m client_id client_secret body,
                              token_request_dump u m client_id client_secret body)))))))"

definition debug_callback :: "'s debug_env \<Rightarrow> 's page" where
  "debug_callback env r s =
     (case callback_exchange env r of
        Inl e \<Rightarrow> (Inl (PanicError e), s)
      | Inr (q, dump) \<Rightarrow>
          (case dx_client env q s of
             (Inl e, s') \<Rightarrow> (Inl (PanicError e), s')
           | (Inr body, s') \<Rightarrow>
               (case dx_callback_page env [(''token_request'', dump), (''token_response'', body)] of
                  Inl e \<Rightarrow> (Inl (PanicError e), s')
                | Inr html \<Rightarrow> (Inr (html_response html), s'))))"

definition debug_register :: "'s debug_env \<Rightarrow> 's router \<Rightarrow> 's router" where
  "debug_register env rt =
     router_add [] ep_debugger_callback (debug_wrap env (debug_callback env))
       (router_add ''POST'' ep_debugger (debug_wrap env (debug_submit env))
          (router_add ''GET'' ep_debugger (debug_wrap env (debug_form env)) rt))"

end
