(* ===== verification/Server_Paths.thy ===== *)
theory Server_Paths
  imports Oauth2
begin

text \<open>
  The lexical part of path/filepath on Unix that the static assets use: \<open>Clean\<close>, \<open>Join\<close>, \<open>Abs\<close> and \<open>Ext\<close>.
\<close>

definition clean_step :: "bool \<Rightarrow> string \<Rightarrow> string list \<Rightarrow> string list" where
  "clean_step rooted e out =
     (if e = [] \<or> e = ''.'' then out
      else if e = ''..'' then (case out of [] \<Rightarrow> (if rooted then [] else [''..'']) | x # xs \<Rightarrow> if x = ''..'' then ''..'' # out else xs)
      else e # out)"

definition clean_elems :: "bool \<Rightarrow> string \<Rightarrow> string list" where
  "clean_elems rooted p = rev (fold (clean_step rooted) (str_split p ''/'') [])"

definition path_clean :: "string \<Rightarrow> string" where
  "path_clean p =
     (let rooted = has_prefix p ''/''; s = (if rooted then ''/'' else []) @ str_join (clean_elems rooted p) ''/''
      in if s = [] then ''.'' else s)"

definition path_join :: "string \<Rightarrow> string \<Rightarrow> string" where
  "path_join a b = path_clean (a @ ''/'' @ b)"

text \<open>The working directory is an argument; it is absolute.\<close>

definition path_abs :: "string option \<Rightarrow> string \<Rightarrow> string option" where
  "path_abs wd p = (if has_prefix p ''/'' then Some (path_clean p) else map_option (\<lambda>d. path_join d p) wd)"

definition path_ext :: "string \<Rightarrow> string" where
  "path_ext p =
     (let name = rev (takeWhile (\<lambda>c. c \<noteq> CHR ''/'') (rev p)) in
      case last_index (CHR ''.'') name of Some i \<Rightarrow> drop i name | None \<Rightarrow> [])"

section \<open>Laws\<close>

lemma str_split_parts: "x \<in> set (str_split s [c]) \<Longrightarrow> c \<notin> set x"
proof (induction "length s" arbitrary: s rule: less_induct)
  case less
  show ?case
  proof (cases "c \<in> set s")
    case True
    then obtain a b where s: "s = a @ c # b" "c \<notin> set a" using split_list_first by metis
    then have "x = a \<or> x \<in> set (str_split b [c])" using less.prems by (simp add: str_split_char_cons)
    then show ?thesis using s less.hyps[of b] by auto
  qed (use less.prems in \<open>simp add: str_split_char_none\<close>)
qed

lemma str_split_slash_cons: "str_split (a @ [c] @ b) [c] = str_split a [c] @ str_split b [c]"
proof (induction "length a" arbitrary: a rule: less_induct)
  case less
  show ?case
  proof (cases "c \<in> set a")
    case True
    then obtain x y where a: "a = x @ c # y" "c \<notin> set x" using split_list_first by metis
    then show ?thesis using less[of y] by (simp add: str_split_char_cons)
  qed (simp add: str_split_char_none str_split_char_cons)
qed

lemma str_split_sep [simp]: "str_split (c # x) [c] = [] # str_split x [c]" "str_split [] [c] = [[]]"
  using str_split_char_cons[of c "[]" x] by (simp_all add: str_split_char_none)

lemma clean_step_empty [simp]: "clean_step b [] out = out"
  by (simp add: clean_step_def)

text \<open>The elements of a cleaned path.\<close>

definition plain_elem :: "string \<Rightarrow> bool" where
  "plain_elem e \<longleftrightarrow> e \<noteq> [] \<and> e \<noteq> ''.'' \<and> e \<noteq> ''..'' \<and> CHR ''/'' \<notin> set e"

lemma clean_step_plain:
  "list_all plain_elem out \<Longrightarrow> CHR ''/'' \<notin> set e \<Longrightarrow> list_all plain_elem (clean_step True e out)"
  by (auto simp: clean_step_def plain_elem_def split: list.split)

lemma fold_clean_plain:
  "list_all plain_elem out \<Longrightarrow> \<forall>e\<in>set es. CHR ''/'' \<notin> set e \<Longrightarrow> list_all plain_elem (fold (clean_step True) es out)"
  by (induction es arbitrary: out) (auto intro!: clean_step_plain)

lemma fold_clean_id: "list_all plain_elem es \<Longrightarrow> fold (clean_step b) es out = rev es @ out"
  by (induction es arbitrary: out) (auto simp: clean_step_def plain_elem_def)

lemma clean_elems_plain: "list_all plain_elem (clean_elems True p)"
  using fold_clean_plain[of "[]" "str_split p ''/''"] str_split_parts
  by (simp add: clean_elems_def list_all_iff)

lemma plain_join_split: "es \<noteq> [] \<Longrightarrow> list_all plain_elem es \<Longrightarrow> str_split (str_join es ''/'') ''/'' = es"
  by (rule str_split_join) (auto simp: list_all_iff plain_elem_def)

lemma plain_join_first: "list_all plain_elem es \<Longrightarrow> \<not> has_prefix (str_join es ''/'') ''/''"
proof (cases es)
  case (Cons e es')
  assume "list_all plain_elem es"
  then obtain c cs where "e = c # cs" "c \<noteq> CHR ''/''" using Cons by (cases e) (auto simp: plain_elem_def)
  then show ?thesis using Cons by (cases es') (simp_all add: has_prefix_def)
qed (simp add: has_prefix_def)

lemma clean_elems_join:
  assumes "list_all plain_elem es"
  shows "clean_elems True (''/'' @ str_join es ''/'') = es" "es \<noteq> [] \<Longrightarrow> clean_elems False (str_join es ''/'') = es"
proof -
  show "clean_elems True (''/'' @ str_join es ''/'') = es"
    using fold_clean_id[OF assms, of True "[]"] plain_join_split[OF _ assms]
    by (cases "es = []") (simp_all add: clean_elems_def)
  show "es \<noteq> [] \<Longrightarrow> clean_elems False (str_join es ''/'') = es"
    using fold_clean_id[OF assms, of False "[]"] plain_join_split[OF _ assms] by (simp add: clean_elems_def)
qed

lemma path_clean_rooted: "has_prefix p ''/'' \<Longrightarrow> path_clean p = ''/'' @ str_join (clean_elems True p) ''/''"
  by (simp add: path_clean_def)

text \<open>An absolute path that was cleaned climbs nowhere.\<close>

lemma rooted_no_dots:
  assumes "has_prefix p ''/''"
  shows "''..'' \<notin> set (str_split (path_clean p) ''/'')"
proof -
  let ?es = "clean_elems True p"
  have "str_split (path_clean p) ''/'' = [] # str_split (str_join ?es ''/'') ''/''"
    by (simp add: path_clean_rooted[OF assms])
  moreover have "''..'' \<notin> set (str_split (str_join ?es ''/'') ''/'')"
    using clean_elems_plain[of p] plain_join_split[of ?es] by (cases "?es = []") (auto simp: list_all_iff plain_elem_def str_split_char_none)
  ultimately show ?thesis by simp
qed

lemma path_abs_rooted:
  assumes "path_abs wd p = Some root" and "\<And>d. wd = Some d \<Longrightarrow> has_prefix d ''/''"
  obtains es where "root = ''/'' @ str_join es ''/''" "list_all plain_elem es"
proof -
  from assms obtain q where "root = path_clean q" "has_prefix q ''/''"
    by (auto simp: path_abs_def path_join_def has_prefix_iff split: if_splits)
  then show ?thesis using that path_clean_rooted clean_elems_plain by metis
qed

lemma path_join_plain:
  assumes "list_all plain_elem as" and "list_all plain_elem bs" and "bs \<noteq> []"
  shows "path_join (''/'' @ str_join as ''/'') (str_join bs ''/'') = ''/'' @ str_join (as @ bs) ''/''"
proof -
  have "str_split ((''/'' @ str_join as ''/'') @ ''/'' @ str_join bs ''/'') ''/'' =
      [] # str_split (str_join as ''/'') ''/'' @ bs"
    using str_split_slash_cons[of "''/'' @ str_join as ''/''" "CHR ''/''" "str_join bs ''/''"] plain_join_split[OF assms(3,2)] by simp
  moreover have "fold (clean_step True) (str_split (str_join as ''/'') ''/'') [] = rev as"
    using fold_clean_id[OF assms(1), of True "[]"] plain_join_split[OF _ assms(1)] by (cases "as = []") simp_all
  ultimately have "clean_elems True ((''/'' @ str_join as ''/'') @ ''/'' @ str_join bs ''/'') = as @ bs"
    using fold_clean_id[OF assms(2), of True "rev as"] by (simp add: clean_elems_def)
  then show ?thesis by (simp add: path_join_def path_clean_rooted has_prefix_def)
qed

end
