(* ===== verification/Server.thy ===== *)
theory Server
  imports Token_Endpoints Admin_Mcp Debugger Server_Paths
begin

text \<open>
  The server (internal/server/server.go): the handlers of the built-in issuers, the route table and one
  request through it.

  \<open>server_env\<close> collects what a request draws from outside: the environments of the grants, Entra mode, the admin
  console and the login page, the working directory, the media types of file extensions, and that
  of the debugger, which is there when the server knows its own address. Files are read through
  \<open>le_read\<close> of the login page.
\<close>

record server_env =
  se_grant :: grant_env
  se_entra :: entra_env
  se_mcp :: mcp_env
  se_login :: login_env
  se_wd :: "string option"
  se_mime :: "string \<Rightarrow> string"
  se_debug :: "server debug_env option"

type_synonym server_handler = "request \<Rightarrow> server \<Rightarrow> server outcome"

section \<open>Discovery and keys\<close>

definition discovery_algs :: "string list" where
  "discovery_algs = [''ES256'', ''ES384'', ''RS256'', ''RS384'', ''RS512'', ''PS256'', ''PS384'', ''PS512'']"

definition well_known_doc :: "request \<Rightarrow> (string \<times> gval) list" where
  "well_known_doc r =
     [(''issuer'', VStr (issuer_url r)), (''authorization_endpoint'', VStr (endpoint_url r ep_authorization)),
      (''end_session_endpoint'', VStr (endpoint_url r ep_end_session)), (''revocation_endpoint'', VStr (endpoint_url r ep_revoke)),
      (''token_endpoint'', VStr (endpoint_url r ep_token)), (''userinfo_endpoint'', VStr (endpoint_url r ep_user_info)),
      (''jwks_uri'', VStr (endpoint_url r ep_jwks)), (''introspection_endpoint'', VStr (endpoint_url r ep_introspect)),
      (''response_types_supported'', VStrs [''code'', ''none'', ''id_token'', ''token'']),
      (''response_modes_supported'', VStrs [''query'', ''fragment'', ''form_post'']),
      (''subject_types_supported'', VStrs [''public'']), (''id_token_signing_alg_values_supported'', VStrs discovery_algs),
      (''code_challenge_methods_supported'', VStrs [''plain'', ''S256''])]"

definition well_known :: server_handler where
  "well_known r s = (Inr (json_response (VObj (well_known_doc r))), s)"

definition jwks_endpoint :: "server_env \<Rightarrow> server_handler" where
  "jwks_endpoint env r s =
     (let te = gx_token (se_grant env) in
      case public_jwks_for (te_crypto te) (te_private te) (issuer_id r) (os_keys s) of
        (doc, p) \<Rightarrow> (Inr (json_string_response doc), s\<lparr>os_keys := p\<rparr>))"

section \<open>Sign-in\<close>

definition html_escape_char :: "char \<Rightarrow> string" where
  "html_escape_char c =
     (if c = CHR ''&'' then ''&amp;'' else if c = CHR ''<'' then ''&lt;'' else if c = CHR ''>'' then ''&gt;''
      else if c = CHR 0x22 then ''&#34;'' else if c = CHR 0x27 then ''&#39;'' else [c])"

definition html_escape :: "string \<Rightarrow> string" where
  "html_escape s = concat (map html_escape_char s)"

definition dq :: "string \<Rightarrow> string" where "dq s = CHR 0x22 # s @ [CHR 0x22]"

definition hidden_input :: "string \<Rightarrow> string \<Rightarrow> string" where
  "hidden_input name v =
     ''<input type='' @ dq ''hidden'' @ '' name='' @ dq name @ '' value='' @ dq (html_escape v) @ ''/>''"

definition form_post_html :: "string \<Rightarrow> string \<Rightarrow> string \<Rightarrow> string" where
  "form_post_html redirect_uri code state =
     (let nl = [CHR 0x0A] in
      ''<!DOCTYPE html>'' @ nl @ ''<html>'' @ nl @ ''<head><title>Submit</title></head>'' @ nl @
      ''<body onload='' @ dq ''document.forms[0].submit()'' @ ''>'' @ nl @
      ''<form method='' @ dq ''post'' @ '' action='' @ dq (html_escape redirect_uri) @ ''>'' @ hidden_input ''code'' code @
      (if state \<noteq> [] then hidden_input ''state'' state else []) @
      nl @ ''<noscript><button type='' @ dq ''submit'' @ ''>Continue</button></noscript>'' @ nl @ ''</form>'' @ nl @ ''</body>'' @ nl @ ''</html>'')"

definition authentication_success :: "server_env \<Rightarrow> auth_request \<Rightarrow> login option \<Rightarrow> server \<Rightarrow> server outcome" where
  "authentication_success env ar lg s =
     (case authorization_code_response (se_grant env) ar lg s of
        (Inl e, s') \<Rightarrow> oauth_panic e s'
      | (Inr code, s') \<Rightarrow>
          if ar_response_mode ar = ''form_post'' then (Inr (html_response (form_post_html (ar_redirect_uri ar) code (ar_state ar))), s')
          else (case success_redirect_url ar code of
                  Inl e \<Rightarrow> oauth_panic e s'
                | Inr loc \<Rightarrow> (Inr (redirect_response loc), s')))"

definition authorize_page :: "server_env \<Rightarrow> server_config \<Rightarrow> server_handler" where
  "authorize_page env cfg r s =
     (case parse_auth_request (query_values r) of
        Inl e \<Rightarrow> oauth_panic e s
      | Inr ar \<Rightarrow>
          if os_interactive s \<or> is_prompt ar then
            (case login_html (se_login env) (sg_login_page cfg) r of
               Inl e \<Rightarrow> oauth_panic e s
             | Inr html \<Rightarrow> (Inr (html_response html), s))
          else authentication_success env ar None s)"

definition authorize_submit :: "server_env \<Rightarrow> server_handler" where
  "authorize_submit env r s =
     (case parse_auth_request (query_values r) of
        Inl e \<Rightarrow> oauth_panic e s
      | Inr ar \<Rightarrow>
          (case login_submit r of
             Inl e \<Rightarrow> oauth_panic e s
           | Inr lg \<Rightarrow> authentication_success env ar (Some lg) s))"

section \<open>The token endpoint\<close>

definition grant_handlers :: "(string \<times> 'a grant_handler) list" where
  "grant_handlers =
     [(grant_authorization_code, code_grant), (grant_client_credentials, client_credentials_grant), (grant_jwt_bearer, jwt_bearer),
      (grant_token_exchange, token_exchange), (grant_refresh_token, refresh_grant), (grant_password, password_grant)]"

definition exchange_precheck :: "request \<Rightarrow> oauth_error option" where
  "exchange_precheck r =
     (let form = request_form r in
      if basic_auth r \<noteq> None then None
      else if values_get form ''client_assertion_type'' = client_assertion_jwt_bearer \<and> values_get form ''client_assertion'' \<noteq> [] then None
      else Some (invalid_request ''invalid request''))"

definition callback_from_queue_or_default :: "server_env \<Rightarrow> server_config \<Rightarrow> string \<Rightarrow> server \<Rightarrow> callback \<times> server" where
  "callback_from_queue_or_default env cfg iss_id s =
     (case queue_poll iss_id s of
        (Some cb, s') \<Rightarrow> (cb, s')
      | (None, s') \<Rightarrow>
          ((case find (\<lambda>m. mc_issuer m = iss_id) (sg_callbacks cfg) of
              Some m \<Rightarrow> MappingCallback m
            | None \<Rightarrow> new_default_callback (gx_subject (se_grant env)) iss_id), s'))"

definition token_dispatch :: "server_env \<Rightarrow> server_config \<Rightarrow> string \<Rightarrow> request \<Rightarrow> token_request \<Rightarrow> server \<Rightarrow> server outcome" where
  "token_dispatch env cfg grant r tr s =
     (let iss_id = issuer_id r;
          (cb, s') = (if grant = grant_refresh_token then (new_default_callback (gx_subject (se_grant env)) iss_id, s)
                      else callback_from_queue_or_default env cfg iss_id s)
      in case map_of grant_handlers grant of
           None \<Rightarrow> oauth_panic (unsupported_grant_type grant) s'
         | Some h \<Rightarrow> h (se_grant env) tr (issuer_url r) iss_id cb s')"

definition token_endpoint :: "server_env \<Rightarrow> server_config \<Rightarrow> server_handler" where
  "token_endpoint env cfg r s =
     (let grant = trim_space (form_param r ''grant_type''); gx = se_grant env in
      if grant = [] then oauth_panic (missing_parameter ''grant_type'') s
      else case (if grant = grant_token_exchange then exchange_precheck r else None) of
             Some e \<Rightarrow> oauth_panic e s
           | None \<Rightarrow>
               (case parse_token_request r of
                  Inl e \<Rightarrow> oauth_panic e s
                | Inr tr \<Rightarrow>
                    (case (if grant = grant_token_exchange
                           then validate_client_assertion (cr_unmarshal (te_crypto (gx_token gx))) (gx_wall gx) r tr (issuer_url r) else None) of
                       Some e \<Rightarrow> oauth_panic e s
                     | None \<Rightarrow> token_dispatch env cfg grant r tr s)))"

definition token_get :: server_handler where
  "token_get r s = (Inr ((new_response 405)\<lparr>rs_body := ''unsupported method''\<rparr>), s)"

section \<open>The other endpoints\<close>

definition end_session :: server_handler where
  "end_session r s =
     (let uri = query_param r ''post_logout_redirect_uri''; st = query_param r ''state'' in
      (Inr (if uri = [] then html_response ''logged out''
            else redirect_response (if st \<noteq> [] then uri @ ''?state='' @ st else uri)), s))"

definition revoke_token :: server_handler where
  "revoke_token r s =
     (let hint = form_param r ''token_type_hint'' in
      if hint \<noteq> ''refresh_token'' then
        oauth_panic (unsupported_token_type (''unsupported token type: '' @ (if hint = [] then ''null'' else hint))) s
      else (Inr (new_response 200), refresh_remove (form_param r ''token'') s))"

definition options_answer :: server_handler where "options_answer r s = (Inr (new_response 204), s)"
definition favicon :: server_handler where "favicon r s = (Inr (new_response 200), s)"

definition static_rel :: "request \<Rightarrow> string" where
  "static_rel r =
     (let segs = str_split (trim_slash (rq_path r)) ''/'' in path_clean (str_join (if 1 < length segs then drop 1 segs else segs) ''/''))"

text \<open>The file a request names, when it lies inside the root.\<close>

definition static_file :: "server_env \<Rightarrow> server_config \<Rightarrow> request \<Rightarrow> string option" where
  "static_file env cfg r =
     (case path_abs (se_wd env) (sg_static cfg) of
        None \<Rightarrow> None
      | Some root \<Rightarrow>
          let rel = static_rel r; full = path_join root rel in
          if has_prefix rel ''..'' \<or> has_prefix rel ''/'' then None
          else if \<not> has_prefix full (root @ ''/'') \<and> full \<noteq> root then None
          else Some full)"

definition static_asset :: "server_env \<Rightarrow> server_config \<Rightarrow> server_handler" where
  "static_asset env cfg r s =
     (Inr (case static_file env cfg r of
             None \<Rightarrow> not_found_response ''not found''
           | Some full \<Rightarrow>
               (case le_read (se_login env) full of
                  None \<Rightarrow> not_found_response ''not found''
                | Some data \<Rightarrow>
                    let t = se_mime env (path_ext full) in
                    (set_header ''Content-Type'' (if t = [] then ''application/octet-stream'' else t) (new_response 200))\<lparr>rs_body := data\<rparr>)), s)"

definition gate_entra :: "server_env \<Rightarrow> server_handler" where
  "gate_entra env r s =
     (if \<not> sv_entra_on s then (Inr (if rq_method r = ''OPTIONS'' then new_response 204 else method_not_allowed), s)
      else case sv_entra s of
             None \<Rightarrow> (Inl nil_deref, s)
           | Some e \<Rightarrow> (case entra_handle (se_entra env) r e of (res, e') \<Rightarrow> (res, s\<lparr>sv_entra := Some e'\<rparr>)))"

section \<open>The route table\<close>

definition endpoint_routes :: "server_env \<Rightarrow> server_config \<Rightarrow> (string \<times> string \<times> server_handler) list" where
  "endpoint_routes env cfg =
     [(''GET'', ep_oauth2_well_known, well_known), (''GET'', ep_oidc_well_known, well_known), (''GET'', ep_jwks, jwks_endpoint env),
      (''GET'', ep_authorization, authorize_page env cfg), (''POST'', ep_authorization, authorize_submit env),
      (''GET'', ep_token, token_get), (''POST'', ep_token, token_endpoint env cfg),
      ([], ep_end_session, end_session), (''POST'', ep_revoke, revoke_token),
      (''GET'', ep_user_info, user_info_endpoint (se_grant env)), (''POST'', ep_introspect, introspect (se_grant env))]"

definition built_in_routes :: "server_env \<Rightarrow> server_config \<Rightarrow> (string \<times> string \<times> server_handler) list" where
  "built_in_routes env cfg =
     endpoint_routes env cfg @ [(''OPTIONS'', [], options_answer)] @
     (if sg_static cfg \<noteq> [] then [(''GET'', ''/static/*'', static_asset env cfg)] else []) @
     [(''GET'', ''/favicon.ico'', favicon)]"

definition build_router :: "server_env \<Rightarrow> server_config \<Rightarrow> server router" where
  "build_router env cfg =
     (let admin = admin_handle (se_mcp env) cfg;
          rt1 = fold (\<lambda>(m, p, h). router_add m p h) (built_in_routes env cfg) (router_add_interceptor cors_interceptor new_router);
          rt2 = (case se_debug env of None \<Rightarrow> rt1 | Some d \<Rightarrow> debug_register d rt1);
          rt3 = (case sg_entra cfg of None \<Rightarrow> rt2 | Some seed \<Rightarrow> router_add_front [] (route_pattern seed) (gate_entra env) rt2)
      in router_add_front [] ''/admin/*'' admin (router_add_front [] ''/admin'' admin rt3))"

definition serve :: "server_env \<Rightarrow> server_config \<Rightarrow> request \<Rightarrow> server \<Rightarrow> response \<times> server" where
  "serve env cfg r s = serve_http (build_router env cfg) r s"

end
