(* ===== verification/Server_Laws.thy ===== *)
theory Server_Laws
  imports Server Admin_Laws
begin

text \<open>
  What the requests of a server keep: a property that every elementary change keeps (a key created, a code
  issued or spent, a refresh token minted or revoked, the changes of the admin console) is kept by every request,
  and so along every run. The invariants of the server are instances.
\<close>

section \<open>The routes\<close>

definition mk_route :: "string \<times> string \<times> server_handler \<Rightarrow> server route" where
  "mk_route x = \<lparr>ro_method = fst x, ro_path = fst (snd x), ro_handler = snd (snd x)\<rparr>"

definition debug_routes :: "server_env \<Rightarrow> (string \<times> string \<times> server_handler) list" where
  "debug_routes env =
     (case se_debug env of
        None \<Rightarrow> []
      | Some d \<Rightarrow> [(''GET'', ep_debugger, debug_wrap d (debug_form d)), (''POST'', ep_debugger, debug_wrap d (debug_submit d)),
          ([], ep_debugger_callback, debug_wrap d (debug_callback d))])"

definition front_routes :: "server_env \<Rightarrow> server_config \<Rightarrow> (string \<times> string \<times> server_handler) list" where
  "front_routes env cfg =
     [([], ''/admin/*'', admin_handle (se_mcp env) cfg), ([], ''/admin'', admin_handle (se_mcp env) cfg)] @
     (case sg_entra cfg of None \<Rightarrow> [] | Some seed \<Rightarrow> [([], route_pattern seed, gate_entra env)])"

lemma fold_router_add:
  "rt_routes (fold (\<lambda>(m, p, h). router_add m p h) xs rt) = rt_routes rt @ map mk_route xs"
  "rt_interceptors (fold (\<lambda>(m, p, h). router_add m p h) xs rt) = rt_interceptors rt"
  by (induction xs arbitrary: rt) (auto simp: router_add_def mk_route_def)

lemma server_routes:
  "rt_routes (build_router env cfg) = map mk_route (front_routes env cfg @ built_in_routes env cfg @ debug_routes env)"
  "rt_interceptors (build_router env cfg) = [cors_interceptor]"
proof -
  let ?rt = "fold (\<lambda>(m, p, h). router_add m p h) (built_in_routes env cfg) (router_add_interceptor cors_interceptor new_router)"
  have r: "rt_routes ?rt = map mk_route (built_in_routes env cfg)" "rt_interceptors ?rt = [cors_interceptor]"
    by (simp_all add: fold_router_add router_add_interceptor_def new_router_def)
  show "rt_routes (build_router env cfg) = map mk_route (front_routes env cfg @ built_in_routes env cfg @ debug_routes env)"
    "rt_interceptors (build_router env cfg) = [cors_interceptor]"
    by (simp_all add: build_router_def Let_def router_add_front_def debug_register_def router_add_def front_routes_def debug_routes_def
        mk_route_def r split: option.split)
qed

section \<open>Elementary changes\<close>

locale run_kept = state_kept +
  fixes E :: "grant_env \<Rightarrow> bool"
  assumes keep_keys: "I s \<Longrightarrow> I (s\<lparr>os_keys := snd (signing_key_of rsa iss (os_keys s))\<rparr>)"
    and keep_code: "I s \<Longrightarrow> E gx \<Longrightarrow> I (s\<lparr>os_auth := map_put (gx_code gx) ar (os_auth s), os_login := l\<rparr>)"
    and keep_spend: "I s \<Longrightarrow> I (s\<lparr>os_auth := map_del c (os_auth s)\<rparr>)"
    and keep_login: "I s \<Longrightarrow> I (s\<lparr>os_login := l\<rparr>)"
    and keep_mint: "I s \<Longrightarrow> E gx \<Longrightarrow> t = gx_refresh_jti gx \<or> (\<exists>n. t = plain_jwt (gx_refresh_jti gx) n) \<Longrightarrow>
      I (s\<lparr>os_refresh := map_put t cb (os_refresh s)\<rparr>)"
    and keep_revoke: "I s \<Longrightarrow> I (s\<lparr>os_refresh := map_del t (os_refresh s)\<rparr>)"
    and keep_queue: "I s \<Longrightarrow> I (s\<lparr>os_queue := q\<rparr>)"

context run_kept begin

lemma mint_kept:
  "I s \<Longrightarrow> mint_id_token gx tr iss iss_id cb nonce s = (t, s') \<Longrightarrow> I s'"
  "I s \<Longrightarrow> mint_access_token gx tr iss iss_id cb nonce s = (t, s') \<Longrightarrow> I s'"
  "I s \<Longrightarrow> mint_exchange_token gx tr iss iss_id claims cb s = (t, s') \<Longrightarrow> I s'"
  using mint_keys[THEN sym] keep_keys by (metis mint_keys snd_conv)+

lemma refresh_kept:
  assumes "I s" and "E gx"
  shows "refresh_mint (gx_refresh_jti gx) cb nonce s = (t, s') \<Longrightarrow> I s'"
    "refresh_rotate (gx_refresh_jti gx) old cb s = (t, s') \<Longrightarrow> I s'"
proof -
  have m: "I (snd (refresh_mint (gx_refresh_jti gx) cb nonce u))" if "I u" for cb nonce u
    using keep_mint[OF that assms(2)] by (auto simp: refresh_mint_def Let_def)
  show "refresh_mint (gx_refresh_jti gx) cb nonce s = (t, s') \<Longrightarrow> I s'" using m[OF assms(1)] by (metis snd_conv)
  have "I (refresh_remove old s)" using keep_revoke[OF assms(1)] by (simp add: refresh_remove_def)
  then show "refresh_rotate (gx_refresh_jti gx) old cb s = (t, s') \<Longrightarrow> I s'"
    using m by (metis refresh_rotate_def snd_conv)
qed

lemma poll_kept: "I s \<Longrightarrow> queue_poll iss_id s = (cb, s') \<Longrightarrow> I s'"
  by (auto simp: queue_poll_def intro: keep_queue split: list.splits if_splits)

lemma take_login_kept: "I s \<Longrightarrow> take_login c s = (l, s') \<Longrightarrow> I s'"
  by (auto simp: take_login_def intro: keep_login)

lemmas grant_kept = mint_kept refresh_kept poll_kept take_login_kept

lemma code_grant_kept:
  assumes "I s" and "E gx"
  shows "I (snd (code_grant gx tr iss iss_id cb s))"
  using assms keep_spend[OF assms(1)]
  by (auto simp: code_grant_def oauth_panic_def Let_def intro: keep_login split: option.split prod.split) (metis grant_kept)+

lemma refresh_grant_kept:
  assumes "I s" and "E gx"
  shows "I (snd (refresh_grant gx tr iss iss_id cb s))"
  using assms by (auto simp: refresh_grant_def oauth_panic_def Let_def split: option.split prod.split) (metis grant_kept)+

lemma other_grants_kept:
  assumes "I s"
  shows "I (snd (client_credentials_grant gx tr iss iss_id cb s))" "I (snd (password_grant gx tr iss iss_id cb s))"
    "I (snd (jwt_bearer gx tr iss iss_id cb s))" "I (snd (token_exchange gx tr iss iss_id cb s))"
  using assms by (auto simp: client_credentials_grant_def password_grant_def jwt_bearer_def token_exchange_def oauth_panic_def Let_def
      split: option.split prod.split) (metis mint_kept)+

lemma grants_kept:
  assumes "I s" and "E gx" and "map_of grant_handlers grant = Some h"
  shows "I (snd (h gx tr iss iss_id cb s))"
proof -
  have "h \<in> {code_grant, client_credentials_grant, jwt_bearer, token_exchange, refresh_grant, password_grant}"
    using map_of_SomeD[OF assms(3)] by (auto simp: grant_handlers_def)
  then show ?thesis using code_grant_kept[OF assms(1,2)] refresh_grant_kept[OF assms(1,2)] other_grants_kept[OF assms(1)] by auto
qed

lemma token_endpoint_kept:
  assumes "I s" and "E (se_grant env)"
  shows "I (snd (token_endpoint env cfg r s))"
proof -
  have cb: "I s'" if "callback_from_queue_or_default env cfg iss_id s = (cb, s')" for iss_id cb s'
    using that assms(1) by (auto simp: callback_from_queue_or_default_def intro: poll_kept split: prod.splits option.splits)
  have "I (snd (token_dispatch env cfg grant r tr s))" for grant tr
    using assms cb by (auto simp: token_dispatch_def oauth_panic_def Let_def intro: grants_kept split: prod.split option.split)
  then show ?thesis
    using assms(1) by (auto simp: token_endpoint_def oauth_panic_def Let_def split: option.split sum.split)
qed

lemma verify_kept: "I s \<Longrightarrow> I (s\<lparr>os_keys := snd (verify_token te iss tok (os_keys s))\<rparr>)"
proof -
  assume "I s"
  have "snd (verify_token te iss tok p) \<in> {p, snd (signing_key_of (te_private te) (issuer_id_from_url iss) p)}" for p
    by (auto simp: verify_token_def Let_def split: list.split option.split prod.split)
  from this[of "os_keys s"] show ?thesis using \<open>I s\<close> keep_keys[OF \<open>I s\<close>] by auto
qed

lemma check_token_kept: "I s \<Longrightarrow> check_token gx r tok s = (res, s') \<Longrightarrow> I s'"
  using verify_kept[of s] by (metis check_token_keys snd_conv)

lemma token_readers_kept:
  assumes "I s"
  shows "I (snd (user_info_endpoint gx r s))" "I (snd (introspect gx r s))"
  using assms by (auto simp: user_info_endpoint_def verify_bearer_token_def introspect_def introspect_claims_def oauth_panic_def Let_def
      intro: check_token_kept split: prod.splits sum.splits if_splits)

lemma authorize_kept:
  assumes "I s" and "E (se_grant env)"
  shows "I (snd (authorize_page env cfg r s))" "I (snd (authorize_submit env r s))"
proof -
  have "I (snd (authentication_success env ar lg s))" for ar lg
    using assms keep_code[OF assms]
    by (auto simp: authentication_success_def authorization_code_response_def oauth_panic_def split: prod.splits sum.splits if_splits option.splits)
  then show "I (snd (authorize_page env cfg r s))" "I (snd (authorize_submit env r s))"
    using assms(1) by (auto simp: authorize_page_def authorize_submit_def oauth_panic_def split: sum.split)
qed

lemma jwks_kept: "I s \<Longrightarrow> I (snd (jwks_endpoint env r s))"
  using keep_keys[of s "te_private (gx_token (se_grant env))" "issuer_id r"]
  by (auto simp: jwks_endpoint_def public_jwks_for_def Let_def split: prod.split)

lemma gate_kept:
  assumes "I s" and "cr_sha1 (ee_crypto (se_entra env)) = sha1"
  shows "I (snd (gate_entra env r s))"
  using assms by (auto simp: gate_entra_def intro: keep_entra step_request split: option.split prod.split)

lemma debug_kept:
  assumes "I s" and "\<And>q t. I t \<Longrightarrow> I (snd (dx_client d q t))"
  shows "I (snd (debug_wrap d (debug_form d) r s))" "I (snd (debug_wrap d (debug_submit d) r s))"
    "I (snd (debug_wrap d (debug_callback d) r s))"
  using assms(1) assms(2)[OF assms(1)]
  by (auto simp: debug_wrap_def debug_form_def debug_submit_def debug_callback_def Let_def split: prod.splits sum.splits)
    (metis snd_conv)+

text \<open>What a request may rely on: Entra mode and the admin console compute object identifiers with one digest, and the
  HTTP client of the debugger keeps the property.\<close>

definition env_keeps :: "server_env \<Rightarrow> bool" where
  "env_keeps env \<longleftrightarrow> E (se_grant env) \<and> cr_sha1 (ee_crypto (se_entra env)) = sha1 \<and>
     cr_sha1 (ax_crypto (tx_admin (mx_tools (se_mcp env)))) = sha1 \<and>
     (\<forall>d q t. se_debug env = Some d \<longrightarrow> I t \<longrightarrow> I (snd (dx_client d q t)))"

lemma static_kept: "I s \<Longrightarrow> I (snd (static_asset env cfg r s))"
  by (simp add: static_asset_def)

lemma plain_endpoints_kept:
  assumes "I s"
  shows "I (snd (well_known r s))" "I (snd (token_get r s))" "I (snd (end_session r s))" "I (snd (options_answer r s))"
    "I (snd (favicon r s))" "I (snd (revoke_token r s))"
  using assms keep_revoke[OF assms]
  by (simp_all add: well_known_def token_get_def end_session_def options_answer_def favicon_def revoke_token_def oauth_panic_def
      refresh_remove_def Let_def)

lemma routes_kept:
  assumes "env_keeps env"
  shows "\<forall>ro\<in>set (rt_routes (build_router env cfg)). \<forall>r s. I s \<longrightarrow> I (snd (ro_handler ro r s))"
proof -
  have e: "E (se_grant env)" "cr_sha1 (ee_crypto (se_entra env)) = sha1" "cr_sha1 (ax_crypto (tx_admin (mx_tools (se_mcp env)))) = sha1"
    and c: "\<And>d q t. se_debug env = Some d \<Longrightarrow> I t \<Longrightarrow> I (snd (dx_client d q t))"
    using assms by (simp_all add: env_keeps_def)
  have b: "\<forall>x\<in>set (built_in_routes env cfg). \<forall>r s. I s \<longrightarrow> I (snd (snd (snd x) r s))"
    using token_endpoint_kept[OF _ e(1)] authorize_kept[OF _ e(1)]
    by (auto simp: built_in_routes_def endpoint_routes_def plain_endpoints_kept jwks_kept token_readers_kept static_kept)
  have d: "\<forall>x\<in>set (debug_routes env). \<forall>r s. I s \<longrightarrow> I (snd (snd (snd x) r s))"
    using c by (auto simp: debug_routes_def debug_kept split: option.split)
  have f: "\<forall>x\<in>set (front_routes env cfg). \<forall>r s. I s \<longrightarrow> I (snd (snd (snd x) r s))"
    using admin_handle_kept[OF _ e(3)] gate_kept[OF _ e(2)] by (auto simp: front_routes_def split: option.split)
  have "ro_handler (mk_route x) = snd (snd x)" for x by (simp add: mk_route_def)
  then show ?thesis unfolding server_routes using b d f by auto
qed

lemma serve_kept:
  assumes "env_keeps env" and "I s"
  shows "I (snd (serve env cfg r s))"
proof (cases "router_match (build_router env cfg) r")
  case None
  then show ?thesis using assms(2) by (simp add: serve_def serve_http_def router_handle_def)
next
  case (Some ro)
  then have "ro \<in> set (rt_routes (build_router env cfg))" by (auto simp: router_match_def dest: find_SomeD)
  then have "I (snd (ro_handler ro r s))" using routes_kept[OF assms(1)] assms(2) by blast
  moreover have "snd (serve env cfg r s) = snd (ro_handler ro r s)"
    using Some by (simp add: serve_def serve_http_def router_handle_def split: prod.split sum.split)
  ultimately show ?thesis by simp
qed

end

end
