(* ===== verification/Server_Sample.thy ===== *)
theory Server_Sample
  imports Server_Laws
begin

text \<open>
  A concrete server and requests to it, at which the properties of the server are applied.
\<close>

definition sample_token :: token_env where
  "sample_token = sample_token_env ''http://app.test/default'' ''default''"

definition plain_grant_env :: grant_env where
  "plain_grant_env = \<lparr>gx_token = sample_token, gx_wall = 0, gx_code = ''code-2'', gx_subject = ''u'', gx_id_jti = ''j1'',
     gx_access_jti = ''j'', gx_refresh_jti = ''r-2''\<rparr>"

definition plain_login_env :: login_env where
  "plain_login_env = \<lparr>le_read = (\<lambda>_. None), le_order = id, le_template = (\<lambda>_. Inr ''<html></html>'')\<rparr>"

definition plain_server_env :: server_env where
  "plain_server_env = \<lparr>se_grant = plain_grant_env, se_entra = Entra_Authorize.sample_env, se_mcp = plain_mcp_env, se_login = plain_login_env,
     se_wd = Some ''/srv'', se_mime = (\<lambda>_. []), se_debug = None\<rparr>"

lemma plain_env_fields [simp]:
  "se_grant plain_server_env = plain_grant_env" "se_debug plain_server_env = None" "gx_code plain_grant_env = ''code-2''"
  "gx_refresh_jti plain_grant_env = ''r-2''" "gx_token plain_grant_env = sample_token" "se_wd plain_server_env = Some ''/srv''"
  "cr_sha1 (ax_crypto (tx_admin (mx_tools (se_mcp plain_server_env)))) = cr_sha1 (ee_crypto (se_entra plain_server_env))"
  by (simp_all add: plain_server_env_def plain_grant_env_def plain_mcp_env_def plain_tool_env_def plain_admin_env_def
      Entra_Authorize.sample_env_def toy_crypto_def)

abbreviation sample_sha1 :: "string \<Rightarrow> string" where "sample_sha1 \<equiv> cr_sha1 (ee_crypto (se_entra plain_server_env))"

definition entra_server_config :: server_config where
  "entra_server_config = plain_server_config\<lparr>sg_entra := Some sample_seed\<rparr>"

definition entra_server :: server where
  "entra_server = new_server entra_server_config pool_provider None 9"

definition post_to :: "string \<Rightarrow> string \<Rightarrow> request" where
  "post_to path body = \<lparr>rq_method = ''POST'', rq_header = [(''Host'', ''app.test'')], rq_path = path, rq_raw_query = [],
     rq_scheme = ''http'', rq_body = body\<rparr>"

definition get_from :: "string \<Rightarrow> string \<Rightarrow> request" where
  "get_from path authorization = \<lparr>rq_method = ''GET'', rq_header = [(''Host'', ''app.test''), (''Authorization'', authorization)],
     rq_path = path, rq_raw_query = [], rq_scheme = ''http'', rq_body = []\<rparr>"

definition code_request :: request where
  "code_request = post_to ''/default/token'' ''grant_type=authorization_code&code=code-1&client_id=app''"

definition refresh_request :: request where
  "refresh_request = post_to ''/default/token'' ''grant_type=refresh_token&refresh_token=r-1&client_id=app''"

definition revoke_request :: request where
  "revoke_request = post_to ''/default/revoke'' ''token_type_hint=refresh_token&token=r-1''"

end
