(* ===== verification/Server_Runs.thy ===== *)
theory Server_Runs
  imports Server_Sample
begin

text \<open>
  Runs of a server: requests and callbacks queued by the library, one after the other. A run is limited by what its
  requests draw (\<open>E\<close>): that no two random identifiers agree is the hypothesis under which a spent code
  stays spent. The HTTP client of the debugger, which may call the server again, makes runs itself.
\<close>

section \<open>Runs\<close>

inductive server_run :: "(string \<Rightarrow> string) \<Rightarrow> server_config \<Rightarrow> (grant_env \<Rightarrow> bool) \<Rightarrow> server \<Rightarrow> server \<Rightarrow> bool" for sha1 cfg E where
  run_start: "server_run sha1 cfg E s s"
| run_enqueue: "server_run sha1 cfg E s t \<Longrightarrow> server_run sha1 cfg E s (queue_enqueue cb t)"
| run_request: "server_run sha1 cfg E s t \<Longrightarrow> E (se_grant env) \<Longrightarrow> cr_sha1 (ee_crypto (se_entra env)) = sha1 \<Longrightarrow>
    cr_sha1 (ax_crypto (tx_admin (mx_tools (se_mcp env)))) = sha1 \<Longrightarrow>
    (\<forall>d q u. se_debug env = Some d \<longrightarrow> server_run sha1 cfg E u (snd (dx_client d q u))) \<Longrightarrow>
    server_run sha1 cfg E s (snd (serve env cfg r t))"

context run_kept begin

lemma run_kept: "server_run sha1 cfg E s t \<Longrightarrow> I s \<Longrightarrow> I t"
proof (induction rule: server_run.induct)
  case (run_enqueue s t cb)
  then show ?case by (simp add: queue_enqueue_def keep_queue)
next
  case (run_request s t env r)
  then have "env_keeps env" by (auto simp: env_keeps_def)
  then show ?case using serve_kept run_request.IH run_request.prems by blast
qed

end

section \<open>The invariant\<close>

lemma signing_key_keeps_wf: "provider_wf p \<Longrightarrow> provider_wf (snd (signing_key_of rsa iss p))"
  using signing_key_wf(1)[of p rsa iss] by (metis prod.collapse)

interpretation server_invariant: run_kept sha1 cfg "server_inv sha1 cfg" E for sha1 cfg E
  by unfold_locales (auto simp: server_inv_def signing_key_keeps_wf split: option.splits)

text \<open>C3: server_invariant_kept. In every state a server reaches from its start, whatever requests, administrative edits
  and library calls come in which order, the key of every issuer is stored under its own name with the
  configured algorithm, and the Entra handler is there exactly when it is configured, in a state that the steps of Entra
  mode alone reach from the configured seed, and switched on only then.\<close>

theorem server_invariant_kept:
  assumes "provider_wf keys" and "server_run sha1 cfg E (new_server cfg keys dir rsa) s"
  shows "provider_wf (os_keys s) \<and>
    (case sg_entra cfg of
       None \<Rightarrow> sv_entra s = None \<and> \<not> sv_entra_on s
     | Some seed \<Rightarrow> \<exists>e. sv_entra s = Some e \<and> entra_reach sha1 seed e)"
  using server_invariant.run_kept[OF assms(2) server_inv_new[OF assms(1)]] by (simp add: server_inv_def)

lemma sample_run:
  assumes "E plain_grant_env"
  shows "server_run sample_sha1 cfg E s (snd (serve plain_server_env cfg r s))"
  using run_request[OF run_start, of E plain_server_env] assms by simp

theorem server_invariant_kept_witness:
  "\<exists>e. sv_entra (snd (serve plain_server_env entra_server_config code_request entra_server)) = Some e \<and> entra_reach sample_sha1 sample_seed e"
proof -
  have wf: "provider_wf pool_provider" by (simp add: provider_wf_def pool_provider_def)
  have "server_run sample_sha1 entra_server_config (\<lambda>_. True) (new_server entra_server_config pool_provider None 9)
      (snd (serve plain_server_env entra_server_config code_request entra_server))"
    unfolding entra_server_def by (rule sample_run) simp
  from server_invariant_kept[OF wf this] show ?thesis by (simp add: entra_server_config_def)
qed

section \<open>Dispatch\<close>

definition front_free :: "server_env \<Rightarrow> server_config \<Rightarrow> request \<Rightarrow> bool" where
  "front_free env cfg r \<longleftrightarrow> list_all (\<lambda>x. \<not> route_matches (mk_route x) r) (front_routes env cfg)"

lemma front_free_plain:
  "sg_entra cfg = None \<Longrightarrow> front_free env cfg r \<longleftrightarrow>
     \<not> glob ''/admin/*'' (''/'' @ trim_slash (rq_path r)) \<and> \<not> has_suffix (trim_slash (rq_path r)) ''admin''"
proof -
  have "trim_slash ''/admin'' = ''admin''" by code_simp
  then show "sg_entra cfg = None \<Longrightarrow> ?thesis" by (simp add: front_free_def front_routes_def route_matches_def mk_route_def)
qed

lemma no_entra [simp]: "sg_entra plain_server_config = None"
  by (simp add: plain_server_config_def)

text \<open>How an answer or panic leaves the server.\<close>

definition http_answer :: "request \<Rightarrow> server outcome \<Rightarrow> response \<times> server" where
  "http_answer r x =
     (cors_interceptor r (case fst x of Inl p \<Rightarrow> error_response (panic_to_error p) | Inr resp \<Rightarrow> resp), snd x)"

lemma serve_route:
  assumes "find (\<lambda>x. route_matches (mk_route x) r) (front_routes env cfg @ built_in_routes env cfg @ debug_routes env) = Some x"
  shows "serve env cfg r s = http_answer r (snd (snd x) r s)"
proof -
  have "find P (map mk_route xs) = map_option mk_route (find (\<lambda>x. P (mk_route x)) xs)" for P xs
    by (induction xs) simp_all
  then have "router_match (build_router env cfg) r = Some (mk_route x)"
    using assms by (simp only: router_match_def server_routes option.map)
  then show ?thesis
    by (simp add: serve_def serve_http_def router_handle_def apply_interceptors_def server_routes(2) http_answer_def mk_route_def split: prod.split sum.split)
qed

lemma find_append: "find P (xs @ ys) = (case find P xs of Some x \<Rightarrow> Some x | None \<Rightarrow> find P ys)"
  by (induction xs) simp_all

lemma serve_built_in:
  assumes "front_free env cfg r" and "find (\<lambda>x. route_matches (mk_route x) r) (built_in_routes env cfg) = Some x"
  shows "serve env cfg r s = http_answer r (snd (snd x) r s)"
proof (rule serve_route)
  have "find (\<lambda>x. route_matches (mk_route x) r) (front_routes env cfg) = None"
    using assms(1) by (simp add: front_free_def find_None_iff_ball list_all_iff)
  then show "find (\<lambda>x. route_matches (mk_route x) r) (front_routes env cfg @ built_in_routes env cfg @ debug_routes env) = Some x"
    by (simp only: find_append assms(2) option.case)
qed

text \<open>A path has one endpoint suffix, as no endpoint is a suffix of another.\<close>

lemma one_suffix:
  assumes "has_suffix s a" and "has_suffix s b"
  shows "has_suffix a b \<or> has_suffix b a"
proof -
  have e: "\<exists>r. s = r @ a" "\<exists>r. s = r @ b" using assms by (simp_all add: has_suffix_iff)
  then obtain x y where "x @ a = y @ b" by auto
  then show ?thesis by (auto simp: has_suffix_iff append_eq_append_conv2)
qed

definition endpoint_pairs :: "(string \<times> string) list" where
  "endpoint_pairs =
     [(''GET'', ep_oauth2_well_known), (''GET'', ep_oidc_well_known), (''GET'', ep_jwks), (''GET'', ep_authorization),
      (''POST'', ep_authorization), (''GET'', ep_token), (''POST'', ep_token), ([], ep_end_session), (''POST'', ep_revoke),
      (''GET'', ep_user_info), (''POST'', ep_introspect)]"

lemma endpoint_routes_pairs: "map (\<lambda>x. (fst x, fst (snd x))) (endpoint_routes env cfg) = endpoint_pairs"
  by (simp add: endpoint_routes_def endpoint_pairs_def)

lemma endpoint_pair: "(m, p, h) \<in> set (endpoint_routes env cfg) \<Longrightarrow> (m, p) \<in> set endpoint_pairs"
  unfolding endpoint_routes_pairs[symmetric, of env cfg] by force

lemma endpoint_routes_facts:
  "(m, p, h) \<in> set (endpoint_routes env cfg) \<Longrightarrow> p \<in> set endpoints"
  "([], p, k) \<in> set (endpoint_routes env cfg) \<Longrightarrow> (m, p, h) \<in> set (endpoint_routes env cfg) \<Longrightarrow> m = []"
  "(m, p, h) \<in> set (endpoint_routes env cfg) \<Longrightarrow> (m, p, k) \<in> set (endpoint_routes env cfg) \<Longrightarrow> h = k"
proof -
  have d: "list_all (\<lambda>(m, p). p \<in> set endpoints) endpoint_pairs"
    "list_all (\<lambda>(m, p). list_all (\<lambda>(n, q). m = [] \<and> q = p \<longrightarrow> n = []) endpoint_pairs) endpoint_pairs" "distinct endpoint_pairs"
    by code_simp+
  show "(m, p, h) \<in> set (endpoint_routes env cfg) \<Longrightarrow> p \<in> set endpoints"
    "([], p, k) \<in> set (endpoint_routes env cfg) \<Longrightarrow> (m, p, h) \<in> set (endpoint_routes env cfg) \<Longrightarrow> m = []"
    using d(1,2) unfolding list_all_iff by (blast dest: endpoint_pair)+
  show "(m, p, h) \<in> set (endpoint_routes env cfg) \<Longrightarrow> (m, p, k) \<in> set (endpoint_routes env cfg) \<Longrightarrow> h = k"
    using d(3) unfolding endpoint_routes_pairs[symmetric, of env cfg] distinct_map inj_on_def by force
qed

lemma endpoint_suffixes:
  "a \<in> set endpoints \<Longrightarrow> b \<in> set endpoints \<Longrightarrow> has_suffix (trim_slash a) (trim_slash b) \<Longrightarrow> a = b"
  "a \<in> set endpoints \<Longrightarrow> CHR ''*'' \<notin> set a"
proof -
  have d: "list_all (\<lambda>a. list_all (\<lambda>b. has_suffix (trim_slash a) (trim_slash b) \<longrightarrow> a = b) endpoints) endpoints"
    "list_all (\<lambda>a. CHR ''*'' \<notin> set a) endpoints" by code_simp+
  show "a \<in> set endpoints \<Longrightarrow> b \<in> set endpoints \<Longrightarrow> has_suffix (trim_slash a) (trim_slash b) \<Longrightarrow> a = b"
    "a \<in> set endpoints \<Longrightarrow> CHR ''*'' \<notin> set a"
    using d unfolding list_all_iff by blast+
qed

lemma serve_endpoint:
  assumes "front_free env cfg r" and mem: "(rq_method r, ep, h) \<in> set (endpoint_routes env cfg)"
    and path: "has_suffix (trim_slash (rq_path r)) (trim_slash ep)"
  shows "serve env cfg r s = http_answer r (h r s)"
proof -
  have ep: "ep \<in> set endpoints" using endpoint_routes_facts(1)[OF mem] .
  have m: "(fst x = [] \<or> fst x = rq_method r) \<and> fst (snd x) = ep"
    if "x \<in> set (endpoint_routes env cfg)" "route_matches (mk_route x) r" for x
  proof -
    let ?e = "fst (snd x)"
    have e: "?e \<in> set endpoints" using endpoint_routes_facts(1)[of "fst x" ?e "snd (snd x)"] that(1) by simp
    then have "has_suffix (trim_slash (rq_path r)) (trim_slash ?e)"
      using that(2) endpoint_suffixes(2)[OF e] by (auto simp: route_matches_def mk_route_def split: if_splits)
    then have "?e = ep" using one_suffix[OF _ path] endpoint_suffixes(1) e ep by metis
    then show ?thesis using that(2) by (auto simp: route_matches_def mk_route_def)
  qed
  have "find (\<lambda>x. route_matches (mk_route x) r) (endpoint_routes env cfg) = Some (rq_method r, ep, h)"
  proof (rule find_unique[OF mem])
    show "route_matches (mk_route (rq_method r, ep, h)) r"
      using path endpoint_suffixes(2)[OF ep] by (simp add: route_matches_def mk_route_def)
    fix y assume y: "y \<in> set (endpoint_routes env cfg)" "route_matches (mk_route y) r"
    obtain ym yp yh where yy: "y = (ym, yp, yh)" by (rule prod_cases3)
    with m[OF y] have e: "ym = [] \<or> ym = rq_method r" "yp = ep" by simp_all
    then have "ym = rq_method r" using endpoint_routes_facts(2)[of ep yh env cfg "rq_method r" h] mem y(1) yy by auto
    then show "y = (rq_method r, ep, h)" using e yy y(1) mem endpoint_routes_facts(3) by blast
  qed
  then have "find (\<lambda>x. route_matches (mk_route x) r) (built_in_routes env cfg) = Some (rq_method r, ep, h)"
    by (simp only: built_in_routes_def find_append option.case)
  then show ?thesis using serve_built_in[OF assms(1)] by simp
qed

end
