(* ===== verification/Server_Gate.thy ===== *)
theory Server_Gate
  imports Server_Runs
begin

text \<open>
  The gate in front of Entra mode, the confinement of the static assets, and the escaping of the
  page that posts a code.
\<close>

section \<open>The gate\<close>

definition entra_path :: "config \<Rightarrow> request \<Rightarrow> bool" where
  "entra_path seed r \<longleftrightarrow> glob (route_pattern seed) (''/'' @ trim_slash (rq_path r)) \<and>
     \<not> glob ''/admin/*'' (''/'' @ trim_slash (rq_path r)) \<and> \<not> has_suffix (trim_slash (rq_path r)) ''admin''"

text \<open>C12: entra_gate. While Entra mode is switched on, every request below its base path (the admin console apart) is answered by the Entra handler, with the
  state it leaves; while it is switched off such a request changes nothing and is answered 204 for OPTIONS
  and 405 otherwise, also where the path ends like an endpoint of the built-in issuers.\<close>

theorem entra_gate:
  assumes "sg_entra cfg = Some seed" and "entra_path seed r" and "sv_entra s = Some e"
  shows "serve env cfg r s =
    (if sv_entra_on s then http_answer r (fst (entra_handle (se_entra env) r e), s\<lparr>sv_entra := Some (snd (entra_handle (se_entra env) r e))\<rparr>)
     else (cors_interceptor r (if rq_method r = ''OPTIONS'' then new_response 204 else method_not_allowed), s))"
proof -
  have t: "trim_slash ''/admin'' = ''admin''" by code_simp
  have p: "route_matches (mk_route ([], ''/admin/*'', h)) r = glob ''/admin/*'' (''/'' @ trim_slash (rq_path r))"
    "route_matches (mk_route ([], ''/admin'', h)) r = has_suffix (trim_slash (rq_path r)) ''admin''"
    "route_matches (mk_route ([], route_pattern seed, h)) r = glob (route_pattern seed) (''/'' @ trim_slash (rq_path r))" for h
    by (simp_all add: route_matches_def mk_route_def t route_pattern_def)
  have "find (\<lambda>x. route_matches (mk_route x) r) (front_routes env cfg) = Some ([], route_pattern seed, gate_entra env)"
    using assms(2) by (simp add: front_routes_def assms(1) p entra_path_def)
  then have "serve env cfg r s = http_answer r (gate_entra env r s)"
    using serve_route[of r env cfg "([], route_pattern seed, gate_entra env)" s] by (simp add: find_append)
  then show ?thesis using assms(3) by (simp add: gate_entra_def http_answer_def split: prod.split)
qed

definition entra_visit :: request where "entra_visit = get_from ''/entra/nowhere'' []"

theorem entra_gate_witness:
  "(rs_status (fst (serve plain_server_env entra_server_config entra_visit (entra_server\<lparr>sv_entra_on := False\<rparr>))) = 405) \<and>
   snd (serve plain_server_env entra_server_config entra_visit entra_server) =
     entra_server\<lparr>sv_entra := Some (snd (entra_handle (se_entra plain_server_env) entra_visit (entra_new sample_seed 9)))\<rparr>"
proof -
  have p: "entra_path sample_seed entra_visit" by code_simp
  have s: "sg_entra entra_server_config = Some sample_seed" "sv_entra entra_server = Some (entra_new sample_seed 9)" "sv_entra_on entra_server"
    by (simp_all add: entra_server_config_def entra_server_def new_server_def)
  have o: "sv_entra (entra_server\<lparr>sv_entra_on := False\<rparr>) = Some (entra_new sample_seed 9)" using s(2) by simp
  have "rs_status (cors_interceptor entra_visit method_not_allowed) = 405" "rq_method entra_visit \<noteq> ''OPTIONS''" by code_simp+
  then show ?thesis using entra_gate[OF s(1) p s(2)] entra_gate[OF s(1) p o] s(3) by (simp add: http_answer_def split: prod.split)
qed

section \<open>Static assets\<close>

lemma last_join: "es \<noteq> [] \<Longrightarrow> last es \<noteq> [] \<Longrightarrow> str_join es sep \<noteq> [] \<and> last (str_join es sep) = last (last es)"
proof (induction es)
  case (Cons e es)
  then show ?case by (cases es) auto
qed simp

lemma static_rel_plain:
  assumes "es \<noteq> []" and "list_all plain_elem es" and "rq_path r = ''/static/'' @ str_join es ''/''"
  shows "static_rel r = str_join es ''/''"
proof -
  let ?p = "''static/'' @ str_join es ''/''"
  have l: "plain_elem (last es)" using assms(1,2) by (metis last_in_set list_all_iff)
  then have "last (last es) \<noteq> CHR ''/''" "last es \<noteq> []" by (auto simp: plain_elem_def) (metis last_in_set)
  moreover from this have j: "str_join es ''/'' \<noteq> []" "last (str_join es ''/'') = last (last es)" using last_join[OF assms(1)] by simp_all
  ultimately have "last ?p \<noteq> CHR ''/''" by simp
  then have "trim_slash (CHR ''/'' # ?p) = ?p" by (intro trim_slash_path) simp_all
  then have t: "trim_slash (rq_path r) = ''static'' @ CHR ''/'' # str_join es ''/''" using assms(3) by simp
  have s: "str_split (trim_slash (rq_path r)) ''/'' = ''static'' # es"
    unfolding t by (subst str_split_char_cons) (simp_all add: plain_join_split[OF assms(1,2)])
  have "path_clean (str_join es ''/'') = str_join es ''/''"
    using clean_elems_join(2)[OF assms(2,1)] plain_join_first[OF assms(2)] j(1) by (simp add: path_clean_def)
  then show ?thesis using assms(1) by (simp add: static_rel_def s)
qed

text \<open>C14: static_confined. A request for a static asset reads at most one file, below the configured root and without climbing out of
  it by dots, and answers 404 otherwise; a file below the root is found under its relative path (unless the first
  element starts with two dots, or the root is the file system root).\<close>

theorem static_confined:
  assumes "\<And>d. se_wd env = Some d \<Longrightarrow> has_prefix d ''/''" and "path_abs (se_wd env) (sg_static cfg) = Some root"
  shows "(case static_file env cfg r of
       None \<Rightarrow> rs_status (case fst (static_asset env cfg r s) of Inr resp \<Rightarrow> resp | Inl p \<Rightarrow> error_response (panic_to_error p)) = 404
     | Some full \<Rightarrow> (full = root \<or> has_prefix full (root @ ''/'')) \<and> ''..'' \<notin> set (str_split full ''/'')) \<and>
    (\<forall>es. es \<noteq> [] \<longrightarrow> list_all plain_elem es \<longrightarrow> \<not> has_prefix (hd es) ''..'' \<longrightarrow> root \<noteq> ''/'' \<longrightarrow>
       rq_path r = ''/static/'' @ str_join es ''/'' \<longrightarrow> static_file env cfg r = Some (root @ ''/'' @ str_join es ''/''))"
proof (intro conjI allI impI)
  obtain as where root: "root = ''/'' @ str_join as ''/''" "list_all plain_elem as" using path_abs_rooted[OF assms(2,1)] by blast
  show "case static_file env cfg r of
       None \<Rightarrow> rs_status (case fst (static_asset env cfg r s) of Inr resp \<Rightarrow> resp | Inl p \<Rightarrow> error_response (panic_to_error p)) = 404
     | Some full \<Rightarrow> (full = root \<or> has_prefix full (root @ ''/'')) \<and> ''..'' \<notin> set (str_split full ''/'')"
  proof (cases "static_file env cfg r")
    case None
    then show ?thesis by (simp add: static_asset_def not_found_response_def new_response_def)
  next
    case (Some full)
    then have "full = path_join root (static_rel r)" "full = root \<or> has_prefix full (root @ ''/'')"
      using assms(2) by (auto simp: static_file_def Let_def split: if_splits)
    moreover have "has_prefix (root @ x) ''/''" for x by (simp add: root(1) has_prefix_def)
    ultimately show ?thesis using Some rooted_no_dots[of "root @ ''/'' @ static_rel r"] by (simp add: path_join_def)
  qed
  fix es assume es: "es \<noteq> []" "list_all plain_elem es" "\<not> has_prefix (hd es) ''..''" "root \<noteq> ''/''"
    "rq_path r = ''/static/'' @ str_join es ''/''"
  have as: "as \<noteq> []" using es(4) root(1) by auto
  have j: "str_join (as @ es) ''/'' = str_join as ''/'' @ ''/'' @ str_join es ''/''"
    using as es(1) by (induction as rule: induct_list012) (auto simp: neq_Nil_conv)
  note rel = static_rel_plain[OF es(1,2,5)]
  have full: "path_join root (static_rel r) = root @ ''/'' @ str_join es ''/''"
    unfolding rel root(1) path_join_plain[OF root(2) es(2,1)] j by simp
  have "\<not> has_prefix (str_join es ''/'') ''..''"
  proof -
    obtain e es' where e: "es = e # es'" using es(1) by (cases es) auto
    then have pe: "e \<noteq> []" "e \<noteq> ''.''" "\<not> has_prefix e ''..''" using es(2,3) by (auto simp: plain_elem_def)
    then have "\<not> has_prefix (e @ CHR ''/'' # x) ''..''" for x by (cases e; cases "tl e") (auto simp: has_prefix_def)
    then show ?thesis using e pe(3) by (cases es') simp_all
  qed
  moreover have "has_prefix (root @ ''/'' @ x) (root @ ''/'')" for x by (simp add: has_prefix_iff)
  ultimately show "static_file env cfg r = Some (root @ ''/'' @ str_join es ''/'')"
    using plain_join_first[OF es(2)] by (simp add: static_file_def assms(2) Let_def full) (simp add: rel)
qed

definition static_config :: server_config where
  "static_config = plain_server_config\<lparr>sg_static := ''assets''\<rparr>"

theorem static_confined_witness:
  "static_file plain_server_env static_config (get_from ''/static/css/site.css'' []) = Some ''/srv/assets/css/site.css'' \<and>
   static_file plain_server_env static_config (get_from ''/static/../../etc/passwd'' []) = None"
proof -
  have d: "has_prefix d ''/''" if "se_wd plain_server_env = Some d" for d using that by (auto simp: has_prefix_def)
  have r: "path_abs (se_wd plain_server_env) (sg_static static_config) = Some ''/srv/assets''" by code_simp
  have n: "static_file plain_server_env static_config (get_from ''/static/../../etc/passwd'' []) = None" by code_simp
  have "list_all plain_elem [''css'', ''site.css'']" "\<not> has_prefix (hd [''css'', ''site.css'']) ''..''" by code_simp+
  moreover have "rq_path (get_from ''/static/css/site.css'' []) = ''/static/'' @ str_join [''css'', ''site.css''] ''/''" by code_simp
  ultimately show ?thesis
    using static_confined[OF d r, of "get_from ''/static/css/site.css'' []" entra_server] n
    by (auto dest!: spec[of _ "[''css'', ''site.css'']"])
qed

section \<open>The posted form\<close>

text \<open>Decoding the five entities; what the page writes between quotes holds no quote or bracket.\<close>

fun html_unescape :: "string \<Rightarrow> string" where
  "html_unescape [] = []"
| "html_unescape (c # s) =
     (if has_prefix (c # s) ''&amp;'' then CHR ''&'' # html_unescape (drop 4 s)
      else if has_prefix (c # s) ''&lt;'' then CHR ''<'' # html_unescape (drop 3 s)
      else if has_prefix (c # s) ''&gt;'' then CHR ''>'' # html_unescape (drop 3 s)
      else if has_prefix (c # s) ''&#34;'' then CHR 0x22 # html_unescape (drop 4 s)
      else if has_prefix (c # s) ''&#39;'' then CHR 0x27 # html_unescape (drop 4 s)
      else c # html_unescape s)"

lemma html_unescape_escape: "html_unescape (html_escape s) = s"
proof (induction s)
  case (Cons c s)
  have e: "html_escape (c # s) = html_escape_char c @ html_escape s" by (simp add: html_escape_def)
  show ?case unfolding e using Cons by (auto simp: html_escape_char_def has_prefix_def)
qed (simp add: html_escape_def)

lemma html_escape_safe: "c \<in> set (html_escape s) \<Longrightarrow> c \<notin> {CHR ''<'', CHR ''>'', CHR 0x22, CHR 0x27}"
  by (auto simp: html_escape_def html_escape_char_def split: if_splits)

end
