(* ===== verification/Config_Load.thy ===== *)
theory Config_Load
  imports Server_State Token_Jwk
begin

text \<open>
  Loading the configuration (internal/config/config.go): the JSON document, its sources in the environment
  and the separate file of Entra mode.

  \<open>load_env\<close> holds what is outside: JSON decoding of the three documents (with the error text), the time
  format, files, the two embedded key sets and SHA-1. A raw JSON field that is absent is empty. Errors
  are a datatype; the texts of the operating system and of the decoders are arguments of it.
\<close>

section \<open>The document\<close>

record ssl_settings =
  ss_key_password :: string
  ss_keystore_file :: string
  ss_keystore_type :: string
  ss_keystore_password :: string
  ss_certificate_file :: string
  ss_private_key_file :: string

record key_provider_config =
  kc_initial_keys :: string
  kc_algorithm :: string

record token_provider_config =
  pc_key_provider :: "key_provider_config option"
  pc_system_time :: string

record mapping_json =
  mj_param :: string
  mj_match :: string
  mj_claims :: claims
  mj_type :: string

record callback_json =
  cj_issuer :: string
  cj_expiry :: int
  cj_mappings :: "mapping_json list"

record raw_config =
  rc_interactive :: "bool option"
  rc_login_page :: string
  rc_static :: string
  rc_rotate :: bool
  rc_token_provider :: "token_provider_config option"
  rc_callbacks :: "callback_json list"
  rc_http :: string
  rc_entra :: string

record oauth2_config = server_config +
  lc_http :: string
  lc_ssl :: "ssl_settings option"
  lc_keys :: key_provider
  lc_time :: "int option"

record load_env =
  lf_config :: "string \<Rightarrow> string + raw_config"
  lf_ssl :: "string \<Rightarrow> ssl_settings option option"
  lf_entra :: "string \<Rightarrow> string + config"
  lf_time :: "string \<Rightarrow> string + int"
  lf_read :: "string \<Rightarrow> string + string"
  lf_jwk :: jwk_env
  lf_rsa_set :: string
  lf_ec_set :: string
  lf_sha1 :: "string \<Rightarrow> string"

datatype load_error =
    BadConfigJson string
  | BadSystemTime string
  | UnsupportedAlgorithm string
  | BadKey jwk_error
  | KeyMismatch string string
  | CallbackWithoutIssuer
  | BadEntraJson string
  | BadEntra cfg_error
  | EntraFile string

section \<open>Keys\<close>

definition provider_from_set :: "load_env \<Rightarrow> string \<Rightarrow> string \<Rightarrow> load_error + key_provider" where
  "provider_from_set env keyset alg =
     (case new_key_provider [] alg of
        None \<Rightarrow> Inl (UnsupportedAlgorithm alg)
      | Some p \<Rightarrow>
          if keyset = [] then Inr p
          else (case parse_private_key_set (lf_jwk env) keyset of
                  Inl e \<Rightarrow> Inl (BadKey e)
                | Inr keys \<Rightarrow> Inr (p\<lparr>kp_initial := keys\<rparr>)))"

definition default_key_provider :: "load_env \<Rightarrow> string \<Rightarrow> load_error + key_provider" where
  "default_key_provider env alg =
     (case algorithm_family alg of
        None \<Rightarrow> Inl (UnsupportedAlgorithm alg)
      | Some family \<Rightarrow> provider_from_set env (if family = ''EC'' then lf_ec_set env else lf_rsa_set env) alg)"

definition configured_key_provider :: "load_env \<Rightarrow> string \<Rightarrow> string \<Rightarrow> load_error + key_provider" where
  "configured_key_provider env initial alg =
     (case parse_private_jwk_doc (lf_jwk env) initial of
        Inl e \<Rightarrow> Inl (BadKey e)
      | Inr key \<Rightarrow>
          (case algorithm_family alg of
             None \<Rightarrow> Inl (UnsupportedAlgorithm alg)
           | Some family \<Rightarrow>
               (case key_provider_from_initial key alg of
                  None \<Rightarrow> Inl (KeyMismatch (sk_kty key) alg)
                | Some p \<Rightarrow> Inr p)))"

definition config_algorithm :: "raw_config \<Rightarrow> string" where
  "config_algorithm raw =
     (case Option.bind (rc_token_provider raw) pc_key_provider of
        Some k \<Rightarrow> if kc_algorithm k \<noteq> [] then kc_algorithm k else ''RS256''
      | None \<Rightarrow> ''RS256'')"

definition config_initial_keys :: "raw_config \<Rightarrow> string" where
  "config_initial_keys raw = (case Option.bind (rc_token_provider raw) pc_key_provider of Some k \<Rightarrow> kc_initial_keys k | None \<Rightarrow> [])"

definition config_key_provider :: "load_env \<Rightarrow> raw_config \<Rightarrow> load_error + key_provider" where
  "config_key_provider env raw =
     (if config_initial_keys raw \<noteq> [] then configured_key_provider env (config_initial_keys raw) (config_algorithm raw)
      else default_key_provider env (config_algorithm raw))"

definition config_system_time :: "load_env \<Rightarrow> raw_config \<Rightarrow> load_error + int option" where
  "config_system_time env raw =
     (case rc_token_provider raw of
        None \<Rightarrow> Inr None
      | Some tp \<Rightarrow>
          if pc_system_time tp = [] then Inr None
          else (case lf_time env (pc_system_time tp) of Inl e \<Rightarrow> Inl (BadSystemTime e) | Inr t \<Rightarrow> Inr (Some t)))"

section \<open>Callbacks and Entra mode\<close>

definition mapping_of :: "mapping_json \<Rightarrow> mapping" where
  "mapping_of m = \<lparr>mp_param = mj_param m, mp_match = mj_match m, mp_claims = mj_claims m,
     mp_type = (if mj_type m = [] then ''JWT'' else mj_type m)\<rparr>"

definition callback_of :: "callback_json \<Rightarrow> load_error + mapping_callback" where
  "callback_of cb =
     (if cj_issuer cb = [] then Inl CallbackWithoutIssuer
      else Inr \<lparr>mc_issuer = cj_issuer cb, mc_mappings = map mapping_of (cj_mappings cb),
             mc_expiry = (if cj_expiry cb = 0 then 3600 else cj_expiry cb)\<rparr>)"

fun callbacks_of :: "callback_json list \<Rightarrow> load_error + mapping_callback list" where
  "callbacks_of [] = Inr []"
| "callbacks_of (cb # cbs) = ebind (callback_of cb) (\<lambda>m. ebind (callbacks_of cbs) (\<lambda>ms. Inr (m # ms)))"

definition parse_entra_config :: "load_env \<Rightarrow> string \<Rightarrow> load_error + config" where
  "parse_entra_config env data =
     (case lf_entra env data of
        Inl e \<Rightarrow> Inl (BadEntraJson e)
      | Inr c \<Rightarrow> (case normalize (lf_sha1 env) c of Inl e \<Rightarrow> Inl (BadEntra e) | Inr c' \<Rightarrow> Inr c'))"

definition config_entra :: "load_env \<Rightarrow> raw_config \<Rightarrow> load_error + config option" where
  "config_entra env raw =
     (if rc_entra raw = [] \<or> rc_entra raw = ''null'' then Inr None
      else ebind (parse_entra_config env (rc_entra raw)) (\<lambda>c. Inr (Some c)))"

section \<open>ParseJSON and its sources\<close>

definition parse_config_json :: "load_env \<Rightarrow> string \<Rightarrow> load_error + oauth2_config" where
  "parse_config_json env data =
     (case lf_config env data of
        Inl e \<Rightarrow> Inl (BadConfigJson e)
      | Inr raw \<Rightarrow>
          ebind (config_system_time env raw) (\<lambda>time. ebind (config_key_provider env raw) (\<lambda>keys.
            ebind (callbacks_of (rc_callbacks raw)) (\<lambda>cbs. ebind (config_entra env raw) (\<lambda>entra.
              Inr \<lparr>sg_interactive = (rc_interactive raw = Some True), sg_rotate = rc_rotate raw, sg_login_page = rc_login_page raw,
                sg_static = rc_static raw, sg_callbacks = cbs, sg_entra = entra, lc_http = rc_http raw,
                lc_ssl = (if rc_http raw = [] then None else case lf_ssl env (rc_http raw) of Some ssl \<Rightarrow> ssl | None \<Rightarrow> None),
                lc_keys = keys, lc_time = time\<rparr>)))))"

definition fallback_config :: "key_provider \<Rightarrow> bool \<Rightarrow> oauth2_config" where
  "fallback_config keys interactive =
     \<lparr>sg_interactive = interactive, sg_rotate = False, sg_login_page = [], sg_static = [], sg_callbacks = [], sg_entra = None,
      lc_http = [], lc_ssl = None, lc_keys = keys, lc_time = None\<rparr>"

definition load_base_standalone :: "load_env \<Rightarrow> (string \<Rightarrow> string) \<Rightarrow> load_error + oauth2_config" where
  "load_base_standalone env getenv =
     (let inline = getenv ''JSON_CONFIG'';
          path = (if getenv ''JSON_CONFIG_PATH'' = [] then ''config.json'' else getenv ''JSON_CONFIG_PATH'')
      in if inline \<noteq> [] then parse_config_json env inline
         else case lf_read env path of
                Inr data \<Rightarrow> parse_config_json env data
              | Inl _ \<Rightarrow> ebind (default_key_provider env ''RS256'') (\<lambda>keys. Inr (fallback_config keys True)))"

definition load_standalone :: "load_env \<Rightarrow> (string \<Rightarrow> string) \<Rightarrow> load_error + oauth2_config" where
  "load_standalone env getenv =
     ebind (load_base_standalone env getenv) (\<lambda>cfg.
       let path = getenv ''ENTRA_CONFIG_PATH'' in
       if path = [] then Inr cfg
       else (case lf_read env path of
               Inl e \<Rightarrow> Inl (EntraFile e)
             | Inr data \<Rightarrow> ebind (parse_entra_config env data) (\<lambda>c. Inr (cfg\<lparr>sg_entra := Some c\<rparr>))))"

end
