(* ===== verification/Listener.thy ===== *)
theory Listener
  imports Oauth2
begin

text \<open>
  The connection a request comes in on (internal/httpserver/dual.go) and its way into the program
  (\<open>FromHTTPRequest\<close> in internal/oauth2/request.go).

  The first byte of a connection decides whether it speaks TLS. \<open>sniff\<close> is one connection: the bytes the
  peer has sent that are still in the socket, whether more can come (it closed its side, or the
  read deadline has passed), the buffer of the reader, the decision, and, to state what reaches
  the reader of the connection, what was handed to it. How much a read of the
  socket returns is up to the network, an argument (at least one byte when there is any). TLS itself is
  outside: on the TLS branch the bytes handed out are what crypto/tls reads.
\<close>

section \<open>The sniffing connection\<close>

datatype branch = TlsBranch | PlainBranch

record sniff =
  sn_socket :: string
  sn_closed :: bool
  sn_buffer :: string
  sn_inner :: "branch option"
  sn_handed :: string

definition tls_handshake_byte :: char where "tls_handshake_byte = CHR 0x16"
definition sniff_buffer_size :: nat where "sniff_buffer_size = 1024"

definition accept_conn :: sniff where
  "accept_conn = \<lparr>sn_socket = [], sn_closed = False, sn_buffer = [], sn_inner = None, sn_handed = []\<rparr>"

text \<open>One read of the socket into a space of \<open>room\<close> bytes.\<close>

definition socket_chunk :: "nat \<Rightarrow> nat \<Rightarrow> string \<Rightarrow> nat" where
  "socket_chunk net room socket = min (max 1 net) (min room (length socket))"

definition fill_buffer :: "nat \<Rightarrow> sniff \<Rightarrow> sniff" where
  "fill_buffer net c =
     (let n = socket_chunk net sniff_buffer_size (sn_socket c) in
      c\<lparr>sn_buffer := sn_buffer c @ take n (sn_socket c), sn_socket := drop n (sn_socket c)\<rparr>)"

definition sniff_resolve :: "nat \<Rightarrow> sniff \<Rightarrow> sniff" where
  "sniff_resolve net c =
     (if sn_inner c \<noteq> None then c
      else let c' = fill_buffer net c in
        c'\<lparr>sn_inner := Some (case sn_buffer c' of
             b # _ \<Rightarrow> if b = tls_handshake_byte then TlsBranch else PlainBranch
           | [] \<Rightarrow> PlainBranch)\<rparr>)"

text \<open>\<open>peekedConn.Read\<close>, that is \<open>bufio.Reader.Read\<close> into \<open>room\<close> bytes: the buffer first; a large read bypasses an empty one.\<close>

definition peeked_read :: "nat \<Rightarrow> nat \<Rightarrow> sniff \<Rightarrow> string \<times> sniff" where
  "peeked_read net room c =
     (if room = 0 then ([], c)
      else if sn_buffer c = [] \<and> sniff_buffer_size \<le> room then
        (let n = socket_chunk net room (sn_socket c) in
         (take n (sn_socket c), c\<lparr>sn_socket := drop n (sn_socket c)\<rparr>))
      else
        (let c' = (if sn_buffer c = [] then fill_buffer net c else c) in
         (take room (sn_buffer c'), c'\<lparr>sn_buffer := drop room (sn_buffer c')\<rparr>)))"

definition sniff_read :: "nat \<Rightarrow> nat \<Rightarrow> sniff \<Rightarrow> string \<times> sniff" where
  "sniff_read net room c =
     (case peeked_read net room (sniff_resolve net c) of (data, c') \<Rightarrow> (data, c'\<lparr>sn_handed := sn_handed c' @ data\<rparr>))"

definition conn_is_tls :: "nat \<Rightarrow> sniff \<Rightarrow> bool" where
  "conn_is_tls net c \<longleftrightarrow> sn_inner (sniff_resolve net c) = Some TlsBranch"

text \<open>The states of a connection after the peer has sent some bytes. The decision waits for the first of them
  or for the end of the connection; a write takes it as a read does.\<close>

definition sniff_ready :: "sniff \<Rightarrow> bool" where
  "sniff_ready c \<longleftrightarrow> sn_inner c \<noteq> None \<or> sn_socket c \<noteq> [] \<or> sn_closed c"

inductive sniff_run :: "string \<Rightarrow> sniff \<Rightarrow> bool" where
  run_accept: "sniff_run [] accept_conn"
| run_arrive: "sniff_run sent c \<Longrightarrow> \<not> sn_closed c \<Longrightarrow> sniff_run (sent @ data) (c\<lparr>sn_socket := sn_socket c @ data\<rparr>)"
| run_end: "sniff_run sent c \<Longrightarrow> sniff_run sent (c\<lparr>sn_closed := True\<rparr>)"
| run_resolve: "sniff_run sent c \<Longrightarrow> sniff_ready c \<Longrightarrow> sniff_run sent (sniff_resolve net c)"
| run_read: "sniff_run sent c \<Longrightarrow> sniff_ready c \<Longrightarrow> sniff_read net room c = (data, c') \<Longrightarrow> sniff_run sent c'"

section \<open>The captured request\<close>

definition max_body_bytes :: nat where "max_body_bytes = 2 ^ 20"

text \<open>A request of net/http: the body is the bytes the peer sends and whether reading fails after them; a connection
  of the sniffing listener may come with it.\<close>

record net_request =
  nr_method :: string
  nr_host :: string
  nr_header :: "(string \<times> string) list"
  nr_path :: string
  nr_raw_query :: string
  nr_tls :: bool
  nr_conn :: "sniff option"
  nr_body :: "(string \<times> bool) option"

definition request_is_tls :: "net_request \<Rightarrow> bool" where
  "request_is_tls n \<longleftrightarrow> nr_tls n \<or> (case nr_conn n of Some c \<Rightarrow> conn_is_tls 1 c | None \<Rightarrow> False)"

definition read_body :: "(string \<times> bool) option \<Rightarrow> string option" where
  "read_body b =
     (case b of
        None \<Rightarrow> Some []
      | Some (bytes, fails) \<Rightarrow>
          let body = take (max_body_bytes + 1) bytes in
          if fails \<and> length bytes \<le> max_body_bytes then None
          else if length body > max_body_bytes then None else Some body)"

definition host_headers :: "net_request \<Rightarrow> (string \<times> string) list" where
  "host_headers n =
     (let own = (case find (\<lambda>(k, _). equal_fold k ''Host'') (nr_header n) of Some (_, v) \<Rightarrow> v | None \<Rightarrow> []) in
      if nr_host n \<noteq> [] \<and> own = []
      then filter (\<lambda>(k, _). \<not> equal_fold k ''Host'') (nr_header n) @ [(''Host'', nr_host n)]
      else nr_header n)"

definition from_http_request :: "net_request \<Rightarrow> request option" where
  "from_http_request n =
     map_option (\<lambda>body. \<lparr>rq_method = nr_method n, rq_header = host_headers n, rq_path = nr_path n, rq_raw_query = nr_raw_query n,
       rq_scheme = (if request_is_tls n then ''https'' else ''http''), rq_body = body\<rparr>) (read_body (nr_body n))"

section \<open>Laws\<close>

lemma socket_chunk_pos: "socket \<noteq> [] \<Longrightarrow> 0 < room \<Longrightarrow> 0 < socket_chunk net room socket"
  by (simp add: socket_chunk_def min_def max_def)

lemma fill_bytes: "sn_buffer (fill_buffer net c) @ sn_socket (fill_buffer net c) = sn_buffer c @ sn_socket c"
  by (simp add: fill_buffer_def Let_def)

lemma fill_nonempty: "sn_socket c \<noteq> [] \<Longrightarrow> sn_buffer (fill_buffer net c) \<noteq> []"
  using socket_chunk_pos[of "sn_socket c" sniff_buffer_size net] by (simp add: fill_buffer_def Let_def sniff_buffer_size_def)

lemma fill_rest [simp]:
  "sn_inner (fill_buffer net c) = sn_inner c" "sn_handed (fill_buffer net c) = sn_handed c" "sn_closed (fill_buffer net c) = sn_closed c"
  by (simp_all add: fill_buffer_def Let_def)

lemma resolve_rest [simp]:
  "sn_handed (sniff_resolve net c) = sn_handed c" "sn_closed (sniff_resolve net c) = sn_closed c"
  by (simp_all add: sniff_resolve_def Let_def)

lemma resolve_bytes: "sn_buffer (sniff_resolve net c) @ sn_socket (sniff_resolve net c) = sn_buffer c @ sn_socket c"
  using fill_bytes[of net c] by (simp add: sniff_resolve_def Let_def)

lemma resolve_idem [simp]: "sn_inner c \<noteq> None \<Longrightarrow> sniff_resolve net c = c"
  by (simp add: sniff_resolve_def)

lemma take_drop_append: "take n x @ drop n x @ y = x @ y"
  by (simp flip: append_assoc)

lemma peeked_bytes:
  assumes "peeked_read net room c = (data, c')"
  shows "data @ sn_buffer c' @ sn_socket c' = sn_buffer c @ sn_socket c" "sn_inner c' = sn_inner c" "sn_handed c' = sn_handed c"
    "sn_closed c' = sn_closed c"
  using assms fill_bytes[of net c] by (auto simp: peeked_read_def Let_def take_drop_append split: if_splits)

lemma peeked_progress:
  assumes "peeked_read net room c = (data, c')" and "0 < room" and "sn_buffer c @ sn_socket c \<noteq> []"
  shows "data \<noteq> []"
proof (cases "sn_buffer c = []")
  case True
  then have "sn_socket c \<noteq> []" using assms(3) by simp
  then show ?thesis
    using assms(1,2) True fill_nonempty[of c net] socket_chunk_pos[of "sn_socket c" room net]
    by (auto simp: peeked_read_def Let_def split: if_splits)
qed (use assms(1,2) in \<open>auto simp: peeked_read_def Let_def split: if_splits\<close>)

definition stream_ok :: "string \<Rightarrow> sniff \<Rightarrow> bool" where
  "stream_ok sent c \<longleftrightarrow> sn_handed c @ sn_buffer c @ sn_socket c = sent \<and>
     (case sn_inner c of
        None \<Rightarrow> sn_handed c = [] \<and> sn_buffer c = []
      | Some b \<Rightarrow> (sent = [] \<longrightarrow> sn_closed c) \<and> (b = TlsBranch \<longleftrightarrow> sent \<noteq> [] \<and> hd sent = tls_handshake_byte))"

lemma stream_resolve:
  assumes "stream_ok sent c" and "sniff_ready c"
  shows "stream_ok sent (sniff_resolve net c)"
proof (cases "sn_inner c")
  case None
  let ?c = "fill_buffer net c"
  have h: "sn_handed c = []" "sn_buffer c = []" "sn_socket c = sent" using assms(1) None by (auto simp: stream_ok_def)
  then have b: "sn_buffer ?c @ sn_socket ?c = sent" using fill_bytes[of net c] by simp
  have e: "sent \<noteq> [] \<Longrightarrow> sn_buffer ?c \<noteq> []" using fill_nonempty[of c net] h by simp
  have "sent = [] \<Longrightarrow> sn_closed c" using assms(2) None h by (simp add: sniff_ready_def)
  then show ?thesis using b e None h
    by (cases "sn_buffer ?c") (auto simp: stream_ok_def sniff_resolve_def Let_def)
qed (use assms(1) in simp)

lemma stream_read:
  assumes "stream_ok sent c" and "sniff_ready c" and "sniff_read net room c = (data, c')"
  shows "stream_ok sent c'"
proof -
  have ok: "stream_ok sent (sniff_resolve net c)" by (rule stream_resolve[OF assms(1,2)])
  obtain d where d: "peeked_read net room (sniff_resolve net c) = (data, d)" "c' = d\<lparr>sn_handed := sn_handed d @ data\<rparr>"
    using assms(3) by (auto simp: sniff_read_def split: prod.splits)
  have "sn_inner (sniff_resolve net c) \<noteq> None" by (simp add: sniff_resolve_def Let_def)
  then show ?thesis using ok peeked_bytes[OF d(1)] d(2) by (auto simp: stream_ok_def)
qed

lemma run_stream: "sniff_run sent c \<Longrightarrow> stream_ok sent c"
proof (induction rule: sniff_run.induct)
  case run_accept
  show ?case by (simp add: stream_ok_def accept_conn_def)
next
  case (run_arrive sent c data)
  from run_arrive.IH have s: "sn_handed c @ sn_buffer c @ sn_socket c = sent" by (simp add: stream_ok_def)
  show ?case
  proof (cases "sn_inner c")
    case None
    then show ?thesis using run_arrive.IH s by (simp add: stream_ok_def)
  next
    case (Some b)
    then have "sent \<noteq> []" using run_arrive.IH run_arrive.hyps by (auto simp: stream_ok_def)
    then show ?thesis using run_arrive.IH Some s by (auto simp: stream_ok_def)
  qed
next
  case (run_end sent c)
  have "stream_ok sent (c\<lparr>sn_closed := True\<rparr>)" if "stream_ok sent c"
    using that by (cases "sn_inner c") (auto simp: stream_ok_def)
  then show ?case using run_end.IH .
next
  case (run_resolve sent c net)
  show ?case by (rule stream_resolve[OF run_resolve.IH run_resolve.hyps(2)])
next
  case (run_read sent c net room data c')
  show ?case by (rule stream_read[OF run_read.IH run_read.hyps(2,3)])
qed

text \<open>C27: connection_keeps_stream. However the bytes of a peer arrive and are read, what the program is handed is exactly what was sent, from the
  first byte on and without one lost to the peek; a read finds a byte while one is left; and a request on
  such a connection counts as https exactly when the first byte opens a TLS handshake.\<close>

theorem connection_keeps_stream:
  assumes "sniff_run sent c" and "sniff_ready c"
  shows "(\<exists>rest. sent = sn_handed c @ rest \<and>
      (case sniff_read net room c of (data, c') \<Rightarrow> sn_handed c' = sn_handed c @ data \<and> (\<exists>rest'. rest = data @ rest') \<and>
         (0 < room \<longrightarrow> rest \<noteq> [] \<longrightarrow> data \<noteq> []))) \<and>
    (\<forall>n r. nr_conn n = Some c \<longrightarrow> \<not> nr_tls n \<longrightarrow> from_http_request n = Some r \<longrightarrow>
       rq_scheme r = (if sent \<noteq> [] \<and> hd sent = tls_handshake_byte then ''https'' else ''http''))"
proof
  let ?c = "sniff_resolve net c"
  obtain data d where d: "peeked_read net room ?c = (data, d)" by fastforce
  have s: "sent = sn_handed c @ sn_buffer c @ sn_socket c" using run_stream[OF assms(1)] by (simp add: stream_ok_def)
  have b: "data @ sn_buffer d @ sn_socket d = sn_buffer c @ sn_socket c" using peeked_bytes(1)[OF d] by (simp add: resolve_bytes)
  have p: "0 < room \<Longrightarrow> sn_buffer c @ sn_socket c \<noteq> [] \<Longrightarrow> data \<noteq> []" using peeked_progress[OF d] by (simp add: resolve_bytes)
  have "sniff_read net room c = (data, d\<lparr>sn_handed := sn_handed c @ data\<rparr>)" using peeked_bytes(3)[OF d] by (simp add: sniff_read_def d)
  then show "\<exists>rest. sent = sn_handed c @ rest \<and>
      (case sniff_read net room c of (data, c') \<Rightarrow> sn_handed c' = sn_handed c @ data \<and> (\<exists>rest'. rest = data @ rest') \<and>
         (0 < room \<longrightarrow> rest \<noteq> [] \<longrightarrow> data \<noteq> []))"
    using s b p by (intro exI[of _ "sn_buffer c @ sn_socket c"]) (auto intro: sym)
  have ok: "stream_ok sent (sniff_resolve 1 c)" by (rule stream_resolve[OF run_stream[OF assms(1)] assms(2)])
  have "sn_inner (sniff_resolve 1 c) \<noteq> None" by (simp add: sniff_resolve_def Let_def)
  then have "conn_is_tls 1 c \<longleftrightarrow> sent \<noteq> [] \<and> hd sent = tls_handshake_byte" using ok by (auto simp: stream_ok_def conn_is_tls_def)
  then show "\<forall>n r. nr_conn n = Some c \<longrightarrow> \<not> nr_tls n \<longrightarrow> from_http_request n = Some r \<longrightarrow>
       rq_scheme r = (if sent \<noteq> [] \<and> hd sent = tls_handshake_byte then ''https'' else ''http'')"
    by (auto simp: from_http_request_def request_is_tls_def)
qed

definition hello :: string where "hello = [CHR 0x16, CHR 0x03, CHR 0x01]"

theorem connection_keeps_stream_witness:
  "sniff_read 1 2048 (accept_conn\<lparr>sn_socket := hello\<rparr>) =
     ([CHR 0x16], \<lparr>sn_socket = [CHR 0x03, CHR 0x01], sn_closed = False, sn_buffer = [], sn_inner = Some TlsBranch, sn_handed = [CHR 0x16]\<rparr>) \<and>
   (\<exists>rest. hello = sn_handed (accept_conn\<lparr>sn_socket := hello\<rparr>) @ rest)"
proof -
  have "sniff_run ([] @ hello) (accept_conn\<lparr>sn_socket := sn_socket accept_conn @ hello\<rparr>)"
    by (rule run_arrive[OF run_accept]) (simp add: accept_conn_def)
  then have r: "sniff_run hello (accept_conn\<lparr>sn_socket := hello\<rparr>)" by (simp add: accept_conn_def)
  have "sniff_ready (accept_conn\<lparr>sn_socket := hello\<rparr>)" by (simp add: sniff_ready_def hello_def)
  moreover have "sniff_read 1 2048 (accept_conn\<lparr>sn_socket := hello\<rparr>) =
     ([CHR 0x16], \<lparr>sn_socket = [CHR 0x03, CHR 0x01], sn_closed = False, sn_buffer = [], sn_inner = Some TlsBranch, sn_handed = [CHR 0x16]\<rparr>)"
    by code_simp
  ultimately show ?thesis using connection_keeps_stream[OF r, of 1 2048] by blast
qed

end
