(* ===== verification/Startup.thy ===== *)
theory Startup
  imports Server_Runs Config_Load Listener
begin

text \<open>
  Starting a server: the choice of the certificate source (internal/httpserver/tls.go; Tls_Setup has the rest), the standalone program
  (cmd/mock-oidc/main.go) and the library facade (mockoidc.go).

  Reading certificates and keystores, binding the port and the files are arguments (\<open>host_env\<close>).
\<close>

section \<open>Addresses (package net)\<close>

definition net_join_host_port :: "string \<Rightarrow> string \<Rightarrow> string" where
  "net_join_host_port host port = (if CHR '':'' \<in> set host then ''['' @ host @ '']:'' @ port else host @ '':'' @ port)"

definition net_split_host_port :: "string \<Rightarrow> (string \<times> string) option" where
  "net_split_host_port hp =
     (case last_index (CHR '':'') hp of
        None \<Rightarrow> None
      | Some i \<Rightarrow>
          if has_prefix hp ''['' then
            (let n = length (takeWhile (\<lambda>c. c \<noteq> CHR '']'') hp) in
             if n = length hp \<or> n + 1 \<noteq> i \<or> CHR ''['' \<in> set (drop 1 hp) \<or> CHR '']'' \<in> set (drop i hp) then None
             else Some (drop 1 (take n hp), drop (Suc i) hp))
          else if CHR '':'' \<in> set (take i hp) \<or> CHR ''['' \<in> set hp \<or> CHR '']'' \<in> set hp then None
          else Some (take i hp, drop (Suc i) hp))"

section \<open>Certificates (tls.go)\<close>

datatype cert_source = PemPair string string | Pkcs12 string string | SelfSigned string

datatype tls_error = BothSources | PartialPair | JksUnsupported | SourceError string

definition cert_source_of :: "ssl_settings \<Rightarrow> tls_error + cert_source" where
  "cert_source_of opts =
     (if ss_certificate_file opts \<noteq> [] \<or> ss_private_key_file opts \<noteq> [] then
        (if ss_keystore_file opts \<noteq> [] then Inl BothSources
         else if ss_certificate_file opts = [] \<or> ss_private_key_file opts = [] then Inl PartialPair
         else Inr (PemPair (ss_certificate_file opts) (ss_private_key_file opts)))
      else if ss_keystore_file opts \<noteq> [] then
        (if ss_keystore_type opts = ''JKS'' then Inl JksUnsupported
         else Inr (Pkcs12 (ss_keystore_file opts) (ss_keystore_password opts)))
      else Inr (SelfSigned (ss_key_password opts)))"

record tls_setup =
  ts_certificates :: "string list"
  ts_next_protos :: "string list"

definition new_tls :: "(cert_source \<Rightarrow> string + string list) \<Rightarrow> ssl_settings \<Rightarrow> tls_error + tls_setup" where
  "new_tls read opts =
     ebind (cert_source_of opts) (\<lambda>src.
       case read src of
         Inl e \<Rightarrow> Inl (SourceError e)
       | Inr chain \<Rightarrow> Inr \<lparr>ts_certificates = chain, ts_next_protos = [''http/1.1'']\<rparr>)"

section \<open>The standalone program (main.go)\<close>

record host_env =
  he_load :: load_env
  he_exists :: "string \<Rightarrow> bool"
  he_file :: "string \<Rightarrow> file_result"
  he_users :: "string \<Rightarrow> dir_user list option"
  he_cert :: "cert_source \<Rightarrow> string + string list"
  he_listen :: "string \<Rightarrow> string + string"
  he_key :: nat

datatype start_error = StartConfig load_error | StartDirectory dir_error | StartTls tls_error | StartBind string

record standalone =
  so_config :: oauth2_config
  so_server :: server
  so_tls :: "tls_setup option"
  so_base :: string

definition directory_path :: "host_env \<Rightarrow> (string \<Rightarrow> string) \<Rightarrow> string" where
  "directory_path h getenv =
     (if getenv ''USER_DIRECTORY_PATH'' \<noteq> [] then getenv ''USER_DIRECTORY_PATH''
      else if he_exists h ''demo-users.json'' then ''demo-users.json'' else [])"

definition standalone_directory :: "host_env \<Rightarrow> (string \<Rightarrow> string) \<Rightarrow> start_error + directory option" where
  "standalone_directory h getenv =
     (let path = directory_path h getenv in
      if path = [] then Inr None
      else case load_directory (he_users h) (he_file h path) of
             Inl e \<Rightarrow> Inl (StartDirectory e)
           | Inr d \<Rightarrow> Inr (Some d))"

definition standalone_tls :: "host_env \<Rightarrow> oauth2_config \<Rightarrow> start_error + tls_setup option" where
  "standalone_tls h cfg =
     (case lc_ssl cfg of
        None \<Rightarrow> Inr None
      | Some ssl \<Rightarrow> (case new_tls (he_cert h) ssl of Inl e \<Rightarrow> Inl (StartTls e) | Inr t \<Rightarrow> Inr (Some t)))"

definition loopback_if_wildcard :: "string \<Rightarrow> string" where
  "loopback_if_wildcard host = (if host = [] \<or> host = ''0.0.0.0'' \<or> host = ''::'' then ''127.0.0.1'' else host)"

definition port_from :: "string \<Rightarrow> int option" where
  "port_from p = (if p = [] then None else atoi p)"

definition listen_port :: "(string \<Rightarrow> string) \<Rightarrow> int" where
  "listen_port getenv =
     (case port_from (getenv ''SERVER_PORT'') of
        Some v \<Rightarrow> v
      | None \<Rightarrow> (case port_from (getenv ''PORT'') of Some v \<Rightarrow> v | None \<Rightarrow> 8080))"

definition standalone_base :: "bool \<Rightarrow> string \<Rightarrow> string" where
  "standalone_base tls bound =
     (let (host, port) = (case net_split_host_port bound of Some hp \<Rightarrow> hp | None \<Rightarrow> ([], []))
      in (if tls then ''https'' else ''http'') @ ''://'' @ net_join_host_port (loopback_if_wildcard host) port)"

definition start_standalone :: "host_env \<Rightarrow> (string \<Rightarrow> string) \<Rightarrow> start_error + standalone" where
  "start_standalone h getenv =
     (case load_standalone (he_load h) getenv of
        Inl e \<Rightarrow> Inl (StartConfig e)
      | Inr cfg \<Rightarrow>
          ebind (standalone_directory h getenv) (\<lambda>dir. ebind (standalone_tls h cfg) (\<lambda>tls.
            case he_listen h (net_join_host_port (getenv ''SERVER_HOSTNAME'') (show_int (listen_port getenv))) of
              Inl e \<Rightarrow> Inl (StartBind e)
            | Inr bound \<Rightarrow>
                Inr \<lparr>so_config = cfg, so_server = new_server (server_config.truncate cfg) (lc_keys cfg) dir (he_key h), so_tls = tls,
                  so_base = standalone_base (tls \<noteq> None) bound\<rparr>)))"

definition is_alive :: server_handler where
  "is_alive r s = (Inr ((new_response 200)\<lparr>rs_body := ''alive and well''\<rparr>), s)"

definition standalone_router :: "server_env \<Rightarrow> server_config \<Rightarrow> server router" where
  "standalone_router env cfg = router_add_front ''GET'' ''/isalive'' is_alive (build_router env cfg)"

text \<open>One request of net/http.\<close>

definition serve_net :: "server router \<Rightarrow> net_request \<Rightarrow> server \<Rightarrow> response \<times> server" where
  "serve_net rt n s = (case from_http_request n of None \<Rightarrow> (new_response 413, s) | Some r \<Rightarrow> serve_http rt r s)"

section \<open>The library (mockoidc.go)\<close>

datatype library_config = NoConfig | WithoutProvider oauth2_config | WithProvider oauth2_config

definition library_settings :: "load_env \<Rightarrow> library_config \<Rightarrow> load_error + oauth2_config" where
  "library_settings env c =
     (case c of
        NoConfig \<Rightarrow> ebind (default_key_provider env ''RS256'') (\<lambda>keys. Inr (fallback_config keys False))
      | WithoutProvider cfg \<Rightarrow> ebind (default_key_provider env ''RS256'') (\<lambda>keys. Inr (cfg\<lparr>lc_keys := keys, lc_time := None\<rparr>))
      | WithProvider cfg \<Rightarrow> Inr cfg)"

definition library_new :: "host_env \<Rightarrow> library_config \<Rightarrow> start_error + (oauth2_config \<times> tls_setup option \<times> server)" where
  "library_new h c =
     (case library_settings (he_load h) c of
        Inl e \<Rightarrow> Inl (StartConfig e)
      | Inr cfg \<Rightarrow>
          ebind (standalone_tls h cfg) (\<lambda>tls.
            Inr (cfg, tls, new_server (server_config.truncate cfg) (lc_keys cfg) None (he_key h))))"

definition library_base :: "bool \<Rightarrow> string option \<Rightarrow> string" where
  "library_base tls bound =
     (case bound of
        None \<Rightarrow> []
      | Some addr \<Rightarrow>
          (if tls then ''https'' else ''http'') @ ''://'' @
          (case net_split_host_port addr of
             None \<Rightarrow> addr
           | Some (host, port) \<Rightarrow> net_join_host_port (loopback_if_wildcard host) port))"

definition library_issuer_url :: "string \<Rightarrow> string \<Rightarrow> string" where
  "library_issuer_url base iss_id = (if iss_id = [] then base else base @ ''/'' @ iss_id)"

definition library_callback :: "string \<Rightarrow> string \<Rightarrow> claims \<Rightarrow> int \<Rightarrow> callback" where
  "library_callback uuid iss_id claims expiry = DefaultCallback
     \<lparr>dc_issuer = iss_id,
      dc_subject = (if string_claim (claim_get claims ''sub'') \<noteq> [] then string_claim (claim_get claims ''sub'') else uuid),
      dc_type = ''JWT'', dc_audience = None, dc_claims = claims, dc_expiry = (if expiry = 0 then 3600 else expiry)\<rparr>"

definition library_issue_token :: "grant_env \<Rightarrow> string \<Rightarrow> string \<Rightarrow> claims \<Rightarrow> int \<Rightarrow> server \<Rightarrow> string \<times> server" where
  "library_issue_token env base iss_id claims expiry s =
     (case issue_token (gx_token env) (gx_access_jti env) (library_issuer_url base iss_id) iss_id
             (library_callback (gx_subject env) iss_id claims expiry) (os_keys s) of
        (tok, p) \<Rightarrow> (tok, s\<lparr>os_keys := p\<rparr>))"

end
