(* ===== verification/Server_Codes.thy ===== *)
theory Server_Codes
  imports Server_Runs
begin

text \<open>
  Authorization codes and refresh tokens of the built-in issuers along the runs of a server: what is spent or revoked stays so, as long
  as the random identifiers do not repeat.
\<close>

section \<open>Token requests\<close>

definition token_post :: "string \<Rightarrow> request \<Rightarrow> bool" where
  "token_post grant r \<longleftrightarrow> rq_method r = ''POST'' \<and> has_suffix (trim_slash (rq_path r)) ''token'' \<and> trim_space (form_param r ''grant_type'') = grant"

definition redeems_code :: "request \<Rightarrow> string \<Rightarrow> bool" where
  "redeems_code r c \<longleftrightarrow> token_post grant_authorization_code r \<and> (case parse_token_request r of Inr tr \<Rightarrow> tr_code tr = c | Inl _ \<Rightarrow> False)"

definition redeems_refresh :: "request \<Rightarrow> string \<Rightarrow> bool" where
  "redeems_refresh r t \<longleftrightarrow> token_post grant_refresh_token r \<and> (case parse_token_request r of Inr tr \<Rightarrow> tr_refresh_token tr = t | Inl _ \<Rightarrow> False)"

definition revokes :: "request \<Rightarrow> string \<Rightarrow> bool" where
  "revokes r t \<longleftrightarrow> rq_method r = ''POST'' \<and> has_suffix (trim_slash (rq_path r)) ''revoke'' \<and>
     form_param r ''token_type_hint'' = ''refresh_token'' \<and> form_param r ''token'' = t"

lemma trimmed_endpoints:
  "trim_slash ep_token = ''token''" "trim_slash ep_revoke = ''revoke''" "trim_slash ep_user_info = ''userinfo''"
  "trim_slash ep_introspect = ''introspect''" "trim_slash ep_authorization = ''authorize''" by code_simp+

lemma serve_token:
  assumes "front_free env cfg r" and "token_post grant r"
  shows "serve env cfg r s = http_answer r (token_endpoint env cfg r s)"
  using assms by (intro serve_endpoint[where ep = ep_token]) (simp_all add: token_post_def endpoint_routes_def trimmed_endpoints)

lemma grants_differ:
  "grant_authorization_code \<noteq> grant_token_exchange" "grant_refresh_token \<noteq> grant_token_exchange" "grant_client_credentials \<noteq> grant_token_exchange"
  "grant_authorization_code \<noteq> grant_refresh_token" "grant_client_credentials \<noteq> grant_refresh_token" "grant_refresh_token \<noteq> []" "grant_authorization_code \<noteq> []"
  "grant_client_credentials \<noteq> []"
  by (simp_all add: grant_defs)

lemma handler_of_grant:
  "map_of grant_handlers grant_authorization_code = Some code_grant" "map_of grant_handlers grant_refresh_token = Some refresh_grant"
  "map_of grant_handlers grant_client_credentials = Some client_credentials_grant"
  by (simp_all add: grant_handlers_def grant_defs)

lemma token_endpoint_code:
  assumes "token_post grant_authorization_code r" and "parse_token_request r = Inr tr"
  shows "token_endpoint env cfg r s =
    (case callback_from_queue_or_default env cfg (issuer_id r) s of
       (cb, s') \<Rightarrow> code_grant (se_grant env) tr (issuer_url r) (issuer_id r) cb s')"
  using assms by (simp add: token_endpoint_def token_post_def token_dispatch_def grants_differ handler_of_grant Let_def)

lemma token_endpoint_refresh:
  assumes "token_post grant_refresh_token r" and "parse_token_request r = Inr tr"
  shows "token_endpoint env cfg r s =
    refresh_grant (se_grant env) tr (issuer_url r) (issuer_id r) (new_default_callback (gx_subject (se_grant env)) (issuer_id r)) s"
  using assms by (simp add: token_endpoint_def token_post_def token_dispatch_def grants_differ handler_of_grant Let_def)

lemma http_answer_error [simp]:
  "rs_status (fst (http_answer r (oauth_panic (invalid_grant_error d) s))) = 400" "snd (http_answer r x) = snd x"
  by (simp_all add: http_answer_def oauth_panic_def panic_to_error_def error_response_def error_defs cors_interceptor_def Let_def)

section \<open>Codes\<close>

lemma queue_poll_frame: "queue_poll iss_id s = (cb, s') \<Longrightarrow> s' = s\<lparr>os_queue := os_queue s'\<rparr>"
  by (auto simp: queue_poll_def split: list.splits if_splits)

lemma callback_frame: "callback_from_queue_or_default env cfg iss_id s = (cb, s') \<Longrightarrow> s' = s\<lparr>os_queue := os_queue s'\<rparr>"
  by (auto simp: callback_from_queue_or_default_def split: prod.splits option.splits dest: queue_poll_frame)

lemma mint_steps_auth:
  "mint_id_token gx tr iss iss_id cb n u = (x, v) \<Longrightarrow> os_auth v = os_auth u"
  "mint_access_token gx tr iss iss_id cb n u = (x, v) \<Longrightarrow> os_auth v = os_auth u"
  "refresh_mint j cb n u = (x, v) \<Longrightarrow> os_auth v = os_auth u" "take_login c u = (l, v) \<Longrightarrow> os_auth v = os_auth u"
  using mint_frame(1,5)[of gx tr iss iss_id cb n u] by (auto simp: refresh_mint_def take_login_def Let_def)

lemma code_grant_spends: "map_get (os_auth (snd (code_grant gx tr iss iss_id cb s))) (tr_code tr) = None"
  by (auto simp: code_grant_def oauth_panic_def Let_def map_get_del split: option.split prod.split dest!: mint_steps_auth)

interpretation spent_code: run_kept sha1 cfg "\<lambda>s. map_get (os_auth s) c = None" "\<lambda>gx. gx_code gx \<noteq> c" for sha1 cfg c
  by unfold_locales (auto simp: map_get_del)

text \<open>C1: builtin_code_single_use. Whatever a first redemption of an authorization code is answered, a wrong PKCE verifier included,
  every later one is answered 400 and changes nothing but the callback queue, after any run that does not draw
  the code again.\<close>

theorem builtin_code_single_use:
  assumes "front_free env cfg r" and "redeems_code r c"
    and "server_run sha1 cfg (\<lambda>gx. gx_code gx \<noteq> c) (snd (serve env cfg r s)) s'"
    and "front_free env' cfg r'" and "redeems_code r' c"
  shows "rs_status (fst (serve env' cfg r' s')) = 400 \<and>
    snd (serve env' cfg r' s') = s'\<lparr>os_queue := os_queue (snd (serve env' cfg r' s'))\<rparr>"
proof -
  obtain tr where tr: "token_post grant_authorization_code r" "parse_token_request r = Inr tr" "tr_code tr = c"
    using assms(2) by (auto simp: redeems_code_def split: sum.splits)
  obtain tr' where tr': "token_post grant_authorization_code r'" "parse_token_request r' = Inr tr'" "tr_code tr' = c"
    using assms(5) by (auto simp: redeems_code_def split: sum.splits)
  have "map_get (os_auth (snd (serve env cfg r s))) c = None"
    using code_grant_spends tr(3) by (auto simp: serve_token[OF assms(1) tr(1)] token_endpoint_code[OF tr(1,2)] split: prod.split)
  then have none: "map_get (os_auth s') c = None" by (rule spent_code.run_kept[OF assms(3)])
  obtain cb u where cb: "callback_from_queue_or_default env' cfg (issuer_id r') s' = (cb, u)" by fastforce
  note q = callback_frame[OF cb]
  have "map_get (os_auth u) (tr_code tr') = None" using none tr'(3) by (subst q) simp
  then have g: "token_endpoint env' cfg r' s' = oauth_panic (invalid_grant_error ''unknown or already-used authorization code'') u"
    by (simp add: token_endpoint_code[OF tr'(1,2)] cb code_grant_def)
  have "snd (serve env' cfg r' s') = u"
    by (simp only: serve_token[OF assms(4) tr'(1)] g http_answer_error) (simp add: oauth_panic_def)
  then show ?thesis using q by (simp add: serve_token[OF assms(4) tr'(1)] g)
qed

lemma sample_requests:
  "front_free env plain_server_config code_request" "redeems_code code_request ''code-1''"
  "front_free env plain_server_config refresh_request" "redeems_refresh refresh_request ''r-1''"
  "front_free env plain_server_config revoke_request" "revokes revoke_request ''r-1''"
  unfolding front_free_plain[OF no_entra] by code_simp+

theorem builtin_code_single_use_witness:
  "rs_status (fst (serve plain_server_env plain_server_config code_request
     (snd (serve plain_server_env plain_server_config code_request (plain_server\<lparr>os_auth := [(''code-1'', sample_auth_request)]\<rparr>))))) = 400"
  using builtin_code_single_use[OF sample_requests(1,2) run_start sample_requests(1,2)] by blast

section \<open>Refresh tokens\<close>

lemma mint_steps_refresh:
  "mint_id_token gx tr iss iss_id cb n u = (x, v) \<Longrightarrow> os_refresh v = os_refresh u"
  "mint_access_token gx tr iss iss_id cb n u = (x, v) \<Longrightarrow> os_refresh v = os_refresh u"
  using mint_frame(3,7)[of gx tr iss iss_id cb n u] by auto

lemma poll_refresh: "queue_poll iss_id s = (cb, s') \<Longrightarrow> os_refresh s' = os_refresh s \<and> os_rotate s' = os_rotate s"
  by (auto simp: queue_poll_def split: list.splits if_splits)

text \<open>What a refresh does to the stored tokens: with rotation the old one is replaced, else nothing changes.\<close>

lemma refresh_grant_stored:
  assumes "refresh_grant gx tr iss iss_id cb s = (Inr resp, s')"
  shows "if os_rotate s
    then \<exists>c. os_refresh s' = map_put (gx_refresh_jti gx) c (map_del (tr_refresh_token tr) (os_refresh s)) \<and>
           (\<forall>c'. map_get (os_refresh s) (tr_refresh_token tr) = Some c' \<longrightarrow> c = c')
    else os_refresh s' = os_refresh s"
  using assms
  by (auto simp: refresh_grant_def refresh_rotate_def refresh_mint_def refresh_remove_def refresh_get_def oauth_panic_def Let_def
      split: option.splits prod.splits if_splits dest!: mint_steps_refresh poll_refresh)

interpretation spent_refresh: run_kept sha1 cfg "\<lambda>s. map_get (os_refresh s) t = None"
  "\<lambda>gx. t \<noteq> gx_refresh_jti gx \<and> (\<forall>n. t \<noteq> plain_jwt (gx_refresh_jti gx) n)" for sha1 cfg t
  by unfold_locales auto

lemma serve_revoke:
  assumes "front_free env cfg r" and "revokes r t"
  shows "serve env cfg r s = http_answer r (Inr (new_response 200), refresh_remove t s)"
proof -
  have "serve env cfg r s = http_answer r (revoke_token r s)"
    using assms by (intro serve_endpoint[where ep = ep_revoke]) (simp_all add: revokes_def endpoint_routes_def trimmed_endpoints)
  then show ?thesis using assms(2) by (simp add: revoke_token_def revokes_def)
qed

text \<open>C15: spent_refresh_token_rejected. A refresh token that was revoked, or used while tokens rotate, is rejected with status 400 from
  then on whatever requests come in between, and the rejected request changes nothing. Two things are needed: the random source does not issue the same
  token again, and the library has queued no callback for the issuer at the head of the queue (a queued callback takes priority
  over the store, so a request with an unknown or revoked token is then answered with it).\<close>

theorem spent_refresh_token_rejected:
  assumes "front_free env cfg r"
    and "revokes r t \<or> redeems_refresh r t \<and> os_rotate s \<and> rs_status (fst (serve env cfg r s)) = 200 \<and> gx_refresh_jti (se_grant env) \<noteq> t"
    and "server_run sha1 cfg (\<lambda>gx. t \<noteq> gx_refresh_jti gx \<and> (\<forall>n. t \<noteq> plain_jwt (gx_refresh_jti gx) n)) (snd (serve env cfg r s)) s'"
    and "front_free env' cfg r'" and "redeems_refresh r' t"
    and "\<forall>cb\<in>set (take 1 (os_queue s')). cb_issuer cb \<noteq> issuer_id r'"
  shows "rs_status (fst (serve env' cfg r' s')) = 400 \<and> snd (serve env' cfg r' s') = s'"
proof -
  have "map_get (os_refresh (snd (serve env cfg r s))) t = None"
  proof (cases "revokes r t")
    case True
    then show ?thesis by (simp add: serve_revoke[OF assms(1)] refresh_remove_def)
  next
    case False
    then obtain tr where tr: "token_post grant_refresh_token r" "parse_token_request r = Inr tr" "tr_refresh_token tr = t"
      and o: "os_rotate s" "rs_status (fst (serve env cfg r s)) = 200" "gx_refresh_jti (se_grant env) \<noteq> t"
      using assms(2) by (auto simp: redeems_refresh_def split: sum.splits)
    let ?g = "token_endpoint env cfg r s"
    have e: "serve env cfg r s = http_answer r ?g" by (rule serve_token[OF assms(1) tr(1)])
    have "\<exists>resp. fst ?g = Inr resp"
    proof (cases "fst ?g")
      case (Inl p)
      then have "\<exists>d. p = PanicOAuth (invalid_grant_error d)"
        by (auto simp: token_endpoint_refresh[OF tr(1,2)] refresh_grant_def oauth_panic_def Let_def split: option.splits prod.splits if_splits)
      then have "rs_status (fst (http_answer r ?g)) = 400"
        using Inl http_answer_error(1)[of r _ "snd ?g"] by (auto simp: oauth_panic_def http_answer_def)
      then show ?thesis using o(2) e by simp
    qed simp
    then obtain resp where "?g = (Inr resp, snd ?g)" by (metis prod.collapse)
    then have "refresh_grant (se_grant env) tr (issuer_url r) (issuer_id r) (new_default_callback (gx_subject (se_grant env)) (issuer_id r)) s = (Inr resp, snd ?g)"
      by (simp add: token_endpoint_refresh[OF tr(1,2)])
    from refresh_grant_stored[OF this] show ?thesis using o(1,3) tr(3) by (auto simp: e)
  qed
  then have none: "map_get (os_refresh s') t = None" by (rule spent_refresh.run_kept[OF assms(3)])
  obtain tr where tr: "token_post grant_refresh_token r'" "parse_token_request r' = Inr tr" "tr_refresh_token tr = t"
    using assms(5) by (auto simp: redeems_refresh_def split: sum.splits)
  have "queue_poll (issuer_id r') s' = (None, s')" using assms(6) by (cases "os_queue s'") (simp_all add: queue_poll_def)
  then have "token_endpoint env' cfg r' s' = oauth_panic (invalid_grant_error ''unknown refresh_token'') s'"
    by (simp add: token_endpoint_refresh[OF tr(1,2)] refresh_grant_def refresh_get_def tr(3) none)
  then show ?thesis by (simp add: serve_token[OF assms(4) tr(1)]) (simp add: oauth_panic_def)
qed

theorem spent_refresh_token_rejected_witness:
  "rs_status (fst (serve plain_server_env plain_server_config refresh_request
     (snd (serve plain_server_env plain_server_config revoke_request (plain_server\<lparr>os_refresh := [(''r-1'', new_default_callback ''u'' ''default'')]\<rparr>))))) = 400"
proof -
  let ?s = "plain_server\<lparr>os_refresh := [(''r-1'', new_default_callback ''u'' ''default'')]\<rparr>"
  let ?s' = "snd (serve plain_server_env plain_server_config revoke_request ?s)"
  have q: "\<forall>cb\<in>set (take 1 (os_queue ?s')). cb_issuer cb \<noteq> issuer_id refresh_request"
    by (simp add: serve_revoke[OF sample_requests(5,6)] refresh_remove_def plain_server_def new_server_def)
  show ?thesis
    using spent_refresh_token_rejected[OF sample_requests(5) disjI1[OF sample_requests(6)] run_start sample_requests(3,4) q] by blast
qed

end
