(* ===== verification/Server_Tokens.thy ===== *)
theory Server_Tokens
  imports Server_Codes
begin

text \<open>
  From sign-in to the endpoints that read tokens back: the account that signs in is the subject user
  information reports, user information and introspection agree, and how a client gets tokens without
  authenticating.
\<close>

section \<open>User information and introspection\<close>

lemma serve_user_info:
  assumes "front_free env cfg r" and "rq_method r = ''GET''" and "has_suffix (trim_slash (rq_path r)) ''userinfo''"
  shows "serve env cfg r s = http_answer r (user_info_endpoint (se_grant env) r s)"
  using assms by (intro serve_endpoint[where ep = ep_user_info]) (simp_all add: endpoint_routes_def trimmed_endpoints)

lemma serve_introspect:
  assumes "front_free env cfg r" and "rq_method r = ''POST''" and "has_suffix (trim_slash (rq_path r)) ''introspect''"
  shows "serve env cfg r s = http_answer r (introspect (se_grant env) r s)"
  using assms by (intro serve_endpoint[where ep = ep_introspect]) (simp_all add: endpoint_routes_def trimmed_endpoints)

lemma verify_empty: "verify_token te iss [] p = (Inl (invalid_token_error ''signed JWT expected''), p)"
proof -
  have "str_split [] ''.'' = [[]]" by code_simp
  then show ?thesis by (simp add: verify_token_def)
qed

lemma user_info_cases:
  assumes "str_split (header_get r ''Authorization'') ''Bearer '' = [x, tok]"
  shows "user_info_endpoint gx r s =
    (case verify_token (gx_token gx) (issuer_url r) tok (os_keys s) of
       (Inl e, p) \<Rightarrow> oauth_panic (invalid_token_error (oe_desc e)) (s\<lparr>os_keys := p\<rparr>)
     | (Inr c, p) \<Rightarrow> (Inr (json_response (VObj (sort_fields c))), s\<lparr>os_keys := p\<rparr>))"
  using assms by (simp add: user_info_endpoint_def verify_bearer_token_def check_token_def split: prod.split sum.split)

lemma introspect_cases:
  assumes "introspect_authenticated r"
  shows "introspect gx r s =
    (case verify_token (gx_token gx) (issuer_url r) (form_param r ''token'') (os_keys s) of
       (Inl e, p) \<Rightarrow> (Inr (json_response (VObj [(''active'', VBool False)])), s\<lparr>os_keys := p\<rparr>)
     | (Inr c, p) \<Rightarrow> (Inr (json_response (VObj (introspect_fields c))), s\<lparr>os_keys := p\<rparr>))"
  using assms by (auto simp: introspect_def introspect_claims_def check_token_def verify_empty Let_def split: prod.split sum.split)

text \<open>C25: introspection_agrees. For one token at one issuer, user information answers 200 with the claims exactly when introspection
  reports the token active, and then both report the same claims; otherwise it answers 401. Both leave the server in
  the same state.\<close>

theorem introspection_agrees:
  assumes "front_free env cfg r" and "rq_method r = ''GET''" and "has_suffix (trim_slash (rq_path r)) ''userinfo''"
    and "str_split (header_get r ''Authorization'') ''Bearer '' = [x, tok]"
    and "front_free env cfg q" and "rq_method q = ''POST''" and "has_suffix (trim_slash (rq_path q)) ''introspect''"
    and "introspect_authenticated q" and "form_param q ''token'' = tok" and "issuer_url q = issuer_url r"
  shows "(case fst (verify_token (gx_token (se_grant env)) (issuer_url r) tok (os_keys s)) of
      Inr c \<Rightarrow> fst (serve env cfg r s) = cors_interceptor r (json_response (VObj (sort_fields c))) \<and>
        fst (serve env cfg q s) = cors_interceptor q (json_response (VObj (introspect_fields c)))
    | Inl e \<Rightarrow> rs_status (fst (serve env cfg r s)) = 401 \<and>
        fst (serve env cfg q s) = cors_interceptor q (json_response (VObj [(''active'', VBool False)]))) \<and>
    snd (serve env cfg r s) = snd (serve env cfg q s)"
  unfolding serve_user_info[OF assms(1-3)] serve_introspect[OF assms(5-7)] user_info_cases[OF assms(4)] introspect_cases[OF assms(8)] assms(9,10)
  by (simp add: http_answer_def oauth_panic_def panic_to_error_def error_response_def error_defs cors_interceptor_def Let_def
      split: prod.split sum.split)

definition bearer_request :: "string \<Rightarrow> request" where
  "bearer_request tok = get_from ''/default/userinfo'' (''Bearer '' @ tok)"

definition introspect_request :: request where
  "introspect_request = (post_to ''/default/introspect'' ''token=t1'')\<lparr>rq_header := [(''Host'', ''app.test''), (''Authorization'', ''Basic eDp5'')]\<rparr>"

theorem introspection_agrees_witness:
  "rs_status (fst (serve plain_server_env plain_server_config (bearer_request ''t1'') plain_server)) = 401 \<and>
   fst (serve plain_server_env plain_server_config introspect_request plain_server) =
     cors_interceptor introspect_request (json_response (VObj [(''active'', VBool False)]))"
proof -
  have f: "front_free plain_server_env plain_server_config (bearer_request ''t1'')" "front_free plain_server_env plain_server_config introspect_request"
    unfolding front_free_plain[OF no_entra] by code_simp+
  have b: "rq_method (bearer_request ''t1'') = ''GET''" "has_suffix (trim_slash (rq_path (bearer_request ''t1''))) ''userinfo''"
    "str_split (header_get (bearer_request ''t1'') ''Authorization'') ''Bearer '' = [[], ''t1'']" by code_simp+
  have i: "rq_method introspect_request = ''POST''" "has_suffix (trim_slash (rq_path introspect_request)) ''introspect''"
    "introspect_authenticated introspect_request" "form_param introspect_request ''token'' = ''t1''"
    "issuer_url introspect_request = issuer_url (bearer_request ''t1'')" by code_simp+
  have "str_split ''t1'' ''.'' = [''t1'']" by code_simp
  then have "fst (verify_token te iss ''t1'' p) = Inl (invalid_token_error ''signed JWT expected'')" for te iss p
    by (simp add: verify_token_def)
  then show ?thesis using introspection_agrees[OF f(1) b f(2) i, of plain_server] by simp
qed

section \<open>Sign-in\<close>

lemma serve_sign_in:
  assumes "front_free env cfg r" and "rq_method r = ''POST''" and "has_suffix (trim_slash (rq_path r)) ''authorize''"
    and "parse_auth_request (query_values r) = Inr ar" and "implies_code_flow ar" and "login_submit r = Inr lg"
  shows "snd (serve env cfg r s) =
    s\<lparr>os_auth := map_put (gx_code (se_grant env)) ar (os_auth s), os_login := map_put (gx_code (se_grant env)) lg (os_login s)\<rparr>"
proof -
  have e: "serve env cfg r s = http_answer r (authorize_submit env r s)"
    using assms(1-3) by (intro serve_endpoint[where ep = ep_authorization]) (simp_all add: endpoint_routes_def trimmed_endpoints)
  have "snd (authorize_submit env r s) =
      s\<lparr>os_auth := map_put (gx_code (se_grant env)) ar (os_auth s), os_login := map_put (gx_code (se_grant env)) lg (os_login s)\<rparr>"
    using assms(4-6) by (simp add: authorize_submit_def authentication_success_def authorization_code_response_def oauth_panic_def split: sum.split)
  then show ?thesis by (simp add: e)
qed

text \<open>The redemption of a code with a login.\<close>

lemma code_grant_tokens:
  fixes s :: server
  assumes "map_get (os_auth s) (tr_code tr) = Some ar" and "map_get (os_login s) (tr_code tr) = Some lg"
    and "verify_pkce (te_crypto (gx_token gx)) ar tr = None"
  obtains p1 p2 idt tok rt s' where
    "p1 = snd (signing_key_of (te_private (gx_token gx)) iss_id (os_keys s))"
    "access_token (gx_token gx) (gx_access_jti gx) tr iss iss_id (LoginCallback lg cb) (ar_nonce ar) p1 = (tok, p2)"
    "code_grant gx tr iss iss_id cb s = (Inr (token_response ''Bearer'' [] idt tok rt (expires_in gx idt) (tr_scope tr)), s')"
    "os_keys s' = p2"
proof -
  let ?s2 = "s\<lparr>os_auth := map_del (tr_code tr) (os_auth s), os_login := map_del (tr_code tr) (os_login s)\<rparr>"
  obtain idt s3 where i: "mint_id_token gx tr iss iss_id (LoginCallback lg cb) (ar_nonce ar) ?s2 = (idt, s3)" by fastforce
  obtain tok s4 where a: "mint_access_token gx tr iss iss_id (LoginCallback lg cb) (ar_nonce ar) s3 = (tok, s4)" by fastforce
  obtain rt s5 where f: "refresh_mint (gx_refresh_jti gx) (LoginCallback lg cb) (ar_nonce ar) s4 = (rt, s5)" by fastforce
  have p1: "os_keys s3 = snd (signing_key_of (te_private (gx_token gx)) iss_id (os_keys s))"
    using mint_keys(1)[of gx tr iss iss_id "LoginCallback lg cb" "ar_nonce ar" ?s2] i by simp
  have t: "access_token (gx_token gx) (gx_access_jti gx) tr iss iss_id (LoginCallback lg cb) (ar_nonce ar) (os_keys s3) = (tok, os_keys s4)"
    using a by (auto simp: mint_access_token_def split: prod.splits)
  have g: "code_grant gx tr iss iss_id cb s = (Inr (token_response ''Bearer'' [] idt tok rt (expires_in gx idt) (tr_scope tr)), s5)"
    using assms i a f by (simp add: code_grant_def take_login_def login_callback_def Let_def)
  have "os_keys s5 = os_keys s4" using f by (auto simp: refresh_mint_def Let_def)
  then show ?thesis using that[OF p1 t g] by simp
qed

text \<open>No callback of the library or of the configuration serves the issuer.\<close>

definition default_issuer :: "server_config \<Rightarrow> string \<Rightarrow> server \<Rightarrow> bool" where
  "default_issuer cfg iss_id s \<longleftrightarrow> list_all (\<lambda>cb. cb_issuer cb \<noteq> iss_id) (take 1 (os_queue s)) \<and>
     list_all (\<lambda>m. mc_issuer m \<noteq> iss_id) (sg_callbacks cfg)"

lemma default_issuer_callback:
  "default_issuer cfg iss_id s \<Longrightarrow>
   callback_from_queue_or_default env cfg iss_id s = (new_default_callback (gx_subject (se_grant env)) iss_id, s)"
proof -
  assume d: "default_issuer cfg iss_id s"
  then have "queue_poll iss_id s = (None, s)" by (cases "os_queue s") (simp_all add: default_issuer_def queue_poll_def)
  moreover have "find (\<lambda>m. mc_issuer m = iss_id) (sg_callbacks cfg) = None"
    using d by (simp add: default_issuer_def find_None_iff_ball list_all_iff)
  ultimately show ?thesis by (simp add: callback_from_queue_or_default_def)
qed

text \<open>The claims of the access token of a login at a built-in issuer.\<close>

abbreviation login_token_claims :: "grant_env \<Rightarrow> token_request \<Rightarrow> string \<Rightarrow> string \<Rightarrow> login \<Rightarrow> string \<Rightarrow> claims" where
  "login_token_claims gx tr iss iss_id lg nonce \<equiv>
     access_claims (gx_token gx) (gx_access_jti gx) tr iss (LoginCallback lg (new_default_callback (gx_subject gx) iss_id)) nonce"

text \<open>C5: sign_in_reaches_userinfo. The account that signs in on the login page is the subject that user information reports: the code of
  the sign-in, redeemed at an issuer with the built-in callback and with the right PKCE verifier or none, gives an access token
  with which user information answers 200 until the token has expired for a minute, and the subject claim is the submitted
  username, as long as the claims typed in do not replace a protocol claim.\<close>

theorem sign_in_reaches_userinfo:
  fixes ra rt ru :: request and ea et eu :: server_env and sa :: server and tr :: token_request and cfg :: server_config
  defines "iss \<equiv> issuer_url rt" and "iss_id \<equiv> issuer_id rt" and "te \<equiv> gx_token (se_grant et)"
    and "s1 \<equiv> snd (serve ea cfg ra sa)" and "s2 \<equiv> snd (serve et cfg rt (snd (serve ea cfg ra sa)))"
  assumes sign_in: "front_free ea cfg ra" "rq_method ra = ''POST''" "has_suffix (trim_slash (rq_path ra)) ''authorize''"
      "parse_auth_request (query_values ra) = Inr ar" "implies_code_flow ar" "login_submit ra = Inr lg"
    and redeem: "front_free et cfg rt" "token_post grant_authorization_code rt" "parse_token_request rt = Inr tr"
      "tr_code tr = gx_code (se_grant ea)" "verify_pkce (te_crypto te) ar tr = None" "default_issuer cfg iss_id sa"
    and crypto: "provider_wf (os_keys sa)" "sound_signature (te_crypto te)" "\<And>rsa d. cr_sign (te_crypto te) rsa d \<noteq> []"
      "reads_jose te iss_id (kp_alg (os_keys sa))" "issuer_id_from_url iss = iss_id"
    and claims: "\<forall>n\<in>{''iss'', ''iat'', ''nbf'', ''exp'', ''sub''}.
        map_get (cb_add_claims (te_callback te) (LoginCallback lg (new_default_callback (gx_subject (se_grant et)) iss_id)) tr) n = None"
    and json: "cr_unmarshal (te_crypto te) (cr_marshal (te_crypto te) (login_token_claims (se_grant et) tr iss iss_id lg (ar_nonce ar))) = Some c"
      "json_keeps (login_token_claims (se_grant et) tr iss iss_id lg (ar_nonce ar)) c"
    and info: "front_free eu cfg ru" "rq_method ru = ''GET''" "has_suffix (trim_slash (rq_path ru)) ''userinfo''" "issuer_url ru = iss"
      "gx_token (se_grant eu) = te\<lparr>te_now := now\<rparr>" "unix_of (te_now te) \<le> unix_of now + 60" "unix_of now < unix_of (te_now te + seconds 3600) + 60"
  shows "\<exists>idt tok rt'. fst (serve et cfg rt s1) = cors_interceptor rt (token_response ''Bearer'' [] idt tok rt' (expires_in (se_grant et) idt) (tr_scope tr)) \<and>
    (\<forall>x. str_split (header_get ru ''Authorization'') ''Bearer '' = [x, tok] \<longrightarrow>
       fst (serve eu cfg ru s2) = cors_interceptor ru (json_response (VObj (sort_fields c))) \<and> string_claim (claim_get c ''sub'') = lg_username lg)"
proof -
  let ?gx = "se_grant et" and ?cb = "new_default_callback (gx_subject (se_grant et)) iss_id"
  have s1: "s1 = sa\<lparr>os_auth := map_put (gx_code (se_grant ea)) ar (os_auth sa), os_login := map_put (gx_code (se_grant ea)) lg (os_login sa)\<rparr>"
    unfolding s1_def by (rule serve_sign_in[OF sign_in])
  have stored: "map_get (os_auth s1) (tr_code tr) = Some ar" "map_get (os_login s1) (tr_code tr) = Some lg" "os_keys s1 = os_keys sa"
    by (simp_all add: s1 redeem(4))
  have cb: "callback_from_queue_or_default et cfg iss_id s1 = (?cb, s1)"
    by (rule default_issuer_callback) (use redeem(6) in \<open>simp add: default_issuer_def s1\<close>)
  obtain p1 p2 idt tok rt' s' where p1: "p1 = snd (signing_key_of (te_private te) iss_id (os_keys s1))"
    and tok: "access_token te (gx_access_jti ?gx) tr iss iss_id (LoginCallback lg ?cb) (ar_nonce ar) p1 = (tok, p2)"
    and g: "code_grant ?gx tr iss iss_id ?cb s1 = (Inr (token_response ''Bearer'' [] idt tok rt' (expires_in ?gx idt) (tr_scope tr)), s')"
    and k: "os_keys s' = p2"
    using code_grant_tokens[OF stored(1,2), of ?gx iss_id iss ?cb] redeem(5) unfolding te_def by metis
  have e: "serve et cfg rt s1 = http_answer rt (Inr (token_response ''Bearer'' [] idt tok rt' (expires_in ?gx idt) (tr_scope tr)), s')"
    using g cb by (simp add: serve_token[OF redeem(1,2)] token_endpoint_code[OF redeem(2,3)] iss_def iss_id_def)
  have s2: "s2 = s'" using e by (simp add: s2_def s1_def)
  obtain key where key: "signing_key_of (te_private te) iss_id (os_keys sa) = (key, p1)" using p1 stored(3) by (metis prod.collapse)
  have wf: "provider_wf p1" "kp_alg p1 = kp_alg (os_keys sa)"
    using signing_key_wf(1)[OF crypto(1) key] signing_key_wf(5)[OF crypto(1) key] by simp_all
  have jose: "reads_jose te iss_id (kp_alg p1)" using crypto(4) wf(2) by simp
  have ty: "cb_type_header (te_callback te) (LoginCallback lg ?cb) tr = ''JWT''" "cb_expiry (LoginCallback lg ?cb) = 3600"
    "cb_subject (te_callback te) (LoginCallback lg ?cb) tr = lg_username lg"
    by (simp_all add: new_default_callback_def with_subject_def)
  have cl: "\<forall>n\<in>{''iss'', ''iat'', ''nbf'', ''exp''}. map_get (cb_add_claims (te_callback te) (LoginCallback lg ?cb) tr) n = None"
    and sub: "map_get (cb_add_claims (te_callback te) (LoginCallback lg ?cb) tr) ''sub'' = None" using claims by simp_all
  have v: "verify_token (te\<lparr>te_now := now\<rparr>) iss tok p2 = (Inr c, p2)"
    using token_window[OF wf(1) crypto(2,3) jose ty(1) cl crypto(5) json[folded te_def] tok, of p2] info(6,7) ty(2) by simp
  have u: "fst (serve eu cfg ru s2) = cors_interceptor ru (json_response (VObj (sort_fields c)))"
    if "str_split (header_get ru ''Authorization'') ''Bearer '' = [x, tok]" for x
    using v by (simp add: serve_user_info[OF info(1-3)] user_info_cases[OF that] info(4,5) s2 k http_answer_def)
  have "map_get (login_token_claims ?gx tr iss iss_id lg (ar_nonce ar)) ''sub'' = Some (VStr (lg_username lg))"
    using sub ty(3) by (simp add: access_claims_def default_claims_def put_claims_absent te_def Let_def) (simp add: map_get_def map_put_def)
  then have "claim_string c ''sub'' = lg_username lg"
    using json(2) by (simp add: json_keeps_def claim_string_def claim_get_def string_claim_def)
  then show ?thesis using e u by (auto simp: http_answer_def claim_string_def)
qed

definition sign_in_request :: request where
  "sign_in_request = (post_to ''/default/authorize'' ''username=alice'')\<lparr>rq_raw_query :=
     ''response_type=code&client_id=app&redirect_uri=http%3A%2F%2Fapp.test%2Fcb&scope=openid''\<rparr>"

definition alice_redeem :: request where
  "alice_redeem = post_to ''/default/token'' ''grant_type=authorization_code&code=code-2&client_id=app''"

definition alice_claims :: claims where
  "alice_claims = [(''sub'', VStr ''alice''), (''aud'', VStr ''default''), (''iss'', VStr ''http://app.test/default''), (''iat'', VInt 0), (''nbf'', VInt 0),
     (''exp'', VInt 3600), (''jti'', VStr ''j''), (''tid'', VStr ''default''), (''azp'', VStr ''app'')]"

definition alice_env :: server_env where
  "alice_env = plain_server_env\<lparr>se_grant := plain_grant_env\<lparr>gx_token := sample_token\<lparr>te_crypto := toy_crypto ''default'' alice_claims\<rparr>\<rparr>\<rparr>"

definition alice_login :: login where "alice_login = \<lparr>lg_username = ''alice'', lg_claims = []\<rparr>"

definition alice_auth :: auth_request where
  "alice_auth = \<lparr>ar_response_type = [''code''], ar_client_id = ''app'', ar_redirect_uri = ''http://app.test/cb'', ar_scope = [''openid''],
     ar_state = [], ar_nonce = [], ar_code_challenge = [], ar_code_challenge_method = [], ar_prompt = [], ar_response_mode = []\<rparr>"

definition alice_token_request :: token_request where
  "alice_token_request = empty_token_request\<lparr>tr_grant_type := grant_authorization_code, tr_client_id := ''app'', tr_code := ''code-2'',
     tr_form := [(''grant_type'', [''authorization_code'']), (''code'', [''code-2'']), (''client_id'', [''app''])]\<rparr>"

lemma alice_parsed:
  "parse_auth_request (query_values sign_in_request) = Inr alice_auth" "login_submit sign_in_request = Inr alice_login"
  "parse_token_request alice_redeem = Inr alice_token_request" "token_post grant_authorization_code alice_redeem"
  "issuer_url alice_redeem = ''http://app.test/default''" "issuer_id alice_redeem = ''default''"
  "issuer_id_from_url ''http://app.test/default'' = ''default''"
  by code_simp+

lemma alice_token_claims:
  "login_token_claims (se_grant alice_env) alice_token_request ''http://app.test/default'' ''default'' alice_login [] = alice_claims"
  by (simp add: access_claims_def default_claims_def new_default_callback_def default_add_claims_def default_audience_def with_subject_def
      merge_login_claims_def alice_login_def alice_token_request_def empty_token_request_def alice_env_def sample_token_def sample_token_env_def
      plain_grant_env_def put_claims_def map_put_def audience_claim_def alice_claims_def unix_of_def seconds_def nanos_def wrap64_def Let_def grant_defs)

theorem sign_in_reaches_userinfo_witness:
  "\<exists>idt tok rt. fst (serve alice_env plain_server_config alice_redeem (snd (serve alice_env plain_server_config sign_in_request plain_server))) =
     cors_interceptor alice_redeem (token_response ''Bearer'' [] idt tok rt (expires_in (se_grant alice_env) idt) [])"
proof -
  have f: "front_free alice_env plain_server_config sign_in_request" "front_free alice_env plain_server_config alice_redeem"
    "front_free alice_env plain_server_config (bearer_request [])"
    unfolding front_free_plain[OF no_entra] by code_simp+
  have p: "rq_method sign_in_request = ''POST''" "has_suffix (trim_slash (rq_path sign_in_request)) ''authorize''" "implies_code_flow alice_auth"
    "rq_method (bearer_request []) = ''GET''" "has_suffix (trim_slash (rq_path (bearer_request []))) ''userinfo''"
    "issuer_url (bearer_request []) = issuer_url alice_redeem" by code_simp+
  let ?te = "gx_token (se_grant alice_env)"
  have te: "te_crypto ?te = toy_crypto ''default'' alice_claims" "te_now ?te = 0" "?te\<lparr>te_now := 0\<rparr> = ?te"
    by (simp_all add: alice_env_def sample_token_def sample_token_env_def)
  have c: "tr_code alice_token_request = gx_code (se_grant alice_env)" "verify_pkce (te_crypto ?te) alice_auth alice_token_request = None"
    "default_issuer plain_server_config (issuer_id alice_redeem) plain_server" "provider_wf (os_keys plain_server)"
    "sound_signature (te_crypto ?te)" "cr_sign (te_crypto ?te) rsa d \<noteq> []" "reads_jose ?te (issuer_id alice_redeem) (kp_alg (os_keys plain_server))" for rsa d
    using sample_token_env_ok(1)
    by (simp_all add: alice_token_request_def alice_env_def verify_pkce_def empty_token_request_def default_issuer_def plain_server_def new_server_def
        plain_server_config_def toy_crypto_sound reads_jose_def sample_token_def sample_token_env_def pool_provider_def alice_parsed(6))
      (simp_all add: toy_crypto_def)
  have cl: "\<forall>n\<in>{''iss'', ''iat'', ''nbf'', ''exp'', ''sub''}. map_get (cb_add_claims (te_callback ?te)
      (LoginCallback alice_login (new_default_callback (gx_subject (se_grant alice_env)) (issuer_id alice_redeem))) alice_token_request) n = None"
    by (simp add: new_default_callback_def default_add_claims_def with_subject_def merge_login_claims_def alice_login_def alice_token_request_def
        empty_token_request_def map_put_def map_get_def grant_defs Let_def)
  have n: "ar_nonce alice_auth = []" "tr_scope alice_token_request = []"
    by (simp_all add: alice_auth_def alice_token_request_def empty_token_request_def)
  have cc: "login_token_claims (se_grant alice_env) alice_token_request (issuer_url alice_redeem) (issuer_id alice_redeem) alice_login (ar_nonce alice_auth) = alice_claims"
    unfolding alice_parsed(5,6) n by (rule alice_token_claims)
  have j: "cr_unmarshal (te_crypto ?te) (cr_marshal (te_crypto ?te) (login_token_claims (se_grant alice_env) alice_token_request
        (issuer_url alice_redeem) (issuer_id alice_redeem) alice_login (ar_nonce alice_auth))) = Some alice_claims"
    "json_keeps (login_token_claims (se_grant alice_env) alice_token_request (issuer_url alice_redeem) (issuer_id alice_redeem) alice_login (ar_nonce alice_auth)) alice_claims"
    unfolding cc te(1) toy_crypto_sound(2) by (simp_all add: json_keeps_def)
  have i: "issuer_id_from_url (issuer_url alice_redeem) = issuer_id alice_redeem" unfolding alice_parsed(5,6) by (rule alice_parsed(7))
  have w: "unix_of (te_now ?te) \<le> unix_of 0 + 60" "unix_of 0 < unix_of (te_now ?te + seconds 3600) + 60"
    unfolding te(2) by (simp_all add: unix_of_def seconds_def nanos_def wrap64_def)
  show ?thesis
    using sign_in_reaches_userinfo[OF f(1) p(1,2) alice_parsed(1) p(3) alice_parsed(2) f(2) alice_parsed(4,3) c(1-6,7) i cl j f(3) p(4-6) te(3)[symmetric] w]
    unfolding n by blast
qed

section \<open>Client authentication\<close>

lemma client_credentials_answer:
  assumes "front_free env cfg r" and "token_post grant_client_credentials r" and "parse_token_request r = Inr tr"
  shows "rs_status (fst (serve env cfg r s)) = 200"
    "\<exists>tok. fst (serve env cfg r s) = cors_interceptor r (token_response ''Bearer'' [] [] tok [] (expires_in (se_grant env) tok) (tr_scope tr))"
proof -
  have "token_endpoint env cfg r s =
      (case callback_from_queue_or_default env cfg (issuer_id r) s of
         (cb, s') \<Rightarrow> client_credentials_grant (se_grant env) tr (issuer_url r) (issuer_id r) cb s')"
    using assms(2,3) by (simp add: token_endpoint_def token_post_def token_dispatch_def grants_differ handler_of_grant Let_def)
  then show t: "\<exists>tok. fst (serve env cfg r s) = cors_interceptor r (token_response ''Bearer'' [] [] tok [] (expires_in (se_grant env) tok) (tr_scope tr))"
    by (auto simp: serve_token[OF assms(1,2)] http_answer_def client_credentials_grant_def Let_def split: prod.split)
  then show "rs_status (fst (serve env cfg r s)) = 200" by (auto simp: token_response_def json_response_def cors_interceptor_def new_response_def Let_def)
qed

lemma client_credentials_refused:
  assumes "front_free env cfg r" and "token_post grant_client_credentials r" and "parse_token_request r = Inl e" "oe_status e = 401"
  shows "rs_status (fst (serve env cfg r s)) = 401"
proof -
  have "token_endpoint env cfg r s = oauth_panic e s"
    using assms(2,3) by (simp add: token_endpoint_def token_post_def grants_differ Let_def)
  then show ?thesis using assms(4)
    by (simp add: serve_token[OF assms(1,2)] oauth_panic_def http_answer_def panic_to_error_def error_response_def cors_interceptor_def Let_def)
qed

text \<open>C40: client_credentials_unauthenticated. The last grant_type of a token request picks the grant, the first one decides whether the client must
  authenticate. Let the last name the client credentials grant. If the first does too, the request is answered 401 without client
  authentication and 200 with it. If the first names the authorization code grant, with any code and a client identifier, then the
  request is answered 200 with an access token for that client, although nothing authenticates it.\<close>

theorem client_credentials_unauthenticated:
  assumes "front_free env cfg r" and "token_post grant_client_credentials r"
    and "resolve_client_auth r (request_form r) = (client, m)"
    and "trim_space (values_get (request_form r) ''grant_type'') = first"
  shows "(first = grant_client_credentials \<longrightarrow> rs_status (fst (serve env cfg r s)) = (if m = AuthNone then 401 else 200)) \<and>
    (first = grant_authorization_code \<longrightarrow> client \<noteq> [] \<longrightarrow> values_get (request_form r) ''code'' \<noteq> [] \<longrightarrow>
       rs_status (fst (serve env cfg r s)) = 200 \<and>
       (\<exists>tr tok. parse_token_request r = Inr tr \<and> tr_client_id tr = client \<and> tr_auth_method tr = m \<and>
          fst (serve env cfg r s) = cors_interceptor r (token_response ''Bearer'' [] [] tok [] (expires_in (se_grant env) tok) (tr_scope tr))))"
proof (intro conjI impI)
  note parse = parse_token_request_def assms(3,4) client_auth_error_def fill_token_request_def require_param_def empty_token_request_def grant_defs
  note answer = client_credentials_answer[OF assms(1,2)]
  show "rs_status (fst (serve env cfg r s)) = (if m = AuthNone then 401 else 200)" if "first = grant_client_credentials"
  proof (cases "m = AuthNone")
    case True
    then have "\<exists>e. parse_token_request r = Inl e \<and> oe_status e = 401" using that by (simp add: parse error_defs Let_def)
    then show ?thesis using client_credentials_refused[OF assms(1,2)] True by auto
  next
    case False
    then have "\<exists>tr. parse_token_request r = Inr tr" using that by (simp add: parse Let_def)
    then show ?thesis using answer(1) False by auto
  qed
  assume c: "first = grant_authorization_code" "client \<noteq> []" "values_get (request_form r) ''code'' \<noteq> []"
  then obtain tr where tr: "parse_token_request r = Inr tr" "tr_client_id tr = client" "tr_auth_method tr = m" by (simp add: parse Let_def)
  then show "rs_status (fst (serve env cfg r s)) = 200" using answer(1) by blast
  show "\<exists>tr tok. parse_token_request r = Inr tr \<and> tr_client_id tr = client \<and> tr_auth_method tr = m \<and>
          fst (serve env cfg r s) = cors_interceptor r (token_response ''Bearer'' [] [] tok [] (expires_in (se_grant env) tok) (tr_scope tr))"
    using answer(2)[OF tr(1)] tr by blast
qed

definition single_grant_request :: request where
  "single_grant_request = post_to ''/default/token'' ''grant_type=client_credentials&code=x&client_id=victim''"

definition repeated_grant_request :: request where
  "repeated_grant_request = post_to ''/default/token'' ''grant_type=authorization_code&grant_type=client_credentials&code=x&client_id=victim''"

text \<open>The same form without and with the extra parameter.\<close>

theorem client_credentials_unauthenticated_witness:
  "rs_status (fst (serve plain_server_env plain_server_config single_grant_request plain_server)) = 401 \<and>
   rs_status (fst (serve plain_server_env plain_server_config repeated_grant_request plain_server)) = 200"
proof
  have f: "front_free plain_server_env plain_server_config single_grant_request" "token_post grant_client_credentials single_grant_request"
    "resolve_client_auth single_grant_request (request_form single_grant_request) = (''victim'', AuthNone)"
    "trim_space (values_get (request_form single_grant_request) ''grant_type'') = grant_client_credentials"
    unfolding front_free_plain[OF no_entra] by code_simp+
  show "rs_status (fst (serve plain_server_env plain_server_config single_grant_request plain_server)) = 401"
    using client_credentials_unauthenticated[OF f, of plain_server] by simp
  have g: "front_free plain_server_env plain_server_config repeated_grant_request" "token_post grant_client_credentials repeated_grant_request"
    "resolve_client_auth repeated_grant_request (request_form repeated_grant_request) = (''victim'', AuthNone)"
    "trim_space (values_get (request_form repeated_grant_request) ''grant_type'') = grant_authorization_code"
    "values_get (request_form repeated_grant_request) ''code'' \<noteq> []"
    unfolding front_free_plain[OF no_entra] by code_simp+
  show "rs_status (fst (serve plain_server_env plain_server_config repeated_grant_request plain_server)) = 200"
    using client_credentials_unauthenticated[OF g(1-4), of plain_server] g(5) by simp
qed

end
