(* ===== verification/Debugger_Laws.thy ===== *)
theory Debugger_Laws
  imports Debugger Server_Paths
begin

text \<open>
  The debugger: its session survives the way through the encrypted cookie, and what it
  redirects to and sends is derived from the request and from its own address only.
\<close>

section \<open>The cookie\<close>

lemma b64_encode_chars: "set (b64_encode s) \<subseteq> set b64_url"
proof -
  have l: "length b64_url = 64" by code_simp
  have "b64_url ! bits_nat g \<in> set b64_url" if "length g = 6" for g
    using bits_nat_less[of g] that l by (intro nth_mem) simp
  then show ?thesis using length_chunk by (fastforce simp: b64_encode_def)
qed

lemma b64_url_plain: "c \<in> set b64_url \<Longrightarrow> c \<noteq> CHR '';'' \<and> c \<noteq> CHR ''.'' \<and> c \<noteq> CHR ''='' \<and> \<not> is_space c"
proof -
  have "list_all (\<lambda>c. c \<noteq> CHR '';'' \<and> c \<noteq> CHR ''.'' \<and> c \<noteq> CHR ''='' \<and> \<not> is_space c) b64_url" by code_simp
  then show "c \<in> set b64_url \<Longrightarrow> c \<noteq> CHR '';'' \<and> c \<noteq> CHR ''.'' \<and> c \<noteq> CHR ''='' \<and> \<not> is_space c"
    unfolding list_all_iff by blast
qed

lemma b64_encode_plain: "c \<in> set (b64_encode s) \<Longrightarrow> c \<noteq> CHR '';'' \<and> c \<noteq> CHR ''.'' \<and> c \<noteq> CHR ''='' \<and> \<not> is_space c"
  using b64_encode_chars b64_url_plain by blast

lemma session_encrypt_chars: "c \<in> set (session_encrypt env m) \<Longrightarrow> c = CHR ''.'' \<or> c \<noteq> CHR '';'' \<and> c \<noteq> CHR ''='' \<and> \<not> is_space c"
  using b64_encode_plain by (auto simp: session_encrypt_def jwe_header_def Let_def)

lemma session_encrypt_nonempty: "session_encrypt env m \<noteq> []"
  by (simp add: session_encrypt_def Let_def)

lemma session_decrypt_encrypt:
  assumes "dx_open env iv jwe_header (dx_seal env' iv jwe_header m) = Some m" and "dx_iv env' = iv"
  shows "session_decrypt env (session_encrypt env' m) = Some m"
proof -
  let ?s = "dx_seal env' iv jwe_header m"
  let ?n = "length ?s - 16"
  have "str_split (session_encrypt env' m) ''.'' = [jwe_header, [], b64_encode iv, b64_encode (take ?n ?s), b64_encode (drop ?n ?s)]"
    unfolding session_encrypt_def Let_def assms(2)
    by (rule str_split_join) (auto simp: jwe_header_def dest: b64_encode_plain)
  then show ?thesis using assms(1) by (simp add: session_decrypt_def b64_decode_encode)
qed

lemma cookie_of_session:
  assumes "header_values r ''Cookie'' = [takeWhile (\<lambda>c. c \<noteq> CHR '';'') (session_cookie env session)]"
  shows "cookie_value r session_cookie_name = session_encrypt env (dx_marshal env session)"
proof -
  let ?j = "session_encrypt env (dx_marshal env session)"
  let ?pair = "session_cookie_name @ CHR ''='' # ?j"
  have n: "list_all (\<lambda>c. c \<noteq> CHR '';'' \<and> c \<noteq> CHR ''='' \<and> \<not> is_space c) session_cookie_name" by code_simp
  have p: "list_all (\<lambda>c. c \<noteq> CHR '';'' \<and> \<not> is_space c) ?pair"
  proof -
    have "\<not> is_space (CHR ''='')" "\<not> is_space (CHR ''.'')" by code_simp+
    then show ?thesis using n session_encrypt_chars[of _ env "dx_marshal env session"] by (auto simp: list_all_iff)
  qed
  have c: "session_cookie env session = ?pair @ ''; HttpOnly; Path=/''" by (simp add: session_cookie_def)
  have "takeWhile (\<lambda>c. c \<noteq> CHR '';'') (?pair @ ''; HttpOnly; Path=/'') = ?pair @ takeWhile (\<lambda>c. c \<noteq> CHR '';'') ''; HttpOnly; Path=/''"
    using p by (intro takeWhile_append2) (auto simp: list_all_iff)
  moreover have "takeWhile (\<lambda>c. c \<noteq> CHR '';'') ''; HttpOnly; Path=/'' = []" by simp
  ultimately have "takeWhile (\<lambda>c. c \<noteq> CHR '';'') (session_cookie env session) = ?pair" by (simp only: c append_Nil2)
  then have h: "header_values r ''Cookie'' = [?pair]" using assms by simp
  have "CHR '';'' \<notin> set ?pair" using p unfolding list_all_iff by blast
  moreover have "trim_space ?pair = ?pair"
    unfolding trim_space_def by (rule trim_by_id, rule list.pred_mono_strong[OF p]) simp
  moreover have "str_cut ?pair ''='' = (session_cookie_name, ?j, True)"
    using n by (intro str_cut_char) (auto simp: list_all_iff)
  ultimately show ?thesis by (simp add: cookie_value_def h str_split_char_none)
qed

text \<open>C36: debugger_session_roundtrip. The session a page of the debugger stores comes back unchanged with the cookie the browser returns
  (the part before the attributes), under any later nonce; for a handler whose key does not open the cookie there is
  no session.\<close>

theorem debugger_session_roundtrip:
  assumes "\<And>iv ad m. dx_open env iv ad (dx_seal env iv ad m) = Some m" and "dx_unmarshal env (dx_marshal env session) = Some session"
    and "header_values r ''Cookie'' = [takeWhile (\<lambda>c. c \<noteq> CHR '';'') (session_cookie env session)]"
  shows "load_session (env\<lparr>dx_iv := iv\<rparr>) r = session \<and> load_session (env\<lparr>dx_open := \<lambda>_ _ _. None\<rparr>) r = []"
proof -
  note c = cookie_of_session[OF assms(3)]
  have "session_decrypt (env\<lparr>dx_iv := iv\<rparr>) (session_encrypt env m) = Some m" for m
    by (rule session_decrypt_encrypt[where iv = "dx_iv env"]) (simp_all add: assms(1))
  then have "load_session (env\<lparr>dx_iv := iv\<rparr>) r = session"
    using assms(2) by (simp add: load_session_def c session_encrypt_nonempty)
  moreover have "session_decrypt (env\<lparr>dx_open := \<lambda>_ _ _. None\<rparr>) j = None" for j
    by (auto simp: session_decrypt_def split: list.split option.split)
  then have "load_session (env\<lparr>dx_open := \<lambda>_ _ _. None\<rparr>) r = []"
    by (simp add: load_session_def Let_def)
  ultimately show ?thesis ..
qed

definition toy_session :: session where "toy_session = [(''client_id'', ''debugger'')]"

definition toy_debug_env :: "unit debug_env" where
  "toy_debug_env = \<lparr>dx_own = ''127.0.0.1:8080'', dx_iv = ''nonce'', dx_seal = (\<lambda>iv ad m. iv @ m @ replicate 16 CHR ''t''),
     dx_open = (\<lambda>iv ad c. Some (drop (length iv) (take (length c - 16) c))), dx_marshal = (\<lambda>_. ''{}''), dx_unmarshal = (\<lambda>_. Some toy_session),
     dx_error_page = (\<lambda>_. None), dx_form_page = (\<lambda>_. Inr []), dx_callback_page = (\<lambda>_. Inr []), dx_client = (\<lambda>_ s. (Inr [], s))\<rparr>"

definition toy_cookie_request :: request where
  "toy_cookie_request = \<lparr>rq_method = ''GET'', rq_header = [(''Host'', ''app.test''), (''cookie'', takeWhile (\<lambda>c. c \<noteq> CHR '';'') (session_cookie toy_debug_env toy_session))],
     rq_path = ''/default/debugger'', rq_raw_query = [], rq_scheme = ''http'', rq_body = []\<rparr>"

theorem debugger_session_roundtrip_witness:
  "load_session (toy_debug_env\<lparr>dx_iv := ''later''\<rparr>) toy_cookie_request = toy_session"
proof -
  have "dx_open toy_debug_env iv ad (dx_seal toy_debug_env iv ad m) = Some m" for iv ad m by (simp add: toy_debug_env_def)
  moreover have "dx_unmarshal toy_debug_env (dx_marshal toy_debug_env toy_session) = Some toy_session" by (simp add: toy_debug_env_def)
  moreover have "header_values toy_cookie_request ''Cookie'' = [takeWhile (\<lambda>c. c \<noteq> CHR '';'') (session_cookie toy_debug_env toy_session)]"
    by code_simp
  ultimately show ?thesis using debugger_session_roundtrip[of toy_debug_env toy_session toy_cookie_request "''later''"] by simp
qed

section \<open>Redirect and exchange\<close>

lemma values_all_parse:
  "values_all (parse_query s) k =
     concat (map (\<lambda>p. case read_pair p of Some (k', x) \<Rightarrow> if k' = k then [x] else [] | None \<Rightarrow> []) (str_split s ''&''))"
proof -
  have "values_all (fold (\<lambda>p v. case read_pair p of None \<Rightarrow> v | Some (k, x) \<Rightarrow> values_add k x v) ps v) k =
      values_all v k @ concat (map (\<lambda>p. case read_pair p of Some (k', x) \<Rightarrow> if k' = k then [x] else [] | None \<Rightarrow> []) ps)" for ps v
    by (induction ps arbitrary: v) (auto split: option.split)
  then show ?thesis by (simp add: parse_query_def values_all_def[of "[]"])
qed

lemma kept_pair_key:
  assumes "p \<in> set (submitted_pairs r)" and "read_pair p = Some (k, x)"
  shows "k \<notin> set internal_fields"
  using assms by (auto simp: submitted_pairs_def pair_key_def read_pair_def decode_form_value_def split: if_splits prod.splits option.splits)

lemma submit_query:
  assumes "k \<in> set internal_fields"
  shows "values_all (parse_query (str_join (submitted_pairs r @ [''redirect_uri='' @ query_escape cb]) ''&'')) k = (if k = ''redirect_uri'' then [cb] else [])"
proof -
  let ?last = "''redirect_uri='' @ query_escape cb"
  have k: "plain_key ''redirect_uri''" by code_simp
  note l = read_plain_pair[OF k, of cb]
  have "str_split (str_join (submitted_pairs r @ [?last]) ''&'') ''&'' = submitted_pairs r @ [?last]"
  proof (rule str_split_join)
    show "\<forall>x\<in>set (submitted_pairs r @ [?last]). CHR ''&'' \<notin> set x"
      using l str_split_parts[of _ "rq_body r" "CHR ''&''"] by (auto simp: submitted_pairs_def)
  qed simp
  moreover have "concat (map (\<lambda>p. case read_pair p of Some (k', x) \<Rightarrow> if k' = k then [x] else [] | None \<Rightarrow> []) (submitted_pairs r)) = []"
    using kept_pair_key[of _ r] assms by (auto split: option.split)
  ultimately show ?thesis using l by (auto simp: values_all_parse)
qed

text \<open>C35: debugger_exchange_confined. Whatever the submitted form holds, the debugger redirects to the authorization endpoint of its own request, whose only
  redirect URI is its own callback and which carries no client secret; and whatever session and code the
  callback gets, the only request it sends goes to the token endpoint of its issuer at the address the server
  listens on, and nothing else changes the server.\<close>

theorem debugger_exchange_confined:
  "(\<exists>cookie query. debug_submit env r s = (Inr (set_header ''Set-Cookie'' cookie (redirect_response (endpoint_url r ep_authorization @ ''?'' @ query))), s) \<and>
      values_all (parse_query query) ''redirect_uri'' = [endpoint_url r ep_debugger_callback] \<and> values_all (parse_query query) ''client_secret'' = []) \<and>
   (snd (debug_callback env r s) = s \<or>
    (\<exists>q. snd (debug_callback env r s) = snd (dx_client env q s) \<and> hq_url q = own_url (dx_own env) (token_endpoint_path (issuer_id r)) \<and>
       has_prefix (hq_body q) (''grant_type=authorization_code&code='' @ callback_code r)))"
proof
  show "\<exists>cookie query. debug_submit env r s = (Inr (set_header ''Set-Cookie'' cookie (redirect_response (endpoint_url r ep_authorization @ ''?'' @ query))), s) \<and>
      values_all (parse_query query) ''redirect_uri'' = [endpoint_url r ep_debugger_callback] \<and> values_all (parse_query query) ''client_secret'' = []"
  proof (unfold debug_submit_def Let_def, intro exI conjI, rule refl)
    let ?q = "str_join (submitted_pairs r @ [''redirect_uri='' @ query_escape (endpoint_url r ep_debugger_callback)]) ''&''"
    have i: "''redirect_uri'' \<in> set internal_fields" "''client_secret'' \<in> set internal_fields" by (simp_all add: internal_fields_def)
    show "values_all (parse_query ?q) ''redirect_uri'' = [endpoint_url r ep_debugger_callback]" using submit_query[OF i(1)] by simp
    show "values_all (parse_query ?q) ''client_secret'' = []" using submit_query[OF i(2)] by simp
  qed
  have q: "hq_url q = own_url (dx_own env) (token_endpoint_path (issuer_id r)) \<and> has_prefix (hq_body q) (''grant_type=authorization_code&code='' @ callback_code r)"
    if "callback_exchange env r = Inr (q, dump)" for q dump
    using that by (auto simp: callback_exchange_def exchange_request_def callback_body_def has_prefix_iff err_simps Let_def split: option.splits if_splits)
  show "snd (debug_callback env r s) = s \<or>
    (\<exists>q. snd (debug_callback env r s) = snd (dx_client env q s) \<and> hq_url q = own_url (dx_own env) (token_endpoint_path (issuer_id r)) \<and>
       has_prefix (hq_body q) (''grant_type=authorization_code&code='' @ callback_code r))"
  proof (cases "callback_exchange env r")
    case (Inr x)
    obtain q' dump where x: "x = (q', dump)" by fastforce
    have "snd (debug_callback env r s) = snd (dx_client env q' s)"
      by (simp add: debug_callback_def Inr x split: prod.split sum.split)
    then show ?thesis using q[of q' dump] Inr x by blast
  qed (simp add: debug_callback_def)
qed

end
