(* ===== verification/Startup_Laws.thy ===== *)
theory Startup_Laws
  imports Startup Server_Tokens Entra_Handler_Laws Debugger_Laws
begin

text \<open>
  From the configuration to the running server: what the server of a loaded configuration guarantees in
  every state, its own address, the limits of a request and the tokens of the library.
\<close>

section \<open>Loaded configurations\<close>

definition callback_valid :: "mapping_callback \<Rightarrow> bool" where
  "callback_valid m \<longleftrightarrow> mc_issuer m \<noteq> [] \<and> mc_expiry m \<noteq> 0 \<and> (\<forall>x\<in>set (mc_mappings m). mp_type x \<noteq> [])"

definition config_loaded :: "oauth2_config \<Rightarrow> bool" where
  "config_loaded cfg \<longleftrightarrow> kp_keys (lc_keys cfg) = [] \<and> algorithm_family (kp_alg (lc_keys cfg)) = Some (kp_family (lc_keys cfg)) \<and>
     (\<forall>m\<in>set (sg_callbacks cfg). callback_valid m) \<and> (\<forall>c. sg_entra cfg = Some c \<longrightarrow> config_wf c)"

lemma new_provider_fields:
  "new_key_provider initial alg = Some p \<Longrightarrow>
     kp_keys p = [] \<and> kp_alg p = alg \<and> kp_initial p = initial \<and> algorithm_family alg = Some (kp_family p)"
  by (auto simp: new_key_provider_def)

lemma set_provider_loaded:
  assumes "provider_from_set env keyset alg = Inr p"
  shows "kp_keys p = [] \<and> algorithm_family (kp_alg p) = Some (kp_family p)"
  using assms by (auto simp: provider_from_set_def dest!: new_provider_fields split: option.splits sum.splits if_splits)

lemma config_provider_loaded:
  assumes "config_key_provider env raw = Inr p"
  shows "kp_keys p = [] \<and> algorithm_family (kp_alg p) = Some (kp_family p)"
  using assms set_provider_loaded
  by (auto simp: config_key_provider_def configured_key_provider_def default_key_provider_def key_provider_from_initial_def
      dest!: new_provider_fields split: option.splits sum.splits if_splits)

lemma callback_of_valid: "callback_of cb = Inr m \<Longrightarrow> callback_valid m"
  by (auto simp: callback_of_def callback_valid_def mapping_of_def split: if_splits)

lemma callbacks_of_valid: "callbacks_of cbs = Inr ms \<Longrightarrow> \<forall>m\<in>set ms. callback_valid m"
  by (induction cbs arbitrary: ms) (auto simp: err_simps callback_of_valid)

lemma entra_config_valid: "parse_entra_config env data = Inr c \<Longrightarrow> config_wf c"
  by (auto simp: parse_entra_config_def intro: normalize_sound_aux split: sum.splits)

lemma parsed_config_loaded:
  assumes "parse_config_json env data = Inr cfg"
  shows "config_loaded cfg"
  using assms config_provider_loaded callbacks_of_valid entra_config_valid
  by (auto simp: parse_config_json_def config_loaded_def config_entra_def err_simps split: sum.splits if_splits)

lemma entra_override_loaded: "config_loaded cfg \<Longrightarrow> config_wf c \<Longrightarrow> config_loaded (cfg\<lparr>sg_entra := Some c\<rparr>)"
  by (simp add: config_loaded_def)

lemma base_config_loaded:
  assumes "load_base_standalone env getenv = Inr cfg"
  shows "config_loaded cfg"
proof -
  have "config_loaded (fallback_config keys b)" if "default_key_provider env alg = Inr keys" for keys alg b
    using that set_provider_loaded
    by (auto simp: default_key_provider_def config_loaded_def fallback_config_def split: option.splits)
  then show ?thesis
    using assms parsed_config_loaded by (auto simp: load_base_standalone_def err_simps Let_def split: if_splits sum.splits)
qed

lemma standalone_config_loaded:
  assumes "load_standalone env getenv = Inr cfg"
  shows "config_loaded cfg"
  using assms base_config_loaded entra_override_loaded entra_config_valid
  by (auto simp: load_standalone_def err_simps Let_def split: if_splits sum.splits)

section \<open>Every state of a started server\<close>

interpretation algorithm_kept: run_kept sha1 cfg "\<lambda>s. provider_wf (os_keys s) \<and> kp_alg (os_keys s) = alg" E for sha1 cfg E alg
  by unfold_locales (auto dest: signing_key_wf(1,5)[OF _ surjective_pairing])

lemma startedE:
  assumes "start_standalone h getenv = Inr so"
  obtains cfg dir tls bound where "load_standalone (he_load h) getenv = Inr cfg" "standalone_tls h cfg = Inr tls"
    "he_listen h (net_join_host_port (getenv ''SERVER_HOSTNAME'') (show_int (listen_port getenv))) = Inr bound"
    "so = \<lparr>so_config = cfg, so_server = new_server (server_config.truncate cfg) (lc_keys cfg) dir (he_key h), so_tls = tls,
       so_base = standalone_base (tls \<noteq> None) bound\<rparr>"
proof -
  obtain cfg where c: "load_standalone (he_load h) getenv = Inr cfg" using assms by (auto simp: start_standalone_def split: sum.splits)
  obtain dir tls where d: "standalone_directory h getenv = Inr dir" "standalone_tls h cfg = Inr tls"
    using assms c by (auto simp: start_standalone_def err_simps)
  show ?thesis
    using assms c d that
    by (cases "he_listen h (net_join_host_port (getenv ''SERVER_HOSTNAME'') (show_int (listen_port getenv)))")
      (auto simp: start_standalone_def err_simps)
qed

text \<open>C4: started_server_sound. Whatever environment the standalone program starts from, if it starts then in every state of its server tokens are
  signed with the supported algorithm of the configuration, each issuer's key under its own name; every configured callback names
  an issuer, an expiry and token types; and a configured Entra mode serves a valid directory with a
  well-formed key set.\<close>

theorem started_server_sound:
  assumes "start_standalone h getenv = Inr so"
    and "server_run (lf_sha1 (he_load h)) (server_config.truncate (so_config so)) E (so_server so) s"
  shows "provider_wf (os_keys s) \<and> kp_alg (os_keys s) = kp_alg (lc_keys (so_config so)) \<and>
    algorithm_family (kp_alg (os_keys s)) \<noteq> None \<and> (\<forall>m\<in>set (sg_callbacks (so_config so)). callback_valid m) \<and>
    (case sg_entra (so_config so) of
       None \<Rightarrow> sv_entra s = None \<and> \<not> sv_entra_on s
     | Some seed \<Rightarrow> \<exists>e. sv_entra s = Some e \<and> st_seed (es_store e) = seed \<and> config_wf (conf e) \<and> key_set_wf (es_keys e))"
proof -
  let ?cfg = "server_config.truncate (so_config so)"
  obtain dir where so: "load_standalone (he_load h) getenv = Inr (so_config so)"
      "so_server so = new_server ?cfg (lc_keys (so_config so)) dir (he_key h)"
    using startedE[OF assms(1)] by (metis standalone.simps(1,2))
  note l = standalone_config_loaded[OF so(1), unfolded config_loaded_def]
  have wf: "provider_wf (lc_keys (so_config so))" using l by (simp add: provider_wf_def)
  have k: "provider_wf (os_keys s) \<and> kp_alg (os_keys s) = kp_alg (lc_keys (so_config so))"
    using algorithm_kept.run_kept[OF assms(2), of "kp_alg (lc_keys (so_config so))"] wf by (simp add: so(2) new_server_def)
  have "server_inv (lf_sha1 (he_load h)) ?cfg s"
    using server_invariant.run_kept[OF assms(2)] server_inv_new[OF wf] by (simp add: so(2))
  moreover have "st_seed (es_store e) = seed \<and> config_wf (conf e) \<and> key_set_wf (es_keys e)"
    if "config_wf seed" "entra_reach (lf_sha1 (he_load h)) seed e" for seed e
    using entra_reach_inv[OF that] store_reach_seed by (fastforce simp: entra_inv_def)
  ultimately show ?thesis
    using k l by (auto simp: server_inv_def server_config.truncate_def split: option.splits)
qed

text \<open>A program that finds no configuration but an Entra file, and listens on every interface.\<close>

definition plain_load_env :: load_env where
  "plain_load_env = \<lparr>lf_config = (\<lambda>_. Inl ''bad''), lf_ssl = (\<lambda>_. None), lf_entra = (\<lambda>_. Inr sample_config), lf_time = (\<lambda>_. Inl ''bad''),
     lf_read = (\<lambda>p. if p = ''entra.json'' then Inr ''{}'' else Inl ''missing''),
     lf_jwk = \<lparr>je_raw = (\<lambda>_. None), je_set = (\<lambda>_. Some []), je_unmarshal = (\<lambda>_. None), je_rsa = (\<lambda>_ _ _ _ _. None), je_ec = (\<lambda>_ _ _ _. 0)\<rparr>,
     lf_rsa_set = ''{}'', lf_ec_set = ''{}'', lf_sha1 = sample_sha1\<rparr>"

definition plain_host :: host_env where
  "plain_host = \<lparr>he_load = plain_load_env, he_exists = (\<lambda>_. False), he_file = (\<lambda>_. FileMissing), he_users = (\<lambda>_. None),
     he_cert = (\<lambda>_. Inr []), he_listen = (\<lambda>_. Inr (net_join_host_port ''::'' ''8080'')), he_key = 9\<rparr>"

definition plain_getenv :: "string \<Rightarrow> string" where
  "plain_getenv n = (if n = ''ENTRA_CONFIG_PATH'' then ''entra.json'' else [])"

lemma plain_config: "\<exists>cfg c. load_standalone plain_load_env plain_getenv = Inr cfg \<and> sg_entra cfg = Some c \<and> lc_ssl cfg = None"
proof -
  have "is_ok (normalize sample_sha1 sample_config)" by code_simp
  then obtain c where c: "normalize sample_sha1 sample_config = Inr c" by (auto simp: is_ok_iff)
  have "parse_private_key_set (lf_jwk plain_load_env) ''{}'' = Inr []" "algorithm_family ''RS256'' = Some ''RSA''" by code_simp+
  then show ?thesis
    using c by (simp add: load_standalone_def load_base_standalone_def plain_load_env_def plain_getenv_def default_key_provider_def
        provider_from_set_def new_key_provider_def parse_entra_config_def fallback_config_def err_simps)
qed

lemma plain_started:
  "\<exists>so c. start_standalone plain_host plain_getenv = Inr so \<and> sg_entra (so_config so) = Some c \<and> so_tls so = None"
proof -
  obtain cfg c where c: "load_standalone plain_load_env plain_getenv = Inr cfg" "sg_entra cfg = Some c" "lc_ssl cfg = None"
    using plain_config by blast
  have "standalone_directory plain_host plain_getenv = Inr None"
    by (simp add: standalone_directory_def directory_path_def plain_getenv_def plain_host_def)
  moreover have "standalone_tls plain_host cfg = Inr None" by (simp add: standalone_tls_def c(3))
  moreover have "he_load plain_host = plain_load_env" "he_listen plain_host a = Inr (net_join_host_port ''::'' ''8080'')" for a
    by (simp_all add: plain_host_def)
  ultimately show ?thesis using c by (simp add: start_standalone_def err_simps)
qed

theorem started_server_sound_witness:
  "\<exists>so e. start_standalone plain_host plain_getenv = Inr so \<and>
     sv_entra (snd (serve plain_server_env (server_config.truncate (so_config so)) code_request (so_server so))) = Some e \<and> config_wf (conf e)"
proof -
  obtain so c where so: "start_standalone plain_host plain_getenv = Inr so" "sg_entra (so_config so) = Some c" using plain_started by blast
  have "lf_sha1 (he_load plain_host) = sample_sha1" by (simp add: plain_host_def plain_load_env_def)
  then have "server_run (lf_sha1 (he_load plain_host)) (server_config.truncate (so_config so)) (\<lambda>_. True) (so_server so)
      (snd (serve plain_server_env (server_config.truncate (so_config so)) code_request (so_server so)))"
    using sample_run[of "\<lambda>_. True"] by simp
  from started_server_sound[OF so(1) this] so show ?thesis by auto
qed

section \<open>The own address\<close>

definition host_char :: "char \<Rightarrow> bool" where
  "host_char c \<longleftrightarrow> c \<in> set ''0123456789abcdef.:''"

definition authority_char :: "char \<Rightarrow> bool" where
  "authority_char c \<longleftrightarrow> c \<in> set ''0123456789abcdef.:[]''"

lemma authority_char_plain:
  assumes "authority_char c"
  shows "c \<noteq> CHR ''#'' \<and> c \<noteq> CHR ''?'' \<and> c \<noteq> CHR ''%'' \<and> c \<noteq> CHR ''/'' \<and> c \<noteq> CHR ''@'' \<and> \<not> ctl_byte c"
proof -
  have "list_all (\<lambda>c. c \<noteq> CHR ''#'' \<and> c \<noteq> CHR ''?'' \<and> c \<noteq> CHR ''%'' \<and> c \<noteq> CHR ''/'' \<and> c \<noteq> CHR ''@'' \<and> \<not> ctl_byte c)
      ''0123456789abcdef.:[]''" by code_simp
  then show ?thesis using assms unfolding list_all_iff authority_char_def by blast
qed

lemma host_char_plain: "host_char c \<Longrightarrow> c \<noteq> CHR ''['' \<and> c \<noteq> CHR '']'' \<and> authority_char c"
  by (auto simp: host_char_def authority_char_def)

lemma digit_plain: "is_digit c \<Longrightarrow> c \<noteq> CHR '':'' \<and> host_char c"
  by (auto simp: host_char_def is_digit_def)

lemma takeWhile_stop: "c \<notin> set a \<Longrightarrow> takeWhile (\<lambda>d. d \<noteq> c) (a @ c # b) = a"
  by (induction a) auto

lemma last_index_end:
  assumes "c \<notin> set b"
  shows "last_index c (a @ c # b) = Some (length a)"
proof -
  have "takeWhile (\<lambda>d. d \<noteq> c) (rev b @ c # rev a) = rev b" using assms by (intro takeWhile_stop) simp
  then show ?thesis by (simp add: last_index_def)
qed

lemma split_join_host_port:
  assumes "list_all host_char host" and "list_all is_digit port"
  shows "net_split_host_port (net_join_host_port host port) = Some (host, port)"
proof -
  have n: "CHR '':'' \<notin> set port" "CHR ''['' \<notin> set port" "CHR '']'' \<notin> set port"
    using assms(2) digit_plain host_char_plain unfolding list_all_iff by blast+
  have h: "CHR ''['' \<notin> set host" "CHR '']'' \<notin> set host"
    using assms(1) host_char_plain unfolding list_all_iff by blast+
  show ?thesis
  proof (cases "CHR '':'' \<in> set host")
    case True
    have l: "last_index (CHR '':'') ((''['' @ host @ '']'') @ CHR '':'' # port) = Some (length host + 2)"
      using last_index_end[OF n(1), of "''['' @ host @ '']''"] by simp
    have t: "takeWhile (\<lambda>c. c \<noteq> CHR '']'') (''['' @ host @ '']:'' @ port) = ''['' @ host"
      using takeWhile_stop[OF h(2), of "'':'' @ port"] by simp
    show ?thesis using True l t n h by (simp add: net_join_host_port_def net_split_host_port_def has_prefix_def Let_def)
  next
    case False
    then show ?thesis using last_index_end[OF n(1), of host] n h
      by (cases host) (auto simp: net_join_host_port_def net_split_host_port_def has_prefix_def Let_def)
  qed
qed

lemma join_authority:
  assumes "list_all host_char host" and "list_all is_digit port"
  shows "list_all authority_char (net_join_host_port host port)"
proof -
  have "list_all authority_char host" "list_all authority_char port"
    using assms digit_plain host_char_plain unfolding list_all_iff by blast+
  moreover have "authority_char (CHR ''['')" "authority_char (CHR '']'')" "authority_char (CHR '':'')" by code_simp+
  ultimately show ?thesis by (simp add: net_join_host_port_def)
qed

lemma percent_ok_plain: "CHR ''%'' \<notin> set s \<Longrightarrow> percent_ok s"
  by (induction s) auto

text \<open>An origin of a plain host and port parses to itself.\<close>

lemma parse_origin:
  fixes tls :: bool
  assumes "list_all authority_char hp"
  defines "S \<equiv> if tls then ''https'' else ''http''"
  shows "url_parse (S @ ''://'' @ hp) = Some \<lparr>url_prefix = S @ ''://'' @ hp, url_query = [], url_fragment = []\<rparr>"
    "get_scheme (S @ ''://'' @ hp) = Some (S, ''//'' @ hp)"
proof -
  have n: "CHR ''#'' \<notin> set hp" "CHR ''?'' \<notin> set hp" "CHR ''%'' \<notin> set hp" "\<not> list_ex ctl_byte hp"
    using assms(1) authority_char_plain unfolding list_all_iff list_ex_iff by blast+
  show g: "get_scheme (S @ ''://'' @ hp) = Some (S, ''//'' @ hp)"
    by (cases tls) (simp_all add: S_def get_scheme_def scheme_letter_def is_digit_def)
  have "CHR ''#'' \<notin> set (S @ ''://'' @ hp)" using n(1) by (simp add: S_def)
  then have c: "str_cut (S @ ''://'' @ hp) ''#'' = (S @ ''://'' @ hp, [], False)" by (rule str_cut_char(2))
  have q: "str_cut (''//'' @ hp) ''?'' = (''//'' @ hp, [], False)" using n(2) by (intro str_cut_char(2)) simp
  have b: "\<not> list_ex ctl_byte (S @ ''://'' @ hp)" "to_lower S = S" "S \<noteq> []" "percent_ok (''//'' @ hp)"
    using n(3,4) percent_ok_plain[of "''//'' @ hp"] by (simp_all add: S_def ctl_byte_def to_lower_def)
  show "url_parse (S @ ''://'' @ hp) = Some \<lparr>url_prefix = S @ ''://'' @ hp, url_query = [], url_fragment = []\<rparr>"
    unfolding url_parse_def c g prod.case option.case q using b by (simp add: has_prefix_def)
qed

lemma origin_hostname:
  fixes tls :: bool
  assumes "list_all host_char host" and "list_all is_digit port"
  defines "S \<equiv> if tls then ''https'' else ''http''"
  shows "url_hostname \<lparr>url_prefix = S @ ''://'' @ net_join_host_port host port, url_query = [], url_fragment = []\<rparr> = host"
proof -
  let ?hp = "net_join_host_port host port"
  let ?u = "\<lparr>url_prefix = S @ ''://'' @ ?hp, url_query = [], url_fragment = []\<rparr>"
  note a = join_authority[OF assms(1,2)]
  have r: "url_rest ?u = ''//'' @ ?hp" using parse_origin(2)[OF a, of tls] by (simp add: url_rest_def S_def)
  have "\<forall>c\<in>set ?hp. c \<noteq> CHR ''/''" using a authority_char_plain unfolding list_all_iff by blast
  then have t: "takeWhile (\<lambda>c. c \<noteq> CHR ''/'') ?hp = ?hp" by simp
  have "CHR ''@'' \<notin> set ?hp" using a authority_char_plain unfolding list_all_iff by blast
  then have h: "url_host ?u = ?hp" unfolding url_host_def url_authority_def r
    by (simp add: t after_last_def has_prefix_def last_index_def)
  have p: "CHR '':'' \<notin> set port" using assms(2) digit_plain unfolding list_all_iff by blast
  have b: "\<not> has_prefix host ''[''" using assms(1) host_char_plain by (cases host) (auto simp: has_prefix_def)
  show ?thesis
  proof (cases "CHR '':'' \<in> set host")
    case True
    then show ?thesis using last_index_end[OF p, of "''['' @ host @ '']''"] assms(2)
      unfolding url_hostname_def h by (simp add: net_join_host_port_def split_host_port_def has_prefix_def has_suffix_iff)
  next
    case False
    then show ?thesis using last_index_end[OF p, of host] assms(2) b
      unfolding url_hostname_def h by (simp add: net_join_host_port_def split_host_port_def)
  qed
qed

text \<open>The debugger of a started server sends its token request to the address the server is bound to: the base
  address derived from the listener, loopback in place of a wildcard, comes through the URL handling of the
  debugger unchanged and with the path appended.\<close>

lemma debugger_reaches_own_server:
  assumes "start_standalone h getenv = Inr so"
    and "he_listen h (net_join_host_port (getenv ''SERVER_HOSTNAME'') (show_int (listen_port getenv))) = Inr (net_join_host_port host port)"
    and "list_all host_char host" and "list_all is_digit port"
  shows "so_base so = (if so_tls so \<noteq> None then ''https'' else ''http'') @ ''://'' @
      net_join_host_port (if host \<in> {[], ''0.0.0.0'', ''::''} then ''127.0.0.1'' else host) port \<and>
    own_url (so_base so) path = so_base so @ path"
proof -
  let ?l = "loopback_if_wildcard host"
  have l: "list_all host_char ?l" "?l \<notin> {''0.0.0.0'', ''::'', []}"
    using assms(3) by (simp_all add: loopback_if_wildcard_def host_char_def)
  have b: "so_base so = (if so_tls so \<noteq> None then ''https'' else ''http'') @ ''://'' @ net_join_host_port ?l port"
  proof -
    obtain cfg dir tls where o: "so = \<lparr>so_config = cfg, so_server = new_server (server_config.truncate cfg) (lc_keys cfg) dir (he_key h), so_tls = tls,
        so_base = standalone_base (tls \<noteq> None) (net_join_host_port host port)\<rparr>"
      using startedE[OF assms(1)] assms(2) by (metis Inr_inject)
    show ?thesis unfolding o standalone_base_def split_join_host_port[OF assms(3,4)] by simp
  qed
  have "own_url (so_base so) path = so_base so @ path"
    unfolding b own_url_def using parse_origin(1)[OF join_authority[OF l(1) assms(4)]] origin_hostname[OF l(1) assms(4)] l(2)
    by (simp add: url_string_def)
  then show ?thesis using b by (simp add: loopback_if_wildcard_def)
qed

section \<open>The limits of a request\<close>

text \<open>C28: request_limits. A request whose body has at most 2^20 bytes is served with the whole body, and GET requests to the liveness path are answered
  without touching the server; one byte more, or a body that cannot be read to its end, is answered 413 and changes nothing.\<close>

theorem request_limits:
  assumes "nr_body n = Some (bytes, fails)"
  shows "if length bytes \<le> 2 ^ 20 \<and> \<not> fails
    then \<exists>r. from_http_request n = Some r \<and> rq_body r = bytes \<and> rq_path r = nr_path n \<and> rq_method r = nr_method n \<and>
      serve_net (standalone_router env cfg) n s =
        (if nr_method n = ''GET'' \<and> has_suffix (trim_slash (nr_path n)) ''isalive''
         then (cors_interceptor r ((new_response 200)\<lparr>rs_body := ''alive and well''\<rparr>), s) else serve env cfg r s)
    else serve_net (standalone_router env cfg) n s = (new_response 413, s)"
proof (cases "length bytes \<le> 2 ^ 20 \<and> \<not> fails")
  case True
  then have b: "read_body (nr_body n) = Some bytes" using assms by (simp add: read_body_def max_body_bytes_def)
  have m: "route_matches \<lparr>ro_method = ''GET'', ro_path = ''/isalive'', ro_handler = is_alive\<rparr> r \<longleftrightarrow>
      rq_method r = ''GET'' \<and> has_suffix (trim_slash (rq_path r)) ''isalive''" for r
  proof -
    have "trim_slash ''/isalive'' = ''isalive''" by code_simp
    then show ?thesis by (auto simp: route_matches_def)
  qed
  have s: "serve_http (standalone_router env cfg) r s =
      (if rq_method r = ''GET'' \<and> has_suffix (trim_slash (rq_path r)) ''isalive''
       then (cors_interceptor r ((new_response 200)\<lparr>rs_body := ''alive and well''\<rparr>), s) else serve env cfg r s)" for r
    using m[of r] server_routes(2)[of env cfg]
    by (auto simp: serve_http_def router_handle_def router_match_def standalone_router_def router_add_front_def apply_interceptors_def
        is_alive_def serve_def split: prod.split sum.split option.split)
  show ?thesis using True b s by (auto simp: serve_net_def from_http_request_def)
next
  case False
  then have "read_body (nr_body n) = None" using assms by (auto simp: read_body_def max_body_bytes_def Let_def)
  then show ?thesis using False by (auto simp: serve_net_def from_http_request_def)
qed

definition long_request :: net_request where
  "long_request = \<lparr>nr_method = ''POST'', nr_host = ''app.test'', nr_header = [], nr_path = ''/token'', nr_raw_query = [], nr_tls = False,
     nr_conn = None, nr_body = Some (replicate (2 ^ 20 + 1) (CHR ''x''), False)\<rparr>"

theorem request_limits_witness:
  "serve_net (standalone_router plain_server_env plain_server_config) long_request plain_server = (new_response 413, plain_server)"
proof -
  have "nr_body long_request = Some (replicate (2 ^ 20 + 1) (CHR ''x''), False)" by (simp add: long_request_def)
  from request_limits[OF this] show ?thesis by (simp only: length_replicate) simp
qed

section \<open>Tokens of the library\<close>

interpretation keys_stay: run_kept sha1 cfg
    "\<lambda>s. provider_wf (os_keys s) \<and> (\<forall>i k. map_get keys i = Some k \<longrightarrow> map_get (kp_keys (os_keys s)) i = Some k)" E for sha1 cfg E keys
  by unfold_locales (auto dest: signing_key_wf(1,4)[OF _ surjective_pairing])

abbreviation library_claims :: "grant_env \<Rightarrow> string \<Rightarrow> string \<Rightarrow> claims \<Rightarrow> int \<Rightarrow> claims" where
  "library_claims gx iss iss_id claims expiry \<equiv>
     access_claims (gx_token gx) (gx_access_jti gx) issue_request iss (library_callback (gx_subject gx) iss_id claims expiry) []"

lemma str_index_absent: "c \<in> set sub \<Longrightarrow> c \<notin> set s \<Longrightarrow> str_index s sub = None"
proof (induction s)
  case (Cons d s)
  have "has_prefix (d # s) sub \<Longrightarrow> set sub \<subseteq> set (d # s)" by (metis has_prefix_iff set_append sup_ge1)
  then show ?case using Cons by auto
qed (auto)

lemma bearer_split:
  assumes "CHR '' '' \<notin> set tok"
  shows "str_split (''Bearer '' @ tok) ''Bearer '' = [[], tok]"
proof -
  have "str_index tok ''Bearer '' = None" by (rule str_index_absent[OF _ assms]) simp
  then have "str_split tok ''Bearer '' = [tok]" by (subst str_split.simps) simp
  then show ?thesis by (subst str_split.simps) (simp add: has_prefix_def)
qed

lemma signed_no_space: "CHR '' '' \<notin> set (sign_jwt k key c typ)"
proof -
  have "is_space (CHR '' '')" by code_simp
  then show ?thesis using b64_encode_plain by (fastforce simp: sign_jwt_def Let_def)
qed

lemma library_added:
  assumes "n \<noteq> ''tid''" and "map_get claims n = None"
  shows "map_get (cb_add_claims ce (library_callback uuid iss_id claims expiry) issue_request) n = None"
  using assms put_claims_absent[of claims n "[(''tid'', VStr iss_id)]"]
  by (simp add: library_callback_def default_add_claims_def issue_request_def empty_token_request_def put_claims_def grant_defs Let_def)
    (simp add: map_get_def)

text \<open>C29: library_token_active. A token the library issues for an issuer, with claims that leave issuer and validity alone, is accepted
  by user information of that issuer in every later state of the server until it expires, and user information reports its
  claims; without a subject among them the subject is the client of the library, mock-oidc.\<close>

theorem library_token_active:
  fixes gx :: grant_env and s s1 s2 :: server and claims :: claims and base iss_id tok :: string
  defines "iss \<equiv> library_issuer_url base iss_id" and "te \<equiv> gx_token gx"
  assumes crypto: "provider_wf (os_keys s)" "sound_signature (te_crypto te)" "\<And>rsa d. cr_sign (te_crypto te) rsa d \<noteq> []"
      "reads_jose te iss_id (kp_alg (os_keys s))" "issuer_id_from_url iss = iss_id"
    and claims: "\<forall>n\<in>{''iss'', ''iat'', ''nbf'', ''exp''}. map_get claims n = None"
    and json: "cr_unmarshal (te_crypto te) (cr_marshal (te_crypto te) (library_claims gx iss iss_id claims expiry)) = Some c"
      "json_keeps (library_claims gx iss iss_id claims expiry) c"
    and issued: "library_issue_token gx base iss_id claims expiry s = (tok, s1)" "server_run sha1 cfg E s1 s2"
    and info: "front_free env cfg r" "rq_method r = ''GET''" "has_suffix (trim_slash (rq_path r)) ''userinfo''" "issuer_url r = iss"
      "header_get r ''Authorization'' = ''Bearer '' @ tok" "gx_token (se_grant env) = te\<lparr>te_now := now\<rparr>"
      "unix_of (te_now te) \<le> unix_of now + 60" "unix_of now < unix_of (te_now te + seconds (if expiry = 0 then 3600 else expiry)) + 60"
  shows "fst (serve env cfg r s2) = cors_interceptor r (json_response (VObj (sort_fields c))) \<and>
    (map_get claims ''sub'' = None \<longrightarrow> string_claim (claim_get c ''sub'') = ''mock-oidc'')"
proof -
  let ?cb = "library_callback (gx_subject gx) iss_id claims expiry"
  obtain p1 where tok: "access_token te (gx_access_jti gx) issue_request iss iss_id ?cb [] (os_keys s) = (tok, p1)" "s1 = s\<lparr>os_keys := p1\<rparr>"
    using issued(1) by (auto simp: library_issue_token_def issue_token_def te_def iss_def split: prod.splits)
  have split: "str_split (header_get r ''Authorization'') ''Bearer '' = [[], tok]"
    unfolding info(5) using tok(1) signed_no_space by (intro bearer_split) (auto simp: access_token_def sign_for_def split: prod.splits)
  have "provider_wf p1"
    using tok(1) signing_key_wf(1)[OF crypto(1)] by (auto simp: access_token_def sign_for_def split: prod.splits)
  then have later: "map_get (kp_keys p1) i = Some k \<Longrightarrow> map_get (kp_keys (os_keys s2)) i = Some k" for i k
    using keys_stay.run_kept[OF issued(2), of "kp_keys p1"] by (simp add: tok(2))
  have cb: "cb_type_header (te_callback te) ?cb issue_request = ''JWT''" "cb_expiry ?cb = (if expiry = 0 then 3600 else expiry)"
    "cb_subject (te_callback te) ?cb issue_request = ''mock-oidc''"
    by (simp_all add: library_callback_def default_subject_def issue_request_def empty_token_request_def grant_defs)
  have added: "\<forall>n\<in>{''iss'', ''iat'', ''nbf'', ''exp''}. map_get (cb_add_claims (te_callback te) ?cb issue_request) n = None"
    using claims library_added by simp
  have "verify_token (te\<lparr>te_now := now\<rparr>) iss tok (os_keys s2) = (Inr c, os_keys s2)"
    using token_window[OF crypto(1-4) cb(1) added crypto(5) json[folded te_def] tok(1) later] info(7,8) cb(2) by simp
  then have u: "fst (serve env cfg r s2) = cors_interceptor r (json_response (VObj (sort_fields c)))"
    by (simp add: serve_user_info[OF info(1-3)] user_info_cases[OF split] info(4,6) http_answer_def)
  have "string_claim (claim_get c ''sub'') = ''mock-oidc''" if "map_get claims ''sub'' = None"
  proof -
    have "map_get (library_claims gx iss iss_id claims expiry) ''sub'' = Some (VStr ''mock-oidc'')"
      using library_added[of "''sub''"] that cb(3)
      by (simp add: access_claims_def default_claims_def put_claims_absent te_def Let_def) (simp add: map_get_def)
    then show ?thesis using json(2) by (simp add: json_keeps_def claim_string_def claim_get_def string_claim_def)
  qed
  then show ?thesis using u by simp
qed

definition mock_claims :: claims where
  "mock_claims = [(''sub'', VStr ''mock-oidc''), (''aud'', VStr ''default''), (''iss'', VStr ''http://app.test/default''), (''iat'', VInt 0),
     (''nbf'', VInt 0), (''exp'', VInt 3600), (''jti'', VStr ''j''), (''tid'', VStr ''default'')]"

definition mock_grant_env :: grant_env where
  "mock_grant_env = plain_grant_env\<lparr>gx_token := sample_token\<lparr>te_crypto := toy_crypto ''default'' mock_claims\<rparr>\<rparr>"

definition mock_token :: "string \<times> server" where
  "mock_token = library_issue_token mock_grant_env ''http://app.test'' ''default'' [] 0 plain_server"

lemma issue_scopes: "scopes_without_oidc issue_request = [''default'']"
  by code_simp

lemma bearer_header:
  "header_get (bearer_request t) ''Authorization'' = ''Bearer '' @ t" "header_get (bearer_request t) ''Host'' = ''app.test''"
  "header_get (bearer_request t) ''x-forwarded-proto'' = []" "header_get (bearer_request t) ''x-forwarded-port'' = []"
proof -
  have e: "\<not> equal_fold ''Host'' ''Authorization''" "equal_fold ''Authorization'' ''Authorization''" "equal_fold ''Host'' ''Host''"
    "\<not> equal_fold ''Host'' ''x-forwarded-proto''" "\<not> equal_fold ''Authorization'' ''x-forwarded-proto''"
    "\<not> equal_fold ''Host'' ''x-forwarded-port''" "\<not> equal_fold ''Authorization'' ''x-forwarded-port''" by code_simp+
  show "header_get (bearer_request t) ''Authorization'' = ''Bearer '' @ t" "header_get (bearer_request t) ''Host'' = ''app.test''"
    "header_get (bearer_request t) ''x-forwarded-proto'' = []" "header_get (bearer_request t) ''x-forwarded-port'' = []"
    by (simp_all add: header_get_def bearer_request_def get_from_def e)
qed

lemma bearer_issuer: "issuer_url (bearer_request t) = ''http://app.test/default''"
proof -
  have f: "rq_path (bearer_request t) = rq_path (bearer_request [])" "rq_scheme (bearer_request t) = rq_scheme (bearer_request [])"
    by (simp_all add: bearer_request_def get_from_def)
  have "issuer_url (bearer_request t) = issuer_url (bearer_request [])"
    by (simp only: issuer_url_def endpoint_url_def issuer_id_def base_url_def trimmed_path_def proxy_aware_url_def f bearer_header)
  moreover have "issuer_url (bearer_request []) = ''http://app.test/default''" by code_simp
  ultimately show ?thesis by simp
qed

lemma mock_library_claims: "library_claims mock_grant_env ''http://app.test/default'' ''default'' [] 0 = mock_claims"
  by (simp add: access_claims_def default_claims_def library_callback_def default_add_claims_def default_subject_def default_audience_def
      issue_scopes mock_grant_env_def plain_grant_env_def sample_token_def sample_token_env_def put_claims_def
      map_put_def audience_claim_def mock_claims_def unix_of_def seconds_def nanos_def wrap64_def Let_def grant_defs)
    (simp_all add: issue_request_def empty_token_request_def grant_defs)

theorem library_token_active_witness:
  "fst (serve (plain_server_env\<lparr>se_grant := mock_grant_env\<rparr>) plain_server_config (bearer_request (fst mock_token)) (snd mock_token)) =
     cors_interceptor (bearer_request (fst mock_token)) (json_response (VObj (sort_fields mock_claims)))"
proof -
  let ?te = "gx_token mock_grant_env" and ?iss = "library_issuer_url ''http://app.test'' ''default''"
  let ?r = "bearer_request (fst mock_token)" and ?env = "plain_server_env\<lparr>se_grant := mock_grant_env\<rparr>"
  have iss: "?iss = ''http://app.test/default''" by (simp add: library_issuer_url_def)
  have te: "te_crypto ?te = toy_crypto ''default'' mock_claims" "te_now ?te = 0" "?te\<lparr>te_now := 0\<rparr> = ?te"
    by (simp_all add: mock_grant_env_def sample_token_def sample_token_env_def)
  have c: "provider_wf (os_keys plain_server)" "sound_signature (te_crypto ?te)" "cr_sign (te_crypto ?te) rsa d \<noteq> []"
    "reads_jose ?te ''default'' (kp_alg (os_keys plain_server))" "issuer_id_from_url ?iss = ''default''" for rsa d
    using sample_token_env_ok(1) alice_parsed(7)
    by (simp_all add: plain_server_def new_server_def te toy_crypto_sound reads_jose_def pool_provider_def iss)
      (simp_all add: toy_crypto_def mock_grant_env_def sample_token_def sample_token_env_def)
  have j: "cr_unmarshal (te_crypto ?te) (cr_marshal (te_crypto ?te) (library_claims mock_grant_env ?iss ''default'' [] 0)) = Some mock_claims"
    "json_keeps (library_claims mock_grant_env ?iss ''default'' [] 0) mock_claims"
    unfolding iss mock_library_claims by (simp_all add: te toy_crypto_sound json_keeps_def)
  have i: "library_issue_token mock_grant_env ''http://app.test'' ''default'' [] 0 plain_server = (fst mock_token, snd mock_token)"
    by (simp add: mock_token_def)
  have s: "trim_slash ''/default/userinfo'' = ''default/userinfo''" by code_simp
  have p: "trim_slash (rq_path ?r) = ''default/userinfo''" "rq_method ?r = ''GET''" "header_get ?r ''Authorization'' = ''Bearer '' @ fst mock_token"
    "issuer_url ?r = ?iss"
    using s bearer_header(1) bearer_issuer unfolding iss by (simp_all add: bearer_request_def get_from_def)
  have f: "front_free ?env plain_server_config ?r" unfolding front_free_plain[OF no_entra] p(1) by code_simp
  have u: "has_suffix (trim_slash (rq_path ?r)) ''userinfo''" unfolding p(1) by code_simp
  have t: "unix_of (te_now ?te) \<le> unix_of 0 + 60" "unix_of 0 < unix_of (te_now ?te + seconds (if (0::int) = 0 then 3600 else 0)) + 60"
    by (simp_all add: te unix_of_def seconds_def nanos_def wrap64_def)
  have g: "gx_token (se_grant ?env) = ?te\<lparr>te_now := 0\<rparr>" by (simp add: te(3))
  have cl: "\<forall>n\<in>{''iss'', ''iat'', ''nbf'', ''exp''}. map_get [] n = (None :: gval option)" by (simp add: map_get_def)
  show ?thesis
    using library_token_active[OF c cl j i run_start f p(2) u p(4,3) g t] by simp
qed

end
