(* ===== verification/Token_Random.thy ===== *)
theory Token_Random
  imports Entra_Types Go_Net
begin

text \<open>
  Random identifiers (internal/token/util.go): the texts made of the bytes of the random source. Two
  identifiers are equal exactly when the bytes they are made of are, up to the six fixed bits of a UUID;
  this is what the freshness hypotheses on the identifiers of a run come down to.
\<close>

fun version4_byte :: "char \<Rightarrow> char" where
  "version4_byte (Char b0 b1 b2 b3 b4 b5 b6 b7) = Char b0 b1 b2 b3 False False True False"

definition uuid_bytes :: "string \<Rightarrow> string" where
  "uuid_bytes b = (b[6 := version4_byte (b ! 6)])[8 := uuid_variant (b ! 8)]"

definition uuid_groups :: "string \<Rightarrow> string list" where
  "uuid_groups u = [hex_bytes (take 4 u), hex_bytes (take 2 (drop 4 u)), hex_bytes (take 2 (drop 6 u)),
     hex_bytes (take 2 (drop 8 u)), hex_bytes (take 6 (drop 10 u))]"

definition random_uuid_text :: "string \<Rightarrow> string" where
  "random_uuid_text b = str_join (uuid_groups (uuid_bytes b)) ''-''"

definition random_authorization_code :: "string \<Rightarrow> string" where
  "random_authorization_code b = b64_encode b"

lemma nibble_inj:
  "nibble_char a b c d = nibble_char a' b' c' d' \<longleftrightarrow> a = a' \<and> b = b' \<and> c = c' \<and> d = d'"
  by (cases a; cases b; cases c; cases d; cases a'; cases b'; cases c'; cases d'; simp add: nibble_char_def)

lemma hex_byte_inj: "hex_byte c = hex_byte d \<longleftrightarrow> c = d"
  by (cases c rule: hex_byte.cases; cases d rule: hex_byte.cases) (auto simp: nibble_inj)

lemma hex_bytes_inj: "length a = length b \<Longrightarrow> hex_bytes a = hex_bytes b \<longleftrightarrow> a = b"
  by (induction a b rule: list_induct2) (simp_all add: hex_bytes_def append_eq_append_conv hex_byte_inj)

lemma uuid_groups_shape:
  assumes "length b = 16"
  shows "map length (uuid_groups b) = guid_lengths" "list_all (list_all is_hex) (uuid_groups b)"
  using assms by (simp_all add: uuid_groups_def guid_lengths_def)

lemma random_uuid_text_guid: "length b = 16 \<Longrightarrow> guid_re (random_uuid_text b)"
  unfolding random_uuid_text_def by (rule guid_re_join) (simp_all add: uuid_groups_shape uuid_bytes_def)

lemma random_uuid_text_groups:
  assumes "length b = 16"
  shows "str_split (random_uuid_text b) ''-'' = uuid_groups (uuid_bytes b)"
  unfolding random_uuid_text_def
proof (rule str_split_join)
  show "\<forall>g\<in>set (uuid_groups (uuid_bytes b)). CHR ''-'' \<notin> set g"
    using uuid_groups_shape(2)[of "uuid_bytes b"] assms hex_no_dash by (auto simp: list_all_iff[of "list_all is_hex"] uuid_bytes_def)
qed (simp add: uuid_groups_def)

lemma random_uuid_text_eq:
  assumes "length a = 16" and "length b = 16"
  shows "random_uuid_text a = random_uuid_text b \<longleftrightarrow> uuid_bytes a = uuid_bytes b"
proof
  let ?a = "uuid_bytes a" and ?b = "uuid_bytes b"
  assume "random_uuid_text a = random_uuid_text b"
  then have "uuid_groups ?a = uuid_groups ?b" using random_uuid_text_groups[OF assms(1)] random_uuid_text_groups[OF assms(2)] by simp
  moreover have l: "length ?a = 16" "length ?b = 16" using assms by (simp_all add: uuid_bytes_def)
  ultimately have g: "take 4 ?a = take 4 ?b" "take 2 (drop 4 ?a) = take 2 (drop 4 ?b)" "take 2 (drop 6 ?a) = take 2 (drop 6 ?b)"
    "take 2 (drop 8 ?a) = take 2 (drop 8 ?b)" "take 6 (drop 10 ?a) = take 6 (drop 10 ?b)"
    by (simp_all add: uuid_groups_def hex_bytes_inj)
  have "u = take 4 u @ take 2 (drop 4 u) @ take 2 (drop 6 u) @ take 2 (drop 8 u) @ take 6 (drop 10 u)" if "length u = 16" for u :: string
    using that by (simp add: list_eq_iff_nth_eq nth_append)
  from this[OF l(1)] this[OF l(2)] show "?a = ?b" using g by metis
qed (simp add: random_uuid_text_def)

lemma random_code_eq: "random_authorization_code a = random_authorization_code b \<longleftrightarrow> a = b"
  unfolding random_authorization_code_def using b64_decode_encode by (metis option.inject)

end
