(* ===== verification/Entra_Heap.thy ===== *)
theory Entra_Heap
  imports Entra_Store Entra_Sample
begin

text \<open>
  The memory behind the configuration snapshots (internal/entra/store.go, graphconfig.go).

  Entra_Store takes a snapshot for a value. In the program it is a pointer to structs that hold pointers and slices, which the edits of a
  mutation overwrite in place; readers keep the pointer of an older snapshot and take no lock. That they never see an
  edit rests on \<open>cloneConfig\<close> copying everything an edit may write. This theory models it over an explicit heap: an address holds a
  variable or the backing array of a slice, a pointer is an optional address, a slice an
  optional address with a length. Strings are immutable in Go and stay values, as does the compiled rule of a group.

  The contract of a deep copy is the locale \<open>deep_copy\<close>; it is interpreted for every struct of the
  configuration, and a mutation of the store on the heap is shown to refine the one on values.
\<close>

section \<open>The heap\<close>

type_synonym pointer = "nat option"
type_synonym slice = "(nat \<times> nat) option"

text \<open>
  A struct that holds references: its fields that are plain values are in the record of Entra_Types (\<open>_plain\<close>), whose
  other fields are not used; the references follow.
\<close>

record graph_cell =
  gc_plain :: graph_config
  gc_enabled :: pointer
  gc_user_info :: pointer
  gc_clock_skew :: pointer

record group_cell =
  pc_plain :: group
  pc_security :: pointer
  pc_mail :: pointer

record tenant_cell =
  tc_plain :: tenant
  tc_domains :: slice
  tc_groups :: slice

record app_cell =
  ac_plain :: app
  ac_roles :: slice
  ac_claims :: slice

record user_cell =
  uc_plain :: user
  uc_groups :: slice
  uc_amr :: slice
  uc_phones :: slice
  uc_roles :: slice
  uc_wids :: slice
  uc_dynamic :: slice
  uc_verified :: pointer
  uc_account :: pointer

record config_cell =
  cc_plain :: config
  cc_graph :: pointer
  cc_tenants :: slice
  cc_consents :: slice
  cc_apps :: slice
  cc_users :: slice

text \<open>
  A variable of Go has one type for ever, so a write to a variable of one type is never seen through one of another. A cell therefore has
  a component per type, and the constructors below initialise the one that is used.
\<close>

record cell =
  bool_of :: bool
  int_of_cell :: int
  strings_of :: "string list"
  mappings_of :: "claim_mapping list"
  consents_of :: "consent list"
  graph_of :: graph_cell
  groups_of :: "group_cell list"
  tenants_of :: "tenant_cell list"
  apps_of :: "app_cell list"
  users_of :: "user_cell list"
  config_of :: config_cell

definition empty_graph_cell :: graph_cell where
  "empty_graph_cell = \<lparr>gc_plain = empty_graph, gc_enabled = None, gc_user_info = None, gc_clock_skew = None\<rparr>"

definition empty_fields :: config where
  "empty_fields = \<lparr>c_base_path = [], c_default_group_limit = 0, c_token_expiry = 0, c_ignore_login_hint = False, c_graph = None,
     c_tenants = [], c_consents = [], c_apps = [], c_users = []\<rparr>"

definition blank_cell :: cell where
  "blank_cell = \<lparr>bool_of = False, int_of_cell = 0, strings_of = [], mappings_of = [], consents_of = [], graph_of = empty_graph_cell,
     groups_of = [], tenants_of = [], apps_of = [], users_of = [],
     config_of = \<lparr>cc_plain = empty_fields, cc_graph = None, cc_tenants = None, cc_consents = None, cc_apps = None, cc_users = None\<rparr>\<rparr>"

definition BoolCell :: "bool \<Rightarrow> cell" where "BoolCell b = blank_cell\<lparr>bool_of := b\<rparr>"
definition IntCell :: "int \<Rightarrow> cell" where "IntCell i = blank_cell\<lparr>int_of_cell := i\<rparr>"
definition StringsCell :: "string list \<Rightarrow> cell" where "StringsCell xs = blank_cell\<lparr>strings_of := xs\<rparr>"
definition MappingsCell :: "claim_mapping list \<Rightarrow> cell" where "MappingsCell xs = blank_cell\<lparr>mappings_of := xs\<rparr>"
definition ConsentsCell :: "consent list \<Rightarrow> cell" where "ConsentsCell xs = blank_cell\<lparr>consents_of := xs\<rparr>"
definition GraphCell :: "graph_cell \<Rightarrow> cell" where "GraphCell g = blank_cell\<lparr>graph_of := g\<rparr>"
definition GroupsCell :: "group_cell list \<Rightarrow> cell" where "GroupsCell xs = blank_cell\<lparr>groups_of := xs\<rparr>"
definition TenantsCell :: "tenant_cell list \<Rightarrow> cell" where "TenantsCell xs = blank_cell\<lparr>tenants_of := xs\<rparr>"
definition AppsCell :: "app_cell list \<Rightarrow> cell" where "AppsCell xs = blank_cell\<lparr>apps_of := xs\<rparr>"
definition UsersCell :: "user_cell list \<Rightarrow> cell" where "UsersCell xs = blank_cell\<lparr>users_of := xs\<rparr>"
definition ConfigCell :: "config_cell \<Rightarrow> cell" where "ConfigCell c = blank_cell\<lparr>config_of := c\<rparr>"

lemma cell_contents [simp]:
  "bool_of (BoolCell b) = b" "int_of_cell (IntCell i) = i" "strings_of (StringsCell ss) = ss" "mappings_of (MappingsCell ms) = ms"
  "consents_of (ConsentsCell cs) = cs" "graph_of (GraphCell g) = g" "groups_of (GroupsCell gs) = gs" "tenants_of (TenantsCell ts) = ts"
  "apps_of (AppsCell as) = as" "users_of (UsersCell us) = us" "config_of (ConfigCell c) = c"
  by (simp_all add: BoolCell_def IntCell_def StringsCell_def MappingsCell_def ConsentsCell_def GraphCell_def GroupsCell_def TenantsCell_def
      AppsCell_def UsersCell_def ConfigCell_def)

record heap =
  hp_cell :: "nat \<Rightarrow> cell"
  hp_next :: nat

definition heap_new :: "cell \<Rightarrow> heap \<Rightarrow> nat \<times> heap" where
  "heap_new x h = (hp_next h, \<lparr>hp_cell = (hp_cell h)(hp_next h := x), hp_next = Suc (hp_next h)\<rparr>)"

definition heap_write :: "nat \<Rightarrow> (cell \<Rightarrow> cell) \<Rightarrow> heap \<Rightarrow> heap" where
  "heap_write a f h = h\<lparr>hp_cell := (hp_cell h)(a := f (hp_cell h a))\<rparr>"

definition slice_elems :: "(cell \<Rightarrow> 'a list) \<Rightarrow> heap \<Rightarrow> slice \<Rightarrow> 'a list" where
  "slice_elems sel h s = (case s of None \<Rightarrow> [] | Some (a, n) \<Rightarrow> take n (sel (hp_cell h a)))"

section \<open>What a reader sees\<close>

definition read_pointer :: "(cell \<Rightarrow> 'a) \<Rightarrow> heap \<Rightarrow> pointer \<Rightarrow> 'a option" where
  "read_pointer sel h p = map_option (\<lambda>a. sel (hp_cell h a)) p"

definition read_graph :: "heap \<Rightarrow> graph_cell \<Rightarrow> graph_config" where
  "read_graph h g = (gc_plain g)\<lparr>g_enabled := read_pointer bool_of h (gc_enabled g), g_user_info := read_pointer bool_of h (gc_user_info g),
     g_clock_skew := read_pointer int_of_cell h (gc_clock_skew g)\<rparr>"

definition read_group :: "heap \<Rightarrow> group_cell \<Rightarrow> group" where
  "read_group h g = (pc_plain g)\<lparr>gr_security_enabled := read_pointer bool_of h (pc_security g), gr_mail_enabled := read_pointer bool_of h (pc_mail g)\<rparr>"

definition read_tenant :: "heap \<Rightarrow> tenant_cell \<Rightarrow> tenant" where
  "read_tenant h t = (tc_plain t)\<lparr>t_domains := slice_elems strings_of h (tc_domains t), t_groups := map (read_group h) (slice_elems groups_of h (tc_groups t))\<rparr>"

definition read_app :: "heap \<Rightarrow> app_cell \<Rightarrow> app" where
  "read_app h a = (ac_plain a)\<lparr>a_roles := slice_elems strings_of h (ac_roles a), a_claims := slice_elems mappings_of h (ac_claims a)\<rparr>"

definition read_user :: "heap \<Rightarrow> user_cell \<Rightarrow> user" where
  "read_user h u = (uc_plain u)\<lparr>u_groups := slice_elems strings_of h (uc_groups u), u_amr := slice_elems strings_of h (uc_amr u),
     u_business_phones := slice_elems strings_of h (uc_phones u), u_roles := slice_elems strings_of h (uc_roles u),
     u_wids := slice_elems strings_of h (uc_wids u), u_dynamic_groups := slice_elems strings_of h (uc_dynamic u),
     u_email_verified := read_pointer bool_of h (uc_verified u), u_account_enabled := read_pointer bool_of h (uc_account u)\<rparr>"

definition read_fields :: "heap \<Rightarrow> config_cell \<Rightarrow> config" where
  "read_fields h c = (cc_plain c)\<lparr>c_graph := map_option (read_graph h) (read_pointer graph_of h (cc_graph c)),
     c_tenants := map (read_tenant h) (slice_elems tenants_of h (cc_tenants c)), c_consents := slice_elems consents_of h (cc_consents c),
     c_apps := map (read_app h) (slice_elems apps_of h (cc_apps c)), c_users := map (read_user h) (slice_elems users_of h (cc_users c))\<rparr>"

definition read_config :: "heap \<Rightarrow> nat \<Rightarrow> config" where
  "read_config h p = read_fields h (config_of (hp_cell h p))"

section \<open>The copy (cloneConfig, GraphConfig.clone, copyBool, copyInt64)\<close>

definition copy_bool :: "pointer \<Rightarrow> heap \<Rightarrow> pointer \<times> heap" where
  "copy_bool v h = (case v of None \<Rightarrow> (None, h) | Some a \<Rightarrow> (case heap_new (BoolCell (bool_of (hp_cell h a))) h of (b, h1) \<Rightarrow> (Some b, h1)))"

definition copy_int64 :: "pointer \<Rightarrow> heap \<Rightarrow> pointer \<times> heap" where
  "copy_int64 v h = (case v of None \<Rightarrow> (None, h) | Some a \<Rightarrow> (case heap_new (IntCell (int_of_cell (hp_cell h a))) h of (b, h1) \<Rightarrow> (Some b, h1)))"

text \<open>\<open>append([]T(nil), xs...)\<close> is nil for no elements and a fresh array otherwise.\<close>

definition append_nil :: "('a list \<Rightarrow> cell) \<Rightarrow> (cell \<Rightarrow> 'a list) \<Rightarrow> slice \<Rightarrow> heap \<Rightarrow> slice \<times> heap" where
  "append_nil wrap sel s h =
     (let xs = slice_elems sel h s in
      if xs = [] then (None, h) else (case heap_new (wrap xs) h of (a, h1) \<Rightarrow> (Some (a, length xs), h1)))"

abbreviation "append_strings \<equiv> append_nil StringsCell strings_of"

text \<open>
  \<open>make([]T, len(s))\<close> filled by a loop that copies the elements in order. The array is allocated here
  when its elements are known; the order of allocations shows in the addresses alone.
\<close>

fun clone_each :: "('a \<Rightarrow> heap \<Rightarrow> 'a \<times> heap) \<Rightarrow> 'a list \<Rightarrow> heap \<Rightarrow> 'a list \<times> heap" where
  "clone_each clone [] h = ([], h)"
| "clone_each clone (x # xs) h = (case clone x h of (y, h1) \<Rightarrow> (case clone_each clone xs h1 of (ys, h2) \<Rightarrow> (y # ys, h2)))"

definition make_filled :: "('a list \<Rightarrow> cell) \<Rightarrow> (cell \<Rightarrow> 'a list) \<Rightarrow> ('a \<Rightarrow> heap \<Rightarrow> 'a \<times> heap) \<Rightarrow> slice \<Rightarrow> heap \<Rightarrow> slice \<times> heap" where
  "make_filled wrap sel clone s h =
     (case clone_each clone (slice_elems sel h s) h of (ys, h1) \<Rightarrow>
        (case heap_new (wrap ys) h1 of (a, h2) \<Rightarrow> (Some (a, length ys), h2)))"

definition graph_clone :: "pointer \<Rightarrow> heap \<Rightarrow> pointer \<times> heap" where
  "graph_clone g h =
     (case g of
        None \<Rightarrow> (None, h)
      | Some a \<Rightarrow>
          let out = graph_of (hp_cell h a);
              (enabled, h1) = copy_bool (gc_enabled out) h;
              (user_info, h2) = copy_bool (gc_user_info out) h1;
              (skew, h3) = copy_int64 (gc_clock_skew out) h2;
              (b, h4) = heap_new (GraphCell (out\<lparr>gc_enabled := enabled, gc_user_info := user_info, gc_clock_skew := skew\<rparr>)) h3
          in (Some b, h4))"

definition clone_group :: "group_cell \<Rightarrow> heap \<Rightarrow> group_cell \<times> heap" where
  "clone_group g h =
     (let (sec, h1) = copy_bool (pc_security g) h;
          (mail, h2) = copy_bool (pc_mail g) h1
      in (g\<lparr>pc_security := sec, pc_mail := mail\<rparr>, h2))"

definition clone_tenant :: "tenant_cell \<Rightarrow> heap \<Rightarrow> tenant_cell \<times> heap" where
  "clone_tenant t h =
     (let (domains, h1) = append_strings (tc_domains t) h;
          (groups, h2) = make_filled GroupsCell groups_of clone_group (tc_groups t) h1
      in (t\<lparr>tc_domains := domains, tc_groups := groups\<rparr>, h2))"

definition clone_app :: "app_cell \<Rightarrow> heap \<Rightarrow> app_cell \<times> heap" where
  "clone_app a h =
     (let (roles, h1) = append_strings (ac_roles a) h;
          (claims, h2) = append_nil MappingsCell mappings_of (ac_claims a) h1
      in (a\<lparr>ac_roles := roles, ac_claims := claims\<rparr>, h2))"

definition clone_user :: "user_cell \<Rightarrow> heap \<Rightarrow> user_cell \<times> heap" where
  "clone_user u h =
     (let (groups, h1) = append_strings (uc_groups u) h;
          (amr, h2) = append_strings (uc_amr u) h1;
          (phones, h3) = append_strings (uc_phones u) h2;
          (roles, h4) = append_strings (uc_roles u) h3;
          (wids, h5) = append_strings (uc_wids u) h4;
          (dynamic, h6) = append_strings (uc_dynamic u) h5;
          (verified, h7) = copy_bool (uc_verified u) h6;
          (account, h8) = copy_bool (uc_account u) h7
      in (u\<lparr>uc_groups := groups, uc_amr := amr, uc_phones := phones, uc_roles := roles, uc_wids := wids, uc_dynamic := dynamic,
            uc_verified := verified, uc_account := account\<rparr>, h8))"

definition clone_config :: "nat \<Rightarrow> heap \<Rightarrow> nat \<times> heap" where
  "clone_config p h =
     (let c = config_of (hp_cell h p);
          (graph, h1) = graph_clone (cc_graph c) h;
          (consents, h2) = append_nil ConsentsCell consents_of (cc_consents c) h1;
          (tenants, h3) = make_filled TenantsCell tenants_of clone_tenant (cc_tenants c) h2;
          (apps, h4) = make_filled AppsCell apps_of clone_app (cc_apps c) h3;
          (users, h5) = make_filled UsersCell users_of clone_user (cc_users c) h4
      in heap_new (ConfigCell (c\<lparr>cc_graph := graph, cc_tenants := tenants, cc_consents := consents, cc_apps := apps, cc_users := users\<rparr>)) h5)"

section \<open>The addresses a value reaches\<close>

definition foot_slice :: "slice \<Rightarrow> nat set" where "foot_slice s = fst ` set_option s"

definition foot_array :: "(cell \<Rightarrow> 'a list) \<Rightarrow> (heap \<Rightarrow> 'a \<Rightarrow> nat set) \<Rightarrow> heap \<Rightarrow> slice \<Rightarrow> nat set" where
  "foot_array sel foot h s = foot_slice s \<union> \<Union> (foot h ` set (slice_elems sel h s))"

definition foot_graph :: "heap \<Rightarrow> graph_cell \<Rightarrow> nat set" where
  "foot_graph h g = set_option (gc_enabled g) \<union> (set_option (gc_user_info g) \<union> set_option (gc_clock_skew g))"

definition foot_graph_pointer :: "heap \<Rightarrow> pointer \<Rightarrow> nat set" where
  "foot_graph_pointer h p = (case p of None \<Rightarrow> {} | Some a \<Rightarrow> insert a (foot_graph h (graph_of (hp_cell h a))))"

definition foot_group :: "heap \<Rightarrow> group_cell \<Rightarrow> nat set" where
  "foot_group h g = set_option (pc_security g) \<union> set_option (pc_mail g)"

definition foot_tenant :: "heap \<Rightarrow> tenant_cell \<Rightarrow> nat set" where
  "foot_tenant h t = foot_slice (tc_domains t) \<union> foot_array groups_of foot_group h (tc_groups t)"

definition foot_app :: "heap \<Rightarrow> app_cell \<Rightarrow> nat set" where
  "foot_app h a = foot_slice (ac_roles a) \<union> foot_slice (ac_claims a)"

definition foot_user :: "heap \<Rightarrow> user_cell \<Rightarrow> nat set" where
  "foot_user h u = foot_slice (uc_groups u) \<union> (foot_slice (uc_amr u) \<union> (foot_slice (uc_phones u) \<union> (foot_slice (uc_roles u) \<union>
     (foot_slice (uc_wids u) \<union> (foot_slice (uc_dynamic u) \<union> (set_option (uc_verified u) \<union> set_option (uc_account u)))))))"

definition foot_fields :: "heap \<Rightarrow> config_cell \<Rightarrow> nat set" where
  "foot_fields h c = foot_graph_pointer h (cc_graph c) \<union> (foot_slice (cc_consents c) \<union> (foot_array tenants_of foot_tenant h (cc_tenants c) \<union>
     (foot_array apps_of foot_app h (cc_apps c) \<union> foot_array users_of foot_user h (cc_users c))))"

definition foot_config :: "heap \<Rightarrow> nat \<Rightarrow> nat set" where
  "foot_config h p = insert p (foot_fields h (config_of (hp_cell h p)))"

section \<open>The contract of a deep copy\<close>

definition grows :: "heap \<Rightarrow> heap \<Rightarrow> bool" where
  "grows h h' \<longleftrightarrow> hp_next h \<le> hp_next h' \<and> (\<forall>a<hp_next h. hp_cell h' a = hp_cell h a)"

lemma grows_refl [simp]: "grows h h" by (simp add: grows_def)

lemma grows_trans: "grows h h1 \<Longrightarrow> grows h1 h2 \<Longrightarrow> grows h h2" by (simp add: grows_def)

lemma grows_next: "grows h h' \<Longrightarrow> hp_next h \<le> hp_next h'" by (simp add: grows_def)

lemma grows_new: "heap_new x h = (a, h') \<Longrightarrow> grows h h' \<and> a = hp_next h \<and> hp_next h' = Suc a \<and> hp_cell h' a = x"
  by (auto simp: heap_new_def grows_def)

locale deep_copy =
  fixes foot :: "heap \<Rightarrow> 'a \<Rightarrow> nat set" and read :: "heap \<Rightarrow> 'a \<Rightarrow> 'b" and clone :: "'a \<Rightarrow> heap \<Rightarrow> 'a \<times> heap"
  assumes frame: "(\<And>a. a \<in> foot h x \<Longrightarrow> hp_cell h' a = hp_cell h a) \<Longrightarrow> read h' x = read h x \<and> foot h' x = foot h x"
    and copy: "foot h x \<subseteq> {..<hp_next h} \<Longrightarrow> clone x h = (y, h') \<Longrightarrow>
       grows h h' \<and> foot h' y \<subseteq> {hp_next h..<hp_next h'} \<and> read h' y = read h x"
begin

lemma kept: "foot h x \<subseteq> {..<hp_next h} \<Longrightarrow> grows h h' \<Longrightarrow> read h' x = read h x \<and> foot h' x = foot h x"
  by (rule frame) (auto simp: grows_def)

text \<open>The copy and the original share no address, and whatever is then written to the copy the original reads as before.\<close>

lemma apart: "foot h x \<subseteq> {..<hp_next h} \<Longrightarrow> clone x h = (y, h') \<Longrightarrow> foot h' y \<inter> foot h' x = {}"
  using copy[of h x y h'] kept[of h x h'] by fastforce

lemma isolated:
  assumes "foot h x \<subseteq> {..<hp_next h}" "clone x h = (y, h')" "\<And>a. a < hp_next h \<Longrightarrow> hp_cell h'' a = hp_cell h' a"
  shows "read h'' x = read h x"
proof -
  have "hp_cell h'' a = hp_cell h a" if "a \<in> foot h x" for a
    using that assms copy[OF assms(1,2)] by (auto simp: grows_def)
  then show ?thesis using frame by blast
qed

lemma each:
  "(\<And>x. x \<in> set xs \<Longrightarrow> foot h x \<subseteq> {..<hp_next h}) \<Longrightarrow> clone_each clone xs h = (ys, h') \<Longrightarrow>
   grows h h' \<and> \<Union> (foot h' ` set ys) \<subseteq> {hp_next h..<hp_next h'} \<and> map (read h') ys = map (read h) xs"
proof (induction xs arbitrary: h ys h')
  case (Cons x xs)
  obtain y h1 where y: "clone x h = (y, h1)" by (rule prod.exhaust)
  obtain zs h2 where zs: "clone_each clone xs h1 = (zs, h2)" by (rule prod.exhaust)
  have e: "ys = y # zs" "h' = h2" using Cons.prems(2) y zs by auto
  have c: "grows h h1" "foot h1 y \<subseteq> {hp_next h..<hp_next h1}" "read h1 y = read h x" using copy[OF _ y] Cons.prems(1) by auto
  have old: "read h1 z = read h z \<and> foot h1 z = foot h z" if "z \<in> set xs" for z using kept[OF _ c(1), of z] Cons.prems(1) that by auto
  have rest: "grows h1 h2" "\<Union> (foot h2 ` set zs) \<subseteq> {hp_next h1..<hp_next h2}" "map (read h2) zs = map (read h1) xs"
    using Cons.IH[OF _ zs] Cons.prems(1) old grows_next[OF c(1)] by (fastforce)+
  have "foot h1 y \<subseteq> {..<hp_next h1}" using c(2) by auto
  then have "read h2 y = read h1 y" "foot h2 y = foot h1 y" using kept[OF _ rest(1)] by auto
  then show ?case using e c rest old grows_trans[OF c(1) rest(1)] grows_next[OF c(1)] grows_next[OF rest(1)] by fastforce
qed simp

end

text \<open>Deep copies compose: two values one after the other, the references of a struct, the target of a pointer, the elements of an array.\<close>

definition foot_both :: "(heap \<Rightarrow> 'a \<Rightarrow> nat set) \<Rightarrow> (heap \<Rightarrow> 'b \<Rightarrow> nat set) \<Rightarrow> heap \<Rightarrow> 'a \<times> 'b \<Rightarrow> nat set" where
  "foot_both fa fb h p = fa h (fst p) \<union> fb h (snd p)"

definition read_both :: "(heap \<Rightarrow> 'a \<Rightarrow> 'c) \<Rightarrow> (heap \<Rightarrow> 'b \<Rightarrow> 'd) \<Rightarrow> heap \<Rightarrow> 'a \<times> 'b \<Rightarrow> 'c \<times> 'd" where
  "read_both ra rb h p = (ra h (fst p), rb h (snd p))"

definition clone_both :: "('a \<Rightarrow> heap \<Rightarrow> 'a \<times> heap) \<Rightarrow> ('b \<Rightarrow> heap \<Rightarrow> 'b \<times> heap) \<Rightarrow> 'a \<times> 'b \<Rightarrow> heap \<Rightarrow> ('a \<times> 'b) \<times> heap" where
  "clone_both ca cb p h = (case ca (fst p) h of (x, h1) \<Rightarrow> (case cb (snd p) h1 of (y, h2) \<Rightarrow> ((x, y), h2)))"

lemma deep_copy_both:
  assumes "deep_copy fa ra ca" "deep_copy fb rb cb"
  shows "deep_copy (foot_both fa fb) (read_both ra rb) (clone_both ca cb)"
proof
  fix h h' :: heap and p
  assume e: "\<And>a. a \<in> foot_both fa fb h p \<Longrightarrow> hp_cell h' a = hp_cell h a"
  show "read_both ra rb h' p = read_both ra rb h p \<and> foot_both fa fb h' p = foot_both fa fb h p"
    using deep_copy.frame[OF assms(1), of h "fst p" h'] deep_copy.frame[OF assms(2), of h "snd p" h'] e
    by (simp add: foot_both_def read_both_def)
next
  fix h h' p q
  assume f: "foot_both fa fb h p \<subseteq> {..<hp_next h}" and c: "clone_both ca cb p h = (q, h')"
  obtain x h1 where x: "ca (fst p) h = (x, h1)" by (rule prod.exhaust)
  obtain y h2 where y: "cb (snd p) h1 = (y, h2)" by (rule prod.exhaust)
  have q: "q = (x, y)" "h' = h2" using c x y by (simp_all add: clone_both_def)
  have fs: "fa h (fst p) \<subseteq> {..<hp_next h}" "fb h (snd p) \<subseteq> {..<hp_next h}" using f by (simp_all add: foot_both_def)
  note a = deep_copy.copy[OF assms(1) fs(1) x]
  then have g: "grows h h1" by blast
  note k = deep_copy.kept[OF assms(2) fs(2) g]
  have "fb h1 (snd p) \<subseteq> {..<hp_next h1}" using k fs(2) grows_next[OF g] by auto
  note b = deep_copy.copy[OF assms(2) this y]
  then have g2: "grows h1 h2" by blast
  have "fa h1 x \<subseteq> {..<hp_next h1}" using a by auto
  note l = deep_copy.kept[OF assms(1) this g2]
  show "grows h h' \<and> foot_both fa fb h' q \<subseteq> {hp_next h..<hp_next h'} \<and> read_both ra rb h' q = read_both ra rb h p"
    using a b k l grows_trans[OF g g2] grows_next[OF g] grows_next[OF g2] unfolding q foot_both_def read_both_def by fastforce
qed

lemma deep_copy_struct:
  assumes d: "deep_copy foot read clone"
    and foot: "\<And>h r. foot' h r = foot h (get r)" and read: "\<And>h r. read' h r = build r (read h (get r))"
    and clone: "\<And>h r. clone' r h = (case clone (get r) h of (p, h') \<Rightarrow> (put r p, h'))"
    and get: "\<And>r p. get (put r p) = p" and build: "\<And>r p x. build (put r p) x = build r x"
  shows "deep_copy foot' read' clone'"
proof
  fix h h' :: heap and r
  assume "\<And>a. a \<in> foot' h r \<Longrightarrow> hp_cell h' a = hp_cell h a"
  then show "read' h' r = read' h r \<and> foot' h' r = foot' h r" using deep_copy.frame[OF d, of h "get r" h'] by (simp add: foot read)
next
  fix h h' r q
  assume "foot' h r \<subseteq> {..<hp_next h}" "clone' r h = (q, h')"
  then show "grows h h' \<and> foot' h' q \<subseteq> {hp_next h..<hp_next h'} \<and> read' h' q = read' h r"
    using deep_copy.copy[OF d, of h "get r"] by (auto simp: foot read clone get build split: prod.splits)
qed

lemma deep_copy_cell:
  assumes d: "deep_copy foot read clone" and sel: "\<And>x. sel (wrap x) = x"
    and foot: "\<And>h a. foot' h a = insert a (foot h (sel (hp_cell h a)))" and read: "\<And>h a. read' h a = read h (sel (hp_cell h a))"
    and clone: "\<And>h a. clone' a h = (case clone (sel (hp_cell h a)) h of (x, h1) \<Rightarrow> heap_new (wrap x) h1)"
  shows "deep_copy foot' read' clone'"
proof
  fix h h' :: heap and a
  assume "\<And>b. b \<in> foot' h a \<Longrightarrow> hp_cell h' b = hp_cell h b"
  then show "read' h' a = read' h a \<and> foot' h' a = foot' h a"
    using deep_copy.frame[OF d, of h "sel (hp_cell h a)" h'] by (simp add: foot read)
next
  fix h h' a b
  assume f: "foot' h a \<subseteq> {..<hp_next h}" and c: "clone' a h = (b, h')"
  obtain x h1 where x: "clone (sel (hp_cell h a)) h = (x, h1)" by (rule prod.exhaust)
  have b: "heap_new (wrap x) h1 = (b, h')" using c by (simp add: clone x)
  have "foot h (sel (hp_cell h a)) \<subseteq> {..<hp_next h}" using f by (simp add: foot)
  note o = deep_copy.copy[OF d this x] and n = grows_new[OF b]
  then have "foot h1 x \<subseteq> {..<hp_next h1}" by auto
  note k = deep_copy.kept[OF d this, of h']
  show "grows h h' \<and> foot' h' b \<subseteq> {hp_next h..<hp_next h'} \<and> read' h' b = read' h a"
    using o n k grows_trans[of h h1 h'] grows_next[of h h1] by (auto simp: foot read sel)
qed

lemma deep_copy_pointer:
  assumes "deep_copy foot read clone"
    and foot: "\<And>h p. foot' h p = (case p of None \<Rightarrow> {} | Some a \<Rightarrow> foot h a)" and read: "\<And>h p. read' h p = map_option (read h) p"
    and clone: "\<And>h p. clone' p h = (case p of None \<Rightarrow> (None, h) | Some a \<Rightarrow> (case clone a h of (b, h1) \<Rightarrow> (Some b, h1)))"
  shows "deep_copy foot' read' clone'"
proof
  fix h h' :: heap and p
  assume "\<And>b. b \<in> foot' h p \<Longrightarrow> hp_cell h' b = hp_cell h b"
  then show "read' h' p = read' h p \<and> foot' h' p = foot' h p"
    using deep_copy.frame[OF assms(1), of h "the p" h'] by (cases p) (simp_all add: foot read)
next
  fix h h' p q
  assume "foot' h p \<subseteq> {..<hp_next h}" "clone' p h = (q, h')"
  then show "grows h h' \<and> foot' h' q \<subseteq> {hp_next h..<hp_next h'} \<and> read' h' q = read' h p"
    using deep_copy.copy[OF assms(1), of h "the p"] by (cases p) (auto simp: foot read clone split: prod.splits)
qed

lemma deep_copy_array:
  assumes d: "deep_copy foot read clone" and sel: "\<And>xs. sel (wrap xs) = xs"
  shows "deep_copy (foot_array sel foot) (\<lambda>h s. map (read h) (slice_elems sel h s)) (make_filled wrap sel clone)"
proof
  fix h h' :: heap and s
  assume e: "\<And>a. a \<in> foot_array sel foot h s \<Longrightarrow> hp_cell h' a = hp_cell h a"
  then have same: "slice_elems sel h' s = slice_elems sel h s"
    by (auto simp: foot_array_def foot_slice_def slice_elems_def split: option.split)
  have "read h' x = read h x \<and> foot h' x = foot h x" if "x \<in> set (slice_elems sel h s)" for x
    using deep_copy.frame[OF d, of h x h'] e that by (auto simp: foot_array_def)
  then show "map (read h') (slice_elems sel h' s) = map (read h) (slice_elems sel h s) \<and> foot_array sel foot h' s = foot_array sel foot h s"
    by (simp add: same foot_array_def)
next
  fix h h' s t
  assume f: "foot_array sel foot h s \<subseteq> {..<hp_next h}" and c: "make_filled wrap sel clone s h = (t, h')"
  obtain ys h1 where ys: "clone_each clone (slice_elems sel h s) h = (ys, h1)" by (rule prod.exhaust)
  obtain a h2 where a: "heap_new (wrap ys) h1 = (a, h2)" by (rule prod.exhaust)
  have t: "t = Some (a, length ys)" "h' = h2" using c ys a by (simp_all add: make_filled_def)
  have o: "grows h h1" "\<Union> (foot h1 ` set ys) \<subseteq> {hp_next h..<hp_next h1}" "map (read h1) ys = map (read h) (slice_elems sel h s)"
    using deep_copy.each[OF d _ ys] f by (auto simp: foot_array_def)
  note n = grows_new[OF a]
  have k: "read h2 y = read h1 y \<and> foot h2 y = foot h1 y" if "y \<in> set ys" for y
    using deep_copy.kept[OF d, of h1 y h2] o(2) n that by fastforce
  have "hp_cell h2 a = wrap ys" using n by blast
  then have el: "slice_elems sel h2 (Some (a, length ys)) = ys" by (simp add: slice_elems_def sel)
  have "map (read h2) ys = map (read h1) ys" "\<Union> (foot h2 ` set ys) = \<Union> (foot h1 ` set ys)" using k by auto
  then show "grows h h' \<and> foot_array sel foot h' t \<subseteq> {hp_next h..<hp_next h'} \<and>
      map (read h') (slice_elems sel h' t) = map (read h) (slice_elems sel h s)"
    using o n grows_trans[OF o(1)] grows_next[OF o(1)] unfolding t foot_array_def el by (auto simp: foot_slice_def)
qed

section \<open>Every struct of the configuration is copied deeply\<close>

lemma deep_copy_plain: "deep_copy (\<lambda>_ _. {}) (\<lambda>_ x. x) (\<lambda>x h. (x, h))"
  by unfold_locales auto

lemma deep_copy_flag: "(\<And>x. sel (wrap x) = x) \<Longrightarrow> deep_copy (\<lambda>_ a. {a}) (\<lambda>h a. sel (hp_cell h a)) (\<lambda>a h. heap_new (wrap (sel (hp_cell h a))) h)"
  by (rule deep_copy_cell[OF deep_copy_plain]) simp_all

interpretation bool_copy: deep_copy "\<lambda>_. set_option" "read_pointer bool_of" copy_bool
  by (rule deep_copy_pointer[OF deep_copy_flag[of bool_of BoolCell]]) (auto simp: read_pointer_def copy_bool_def split: option.split)

interpretation int_copy: deep_copy "\<lambda>_. set_option" "read_pointer int_of_cell" copy_int64
  by (rule deep_copy_pointer[OF deep_copy_flag[of int_of_cell IntCell]]) (auto simp: read_pointer_def copy_int64_def split: option.split)

lemma deep_copy_append: "(\<And>xs. sel (wrap xs) = xs) \<Longrightarrow> deep_copy (\<lambda>_. foot_slice) (slice_elems sel) (append_nil wrap sel)"
  by unfold_locales
    (auto simp: append_nil_def foot_slice_def heap_new_def grows_def Let_def slice_elems_def min_def split: option.splits if_splits)

interpretation strings_copy: deep_copy "\<lambda>_. foot_slice" "slice_elems strings_of" append_strings by (rule deep_copy_append) simp
interpretation mappings_copy: deep_copy "\<lambda>_. foot_slice" "slice_elems mappings_of" "append_nil MappingsCell mappings_of" by (rule deep_copy_append) simp
interpretation consents_copy: deep_copy "\<lambda>_. foot_slice" "slice_elems consents_of" "append_nil ConsentsCell consents_of" by (rule deep_copy_append) simp

lemmas both_defs = foot_both_def read_both_def clone_both_def

interpretation group_copy: deep_copy foot_group read_group clone_group
  by (rule deep_copy_struct[OF deep_copy_both[OF bool_copy.deep_copy_axioms bool_copy.deep_copy_axioms],
        of _ "\<lambda>g. (pc_security g, pc_mail g)" _ "\<lambda>g (a, b). (pc_plain g)\<lparr>gr_security_enabled := a, gr_mail_enabled := b\<rparr>" _
           "\<lambda>g (a, b). g\<lparr>pc_security := a, pc_mail := b\<rparr>"])
    (auto simp: both_defs foot_group_def read_group_def clone_group_def split: prod.split)

interpretation groups_copy: deep_copy "foot_array groups_of foot_group" "\<lambda>h s. map (read_group h) (slice_elems groups_of h s)"
    "make_filled GroupsCell groups_of clone_group"
  by (rule deep_copy_array[OF group_copy.deep_copy_axioms]) simp

interpretation tenant_copy: deep_copy foot_tenant read_tenant clone_tenant
  by (rule deep_copy_struct[OF deep_copy_both[OF strings_copy.deep_copy_axioms groups_copy.deep_copy_axioms],
        of _ "\<lambda>t. (tc_domains t, tc_groups t)" _ "\<lambda>t (a, b). (tc_plain t)\<lparr>t_domains := a, t_groups := b\<rparr>" _
           "\<lambda>t (a, b). t\<lparr>tc_domains := a, tc_groups := b\<rparr>"])
    (auto simp: both_defs foot_tenant_def read_tenant_def clone_tenant_def split: prod.split)

interpretation app_copy: deep_copy foot_app read_app clone_app
  by (rule deep_copy_struct[OF deep_copy_both[OF strings_copy.deep_copy_axioms mappings_copy.deep_copy_axioms],
        of _ "\<lambda>t. (ac_roles t, ac_claims t)" _ "\<lambda>t (a, b). (ac_plain t)\<lparr>a_roles := a, a_claims := b\<rparr>" _
           "\<lambda>t (a, b). t\<lparr>ac_roles := a, ac_claims := b\<rparr>"])
    (auto simp: both_defs foot_app_def read_app_def clone_app_def split: prod.split)

lemmas user_parts = deep_copy_both[OF strings_copy.deep_copy_axioms deep_copy_both[OF strings_copy.deep_copy_axioms
  deep_copy_both[OF strings_copy.deep_copy_axioms deep_copy_both[OF strings_copy.deep_copy_axioms deep_copy_both[OF strings_copy.deep_copy_axioms
  deep_copy_both[OF strings_copy.deep_copy_axioms deep_copy_both[OF bool_copy.deep_copy_axioms bool_copy.deep_copy_axioms]]]]]]]

interpretation user_copy: deep_copy foot_user read_user clone_user
  by (rule deep_copy_struct[OF user_parts,
        of _ "\<lambda>u. (uc_groups u, uc_amr u, uc_phones u, uc_roles u, uc_wids u, uc_dynamic u, uc_verified u, uc_account u)" _
           "\<lambda>u (a, b, c, d, e, f, v, w). (uc_plain u)\<lparr>u_groups := a, u_amr := b, u_business_phones := c, u_roles := d, u_wids := e,
              u_dynamic_groups := f, u_email_verified := v, u_account_enabled := w\<rparr>" _
           "\<lambda>u (a, b, c, d, e, f, v, w). u\<lparr>uc_groups := a, uc_amr := b, uc_phones := c, uc_roles := d, uc_wids := e, uc_dynamic := f,
              uc_verified := v, uc_account := w\<rparr>"])
    (auto simp: both_defs foot_user_def read_user_def clone_user_def Let_def split: prod.split)

lemma graph_struct_copy: "deep_copy foot_graph read_graph (\<lambda>g h.
     (let (enabled, h1) = copy_bool (gc_enabled g) h; (user_info, h2) = copy_bool (gc_user_info g) h1; (skew, h3) = copy_int64 (gc_clock_skew g) h2
      in (g\<lparr>gc_enabled := enabled, gc_user_info := user_info, gc_clock_skew := skew\<rparr>, h3)))"
  by (rule deep_copy_struct[OF deep_copy_both[OF bool_copy.deep_copy_axioms deep_copy_both[OF bool_copy.deep_copy_axioms int_copy.deep_copy_axioms]],
        of _ "\<lambda>g. (gc_enabled g, gc_user_info g, gc_clock_skew g)" _
           "\<lambda>g (a, b, c). (gc_plain g)\<lparr>g_enabled := a, g_user_info := b, g_clock_skew := c\<rparr>" _
           "\<lambda>g (a, b, c). g\<lparr>gc_enabled := a, gc_user_info := b, gc_clock_skew := c\<rparr>"])
    (auto simp: both_defs foot_graph_def read_graph_def Let_def split: prod.split)

interpretation graph_copy: deep_copy foot_graph_pointer "\<lambda>h p. map_option (read_graph h) (read_pointer graph_of h p)" graph_clone
  by (rule deep_copy_pointer[OF deep_copy_cell[OF graph_struct_copy, of graph_of GraphCell, OF _ refl refl refl]])
    (auto simp: foot_graph_pointer_def read_pointer_def graph_clone_def option.map_comp comp_def Let_def split: option.split prod.split)

lemmas config_parts = deep_copy_both[OF graph_copy.deep_copy_axioms deep_copy_both[OF consents_copy.deep_copy_axioms
  deep_copy_both[OF deep_copy_array[OF tenant_copy.deep_copy_axioms, of tenants_of TenantsCell]
  deep_copy_both[OF deep_copy_array[OF app_copy.deep_copy_axioms, of apps_of AppsCell]
    deep_copy_array[OF user_copy.deep_copy_axioms, of users_of UsersCell]]]]]

definition clone_fields :: "config_cell \<Rightarrow> heap \<Rightarrow> config_cell \<times> heap" where
  "clone_fields c h =
     (let (graph, h1) = graph_clone (cc_graph c) h;
          (consents, h2) = append_nil ConsentsCell consents_of (cc_consents c) h1;
          (tenants, h3) = make_filled TenantsCell tenants_of clone_tenant (cc_tenants c) h2;
          (apps, h4) = make_filled AppsCell apps_of clone_app (cc_apps c) h3;
          (users, h5) = make_filled UsersCell users_of clone_user (cc_users c) h4
      in (c\<lparr>cc_graph := graph, cc_tenants := tenants, cc_consents := consents, cc_apps := apps, cc_users := users\<rparr>, h5))"

interpretation fields_copy: deep_copy foot_fields read_fields clone_fields
  by (rule deep_copy_struct[OF config_parts,
        of _ "\<lambda>c. (cc_graph c, cc_consents c, cc_tenants c, cc_apps c, cc_users c)" _
           "\<lambda>c (g, s, t, a, u). (cc_plain c)\<lparr>c_graph := g, c_tenants := t, c_consents := s, c_apps := a, c_users := u\<rparr>" _
           "\<lambda>c (g, s, t, a, u). c\<lparr>cc_graph := g, cc_tenants := t, cc_consents := s, cc_apps := a, cc_users := u\<rparr>"])
    (auto simp: both_defs foot_fields_def read_fields_def clone_fields_def Let_def split: prod.split)

interpretation config_copy: deep_copy foot_config read_config clone_config
  by (rule deep_copy_cell[OF fields_copy.deep_copy_axioms, of config_of ConfigCell])
    (simp_all add: foot_config_def read_config_def clone_config_def clone_fields_def Let_def split: prod.split)

section \<open>Edits in place (store.go)\<close>

text \<open>
  \<open>kept := xs[:0]; for _, x := range xs { if ... { kept = append(kept, x) } }\<close>: the loop reads element \<open>i\<close> and writes it back at \<open>k\<close>
  of the same backing array.
\<close>

fun compact :: "('a \<Rightarrow> bool) \<Rightarrow> nat \<Rightarrow> nat \<Rightarrow> nat \<Rightarrow> 'a list \<Rightarrow> nat \<times> 'a list" where
  "compact keep 0 i k arr = (k, arr)"
| "compact keep (Suc n) i k arr =
     (if keep (arr ! i) then compact keep n (Suc i) (Suc k) (arr[k := arr ! i]) else compact keep n (Suc i) k arr)"

definition set_users :: "user_cell list \<Rightarrow> cell \<Rightarrow> cell" where "set_users us x = x\<lparr>users_of := us\<rparr>"
definition set_fields :: "config_cell \<Rightarrow> cell \<Rightarrow> cell" where "set_fields c x = x\<lparr>config_of := c\<rparr>"

definition clear_manager_at :: "string \<Rightarrow> string \<Rightarrow> user_cell \<Rightarrow> user_cell" where
  "clear_manager_at tid username u = u\<lparr>uc_plain := clear_manager tid username (uc_plain u)\<rparr>"

definition other_user :: "string \<Rightarrow> string \<Rightarrow> user_cell \<Rightarrow> bool" where
  "other_user tid username u \<longleftrightarrow> \<not> (u_tid (uc_plain u) = tid \<and> u_username (uc_plain u) = username)"

text \<open>The function that \<open>DeleteUser\<close> hands to \<open>mutate\<close>, on the copy at \<open>p\<close>.\<close>

definition heap_delete_user :: "string \<Rightarrow> string \<Rightarrow> nat \<Rightarrow> heap \<Rightarrow> cfg_error option \<times> heap" where
  "heap_delete_user tid username p h =
     (let c = config_of (hp_cell h p) in
      case cc_users c of
        None \<Rightarrow> (Some (ErrUserNotFound username tid), h)
      | Some (a, _) \<Rightarrow>
          let arr = users_of (hp_cell h a);
              n = length (slice_elems users_of h (cc_users c));
              found = (\<not> list_all (other_user tid username) (take n arr));
              (k, arr1) = compact (other_user tid username) n 0 0 arr;
              h1 = heap_write a (set_users arr1) h
          in if \<not> found then (Some (ErrUserNotFound username tid), h1)
             else (None, heap_write a (set_users (map (clear_manager_at tid username) (take k arr1) @ drop k arr1))
                           (heap_write p (set_fields (c\<lparr>cc_users := Some (a, k)\<rparr>)) h1)))"

text \<open>On values this is the function the store of Entra_Store mutates with.\<close>

definition delete_user_fn :: "string \<Rightarrow> string \<Rightarrow> config \<Rightarrow> cfg_error + config" where
  "delete_user_fn tid username c =
     (if \<not> list_ex (\<lambda>u. u_tid u = tid \<and> u_username u = username) (c_users c) then Inl (ErrUserNotFound username tid)
      else Inr (c\<lparr>c_users := map (clear_manager tid username)
             (filter (\<lambda>u. \<not> (u_tid u = tid \<and> u_username u = username)) (c_users c))\<rparr>))"

lemma delete_user_mutates: "delete_user sha1 tid username = mutate sha1 (delete_user_fn (norm_tid tid) username)"
  by (simp add: delete_user_def delete_user_fn_def[abs_def] Let_def)

lemma compact_filter:
  "k \<le> i \<Longrightarrow> i + n \<le> length arr \<Longrightarrow> compact keep n i k arr = (k', arr') \<Longrightarrow>
   take k' arr' = take k arr @ filter keep (take n (drop i arr)) \<and> length arr' = length arr \<and> k' \<le> i + n"
proof (induction keep n i k arr rule: compact.induct)
  case (2 keep n i k arr)
  have i: "i < length arr" using 2 by simp
  have d: "take (Suc n) (drop i arr) = arr ! i # take n (drop (Suc i) arr)" using i by (simp add: Cons_nth_drop_Suc[symmetric])
  show ?case
  proof (cases "keep (arr ! i)")
    case True
    have "drop (Suc i) (arr[k := arr ! i]) = drop (Suc i) arr" using 2(3) by simp
    moreover have "take (Suc k) (arr[k := arr ! i]) = take k arr @ [arr ! i]" using 2(3) i by (simp add: take_Suc_conv_app_nth)
    ultimately show ?thesis using 2(1)[OF True] 2(3-5) True d by simp
  next
    case False
    then show ?thesis using 2(2)[OF False] 2(3-5) d by simp
  qed
qed simp

text \<open>
  What an edit of the configuration at \<open>p\<close> can write to: it follows pointers, so of the memory that exists it reaches what
  \<open>p\<close> leads to and what its caller hands it (\<open>A\<close>, the memory of the arguments: a decoded user, say), and
  it may allocate. What the configuration leads to afterwards comes from the same three places. Nothing is said of which of these
  addresses other snapshots share: that they share none of what \<open>p\<close> leads to is the work of \<open>cloneConfig\<close>.
\<close>

definition confined :: "nat set \<Rightarrow> nat \<Rightarrow> heap \<Rightarrow> heap \<Rightarrow> bool" where
  "confined A p h h' \<longleftrightarrow> hp_next h \<le> hp_next h' \<and> (\<forall>b<hp_next h. b \<notin> foot_config h p \<union> A \<longrightarrow> hp_cell h' b = hp_cell h b) \<and>
     foot_config h' p \<subseteq> foot_config h p \<union> A \<union> {hp_next h..<hp_next h'}"

lemma confined_refl [simp]: "confined A p h h"
  by (auto simp: confined_def)

lemma confined_mono: "confined A p h h' \<Longrightarrow> A \<subseteq> B \<Longrightarrow> confined B p h h'"
  unfolding confined_def by blast

lemma confined_foot: "confined A p h h' \<Longrightarrow> foot_config h p \<subseteq> {..<hp_next h} \<Longrightarrow> A \<subseteq> {..<hp_next h} \<Longrightarrow> foot_config h' p \<subseteq> {..<hp_next h'}"
  by (fastforce simp: confined_def)

lemma confined_trans:
  assumes "confined A p h h1" "confined A p h1 h2"
  shows "confined A p h h2"
proof -
  have le: "hp_next h \<le> hp_next h1" "hp_next h1 \<le> hp_next h2" using assms by (auto simp: confined_def)
  have foot: "foot_config h1 p \<subseteq> foot_config h p \<union> A \<union> {hp_next h..<hp_next h1}" "foot_config h2 p \<subseteq> foot_config h1 p \<union> A \<union> {hp_next h1..<hp_next h2}"
    using assms unfolding confined_def by blast+
  have "hp_cell h2 b = hp_cell h b" if b: "b < hp_next h" "b \<notin> foot_config h p \<union> A" for b
  proof -
    have "b \<notin> foot_config h1 p \<union> A" "b < hp_next h1" using foot(1) b le by auto
    then have "hp_cell h2 b = hp_cell h1 b" using assms(2) unfolding confined_def by blast
    then show ?thesis using assms(1) b unfolding confined_def by auto
  qed
  moreover have "foot_config h2 p \<subseteq> foot_config h p \<union> A \<union> {hp_next h..<hp_next h2}" using foot le by fastforce
  ultimately show ?thesis using le by (auto simp: confined_def)
qed

text \<open>Writing to user arrays and configuration structs leaves what is reached through every other type.\<close>

definition users_only :: "heap \<Rightarrow> heap \<Rightarrow> bool" where
  "users_only h h' \<longleftrightarrow> (\<forall>b. \<exists>us c. hp_cell h' b = (hp_cell h b)\<lparr>users_of := us, config_of := c\<rparr>)"

lemma users_only_sel:
  assumes "users_only h h'"
  shows "bool_of (hp_cell h' b) = bool_of (hp_cell h b)" "int_of_cell (hp_cell h' b) = int_of_cell (hp_cell h b)"
    "strings_of (hp_cell h' b) = strings_of (hp_cell h b)" "mappings_of (hp_cell h' b) = mappings_of (hp_cell h b)"
    "consents_of (hp_cell h' b) = consents_of (hp_cell h b)" "graph_of (hp_cell h' b) = graph_of (hp_cell h b)"
    "groups_of (hp_cell h' b) = groups_of (hp_cell h b)" "tenants_of (hp_cell h' b) = tenants_of (hp_cell h b)"
    "apps_of (hp_cell h' b) = apps_of (hp_cell h b)"
proof -
  obtain us c where "hp_cell h' b = (hp_cell h b)\<lparr>users_of := us, config_of := c\<rparr>" using assms unfolding users_only_def by blast
  then show "bool_of (hp_cell h' b) = bool_of (hp_cell h b)" "int_of_cell (hp_cell h' b) = int_of_cell (hp_cell h b)"
    "strings_of (hp_cell h' b) = strings_of (hp_cell h b)" "mappings_of (hp_cell h' b) = mappings_of (hp_cell h b)"
    "consents_of (hp_cell h' b) = consents_of (hp_cell h b)" "graph_of (hp_cell h' b) = graph_of (hp_cell h b)"
    "groups_of (hp_cell h' b) = groups_of (hp_cell h b)" "tenants_of (hp_cell h' b) = tenants_of (hp_cell h b)"
    "apps_of (hp_cell h' b) = apps_of (hp_cell h b)" by simp_all
qed

lemma users_only_reads:
  assumes "users_only h h'"
  shows "read_user h' = read_user h" "read_tenant h' = read_tenant h" "read_app h' = read_app h" "read_graph h' = read_graph h"
    "foot_graph_pointer h' = foot_graph_pointer h" "foot_array tenants_of foot_tenant h' = foot_array tenants_of foot_tenant h"
    "foot_array apps_of foot_app h' = foot_array apps_of foot_app h" "foot_user h' = foot_user h"
    "slice_elems tenants_of h' = slice_elems tenants_of h" "slice_elems apps_of h' = slice_elems apps_of h"
    "slice_elems consents_of h' = slice_elems consents_of h" "read_pointer graph_of h' = read_pointer graph_of h"
proof -
  note sel = users_only_sel[OF assms]
  have e: "slice_elems strings_of h' = slice_elems strings_of h" "slice_elems mappings_of h' = slice_elems mappings_of h"
    "slice_elems groups_of h' = slice_elems groups_of h" "read_pointer bool_of h' = read_pointer bool_of h"
    "read_pointer int_of_cell h' = read_pointer int_of_cell h" "slice_elems tenants_of h' = slice_elems tenants_of h"
    "slice_elems apps_of h' = slice_elems apps_of h" "slice_elems consents_of h' = slice_elems consents_of h"
    "read_pointer graph_of h' = read_pointer graph_of h"
    by (simp_all add: fun_eq_iff slice_elems_def read_pointer_def sel split: option.split)
  have g: "read_group h' = read_group h" "foot_group h' = foot_group h" by (simp_all add: fun_eq_iff read_group_def foot_group_def e)
  have t: "foot_tenant h' = foot_tenant h" "foot_app h' = foot_app h" by (simp_all add: fun_eq_iff foot_tenant_def foot_app_def foot_array_def e g)
  show "read_user h' = read_user h" "read_tenant h' = read_tenant h" "read_app h' = read_app h" "read_graph h' = read_graph h"
    "foot_graph_pointer h' = foot_graph_pointer h" "foot_array tenants_of foot_tenant h' = foot_array tenants_of foot_tenant h"
    "foot_array apps_of foot_app h' = foot_array apps_of foot_app h" "foot_user h' = foot_user h"
    "slice_elems tenants_of h' = slice_elems tenants_of h" "slice_elems apps_of h' = slice_elems apps_of h"
    "slice_elems consents_of h' = slice_elems consents_of h" "read_pointer graph_of h' = read_pointer graph_of h"
    by (simp_all add: fun_eq_iff read_user_def read_tenant_def read_app_def read_graph_def foot_graph_pointer_def foot_graph_def foot_array_def
        foot_user_def e g t sel split: option.split)
qed

lemma write_users_only: "users_only h (heap_write a (set_users us) h)" "users_only h (heap_write p (set_fields c) h)"
proof -
  have "\<exists>us' c'. hp_cell (heap_write a (set_users us) h) b = (hp_cell h b)\<lparr>users_of := us', config_of := c'\<rparr>" for b
    by (rule exI[of _ "if b = a then us else users_of (hp_cell h b)"], rule exI[of _ "config_of (hp_cell h b)"]) (simp add: heap_write_def set_users_def)
  then show "users_only h (heap_write a (set_users us) h)" by (simp add: users_only_def)
  have "\<exists>us' c'. hp_cell (heap_write p (set_fields c) h) b = (hp_cell h b)\<lparr>users_of := us', config_of := c'\<rparr>" for b
    by (rule exI[of _ "users_of (hp_cell h b)"], rule exI[of _ "if b = p then c else config_of (hp_cell h b)"]) (simp add: heap_write_def set_fields_def)
  then show "users_only h (heap_write p (set_fields c) h)" by (simp add: users_only_def)
qed

lemma users_only_trans: "users_only h h1 \<Longrightarrow> users_only h1 h2 \<Longrightarrow> users_only h h2"
  unfolding users_only_def
proof
  fix b assume a: "\<forall>b. \<exists>us c. hp_cell h1 b = hp_cell h b\<lparr>users_of := us, config_of := c\<rparr>" "\<forall>b. \<exists>us c. hp_cell h2 b = hp_cell h1 b\<lparr>users_of := us, config_of := c\<rparr>"
  obtain us c where "hp_cell h1 b = hp_cell h b\<lparr>users_of := us, config_of := c\<rparr>" using a(1) by blast
  moreover obtain us' c' where "hp_cell h2 b = hp_cell h1 b\<lparr>users_of := us', config_of := c'\<rparr>" using a(2) by blast
  ultimately show "\<exists>us c. hp_cell h2 b = hp_cell h b\<lparr>users_of := us, config_of := c\<rparr>" by auto
qed

text \<open>A user array rewritten with users that reach nothing new keeps the configuration confined, and is what the reader sees.\<close>

lemma users_rewritten:
  assumes only: "users_only h h'" and same: "hp_next h' = hp_next h"
    and c: "config_of (hp_cell h p) = c" "config_of (hp_cell h' p) = c\<lparr>cc_users := s\<rparr>"
    and outside: "\<And>b. b \<notin> foot_config h p \<Longrightarrow> hp_cell h' b = hp_cell h b"
    and s: "foot_slice s \<subseteq> foot_slice (cc_users c)"
    and feet: "\<Union> (foot_user h ` set (slice_elems users_of h' s)) \<subseteq> \<Union> (foot_user h ` set (slice_elems users_of h (cc_users c)))"
  shows "confined {} p h h'"
    "read_config h' p = (read_config h p)\<lparr>c_users := map (read_user h) (slice_elems users_of h' s)\<rparr>"
proof -
  note r = users_only_reads[OF only]
  have "foot_config h' p \<subseteq> foot_config h p"
    using s feet unfolding foot_config_def foot_fields_def c r foot_array_def[of users_of] by (auto simp: r)
  then show "confined {} p h h'" using same outside by (auto simp: confined_def)
  show "read_config h' p = (read_config h p)\<lparr>c_users := map (read_user h) (slice_elems users_of h' s)\<rparr>"
    by (simp add: read_config_def read_fields_def c r)
qed

lemma read_user_plain: "u_tid (read_user h u) = u_tid (uc_plain u)" "u_username (read_user h u) = u_username (uc_plain u)"
  by (simp_all add: read_user_def)

lemma clear_manager_at_reads:
  "read_user h (clear_manager_at tid username u) = clear_manager tid username (read_user h u)"
  "foot_user h (clear_manager_at tid username u) = foot_user h u"
  by (simp_all add: clear_manager_at_def clear_manager_def read_user_def foot_user_def)

lemma heap_write_next [simp]: "hp_next (heap_write a f h) = hp_next h" by (simp add: heap_write_def)

lemma heap_write_cell: "hp_cell (heap_write a f h) b = (if b = a then f (hp_cell h a) else hp_cell h b)" by (simp add: heap_write_def)

lemma heap_delete_user_ok:
  assumes run: "heap_delete_user tid username p h = (e, h')"
  shows "confined {} p h h' \<and> (case delete_user_fn tid username (read_config h p) of
     Inl err \<Rightarrow> e = Some err | Inr c \<Rightarrow> e = None \<and> read_config h' p = c)"
proof (cases "cc_users (config_of (hp_cell h p))")
  case None
  then show ?thesis using run
    by (auto simp: heap_delete_user_def Let_def delete_user_fn_def read_config_def read_fields_def slice_elems_def)
next
  case (Some an)
  obtain a m where am: "cc_users (config_of (hp_cell h p)) = Some (a, m)" using Some by (cases an) simp
  let ?c = "config_of (hp_cell h p)"
  let ?arr = "users_of (hp_cell h a)" and ?us = "slice_elems users_of h (cc_users ?c)"
  let ?keep = "other_user tid username"
  let ?cl = "clear_manager_at tid username"
  have us: "?us = take m ?arr" "take (length ?us) ?arr = ?us" by (simp_all add: slice_elems_def am min_def)
  obtain k arr1 where k: "compact ?keep (length ?us) 0 0 ?arr = (k, arr1)" by (rule prod.exhaust)
  have kept: "take k arr1 = filter ?keep ?us" "length arr1 = length ?arr" "k \<le> length ?us" "length ?us \<le> length ?arr"
    using compact_filter[OF _ _ k] us by (auto simp: us(1))
  have ap: "a \<in> foot_config h p" "p \<in> foot_config h p" using am by (auto simp: foot_config_def foot_fields_def foot_array_def foot_slice_def)
  have users: "c_users (read_config h p) = map (read_user h) ?us" by (simp add: read_config_def read_fields_def)
  have found: "list_ex (\<lambda>u. u_tid u = tid \<and> u_username u = username) (c_users (read_config h p)) \<longleftrightarrow> \<not> list_all ?keep ?us"
    by (simp add: users read_user_plain list_ex_iff list_all_iff other_user_def)
  let ?h1 = "heap_write a (set_users arr1) h"
  have o1: "users_only h ?h1" by (rule write_users_only)
  show ?thesis
  proof (cases "list_all ?keep ?us")
    case True
    then have "filter ?keep ?us = ?us" by (simp add: list_all_iff filter_id_conv)
    then have "k = length ?us" "take (length ?us) arr1 = ?us" using kept by (metis length_take min.absorb2 order_trans)+
    then have el: "slice_elems users_of ?h1 (cc_users ?c) = ?us"
      using kept us by (simp add: slice_elems_def am heap_write_cell set_users_def) (metis length_take take_take us(1) min.commute take_all_iff nat_le_linear min.absorb1 min_def)
    have "e = Some (ErrUserNotFound username tid)" "h' = ?h1"
      using run True by (simp_all add: heap_delete_user_def Let_def am k[unfolded am] us(2)[unfolded am])
    moreover have "confined {} p h ?h1"
      by (rule users_rewritten(1)[OF o1 _ refl, of p "cc_users ?c"]) (use ap el in \<open>auto simp: heap_write_cell set_users_def\<close>)
    ultimately show ?thesis using found True by (simp add: delete_user_fn_def)
  next
    case False
    let ?h2 = "heap_write p (set_fields (?c\<lparr>cc_users := Some (a, k)\<rparr>)) ?h1"
    let ?h3 = "heap_write a (set_users (map ?cl (take k arr1) @ drop k arr1)) ?h2"
    have e: "e = None" "h' = ?h3" using run False by (simp_all add: heap_delete_user_def Let_def am k[unfolded am] us(2)[unfolded am])
    have only: "users_only h ?h3" using users_only_trans write_users_only by blast
    have "k \<le> length arr1" unfolding kept(2) using order_trans[OF kept(3,4)] .
    then have "slice_elems users_of ?h3 (Some (a, k)) = map ?cl (take k arr1)"
      by (simp add: slice_elems_def heap_write_cell set_users_def min_def)
    then have el: "slice_elems users_of ?h3 (Some (a, k)) = map ?cl (filter ?keep ?us)" unfolding kept(1) .
    note w = users_rewritten[OF only _ refl, of p "Some (a, k)"]
    have c: "config_of (hp_cell ?h3 p) = ?c\<lparr>cc_users := Some (a, k)\<rparr>" by (simp add: heap_write_cell set_users_def set_fields_def)
    have feet: "\<Union> (foot_user h ` set (slice_elems users_of ?h3 (Some (a, k)))) \<subseteq> \<Union> (foot_user h ` set ?us)"
      by (auto simp: el clear_manager_at_reads)
    have outside: "hp_cell ?h3 b = hp_cell h b" if "b \<notin> foot_config h p" for b
    proof -
      have "b \<noteq> a" "b \<noteq> p" using that ap by auto
      then show ?thesis by (simp add: heap_write_cell)
    qed
    have "confined {} p h ?h3" "read_config ?h3 p = (read_config h p)\<lparr>c_users := map (read_user h) (slice_elems users_of ?h3 (Some (a, k)))\<rparr>"
      using w[OF _ c outside _ feet] by (simp_all add: foot_slice_def am)
    moreover have "map (read_user h) (slice_elems users_of ?h3 (Some (a, k))) =
        map (clear_manager tid username) (filter (\<lambda>u. \<not> (u_tid u = tid \<and> u_username u = username)) (c_users (read_config h p)))"
      by (simp add: el users clear_manager_at_reads filter_map comp_def read_user_plain other_user_def[abs_def])
    ultimately show ?thesis using e found False by (simp add: delete_user_fn_def)
  qed
qed

text \<open>
  The function \<open>CreateUser\<close> hands to \<open>mutate\<close>: \<open>append\<close> moves the full array of the copy to a new one and stores the
  struct of the caller, with the pointers and slices the caller put there.
\<close>

definition heap_create_user :: "user_cell \<Rightarrow> nat \<Rightarrow> heap \<Rightarrow> cfg_error option \<times> heap" where
  "heap_create_user u p h =
     (let c = config_of (hp_cell h p);
          us = slice_elems users_of h (cc_users c);
          (a, h1) = heap_new (UsersCell (us @ [u])) h
      in (None, heap_write p (set_fields (c\<lparr>cc_users := Some (a, Suc (length us))\<rparr>)) h1))"

lemma heap_create_user_ok:
  assumes foot: "foot_config h p \<subseteq> {..<hp_next h}" "foot_user h u \<subseteq> {..<hp_next h}" and run: "heap_create_user u p h = (e, h')"
  shows "e = None" "confined (foot_user h u) p h h'"
    "read_config h' p = (read_config h p)\<lparr>c_users := c_users (read_config h p) @ [read_user h u]\<rparr>"
proof -
  let ?c = "config_of (hp_cell h p)" let ?us = "slice_elems users_of h (cc_users ?c)"
  obtain a h1 where n: "heap_new (UsersCell (?us @ [u])) h = (a, h1)" by (rule prod.exhaust)
  let ?s = "Some (a, Suc (length ?us))" let ?h2 = "heap_write p (set_fields (?c\<lparr>cc_users := ?s\<rparr>)) h1"
  have e: "e = None" "h' = ?h2" using run n by (simp_all add: heap_create_user_def Let_def)
  then show "e = None" by blast
  note g = grows_new[OF n] and r = users_only_reads[OF write_users_only(2)[of h1 p "?c\<lparr>cc_users := ?s\<rparr>"]]
  have p: "p < hp_next h" "foot_fields h ?c \<subseteq> {..<hp_next h}" using foot(1) by (auto simp: foot_config_def)
  have k: "read_fields h1 ?c = read_fields h ?c" "foot_fields h1 ?c = foot_fields h ?c" using fields_copy.kept[OF p(2)] g by blast+
  have ku: "read_user h1 x = read_user h x \<and> foot_user h1 x = foot_user h x" if "x \<in> set (?us @ [u])" for x
    by (rule user_copy.kept) (use that g foot(2) p(2) in \<open>auto simp: foot_fields_def foot_array_def\<close>)
  have same: "slice_elems users_of h1 (cc_users ?c) = ?us"
  proof (cases "cc_users ?c")
    case (Some am)
    then have "fst am < hp_next h" using p(2) by (auto simp: foot_fields_def foot_array_def foot_slice_def)
    then show ?thesis using g Some by (auto simp: slice_elems_def grows_def split: prod.split)
  qed (simp add: slice_elems_def)
  have "users_of (hp_cell ?h2 a) = ?us @ [u]" 
  proof -
    have "hp_cell h1 a = UsersCell (?us @ [u])" "a \<noteq> p" using g p(1) by auto
    then show ?thesis by (simp add: heap_write_cell)
  qed
  then have el: "slice_elems users_of ?h2 ?s = ?us @ [u]" unfolding slice_elems_def[of _ _ ?s] option.case prod.case by simp
  have c: "config_of (hp_cell ?h2 p) = ?c\<lparr>cc_users := ?s\<rparr>" by (simp add: heap_write_cell set_fields_def)
  have "map (read_user h1) (?us @ [u]) = map (read_user h) (?us @ [u])" using ku by simp
  then have "read_config ?h2 p = (read_fields h1 ?c)\<lparr>c_users := map (read_user h) (?us @ [u])\<rparr>"
    unfolding read_config_def c read_fields_def by (simp add: r el)
  then show "read_config h' p = (read_config h p)\<lparr>c_users := c_users (read_config h p) @ [read_user h u]\<rparr>"
    by (simp add: e(2) k(1) read_config_def) (simp add: read_fields_def)
  have "foot_config ?h2 p \<subseteq> insert p (insert a (foot_fields h1 ?c \<union> \<Union> (foot_user h1 ` set (?us @ [u]))))"
    unfolding foot_config_def c foot_fields_def foot_array_def[of users_of] by (auto simp: r el foot_slice_def)
  moreover have "\<Union> (foot_user h1 ` set (?us @ [u])) \<subseteq> foot_fields h ?c \<union> foot_user h u"
    using ku by (auto simp: foot_fields_def foot_array_def)
  ultimately have f: "foot_config ?h2 p \<subseteq> foot_config h p \<union> foot_user h u \<union> {hp_next h..<hp_next ?h2}"
    using g unfolding k(2) by (auto simp: foot_config_def)
  have "hp_cell ?h2 b = hp_cell h b" if "b < hp_next h" "b \<notin> foot_config h p" for b
    using that g by (auto simp: heap_write_cell grows_def foot_config_def)
  then show "confined (foot_user h u) p h h'" using f g by (auto simp: confined_def e(2))
qed

section \<open>The store in memory\<close>

record memory =
  mem_seed :: nat
  mem_cur :: nat
  mem_heap :: heap
  mem_published :: "(nat \<times> config) list"

text \<open>\<open>mem_published\<close> is a ghost: every snapshot ever published, with what it said when it was.\<close>

definition mem_publish :: "nat \<Rightarrow> heap \<Rightarrow> memory \<Rightarrow> memory" where
  "mem_publish q h m = m\<lparr>mem_cur := q, mem_heap := h, mem_published := (q, read_config h q) # mem_published m\<rparr>"

lemma mem_publish_fields [simp]:
  "mem_seed (mem_publish q h m) = mem_seed m" "mem_heap (mem_publish q h m) = h" "mem_cur (mem_publish q h m) = q"
  by (simp_all add: mem_publish_def)

lemma publishes: "mem_published (mem_publish q h m) = (q, read_config h q) # mem_published m"
  by (simp add: mem_publish_def)

definition heap_new_store :: "nat \<Rightarrow> heap \<Rightarrow> memory" where
  "heap_new_store seed h = (case clone_config seed h of (p, h1) \<Rightarrow>
     \<lparr>mem_seed = seed, mem_cur = p, mem_heap = h1, mem_published = [(p, read_config h1 p)]\<rparr>)"

definition heap_reset :: "memory \<Rightarrow> memory" where
  "heap_reset m = (case clone_config (mem_seed m) (mem_heap m) of (p, h1) \<Rightarrow> mem_publish p h1 m)"

type_synonym edit = "nat \<Rightarrow> heap \<Rightarrow> cfg_error option \<times> heap"

definition heap_mutate :: "edit \<Rightarrow> edit \<Rightarrow> memory \<Rightarrow> cfg_error option \<times> memory" where
  "heap_mutate fn norm m =
     (case clone_config (mem_cur m) (mem_heap m) of (q, h1) \<Rightarrow>
        (case fn q h1 of
           (Some e, h2) \<Rightarrow> (Some e, m\<lparr>mem_heap := h2\<rparr>)
         | (None, h2) \<Rightarrow>
             (case norm q h2 of
                (Some e, h3) \<Rightarrow> (Some e, m\<lparr>mem_heap := h3\<rparr>)
              | (None, h3) \<Rightarrow> (None, mem_publish q h3 m))))"

text \<open>
  The memory the snapshots lead to: the startup configuration and every snapshot ever published, since a reader may still hold it. The
  arguments of an edit come from outside the store, so they lead to none of it (\<open>unreached\<close>).
\<close>

definition snapshot_feet :: "memory \<Rightarrow> nat set" where
  "snapshot_feet m = foot_config (mem_heap m) (mem_seed m) \<union> (\<Union>p \<in> fst ` set (mem_published m). foot_config (mem_heap m) p)"

definition unreached :: "nat set \<Rightarrow> memory \<Rightarrow> bool" where
  "unreached A m \<longleftrightarrow> A \<subseteq> {..<hp_next (mem_heap m)} \<and> A \<inter> snapshot_feet m = {}"

lemma unreached_empty [simp]: "unreached {} m"
  by (simp add: unreached_def)

text \<open>
  Every history of the store: an edit of the copy may write whatever it can reach, succeed or fail at any point, and the rest of the
  program may allocate.
\<close>

inductive mem_reach :: "nat \<Rightarrow> heap \<Rightarrow> memory \<Rightarrow> bool" for seed h0 where
  mem_start: "foot_config h0 seed \<subseteq> {..<hp_next h0} \<Longrightarrow> mem_reach seed h0 (heap_new_store seed h0)"
| mem_edit: "mem_reach seed h0 m \<Longrightarrow> unreached A m \<Longrightarrow> clone_config (mem_cur m) (mem_heap m) = (q, h1) \<Longrightarrow>
     confined A q h1 h2 \<Longrightarrow> mem_reach seed h0 (mem_publish q h2 m)"
| mem_failed: "mem_reach seed h0 m \<Longrightarrow> unreached A m \<Longrightarrow> clone_config (mem_cur m) (mem_heap m) = (q, h1) \<Longrightarrow>
     confined A q h1 h2 \<Longrightarrow> mem_reach seed h0 (m\<lparr>mem_heap := h2\<rparr>)"
| mem_restart: "mem_reach seed h0 m \<Longrightarrow> mem_reach seed h0 (heap_reset m)"
| mem_elsewhere: "mem_reach seed h0 m \<Longrightarrow> grows (mem_heap m) h' \<Longrightarrow> mem_reach seed h0 (m\<lparr>mem_heap := h'\<rparr>)"

definition mem_ok :: "memory \<Rightarrow> bool" where
  "mem_ok m \<longleftrightarrow> snapshot_feet m \<subseteq> {..<hp_next (mem_heap m)} \<and> mem_cur m \<in> fst ` set (mem_published m) \<and>
     (\<forall>p c. (p, c) \<in> set (mem_published m) \<longrightarrow> read_config (mem_heap m) p = c)"

lemma mem_ok_foot:
  assumes "mem_ok m"
  shows "foot_config (mem_heap m) (mem_seed m) \<subseteq> {..<hp_next (mem_heap m)}" "foot_config (mem_heap m) (mem_cur m) \<subseteq> {..<hp_next (mem_heap m)}"
  using assms unfolding mem_ok_def snapshot_feet_def by blast+

text \<open>A heap in which nothing a snapshot leads to was written.\<close>

definition keeps :: "memory \<Rightarrow> heap \<Rightarrow> bool" where
  "keeps m h' \<longleftrightarrow> hp_next (mem_heap m) \<le> hp_next h' \<and> (\<forall>b\<in>snapshot_feet m. hp_cell h' b = hp_cell (mem_heap m) b)"

lemma keeps_frame:
  assumes "keeps m h'"
  shows "p = mem_seed m \<or> p \<in> fst ` set (mem_published m) \<Longrightarrow> read_config h' p = read_config (mem_heap m) p \<and> foot_config h' p = foot_config (mem_heap m) p"
  by (rule config_copy.frame) (use assms in \<open>auto simp: keeps_def snapshot_feet_def\<close>)

lemma grows_keeps: "mem_ok m \<Longrightarrow> grows (mem_heap m) h' \<Longrightarrow> keeps m h'"
  unfolding mem_ok_def keeps_def grows_def by auto

lemma keeps_ok:
  assumes "mem_ok m" "keeps m h'"
  shows "mem_ok (m\<lparr>mem_heap := h'\<rparr>)" "read_config h' (mem_seed m) = read_config (mem_heap m) (mem_seed m)"
    "read_config h' (mem_cur m) = read_config (mem_heap m) (mem_cur m)"
proof -
  note f = keeps_frame[OF assms(2)]
  have "snapshot_feet (m\<lparr>mem_heap := h'\<rparr>) = snapshot_feet m" using f by (simp add: snapshot_feet_def)
  moreover have "read_config h' p = c" if "(p, c) \<in> set (mem_published m)" for p c
    using f[of p] that assms(1) by (force simp: mem_ok_def)
  ultimately show "mem_ok (m\<lparr>mem_heap := h'\<rparr>)" using assms by (force simp: mem_ok_def keeps_def)
  show "read_config h' (mem_seed m) = read_config (mem_heap m) (mem_seed m)" "read_config h' (mem_cur m) = read_config (mem_heap m) (mem_cur m)"
    using f assms(1) unfolding mem_ok_def by blast+
qed

lemma mem_ok_publish:
  assumes "mem_ok m" "keeps m h'" "foot_config h' q \<subseteq> {..<hp_next h'}"
  shows "mem_ok (mem_publish q h' m)"
proof -
  have "snapshot_feet (mem_publish q h' m) = foot_config h' q \<union> snapshot_feet (m\<lparr>mem_heap := h'\<rparr>)"
    by (auto simp: snapshot_feet_def mem_publish_def)
  then show ?thesis using keeps_ok(1)[OF assms(1,2)] assms(3) by (auto simp: mem_ok_def mem_publish_def)
qed

text \<open>
  The copy leads to nothing that existed before (\<open>deep_copy\<close>), so what an edit of it reaches is its own memory and its arguments',
  and nothing a snapshot leads to.
\<close>

lemma edit_keeps:
  assumes m: "mem_ok m" and A: "unreached A m" and q: "clone_config (mem_cur m) (mem_heap m) = (q, h1)" and e: "confined A q h1 h2"
  shows "keeps m h2" "foot_config h2 q \<subseteq> {..<hp_next h2}"
proof -
  let ?next = "hp_next (mem_heap m)"
  note c = config_copy.copy[OF mem_ok_foot(2)[OF m] q]
  then have le: "?next \<le> hp_next h1" using grows_next by blast
  have "hp_cell h2 b = hp_cell (mem_heap m) b" if "b \<in> snapshot_feet m" for b
  proof -
    have b: "b < ?next" using that m by (auto simp: mem_ok_def)
    then have "b \<notin> foot_config h1 q \<union> A" using c that A by (auto simp: unreached_def)
    then have "hp_cell h2 b = hp_cell h1 b" using e b le by (auto simp: confined_def)
    then show ?thesis using c b by (simp add: grows_def)
  qed
  then show "keeps m h2" using le e by (auto simp: keeps_def confined_def)
  have "foot_config h1 q \<subseteq> {..<hp_next h1}" "A \<subseteq> {..<hp_next h1}" using c A le by (auto simp: unreached_def)
  then show "foot_config h2 q \<subseteq> {..<hp_next h2}" using confined_foot[OF e] by blast
qed

lemma mem_reach_ok: "mem_reach seed h0 m \<Longrightarrow> mem_ok m \<and> mem_seed m = seed \<and> read_config (mem_heap m) seed = read_config h0 seed"
proof (induction rule: mem_reach.induct)
  case mem_start
  obtain p h1 where p: "clone_config seed h0 = (p, h1)" by (rule prod.exhaust)
  note c = config_copy.copy[OF mem_start p]
  then have k: "read_config h1 seed = read_config h0 seed" "foot_config h1 seed = foot_config h0 seed" "hp_next h0 \<le> hp_next h1"
    using config_copy.kept[OF mem_start, of h1] grows_next by auto
  then have "foot_config h1 seed \<subseteq> {..<hp_next h1}" "foot_config h1 p \<subseteq> {..<hp_next h1}" using mem_start c by auto
  then show ?case using k(1) by (simp add: mem_ok_def snapshot_feet_def heap_new_store_def p)
next
  case (mem_edit m A q h1 h2)
  note e = edit_keeps[OF _ mem_edit.hyps(2-4)]
  then show ?case using mem_edit.IH mem_ok_publish[of m h2 q] keeps_ok(2)[of m h2] by simp
next
  case (mem_failed m A q h1 h2)
  note e = edit_keeps(1)[OF _ mem_failed.hyps(2-4)]
  then show ?case using mem_failed.IH keeps_ok(1,2)[of m h2] by simp
next
  case (mem_restart m)
  obtain p h1 where p: "clone_config (mem_seed m) (mem_heap m) = (p, h1)" by (rule prod.exhaust)
  note c = config_copy.copy[OF mem_ok_foot(1) p]
  then have "foot_config h1 p \<subseteq> {..<hp_next h1}" "keeps m h1" using mem_restart.IH grows_keeps by fastforce+
  moreover have "heap_reset m = mem_publish p h1 m" by (simp add: heap_reset_def p)
  ultimately show ?case using mem_restart.IH mem_ok_publish[of m h1 p] keeps_ok(2)[of m h1] by simp
next
  case (mem_elsewhere m h')
  then show ?case using keeps_ok(1,2)[of m h'] grows_keeps by simp
qed

text \<open>\<open>CreateUser\<close> with a user the caller decoded is one of these histories: the user leads to memory no snapshot reaches.\<close>

lemma create_user_history:
  assumes m: "mem_reach seed h0 m" and u: "unreached (foot_user (mem_heap m) u) m"
    and q: "clone_config (mem_cur m) (mem_heap m) = (q, h1)" and run: "heap_create_user u q h1 = (e, h2)"
  shows "mem_reach seed h0 (mem_publish q h2 m)"
proof -
  have "mem_ok m" using mem_reach_ok[OF m] by blast
  then have c: "grows (mem_heap m) h1" "foot_config h1 q \<subseteq> {..<hp_next h1}" using config_copy.copy[OF mem_ok_foot(2) q] by fastforce+
  have f: "foot_user (mem_heap m) u \<subseteq> {..<hp_next (mem_heap m)}" using u by (simp add: unreached_def)
  then have k: "foot_user h1 u = foot_user (mem_heap m) u" using user_copy.kept[OF _ c(1)] by blast
  have "foot_user h1 u \<subseteq> {..<hp_next h1}" using f k grows_next[OF c(1)] by auto
  from heap_create_user_ok(2)[OF c(2) this run] show ?thesis using mem_edit[OF m u q] unfolding k by blast
qed

text \<open>C9: snapshots_frozen. Whatever the edits of a mutation write to the memory they can reach (what the copy leads to, their arguments, new
  memory), in whatever order mutations succeed, fail or are reset, every
  snapshot a reader may still hold says what it said when it was published, and so does the startup configuration.\<close>

theorem snapshots_frozen:
  assumes "mem_reach seed h0 m"
  shows "list_all (\<lambda>(p, c). read_config (mem_heap m) p = c) (mem_published m) \<and> read_config (mem_heap m) seed = read_config h0 seed"
  using mem_reach_ok[OF assms] by (auto simp: mem_ok_def list_all_iff)

section \<open>A mutation in memory refines the one on values\<close>

text \<open>An edit in place that reaches its arguments in \<open>A\<close> carries out a function on configurations.\<close>

definition implements :: "nat set \<Rightarrow> edit \<Rightarrow> (config \<Rightarrow> cfg_error + config) \<Rightarrow> bool" where
  "implements A edit f \<longleftrightarrow> (\<forall>h p e h'. foot_config h p \<subseteq> {..<hp_next h} \<longrightarrow> edit p h = (e, h') \<longrightarrow>
     confined A p h h' \<and> (case f (read_config h p) of Inl err \<Rightarrow> e = Some err | Inr c \<Rightarrow> e = None \<and> read_config h' p = c))"

lemma implementsD: "implements A edit f \<Longrightarrow> foot_config h p \<subseteq> {..<hp_next h} \<Longrightarrow> edit p h = (e, h') \<Longrightarrow>
  confined A p h h' \<and> (case f (read_config h p) of Inl err \<Rightarrow> e = Some err | Inr c \<Rightarrow> e = None \<and> read_config h' p = c)"
  unfolding implements_def by blast

lemma delete_user_implements: "implements {} (heap_delete_user tid username) (delete_user_fn tid username)"
  using heap_delete_user_ok unfolding implements_def by blast

definition mem_store :: "memory \<Rightarrow> store" where
  "mem_store m = \<lparr>st_seed = read_config (mem_heap m) (mem_seed m), st_cur = read_config (mem_heap m) (mem_cur m)\<rparr>"

lemma new_store_refines:
  assumes "foot_config h seed \<subseteq> {..<hp_next h}"
  shows "mem_store (heap_new_store seed h) = new_store (read_config h seed)"
proof -
  obtain p h1 where p: "clone_config seed h = (p, h1)" by (rule prod.exhaust)
  show ?thesis using config_copy.copy[OF assms p] config_copy.kept[OF assms, of h1] by (simp add: mem_store_def heap_new_store_def p new_store_def)
qed

lemma reset_refines:
  assumes "mem_ok m"
  shows "mem_store (heap_reset m) = store_reset (mem_store m)"
proof -
  obtain p h1 where p: "clone_config (mem_seed m) (mem_heap m) = (p, h1)" by (rule prod.exhaust)
  show ?thesis using mem_ok_foot(1)[OF assms] config_copy.copy[OF _ p] config_copy.kept[of "mem_heap m" "mem_seed m" h1]
    by (simp add: mem_store_def heap_reset_def p store_reset_def)
qed

text \<open>
  Whatever carries out \<open>normalize\<close> in place, a mutation with an implemented edit acts on the store as \<open>mutate\<close> does, and is
  one of the histories above.
\<close>

lemma heap_mutate_refines:
  assumes fn: "implements A fn f" and norm: "implements {} norm (normalize sha1)" and m: "mem_ok m" and A: "unreached A m"
    and run: "heap_mutate fn norm m = (e, m')"
  shows "mutate sha1 f (mem_store m) = (e, mem_store m')" "mem_reach seed h0 m \<Longrightarrow> mem_reach seed h0 m'"
proof -
  let ?h = "mem_heap m"
  obtain q h1 where q: "clone_config (mem_cur m) ?h = (q, h1)" by (rule prod.exhaust)
  obtain e1 h2 where h2: "fn q h1 = (e1, h2)" by (rule prod.exhaust)
  obtain e2 h3 where h3: "norm q h2 = (e2, h3)" by (rule prod.exhaust)
  note c = config_copy.copy[OF mem_ok_foot(2)[OF m] q]
  have f1: "foot_config h1 q \<subseteq> {..<hp_next h1}" and r1: "read_config h1 q = read_config ?h (mem_cur m)" using c by auto
  note a = implementsD[OF fn f1 h2]
  then have conf: "confined A q h1 h2" by blast
  note b = implementsD[OF norm edit_keeps(2)[OF m A q conf] h3]
  then have conf3: "confined A q h1 h3" using confined_trans[OF conf] confined_mono[of "{}" q h2 h3 A] by blast
  have kept: "read_config h' (mem_seed m) = read_config ?h (mem_seed m)" "read_config h' (mem_cur m) = read_config ?h (mem_cur m)"
    if "confined A q h1 h'" for h'
    using keeps_ok(2,3)[OF m edit_keeps(1)[OF m A q that]] by blast+
  show "mutate sha1 f (mem_store m) = (e, mem_store m')"
    using run a b r1 kept[OF conf] kept[OF conf3]
    by (auto simp: heap_mutate_def q h2 h3 mutate_def mem_store_def ebind_def split: option.splits sum.splits)
  show "mem_reach seed h0 m'" if "mem_reach seed h0 m"
    using run mem_edit[OF that A q conf3] mem_failed[OF that A q conf] mem_failed[OF that A q conf3]
    by (auto simp: heap_mutate_def q h2 h3 split: option.splits)
qed

section \<open>A mutation while a reader holds the old snapshot\<close>

definition heap_user :: "string \<Rightarrow> slice \<Rightarrow> user_cell" where
  "heap_user name groups = \<lparr>uc_plain = plain_user tid_a [] name, uc_groups = groups, uc_amr = None, uc_phones = None, uc_roles = None,
     uc_wids = None, uc_dynamic = None, uc_verified = None, uc_account = None\<rparr>"

text \<open>A startup configuration with two users, the first in one group.\<close>

definition sample_heap :: heap where
  "sample_heap = \<lparr>hp_cell = (\<lambda>a. if a = 0 then ConfigCell \<lparr>cc_plain = empty_fields, cc_graph = None, cc_tenants = None, cc_consents = None, cc_apps = None,
        cc_users = Some (1, 2)\<rparr>
      else if a = 1 then UsersCell [heap_user ''alice'' (Some (2, 1)), heap_user ''bob'' None] else StringsCell [''staff'']), hp_next = 3\<rparr>"

lemma sample_heap_facts:
  "foot_config sample_heap 0 \<subseteq> {..<hp_next sample_heap}" "map u_username (c_users (read_config sample_heap 0)) = [''alice'', ''bob'']"
  "list_all (\<lambda>u. u_tid u = tid_a) (c_users (read_config sample_heap 0))"
  by (auto simp: foot_config_def foot_fields_def foot_graph_pointer_def foot_array_def foot_slice_def foot_user_def sample_heap_def heap_user_def
      slice_elems_def read_config_def read_fields_def read_user_def plain_user_def)

text \<open>
  What the copy is for: a copy of the configuration struct alone reads the same, and the edit of \<open>DeleteUser\<close> on it is as confined, but it
  overwrites the user array of the snapshot it was taken from.
\<close>

definition shallow_copy :: "nat \<Rightarrow> heap \<Rightarrow> nat \<times> heap" where
  "shallow_copy p h = heap_new (ConfigCell (config_of (hp_cell h p))) h"

lemma shallow_copy_leaks:
  "case shallow_copy 0 sample_heap of (q, h1) \<Rightarrow> map u_username (c_users (read_config h1 q)) = [''alice'', ''bob''] \<and>
     (case heap_delete_user tid_a ''alice'' q h1 of (e, h2) \<Rightarrow> confined {} q h1 h2 \<and> map u_username (c_users (read_config h2 0)) = [''bob'', ''bob''])"
proof -
  obtain q h1 where q: "shallow_copy 0 sample_heap = (q, h1)" by (rule prod.exhaust)
  obtain e h2 where h2: "heap_delete_user tid_a ''alice'' q h1 = (e, h2)" by (rule prod.exhaust)
  note defs = read_config_def read_fields_def read_user_def plain_user_def slice_elems_def heap_user_def
  have h: "q = 3" "h1 = sample_heap\<lparr>hp_cell := (hp_cell sample_heap)(3 := ConfigCell (config_of (hp_cell sample_heap 0))), hp_next := 4\<rparr>"
    using q by (auto simp: shallow_copy_def heap_new_def sample_heap_def)
  have "map u_username (c_users (read_config h1 q)) = [''alice'', ''bob'']" by (simp add: h defs sample_heap_def)
  moreover have "map u_username (c_users (read_config h2 0)) = [''bob'', ''bob'']"
    using h2 by (auto simp: h heap_delete_user_def Let_def sample_heap_def defs heap_write_def set_users_def set_fields_def other_user_def
        clear_manager_at_def clear_manager_def numeral_eq_Suc)
  ultimately show ?thesis using heap_delete_user_ok[OF h2] by (simp add: q h2)
qed

lemma published_names: "ps = [(p, c), (q, d)] \<Longrightarrow>
  map (\<lambda>(p, c). map u_username (c_users (read_config h p))) ps = [map u_username (c_users (read_config h p)), map u_username (c_users (read_config h q))]"
  by simp

theorem snapshots_frozen_witness:
  "\<exists>m. mem_reach 0 sample_heap m \<and> map (\<lambda>(p, c). map u_username (c_users (read_config (mem_heap m) p))) (mem_published m) = [[''bob''], [''alice'', ''bob'']]"
proof -
  let ?start = "heap_new_store 0 sample_heap" and ?seed = "read_config sample_heap 0"
  have r0: "mem_reach 0 sample_heap ?start" using mem_start sample_heap_facts(1) by blast
  then have ok: "mem_ok ?start" using mem_reach_ok by blast
  have "st_cur (mem_store ?start) = ?seed" using new_store_refines[OF sample_heap_facts(1)] by (simp add: new_store_def)
  then have cur: "read_config (mem_heap ?start) (mem_cur ?start) = ?seed" by (simp add: mem_store_def)
  have "\<exists>c. mem_published ?start = [(mem_cur ?start, c)]" by (cases "clone_config 0 sample_heap") (simp add: heap_new_store_def)
  then obtain c where pub: "mem_published ?start = [(mem_cur ?start, c)]" by blast
  obtain q h1 where q: "clone_config (mem_cur ?start) (mem_heap ?start) = (q, h1)" by (rule prod.exhaust)
  obtain e h2 where h2: "heap_delete_user (tid_a) ''alice'' q h1 = (e, h2)" by (rule prod.exhaust)
  have r1: "read_config h1 q = ?seed" using config_copy.copy[OF mem_ok_foot(2)[OF ok] q] cur by simp
  note d = heap_delete_user_ok[OF h2]
  let ?later = "mem_publish q h2 ?start"
  have reach: "mem_reach 0 sample_heap ?later" using mem_edit[OF r0 unreached_empty q] d by blast
  obtain a b where ab: "c_users ?seed = [a, b]" "u_username a = ''alice''" "u_username b = ''bob''" "u_tid a = tid_a" "u_tid b = tid_a"
    using sample_heap_facts(2,3) by (auto simp: map_eq_Cons_conv)
  have bob: "map u_username (c_users (read_config h2 q)) = [''bob'']"
    using d by (simp add: r1 delete_user_fn_def ab clear_manager_def)
  have old: "read_config h2 (mem_cur ?start) = c" using snapshots_frozen[OF reach] by (simp add: mem_publish_def pub)
  have start: "c = ?seed" using snapshots_frozen[OF r0] cur by (simp add: pub)
  have both: "map u_username (c_users (read_config h2 (mem_cur ?start))) = [''alice'', ''bob'']"
    unfolding old start by (rule sample_heap_facts(2))
  have "mem_published ?later = [(q, read_config h2 q), (mem_cur ?start, c)]" unfolding publishes pub ..
  from published_names[OF this, of h2] have "map (\<lambda>(p, c). map u_username (c_users (read_config (mem_heap ?later) p))) (mem_published ?later) =
      [[''bob''], [''alice'', ''bob'']]"
    unfolding bob both mem_publish_fields .
  with reach show ?thesis by (intro exI[of _ ?later] conjI)
qed

end
