(* ===== verification/Token_Lock.thy ===== *)
theory Token_Lock
  imports Token_Jwk
begin

text \<open>
  The key provider at the level of its lock (internal/token/keyprovider.go, \<open>SigningKey\<close> and \<open>keyFromPoolOrNew\<close>).

  Token_Keys takes the removal from the pool for one step. In the program it is a critical section: \<open>Lock\<close>, the test of the length, the
  read of the first key, the new slice, \<open>Unlock\<close>, and the key is made after it. Here each of these is a step of its own, a call waits while
  the mutex is held, and the shared state is the provider with its mutex. The atomic reading is then a theorem: every schedule of the small
  steps is, seen through \<open>lk_abs\<close>, a schedule of \<open>kp_step\<close>. What mutual exclusion gives and what it could cost, keys handed out twice
  and calls that wait for ever, are settled on the small steps.
\<close>

section \<open>The small steps\<close>

text \<open>Where a call is: \<open>LkRead\<close> has read \<open>p.initial[0]\<close> but not yet moved the slice, \<open>LkTaken\<close> is about to unlock.\<close>

datatype lk_call =
    LkStart string
  | LkMissed string
  | LkLocked string
  | LkRead string signing_key
  | LkTaken string "signing_key option"
  | LkUnlocked string "signing_key option"
  | LkHolding string signing_key
  | LkDone string signing_key

definition pooled_key :: "string \<Rightarrow> string \<Rightarrow> signing_key \<Rightarrow> signing_key" where
  "pooled_key iss alg pooled = \<lparr>sk_kty = sk_kty pooled, sk_kid = iss, sk_alg = alg, sk_use = ''sig'', sk_private = sk_private pooled\<rparr>"

text \<open>
  The next step of one call on the provider and its mutex. \<open>None\<close>: it cannot take one, because it has returned or waits for the mutex (or because
  the code would panic there, slicing an empty pool or unlocking a mutex that is not held).
\<close>

fun lk_move :: "nat \<Rightarrow> key_provider \<Rightarrow> bool \<Rightarrow> lk_call \<Rightarrow> (key_provider \<times> bool \<times> lk_call) option" where
  "lk_move rsa p locked (LkStart iss) =
     (case map_get (kp_keys p) iss of Some k \<Rightarrow> Some (p, locked, LkDone iss k) | None \<Rightarrow> Some (p, locked, LkMissed iss))"
| "lk_move rsa p locked (LkMissed iss) = (if locked then None else Some (p, True, LkLocked iss))"
| "lk_move rsa p locked (LkLocked iss) =
     (case kp_initial p of [] \<Rightarrow> Some (p, locked, LkTaken iss None) | k # _ \<Rightarrow> Some (p, locked, LkRead iss k))"
| "lk_move rsa p locked (LkRead iss k) =
     (case kp_initial p of [] \<Rightarrow> None | _ # rest \<Rightarrow> Some (p\<lparr>kp_initial := rest\<rparr>, locked, LkTaken iss (Some k)))"
| "lk_move rsa p locked (LkTaken iss pooled) = (if locked then Some (p, False, LkUnlocked iss pooled) else None)"
| "lk_move rsa p locked (LkUnlocked iss pooled) =
     Some (p, locked, LkHolding iss (case pooled of Some k \<Rightarrow> pooled_key iss (kp_alg p) k | None \<Rightarrow> generate_key iss (kp_alg p) (kp_family p) rsa))"
| "lk_move rsa p locked (LkHolding iss key) =
     (case load_or_store iss key p of (actual, p') \<Rightarrow> Some (p', locked, LkDone iss actual))"
| "lk_move rsa p locked (LkDone iss key) = None"

record lk_system =
  lk_provider :: key_provider
  lk_mutex :: bool
  lk_calls :: "lk_call list"

definition lk_start :: "key_provider \<Rightarrow> string list \<Rightarrow> lk_system" where
  "lk_start p isss = \<lparr>lk_provider = p, lk_mutex = False, lk_calls = map LkStart isss\<rparr>"

inductive lk_step :: "lk_system \<Rightarrow> lk_system \<Rightarrow> bool" where
  lk_any: "i < length (lk_calls s) \<Longrightarrow> lk_move rsa (lk_provider s) (lk_mutex s) (lk_calls s ! i) = Some (p, locked, c) \<Longrightarrow>
     lk_step s \<lparr>lk_provider = p, lk_mutex = locked, lk_calls = (lk_calls s)[i := c]\<rparr>"

inductive lk_reach :: "lk_system \<Rightarrow> lk_system \<Rightarrow> bool" for s0 where
  lk_refl: "lk_reach s0 s0"
| lk_trans: "lk_reach s0 s \<Longrightarrow> lk_step s s' \<Longrightarrow> lk_reach s0 s'"

inductive_cases lk_stepE: "lk_step s s'"

text \<open>A schedule: which call moves next, and the number its key would get if it is generated.\<close>

fun lk_run :: "(nat \<times> nat) list \<Rightarrow> lk_system \<Rightarrow> lk_system option" where
  "lk_run [] s = Some s"
| "lk_run ((i, rsa) # sched) s =
     (if i < length (lk_calls s) then
        (case lk_move rsa (lk_provider s) (lk_mutex s) (lk_calls s ! i) of
           None \<Rightarrow> None
         | Some (p, locked, c) \<Rightarrow> lk_run sched \<lparr>lk_provider = p, lk_mutex = locked, lk_calls = (lk_calls s)[i := c]\<rparr>)
      else None)"

lemma lk_step_reach: "lk_step s t \<Longrightarrow> lk_reach t u \<Longrightarrow> lk_reach s u"
  by (rotate_tac 1, induction rule: lk_reach.induct) (auto intro: lk_reach.intros)

lemma lk_run_reach: "lk_run sched s = Some t \<Longrightarrow> lk_reach s t"
proof (induction sched s rule: lk_run.induct)
  case (2 i rsa sched s)
  then obtain p locked c where m: "i < length (lk_calls s)" "lk_move rsa (lk_provider s) (lk_mutex s) (lk_calls s ! i) = Some (p, locked, c)"
    "lk_run sched \<lparr>lk_provider = p, lk_mutex = locked, lk_calls = (lk_calls s)[i := c]\<rparr> = Some t"
    by (auto split: if_splits option.splits)
  show ?case by (rule lk_step_reach[OF lk_any[OF m(1,2)] 2(1)[OF m(1,2) refl refl m(3)]])
qed (simp add: lk_refl)

section \<open>Mutual exclusion\<close>

fun in_lock :: "lk_call \<Rightarrow> bool" where
  "in_lock (LkLocked _) = True"
| "in_lock (LkRead _ _) = True"
| "in_lock (LkTaken _ _) = True"
| "in_lock _ = False"

text \<open>What a call knows of the pool: the key it has read is still the first one; if it found the pool empty, it is.\<close>

fun read_ok :: "signing_key list \<Rightarrow> lk_call \<Rightarrow> bool" where
  "read_ok pool (LkRead _ k) = (\<exists>rest. pool = k # rest)"
| "read_ok pool (LkTaken _ None) = (pool = [])"
| "read_ok pool (LkUnlocked _ None) = (pool = [])"
| "read_ok pool _ = True"

definition lock_ok :: "lk_system \<Rightarrow> bool" where
  "lock_ok s \<longleftrightarrow> length (filter in_lock (lk_calls s)) = (if lk_mutex s then 1 else 0) \<and>
     (\<forall>c\<in>set (lk_calls s). read_ok (kp_initial (lk_provider s)) c)"

lemma filter_update:
  "i < length xs \<Longrightarrow> length (filter P (xs[i := y])) + (if P (xs ! i) then 1 else 0) = length (filter P xs) + (if P y then 1 else 0)"
proof (induction xs arbitrary: i)
  case (Cons x xs)
  then show ?case using Cons.IH[of "i - 1"] by (cases i) simp_all
qed simp

lemma others_outside:
  assumes "lock_ok s" "i < length (lk_calls s)" "in_lock (lk_calls s ! i)" "d \<in> set ((lk_calls s)[i := LkDone iss k])"
  shows "\<not> in_lock d"
proof -
  have "length (filter in_lock (lk_calls s)) \<le> 1" using assms(1) by (simp add: lock_ok_def)
  then have "length (filter in_lock ((lk_calls s)[i := LkDone iss k])) = 0"
    using filter_update[OF assms(2), of in_lock "LkDone iss k"] assms(3) by (simp del: length_0_conv)
  then show ?thesis using assms(4) by (auto simp: filter_empty_conv)
qed

lemma read_ok_outside: "read_ok pool d \<Longrightarrow> \<not> in_lock d \<Longrightarrow> pool = k # rest \<Longrightarrow> read_ok pool' d"
  by (cases "(pool', d)" rule: read_ok.cases) auto

lemma lock_start: "lock_ok (lk_start p isss)"
  by (auto simp: lock_ok_def lk_start_def filter_map comp_def)

text \<open>What one step does to the mutex, the pool and what the moving call knows.\<close>

lemma load_or_store_frame:
  "load_or_store iss key p = (actual, p') \<Longrightarrow> kp_initial p' = kp_initial p \<and> kp_alg p' = kp_alg p \<and> kp_family p' = kp_family p"
  by (auto simp: load_or_store_def split: option.splits)

lemma lk_move_effect:
  assumes "lk_move rsa p locked c = Some (p', locked', c')" "read_ok (kp_initial p) c"
  shows "read_ok (kp_initial p') c'" "kp_alg p' = kp_alg p" "kp_family p' = kp_family p"
    "kp_initial p' \<noteq> kp_initial p \<Longrightarrow> in_lock c \<and> (\<exists>k rest. kp_initial p = k # rest)"
    "(if locked then 1 else 0) + (if in_lock c' then 1 else 0) = (if locked' then 1 else 0 :: nat) + (if in_lock c then 1 else 0)"
proof -
  have "read_ok (kp_initial p') c' \<and> kp_alg p' = kp_alg p \<and> kp_family p' = kp_family p \<and>
    (kp_initial p' \<noteq> kp_initial p \<longrightarrow> in_lock c \<and> (\<exists>k rest. kp_initial p = k # rest)) \<and>
    (if locked then 1 else 0) + (if in_lock c' then 1 else 0) = (if locked' then 1 else 0 :: nat) + (if in_lock c then 1 else 0)"
  proof (cases c)
    case (LkStart iss)
    then show ?thesis using assms by (cases "map_get (kp_keys p) iss") auto
  next
    case (LkLocked iss)
    then show ?thesis using assms by (cases "kp_initial p") auto
  next
    case (LkRead iss k)
    then show ?thesis using assms by (cases "kp_initial p") auto
  next
    case (LkTaken iss pooled)
    then show ?thesis using assms by (cases pooled) (auto split: if_splits)
  next
    case (LkHolding iss key)
    then show ?thesis using assms load_or_store_frame by (auto split: prod.splits)
  qed (use assms in \<open>auto split: if_splits\<close>)
  then show "read_ok (kp_initial p') c'" "kp_alg p' = kp_alg p" "kp_family p' = kp_family p"
    "kp_initial p' \<noteq> kp_initial p \<Longrightarrow> in_lock c \<and> (\<exists>k rest. kp_initial p = k # rest)"
    "(if locked then 1 else 0) + (if in_lock c' then 1 else 0) = (if locked' then 1 else 0 :: nat) + (if in_lock c then 1 else 0)"
    by blast+
qed

lemma lock_step:
  assumes "lk_step s s'" "lock_ok s"
  shows "lock_ok s'"
  using assms(1)
proof cases
  case (lk_any i rsa p locked c)
  let ?old = "lk_calls s ! i" and ?pool = "kp_initial (lk_provider s)"
  have old: "read_ok ?pool ?old" using assms(2) lk_any(2) by (auto simp: lock_ok_def)
  note e = lk_move_effect[OF lk_any(3) old]
  have "read_ok (kp_initial p) d" if d: "d \<in> set ((lk_calls s)[i := c])" for d
  proof (cases "kp_initial p = ?pool")
    case True
    then show ?thesis using d e(1) assms(2) set_update_subset_insert[of "lk_calls s" i c] by (auto simp: lock_ok_def)
  next
    case False
    then obtain k rest where il: "in_lock ?old" and pool: "?pool = k # rest" using e(4) by blast
    from d obtain j where j: "j < length (lk_calls s)" "d = (lk_calls s)[i := c] ! j" by (auto simp: in_set_conv_nth)
    show ?thesis
    proof (cases "j = i")
      case True
      then show ?thesis using e(1) j by simp
    next
      case False
      then have dj: "d = (lk_calls s)[i := LkDone [] k] ! j" "d = lk_calls s ! j" using j by simp_all
      have "read_ok ?pool d" using assms(2) j(1) dj(2) by (auto simp: lock_ok_def)
      moreover have "\<not> in_lock d" using others_outside[OF assms(2) lk_any(2) il, of d "[]" k] dj(1) j(1) by (auto simp: in_set_conv_nth)
      ultimately show ?thesis using read_ok_outside pool by blast
    qed
  qed
  moreover have "length (filter in_lock ((lk_calls s)[i := c])) = (if locked then 1 else 0)"
    using filter_update[OF lk_any(2), of in_lock c] e(5) assms(2) by (auto simp: lock_ok_def split: if_splits)
  ultimately show ?thesis by (simp add: lk_any(1) lock_ok_def)
qed

lemma lock_reach: "lk_reach s0 s \<Longrightarrow> lock_ok s0 \<Longrightarrow> lock_ok s"
  by (induction rule: lk_reach.induct) (auto intro: lock_step)

lemma lk_step_keeps:
  assumes "lk_step s s'" "lock_ok s"
  shows "length (lk_calls s') = length (lk_calls s)" "kp_alg (lk_provider s') = kp_alg (lk_provider s)"
proof -
  obtain i rsa p locked c where a: "s' = \<lparr>lk_provider = p, lk_mutex = locked, lk_calls = (lk_calls s)[i := c]\<rparr>" "i < length (lk_calls s)"
    "lk_move rsa (lk_provider s) (lk_mutex s) (lk_calls s ! i) = Some (p, locked, c)"
    using assms(1) by (rule lk_stepE)
  have "read_ok (kp_initial (lk_provider s)) (lk_calls s ! i)" using assms(2) a(2) by (simp add: lock_ok_def)
  then show "length (lk_calls s') = length (lk_calls s)" "kp_alg (lk_provider s') = kp_alg (lk_provider s)"
    using lk_move_effect(2)[OF a(3)] by (simp_all add: a(1))
qed

lemma lk_reach_keeps: "lk_reach s0 s \<Longrightarrow> lock_ok s0 \<Longrightarrow>
  length (lk_calls s) = length (lk_calls s0) \<and> kp_alg (lk_provider s) = kp_alg (lk_provider s0)"
proof (induction rule: lk_reach.induct)
  case (lk_trans s s')
  then show ?case using lk_step_keeps[OF lk_trans.hyps(2) lock_reach[OF lk_trans.hyps(1) lk_trans.prems]] by simp
qed simp

section \<open>The small steps refine the atomic ones\<close>

text \<open>
  A call inside the critical section counts as one that has missed until it moves the slice, and from then on as one that holds the key it will make
  of what it took. A call that found the pool empty counts as one that has missed until it has generated its key.
\<close>

fun lk_abs_call :: "string \<Rightarrow> lk_call \<Rightarrow> kp_call" where
  "lk_abs_call alg (LkStart iss) = CallStart iss"
| "lk_abs_call alg (LkMissed iss) = CallMissed iss"
| "lk_abs_call alg (LkLocked iss) = CallMissed iss"
| "lk_abs_call alg (LkRead iss k) = CallMissed iss"
| "lk_abs_call alg (LkTaken iss pooled) = (case pooled of None \<Rightarrow> CallMissed iss | Some k \<Rightarrow> CallHolding iss (pooled_key iss alg k))"
| "lk_abs_call alg (LkUnlocked iss pooled) = (case pooled of None \<Rightarrow> CallMissed iss | Some k \<Rightarrow> CallHolding iss (pooled_key iss alg k))"
| "lk_abs_call alg (LkHolding iss k) = CallHolding iss k"
| "lk_abs_call alg (LkDone iss k) = CallDone iss k"

definition lk_abs :: "lk_system \<Rightarrow> kp_system" where
  "lk_abs s = \<lparr>ks_provider = lk_provider s, ks_calls = map (lk_abs_call (kp_alg (lk_provider s))) (lk_calls s)\<rparr>"

lemma lk_abs_start: "lk_abs (lk_start p isss) = \<lparr>ks_provider = p, ks_calls = map CallStart isss\<rparr>"
  by (simp add: lk_abs_def lk_start_def)

lemma pool_steps: "kp_initial p = [] \<Longrightarrow> key_from_pool_or_new iss rsa p = (generate_key iss (kp_alg p) (kp_family p) rsa, p)"
  "kp_initial p = k # rest \<Longrightarrow> key_from_pool_or_new iss rsa p = (pooled_key iss (kp_alg p) k, p\<lparr>kp_initial := rest\<rparr>)"
  by (simp_all add: key_from_pool_or_new_def pooled_key_def)

text \<open>One move of a call is a step of the atomic provider, or none.\<close>

lemma lk_move_abs:
  assumes m: "lk_move rsa p locked c = Some (p', locked', c')" and r: "read_ok (kp_initial p) c"
    and i: "i < length (ks_calls a)" and a: "ks_provider a = p" "ks_calls a ! i = lk_abs_call (kp_alg p) c"
  shows "p' = p \<and> lk_abs_call (kp_alg p) c' = lk_abs_call (kp_alg p) c \<or>
    kp_step a \<lparr>ks_provider = p', ks_calls = (ks_calls a)[i := lk_abs_call (kp_alg p) c']\<rparr>"
proof (cases c)
  case (LkStart iss)
  then show ?thesis using m a step_miss[OF i, of iss] step_hit[OF i, of iss] by (cases "map_get (kp_keys p) iss") (cases a; auto)+
next
  case (LkLocked iss)
  then show ?thesis using m by (cases "kp_initial p") auto
next
  case (LkRead iss k)
  then obtain rest where k: "kp_initial p = k # rest" using r by auto
  then show ?thesis using m a LkRead step_take[OF i, of iss rsa, unfolded a(1), OF _ pool_steps(2)[OF k]] by (cases a) auto
next
  case (LkUnlocked iss pooled)
  show ?thesis
  proof (cases pooled)
    case None
    then have "kp_initial p = []" using r LkUnlocked by simp
    then show ?thesis using m a LkUnlocked None step_take[OF i, of iss rsa, unfolded a(1), OF _ pool_steps(1)] by (cases a) auto
  qed (use m LkUnlocked in auto)
next
  case (LkHolding iss key)
  obtain actual q where l: "load_or_store iss key p = (actual, q)" by (rule prod.exhaust)
  show ?thesis using m a LkHolding l step_store[OF i, of iss key, unfolded a(1), OF _ l] by (cases a) auto
qed (use m in \<open>auto split: if_splits\<close>)

lemma lk_step_abs:
  assumes "lk_step s s'" "lock_ok s"
  shows "lk_abs s' = lk_abs s \<or> kp_step (lk_abs s) (lk_abs s')"
proof -
  obtain i rsa p locked c where a: "s' = \<lparr>lk_provider = p, lk_mutex = locked, lk_calls = (lk_calls s)[i := c]\<rparr>" "i < length (lk_calls s)"
    "lk_move rsa (lk_provider s) (lk_mutex s) (lk_calls s ! i) = Some (p, locked, c)"
    using assms(1) by (rule lk_stepE)
  let ?alg = "kp_alg (lk_provider s)"
  have r: "read_ok (kp_initial (lk_provider s)) (lk_calls s ! i)" using assms(2) a(2) by (simp add: lock_ok_def)
  have alg: "kp_alg p = ?alg" using lk_move_effect(2)[OF a(3) r] .
  have abs': "lk_abs s' = \<lparr>ks_provider = p, ks_calls = (ks_calls (lk_abs s))[i := lk_abs_call ?alg c]\<rparr>"
    by (simp add: a(1) lk_abs_def alg map_update)
  have "i < length (ks_calls (lk_abs s))" "ks_provider (lk_abs s) = lk_provider s" "ks_calls (lk_abs s) ! i = lk_abs_call ?alg (lk_calls s ! i)"
    using a(2) by (simp_all add: lk_abs_def)
  from lk_move_abs[OF a(3) r this, folded abs'] this(3) consider
      "p = lk_provider s" "lk_abs_call ?alg c = ks_calls (lk_abs s) ! i" | "kp_step (lk_abs s) (lk_abs s')" by auto
  then show ?thesis
  proof cases
    case 1
    then have "lk_abs s' = lk_abs s" unfolding abs' 1 list_update_id by (simp add: lk_abs_def)
    then show ?thesis ..
  qed simp
qed

lemma lk_reach_abs: "lk_reach s0 s \<Longrightarrow> lock_ok s0 \<Longrightarrow> kp_reach (lk_abs s0) (lk_abs s)"
proof (induction rule: lk_reach.induct)
  case (lk_trans s s')
  have "lk_abs s' = lk_abs s \<or> kp_step (lk_abs s) (lk_abs s')" using lk_step_abs lk_trans lock_reach by blast
  then show ?case using lk_trans.IH[OF lk_trans.prems] kp_trans by metis
qed (rule kp_refl)

section \<open>No call waits for ever\<close>

fun lk_returned :: "lk_call \<Rightarrow> bool" where
  "lk_returned (LkDone _ _) = True"
| "lk_returned _ = False"

fun lk_rank :: "lk_call \<Rightarrow> nat" where
  "lk_rank (LkStart _) = 7"
| "lk_rank (LkMissed _) = 6"
| "lk_rank (LkLocked _) = 5"
| "lk_rank (LkRead _ _) = 4"
| "lk_rank (LkTaken _ _) = 3"
| "lk_rank (LkUnlocked _ _) = 2"
| "lk_rank (LkHolding _ _) = 1"
| "lk_rank (LkDone _ _) = 0"

definition lk_work :: "lk_system \<Rightarrow> nat" where
  "lk_work s = sum_list (map lk_rank (lk_calls s))"

lemma rank_update:
  fixes f :: "'a \<Rightarrow> nat"
  shows "i < length cs \<Longrightarrow> f c < f (cs ! i) \<Longrightarrow> sum_list (map f (cs[i := c])) < sum_list (map f cs)"
  by (induction cs arbitrary: i) (auto split: nat.split)

lemma lk_move_rank: "lk_move rsa p locked c = Some (p', locked', c') \<Longrightarrow> lk_rank c' < lk_rank c"
  by (cases c) (auto split: option.splits if_splits list.splits prod.splits)

lemma lk_step_work: "lk_step s s' \<Longrightarrow> lk_work s' < lk_work s"
  by (erule lk_stepE) (simp add: lk_work_def rank_update lk_move_rank)

text \<open>A call that has not returned can move if it holds the mutex or the mutex is free.\<close>

lemma lk_can_move:
  "read_ok (kp_initial p) c \<Longrightarrow> \<not> lk_returned c \<Longrightarrow> (in_lock c \<longleftrightarrow> locked) \<Longrightarrow> lk_move rsa p locked c \<noteq> None"
  by (cases c) (auto split: option.splits list.splits prod.splits)

lemma lk_progress:
  assumes "lock_ok s" "\<not> list_all lk_returned (lk_calls s)"
  shows "\<exists>t. lk_step s t"
proof -
  have "\<exists>c\<in>set (lk_calls s). \<not> lk_returned c \<and> (in_lock c \<longleftrightarrow> lk_mutex s)"
  proof (cases "lk_mutex s")
    case True
    then have "length (filter in_lock (lk_calls s)) = 1" using assms(1) by (simp add: lock_ok_def)
    then have "filter in_lock (lk_calls s) \<noteq> []" by auto
    then obtain c where "c \<in> set (lk_calls s)" "in_lock c" by (auto simp: filter_empty_conv)
    moreover from this(2) have "\<not> lk_returned c" by (cases c) simp_all
    ultimately show ?thesis using True by blast
  next
    case False
    then show ?thesis using assms by (auto simp: lock_ok_def filter_empty_conv list_all_iff)
  qed
  then obtain i where i: "i < length (lk_calls s)" "\<not> lk_returned (lk_calls s ! i)" "in_lock (lk_calls s ! i) \<longleftrightarrow> lk_mutex s"
    by (auto simp: in_set_conv_nth)
  have "read_ok (kp_initial (lk_provider s)) (lk_calls s ! i)" using assms(1) i(1) by (simp add: lock_ok_def)
  from lk_can_move[OF this i(2,3), of 0] obtain p locked c where
    "lk_move 0 (lk_provider s) (lk_mutex s) (lk_calls s ! i) = Some (p, locked, c)" by auto
  then show ?thesis using lk_any[OF i(1)] by blast
qed

lemma lk_returned_unlocked: "lock_ok s \<Longrightarrow> list_all lk_returned (lk_calls s) \<Longrightarrow> \<not> lk_mutex s"
proof
  assume "lock_ok s" "lk_mutex s" "list_all lk_returned (lk_calls s)"
  then have "filter in_lock (lk_calls s) \<noteq> []" by (auto simp: lock_ok_def)
  then obtain c where "in_lock c" "lk_returned c" using \<open>list_all lk_returned (lk_calls s)\<close> by (auto simp: filter_empty_conv list_all_iff)
  then show False by (cases c) simp_all
qed

lemma lk_stuck: "list_all lk_returned (lk_calls s) \<Longrightarrow> \<not> lk_step s t"
proof
  assume a: "list_all lk_returned (lk_calls s)" "lk_step s t"
  from a(2) obtain i rsa p locked c where m: "i < length (lk_calls s)"
    "lk_move rsa (lk_provider s) (lk_mutex s) (lk_calls s ! i) = Some (p, locked, c)" by (rule lk_stepE)
  then have "lk_returned (lk_calls s ! i)" using a(1) by (simp add: list_all_length)
  then show False using m(2) by (cases "lk_calls s ! i") simp_all
qed

lemma lk_finishes: "lock_ok s \<Longrightarrow> \<exists>t. lk_reach s t \<and> list_all lk_returned (lk_calls t)"
proof (induction "lk_work s" arbitrary: s rule: less_induct)
  case less
  show ?case
  proof (cases "list_all lk_returned (lk_calls s)")
    case False
    then obtain t where t: "lk_step s t" using lk_progress less.prems by blast
    then obtain u where "lk_reach t u" "list_all lk_returned (lk_calls u)" using less.hyps[OF lk_step_work[OF t] lock_step[OF t less.prems]] by blast
    then show ?thesis using lk_step_reach[OF t] by blast
  qed (auto intro: lk_refl)
qed

text \<open>C23: key_calls_finish. Concurrent requests for signing keys, at the level of the mutex of the pool: every schedule is one of the atomic steps (no two
  calls are in the critical section, no key of the pool is taken twice). No schedule is infinite, and the calls never
  deadlock: a state in which none can move is one where all have returned; then the mutex is free; and such a state can be reached from every other.\<close>

theorem key_calls_finish:
  assumes "lk_reach (lk_start p isss) s"
  shows "length (filter in_lock (lk_calls s)) = (if lk_mutex s then 1 else 0) \<and>
    kp_reach \<lparr>ks_provider = p, ks_calls = map CallStart isss\<rparr> (lk_abs s) \<and>
    wf {(u, t). lk_step t u} \<and> ((\<nexists>t. lk_step s t) \<longleftrightarrow> list_all lk_returned (lk_calls s)) \<and>
    (list_all lk_returned (lk_calls s) \<longrightarrow> \<not> lk_mutex s) \<and>
    (\<exists>t. lk_reach s t \<and> length (lk_calls t) = length isss \<and> list_all lk_returned (lk_calls t))"
proof (intro conjI)
  have ok: "lock_ok s" using lock_reach[OF assms lock_start] .
  then show "length (filter in_lock (lk_calls s)) = (if lk_mutex s then 1 else 0)" by (simp add: lock_ok_def)
  show "kp_reach \<lparr>ks_provider = p, ks_calls = map CallStart isss\<rparr> (lk_abs s)"
    using lk_reach_abs[OF assms lock_start] by (simp add: lk_abs_start)
  show "wf {(u, t). lk_step t u}" by (rule wf_subset[OF wf_measure[of lk_work]]) (auto dest: lk_step_work)
  show "(\<nexists>t. lk_step s t) \<longleftrightarrow> list_all lk_returned (lk_calls s)" using lk_progress[OF ok] lk_stuck by blast
  show "list_all lk_returned (lk_calls s) \<longrightarrow> \<not> lk_mutex s" using lk_returned_unlocked[OF ok] by blast
  obtain t where t: "lk_reach s t" "list_all lk_returned (lk_calls t)" using lk_finishes[OF ok] by blast
  have "length (lk_calls t) = length isss"
    using lk_reach_keeps[OF t(1) ok] lk_reach_keeps[OF assms lock_start] by (simp add: lk_start_def)
  then show "\<exists>t. lk_reach s t \<and> length (lk_calls t) = length isss \<and> list_all lk_returned (lk_calls t)" using t by blast
qed

text \<open>Two requests race for the key of a new issuer: the first is between its read of the pool and its move of the slice, the second waits
  for the mutex; the schedule completes all the same.\<close>

theorem key_calls_finish_witness:
  "\<exists>s. lk_reach (lk_start pool_provider [''a'', ''a'']) s \<and> lk_calls s = [LkRead ''a'' (pool_key_of 1), LkMissed ''a''] \<and> lk_mutex s \<and>
     lk_move 0 (lk_provider s) (lk_mutex s) (lk_calls s ! 1) = None \<and>
     (\<exists>t. lk_reach s t \<and> length (lk_calls t) = 2 \<and> list_all lk_returned (lk_calls t))"
proof -
  let ?s = "\<lparr>lk_provider = pool_provider, lk_mutex = True, lk_calls = [LkRead ''a'' (pool_key_of 1), LkMissed ''a'']\<rparr>"
  have "lk_run [(0, 0), (1, 0), (0, 0), (0, 0)] (lk_start pool_provider [''a'', ''a'']) = Some ?s"
    by (simp add: lk_start_def pool_provider_def map_get_def)
  then have r: "lk_reach (lk_start pool_provider [''a'', ''a'']) ?s" by (rule lk_run_reach)
  from key_calls_finish[OF this] have "\<exists>t. lk_reach ?s t \<and> length (lk_calls t) = 2 \<and> list_all lk_returned (lk_calls t)" by (simp add: numeral_2_eq_2)
  with r show ?thesis by (intro exI[of _ ?s]) simp
qed

section \<open>Keys fit the algorithm\<close>

text \<open>What a key for an issuer must look like.\<close>

definition key_fits :: "string \<Rightarrow> string \<Rightarrow> signing_key \<Rightarrow> bool" where
  "key_fits alg iss k \<longleftrightarrow> algorithm_family alg = Some (sk_kty k) \<and> sk_alg k = alg \<and> sk_kid k = iss"

text \<open>The key a call has made or returned.\<close>

fun lk_key :: "lk_call \<Rightarrow> (string \<times> signing_key) option" where
  "lk_key (LkHolding iss k) = Some (iss, k)"
| "lk_key (LkDone iss k) = Some (iss, k)"
| "lk_key _ = None"

text \<open>C39: keys_fit_algorithm. Let a provider be built from one configured key, which is refused unless the algorithm is supported and of the type of the
  key, or from a key set whose keys are of that type. Then in every state that concurrent requests reach, every
  key a request has made or returned and every published key has the configured algorithm, the key type of that algorithm and the issuer
  as its identifier, and every key left in the pool has that type.\<close>

theorem keys_fit_algorithm:
  assumes "key_provider_from_initial key alg = Some p \<or>
      new_key_provider initial alg = Some p \<and> list_all (\<lambda>k. algorithm_family alg = Some (sk_kty k)) initial"
    and "lk_reach (lk_start p isss) s"
  shows "(\<forall>c\<in>set (lk_calls s). case lk_key c of Some (iss, k) \<Rightarrow> key_fits alg iss k | None \<Rightarrow> True) \<and>
    (\<forall>iss k. map_get (kp_keys (lk_provider s)) iss = Some k \<longrightarrow> key_fits alg iss k) \<and>
    (\<forall>k\<in>set (kp_initial (lk_provider s)). algorithm_family alg = Some (sk_kty k))"
proof -
  let ?s0 = "\<lparr>ks_provider = p, ks_calls = map CallStart isss\<rparr>"
  have p: "algorithm_family alg = Some (kp_family p)" "kp_alg p = alg" "kp_keys p = []" "\<forall>k\<in>set (kp_initial p). sk_kty k = kp_family p"
    using assms(1) by (auto simp: key_provider_from_initial_def new_key_provider_def list_all_iff split: option.splits if_splits)
  have r: "kp_reach ?s0 (lk_abs s)" using lk_reach_abs[OF assms(2) lock_start] by (simp add: lk_abs_start)
  have "system_typed ?s0" using p by (auto simp: system_typed_def provider_typed_def call_typed_def)
  note t0 = kp_reach_typed[OF r this]
  then have t: "system_typed (lk_abs s)" "kp_alg (lk_provider s) = alg" by (blast, simp add: p lk_abs_def)
  have "system_ok ?s0" using p by (auto simp: system_ok_def provider_wf_def call_ok_def)
  with kp_reach_ok[OF r] have ok: "system_ok (lk_abs s)" .
  have fam: "algorithm_family alg = Some (kp_family (lk_provider s))" using t by (simp add: system_typed_def provider_typed_def lk_abs_def)
  have keys: "key_fits alg iss k" if "map_get (kp_keys (lk_provider s)) iss = Some k" for iss k
    using that t ok fam by (auto simp: key_fits_def system_typed_def provider_typed_def system_ok_def provider_wf_def key_for_def lk_abs_def)
  have "case lk_key c of Some (iss, k) \<Rightarrow> key_fits alg iss k | None \<Rightarrow> True" if "c \<in> set (lk_calls s)" for c
  proof -
    have c: "call_typed (lk_provider s) (lk_abs_call alg c)" "call_ok (lk_provider s) (lk_abs_call alg c)"
      using that t ok by (auto simp: system_typed_def system_ok_def lk_abs_def)
    show ?thesis
    proof (cases c)
      case (LkHolding iss k)
      then show ?thesis using c fam t(2) by (simp add: call_typed_def call_ok_def key_fits_def key_for_def)
    next
      case (LkDone iss k)
      then show ?thesis using c(2) keys by (simp add: call_ok_def)
    qed simp_all
  qed
  moreover have "\<forall>k\<in>set (kp_initial (lk_provider s)). algorithm_family alg = Some (sk_kty k)"
    using t fam by (simp add: system_typed_def provider_typed_def lk_abs_def)
  ultimately show ?thesis using keys by blast
qed

text \<open>A provider with one configured key and two requests that overlap: the first has published the key made of the
  configured one, the second holds a generated one it has yet to publish.\<close>

theorem keys_fit_algorithm_witness:
  "\<exists>p s. key_provider_from_initial (pool_key_of 1) ''RS256'' = Some p \<and> lk_reach (lk_start p [''a'', ''b'']) s \<and>
     lk_calls s = [LkDone ''a'' (rs256_key ''a'' 1), LkHolding ''b'' (rs256_key ''b'' 7)] \<and>
     key_fits ''RS256'' ''a'' (rs256_key ''a'' 1) \<and> key_fits ''RS256'' ''b'' (rs256_key ''b'' 7)"
proof -
  let ?p = "\<lparr>kp_initial = [pool_key_of 1], kp_keys = [], kp_alg = ''RS256'', kp_family = ''RSA''\<rparr>"
  let ?calls = "[LkDone ''a'' (rs256_key ''a'' 1), LkHolding ''b'' (rs256_key ''b'' 7)]"
  let ?s = "\<lparr>lk_provider = ?p\<lparr>kp_initial := [], kp_keys := [(''a'', rs256_key ''a'' 1)]\<rparr>, lk_mutex = False, lk_calls = ?calls\<rparr>"
  have f: "key_provider_from_initial (pool_key_of 1) ''RS256'' = Some ?p" by code_simp
  have "lk_run [(0, 0), (1, 0), (0, 0), (0, 0), (0, 0), (0, 0), (1, 0), (0, 0), (0, 0), (1, 0), (1, 0), (1, 7)] (lk_start ?p [''a'', ''b'']) = Some ?s"
    by (simp add: lk_start_def map_get_def map_put_def load_or_store_def pooled_key_def generate_key_def pool_key_of_def rs256_key_def)
  then have r: "lk_reach (lk_start ?p [''a'', ''b'']) ?s" by (rule lk_run_reach)
  have "\<forall>c\<in>set ?calls. case lk_key c of Some (iss, k) \<Rightarrow> key_fits ''RS256'' iss k | None \<Rightarrow> True"
    using keys_fit_algorithm[OF disjI1[OF f] r] by simp
  then have "key_fits ''RS256'' ''a'' (rs256_key ''a'' 1)" "key_fits ''RS256'' ''b'' (rs256_key ''b'' 7)" by simp_all
  with f r show ?thesis by (intro exI[of _ ?p] exI[of _ ?s] conjI) simp_all
qed

end
