(* ===== verification/Token_Regex.thy ===== *)
theory Token_Regex
  imports Token_Callback
begin

text \<open>
  The lazily compiled expression of a request mapping (internal/token/callback.go): \<open>Mapping.regex\<close> keeps the
  result of \<open>regexp.Compile\<close> in the mapping, with a flag that it has tried.

  Package regexp is an argument (\<open>regex_lib\<close>). The first part shows that in one goroutine the cache is invisible: matching gives what
  \<open>mapping_matches\<close> of Token_Callback says. The second part lets requests share a mapping, as the server
  does without a lock.
\<close>

section \<open>The mapping with its cache\<close>

record 're regex_lib =
  rx_compile :: "string \<Rightarrow> 're option"
  rx_string :: "'re \<Rightarrow> string"
  rx_match :: "'re \<Rightarrow> string \<Rightarrow> bool"

record 're mapping_cell = mapping +
  mp_regex :: "'re option"
  mp_tried :: bool

definition mapping_regex :: "'re regex_lib \<Rightarrow> 're mapping_cell \<Rightarrow> 're option \<times> 're mapping_cell" where
  "mapping_regex lib m =
     (let m1 = (if mp_tried m then m
                else let m0 = m\<lparr>mp_tried := True\<rparr> in
                     if mp_match m0 = ''*'' then m0
                     else (case rx_compile lib (mp_match m0) of Some re \<Rightarrow> m0\<lparr>mp_regex := Some re\<rparr> | None \<Rightarrow> m0))
      in (mp_regex m1, m1))"

definition regex_anchored :: "'re regex_lib \<Rightarrow> 're \<Rightarrow> 're" where
  "regex_anchored lib re =
     (case rx_compile lib ([CHR 0x5c] @ ''A(?:'' @ rx_string lib re @ '')'' @ [CHR 0x5c] @ ''z'') of Some wrapped \<Rightarrow> wrapped | None \<Rightarrow> re)"

fun match_values :: "'re regex_lib \<Rightarrow> 're mapping_cell \<Rightarrow> string list \<Rightarrow> bool \<times> 're mapping_cell" where
  "match_values lib m [] = (False, m)"
| "match_values lib m (v # vs) =
     (if mp_match m = ''*'' \<or> mp_match m = v then (True, m)
      else (case mapping_regex lib m of
              (Some re, m1) \<Rightarrow> if rx_match lib (regex_anchored lib re) v then (True, m1) else match_values lib m1 vs
            | (None, m1) \<Rightarrow> match_values lib m1 vs))"

definition is_match :: "'re regex_lib \<Rightarrow> 're mapping_cell \<Rightarrow> token_request \<Rightarrow> (string, string) gomap \<Rightarrow> bool \<times> 're mapping_cell" where
  "is_match lib m tr extra =
     (let vs = values_all (tr_form tr) (mp_param m) in
      match_values lib m
        (if vs \<noteq> [] then vs
         else if mp_param m = ''client_id'' then (if tr_client_id tr \<noteq> [] then [tr_client_id tr] else [])
         else (case map_get extra (mp_param m) of Some v \<Rightarrow> [v] | None \<Rightarrow> [])))"

section \<open>The cache is invisible to one goroutine\<close>

text \<open>The whole-value match of the pattern, without any cache.\<close>

definition full_match :: "'re regex_lib \<Rightarrow> string \<Rightarrow> string \<Rightarrow> bool" where
  "full_match lib pattern v = (case rx_compile lib pattern of Some re \<Rightarrow> rx_match lib (regex_anchored lib re) v | None \<Rightarrow> False)"

definition cell_ok :: "'re regex_lib \<Rightarrow> 're mapping_cell \<Rightarrow> bool" where
  "cell_ok lib m \<longleftrightarrow> mp_regex m = (if mp_tried m \<and> mp_match m \<noteq> ''*'' then rx_compile lib (mp_match m) else None)"

lemma mapping_regex_ok:
  "cell_ok lib m \<Longrightarrow> mapping_regex lib m = (re, m') \<Longrightarrow>
   cell_ok lib m' \<and> mapping.truncate m' = mapping.truncate m \<and> re = (if mp_match m = ''*'' then None else rx_compile lib (mp_match m))"
  by (auto simp: mapping_regex_def cell_ok_def mapping.truncate_def Let_def split: option.splits if_splits)

lemma match_values_ok:
  "cell_ok lib m \<Longrightarrow> match_values lib m vs = (b, m') \<Longrightarrow>
   cell_ok lib m' \<and> mapping.truncate m' = mapping.truncate m \<and>
   b = list_ex (\<lambda>v. mp_match m = ''*'' \<or> mp_match m = v \<or> full_match lib (mp_match m) v) vs"
proof (induction vs arbitrary: m b m')
  case (Cons v vs)
  show ?case
  proof (cases "mp_match m = ''*'' \<or> mp_match m = v")
    case False
    obtain re m1 where r: "mapping_regex lib m = (re, m1)" by (rule prod.exhaust)
    note ok = mapping_regex_ok[OF Cons.prems(1) r]
    have same: "mp_match m1 = mp_match m" using ok by (simp add: mapping.truncate_def)
    show ?thesis using False Cons.prems(2) r ok same Cons.IH[of m1 b m'] by (auto simp: full_match_def split: option.splits if_splits)
  qed (use Cons.prems in auto)
qed simp

lemma is_match_pure:
  assumes "cell_ok lib m" "is_match lib m tr extra = (b, m')" "ce_regex env = full_match lib"
  shows "cell_ok lib m' \<and> mapping.truncate m' = mapping.truncate m \<and> b = mapping_matches env (mapping.truncate m) tr extra"
proof -
  have p: "mp_param (mapping.truncate m) = mp_param m" "mp_match (mapping.truncate m) = mp_match m" by (simp_all add: mapping.truncate_def)
  show ?thesis using match_values_ok[OF assms(1)] assms(2,3) unfolding is_match_def mapping_matches_def Let_def p by auto
qed

text \<open>So the mappings of a callback, tried in order with their caches, select the mapping that the cache-free definition selects.\<close>

fun first_match :: "'re regex_lib \<Rightarrow> 're mapping_cell list \<Rightarrow> token_request \<Rightarrow> (string, string) gomap \<Rightarrow>
    're mapping_cell option \<times> 're mapping_cell list" where
  "first_match lib [] tr extra = (None, [])"
| "first_match lib (m # ms) tr extra =
     (case is_match lib m tr extra of
        (True, m1) \<Rightarrow> (Some m1, m1 # ms)
      | (False, m1) \<Rightarrow> (case first_match lib ms tr extra of (r, ms1) \<Rightarrow> (r, m1 # ms1)))"

lemma first_match_pure:
  assumes "list_all (cell_ok lib) ms" "first_match lib ms tr extra = (r, ms')" "ce_regex env = full_match lib"
  shows "list_all (cell_ok lib) ms' \<and> map mapping.truncate ms' = map mapping.truncate ms \<and>
    map_option mapping.truncate r = find (\<lambda>m. mapping_matches env m tr extra) (map mapping.truncate ms)"
  using assms(1,2)
proof (induction ms arbitrary: r ms')
  case (Cons m ms)
  obtain b m1 where m: "is_match lib m tr extra = (b, m1)" by (rule prod.exhaust)
  obtain r2 ms2 where rest: "first_match lib ms tr extra = (r2, ms2)" by (rule prod.exhaust)
  show ?case using is_match_pure[OF _ m assms(3)] Cons.IH[OF _ rest] Cons.prems m rest by (auto split: bool.splits)
qed simp

section \<open>Requests that share a mapping\<close>

text \<open>
  The reads and writes of \<open>Mapping.regex\<close>, in program order: the flag is set before the expression is compiled and stored, and a call that
  finds it set reads the expression at once.
\<close>

datatype 're regex_call =
    RegexAsk
  | RegexMarked
  | RegexRead
  | RegexGot "'re option"

fun regex_step :: "'re regex_lib \<Rightarrow> 're regex_call \<Rightarrow> 're mapping_cell \<Rightarrow> 're regex_call \<times> 're mapping_cell" where
  "regex_step lib RegexAsk m = (if mp_tried m then (RegexRead, m) else (RegexMarked, m\<lparr>mp_tried := True\<rparr>))"
| "regex_step lib RegexMarked m =
     (RegexRead, if mp_match m = ''*'' then m else (case rx_compile lib (mp_match m) of Some re \<Rightarrow> m\<lparr>mp_regex := Some re\<rparr> | None \<Rightarrow> m))"
| "regex_step lib RegexRead m = (RegexGot (mp_regex m), m)"
| "regex_step lib (RegexGot r) m = (RegexGot r, m)"

definition regex_advance :: "'re regex_lib \<Rightarrow> nat \<Rightarrow> 're regex_call list \<times> 're mapping_cell \<Rightarrow> 're regex_call list \<times> 're mapping_cell" where
  "regex_advance lib i w =
     (case w of (calls, m) \<Rightarrow> if i < length calls then (case regex_step lib (calls ! i) m of (c, m') \<Rightarrow> (calls[i := c], m')) else (calls, m))"

definition regex_run :: "'re regex_lib \<Rightarrow> nat list \<Rightarrow> 're regex_call list \<times> 're mapping_cell \<Rightarrow> 're regex_call list \<times> 're mapping_cell" where
  "regex_run lib is w = fold (regex_advance lib) is w"

lemma lone_regex: "regex_run lib [0, 0, 0] ([RegexAsk], m) = ([RegexGot (fst (mapping_regex lib m))], snd (mapping_regex lib m))"
  by (simp add: regex_run_def regex_advance_def mapping_regex_def Let_def split: option.split)

text \<open>Whatever the schedule, a call never gets a wrong expression: it gets the compiled one or none.\<close>

definition regex_right :: "'re regex_lib \<Rightarrow> 're regex_call list \<times> 're mapping_cell \<Rightarrow> bool" where
  "regex_right lib w \<longleftrightarrow> (mp_regex (snd w) = None \<or> mp_regex (snd w) = rx_compile lib (mp_match (snd w))) \<and>
     list_all (\<lambda>c. case c of RegexGot r \<Rightarrow> r = None \<or> r = rx_compile lib (mp_match (snd w)) | _ \<Rightarrow> True) (fst w)"

lemma regex_step_match: "regex_step lib c m = (c', m') \<Longrightarrow> mp_match m' = mp_match m"
  by (cases c) (auto split: if_splits option.splits)

lemma regex_run_right: "regex_right lib w \<Longrightarrow> regex_right lib (regex_run lib is w)"
proof (induction "is" arbitrary: w)
  case (Cons i "is")
  obtain calls m where w: "w = (calls, m)" by (rule prod.exhaust)
  have "regex_right lib (regex_advance lib i w)"
  proof (cases "i < length calls")
    case True
    obtain c m' where st: "regex_step lib (calls ! i) m = (c, m')" by (rule prod.exhaust)
    have "mp_regex m' = None \<or> mp_regex m' = rx_compile lib (mp_match m)"
      "case c of RegexGot r \<Rightarrow> r = None \<or> r = rx_compile lib (mp_match m) | _ \<Rightarrow> True"
      using st Cons.prems True unfolding w regex_right_def
      by (cases "calls ! i"; force simp: list_all_length split: if_splits option.splits)+
    then show ?thesis using Cons.prems True st regex_step_match[OF st] unfolding w regex_right_def regex_advance_def
      by (simp add: list_all_length nth_list_update)
  qed (use Cons.prems in \<open>simp add: w regex_advance_def\<close>)
  then show ?case using Cons.IH by (simp add: regex_run_def)
qed (simp add: regex_run_def)

text \<open>
  But it may get none although the pattern compiles: a second request that arrives while the first one compiles finds the flag set and no
  expression, and compares literally. The claims of its token are then those of another mapping.
\<close>

lemma regex_missed:
  assumes "m = \<lparr>mp_param = p, mp_match = pat, mp_claims = c, mp_type = t, mp_regex = None, mp_tried = False\<rparr>" "pat \<noteq> ''*''" "rx_compile lib pat = Some re"
  shows "fst (regex_run lib [0, 1, 1, 0, 0] ([RegexAsk, RegexAsk], m)) = [RegexGot (Some re), RegexGot None]"
  using assms by (simp add: regex_run_def regex_advance_def)

end
