(* ===== verification/Grant_Races.thy ===== *)
theory Grant_Races
  imports Token_Grants
begin

text \<open>
  Concurrent grants of the built-in issuers (internal/grant/authcode.go, grant.go, refreshmanager.go).

  net/http serves every request in a goroutine of its own. The handlers share the code, login and
  refresh-token tables, each operation of which is atomic (\<open>sync.Map\<close>, a mutex), but a handler performs
  several of them. A call is therefore a value that says how far its handler has come; \<open>call_step\<close> performs its
  next atomic operation together with the local computation up to the one after, and a step of the system
  advances one call, lets a new one arrive, or changes what the rest of the server owns. The signing of a token is one step
  here; the operations inside the key provider are interleaved in Token_Keys and Token_Lock.

  \<open>lone_redeem\<close>, \<open>lone_refresh\<close> and \<open>lone_authorize\<close> tie the steps to the sequential handlers.
\<close>

section \<open>Calls in flight\<close>

record grant_input =
  gi_env :: grant_env
  gi_request :: token_request
  gi_iss :: string
  gi_iss_id :: string
  gi_cb :: callback

abbreviation gi_code :: "grant_input \<Rightarrow> string" where "gi_code r \<equiv> tr_code (gi_request r)"
abbreviation gi_refresh :: "grant_input \<Rightarrow> string" where "gi_refresh r \<equiv> tr_refresh_token (gi_request r)"

datatype grant_call =
    Authorize grant_env auth_request "login option"
  | AuthorizeStored string auth_request "login option"
  | Authorized string auth_request "login option"
  | AuthorizeRefused oauth_error
  | Redeem grant_input
  | RedeemTaken grant_input auth_request
  | RedeemLogged grant_input auth_request "login option"
  | RedeemId grant_input auth_request "login option" string
  | RedeemAccess grant_input auth_request "login option" string string
  | Redeemed grant_input auth_request "login option" response
  | RedeemFailed grant_input oauth_error
  | Refresh grant_input
  | RefreshRead grant_input "callback option"
  | RefreshResolved grant_input callback
  | RefreshRotating grant_input callback
  | RefreshRemoved grant_input callback callback
  | RefreshKept grant_input callback string
  | RefreshId grant_input callback string string
  | Refreshed grant_input callback string response
  | RefreshFailed grant_input oauth_error
  | Revoke string
  | Revoked string

definition redeem_id :: "grant_input \<Rightarrow> auth_request \<Rightarrow> login option \<Rightarrow> oidc \<Rightarrow> string \<times> oidc" where
  "redeem_id r ar lg = mint_id_token (gi_env r) (gi_request r) (gi_iss r) (gi_iss_id r) (login_callback lg (gi_cb r)) (ar_nonce ar)"

definition redeem_access :: "grant_input \<Rightarrow> auth_request \<Rightarrow> login option \<Rightarrow> oidc \<Rightarrow> string \<times> oidc" where
  "redeem_access r ar lg = mint_access_token (gi_env r) (gi_request r) (gi_iss r) (gi_iss_id r) (login_callback lg (gi_cb r)) (ar_nonce ar)"

definition grant_answer :: "grant_input \<Rightarrow> string \<Rightarrow> string \<Rightarrow> string \<Rightarrow> response" where
  "grant_answer r idt access rt = token_response ''Bearer'' [] idt access rt (expires_in (gi_env r) idt) (tr_scope (gi_request r))"

text \<open>The next atomic operation of a call; \<open>None\<close> once it has returned.\<close>

fun call_step :: "grant_call \<Rightarrow> oidc \<Rightarrow> (grant_call \<times> oidc) option" where
  "call_step (Authorize env ar lg) s =
     (if \<not> implies_code_flow ar then Some (AuthorizeRefused (invalid_grant_error ''hybrid og implicit flow not supported (yet).''), s)
      else Some (AuthorizeStored (gx_code env) ar lg, s\<lparr>os_auth := map_put (gx_code env) ar (os_auth s)\<rparr>))"
| "call_step (AuthorizeStored code ar lg) s =
     Some (Authorized code ar lg, s\<lparr>os_login := (case lg of Some l \<Rightarrow> map_put code l (os_login s) | None \<Rightarrow> os_login s)\<rparr>)"
| "call_step (Redeem r) s =
     (case map_get (os_auth s) (gi_code r) of
        None \<Rightarrow> Some (RedeemFailed r (invalid_grant_error ''unknown or already-used authorization code''), s)
      | Some ar \<Rightarrow> Some (RedeemTaken r ar, s\<lparr>os_auth := map_del (gi_code r) (os_auth s)\<rparr>))"
| "call_step (RedeemTaken r ar) s =
     (case verify_pkce (te_crypto (gx_token (gi_env r))) ar (gi_request r) of
        Some e \<Rightarrow> Some (RedeemFailed r e, s\<lparr>os_login := map_del (gi_code r) (os_login s)\<rparr>)
      | None \<Rightarrow> (case take_login (gi_code r) s of (lg, s1) \<Rightarrow> Some (RedeemLogged r ar lg, s1)))"
| "call_step (RedeemLogged r ar lg) s = (case redeem_id r ar lg s of (idt, s1) \<Rightarrow> Some (RedeemId r ar lg idt, s1))"
| "call_step (RedeemId r ar lg idt) s = (case redeem_access r ar lg s of (access, s1) \<Rightarrow> Some (RedeemAccess r ar lg idt access, s1))"
| "call_step (RedeemAccess r ar lg idt access) s =
     (case refresh_mint (gx_refresh_jti (gi_env r)) (login_callback lg (gi_cb r)) (ar_nonce ar) s of
        (rt, s1) \<Rightarrow> Some (Redeemed r ar lg (grant_answer r idt access rt), s1))"
| "call_step (Refresh r) s =
     (let stored = refresh_get (gi_refresh r) s in
      if (case stored of Some c \<Rightarrow> cb_issuer c \<noteq> gi_iss_id r | None \<Rightarrow> False)
      then Some (RefreshFailed r (invalid_grant_error ''refresh_token was issued by a different issuer''), s)
      else Some (RefreshRead r stored, s))"
| "call_step (RefreshRead r stored) s =
     (case queue_poll (gi_iss_id r) s of (enqueued, s1) \<Rightarrow>
        (case (case enqueued of Some c \<Rightarrow> Some c | None \<Rightarrow> stored) of
           None \<Rightarrow> Some (RefreshFailed r (invalid_grant_error ''unknown refresh_token''), s1)
         | Some resolved \<Rightarrow> Some (RefreshResolved r resolved, s1)))"
| "call_step (RefreshResolved r resolved) s =
     Some (if os_rotate s then RefreshRotating r resolved else RefreshKept r resolved (gi_refresh r), s)"
| "call_step (RefreshRotating r resolved) s =
     Some (RefreshRemoved r resolved (case map_get (os_refresh s) (gi_refresh r) of Some cb \<Rightarrow> cb | None \<Rightarrow> resolved),
           refresh_remove (gi_refresh r) s)"
| "call_step (RefreshRemoved r resolved cb) s =
     (case refresh_mint (gx_refresh_jti (gi_env r)) cb [] s of (rt, s1) \<Rightarrow> Some (RefreshKept r resolved rt, s1))"
| "call_step (RefreshKept r resolved rt) s =
     (case mint_id_token (gi_env r) (gi_request r) (gi_iss r) (gi_iss_id r) resolved [] s of
        (idt, s1) \<Rightarrow> Some (RefreshId r resolved rt idt, s1))"
| "call_step (RefreshId r resolved rt idt) s =
     (case mint_access_token (gi_env r) (gi_request r) (gi_iss r) (gi_iss_id r) resolved [] s of
        (access, s1) \<Rightarrow> Some (Refreshed r resolved rt (grant_answer r idt access rt), s1))"
| "call_step (Revoke t) s = Some (Revoked t, refresh_remove t s)"
| "call_step (AuthorizeRefused _) s = None"
| "call_step (Authorized _ _ _) s = None"
| "call_step (Redeemed _ _ _ _) s = None"
| "call_step (RedeemFailed _ _) s = None"
| "call_step (Refreshed _ _ _ _) s = None"
| "call_step (RefreshFailed _ _) s = None"
| "call_step (Revoked _) s = None"

text \<open>The panic or the response a call has ended with.\<close>

fun call_result :: "grant_call \<Rightarrow> (go_panic + response) option" where
  "call_result (Redeemed _ _ _ resp) = Some (Inr resp)"
| "call_result (RedeemFailed _ e) = Some (Inl (PanicOAuth e))"
| "call_result (Refreshed _ _ _ resp) = Some (Inr resp)"
| "call_result (RefreshFailed _ e) = Some (Inl (PanicOAuth e))"
| "call_result _ = None"

section \<open>A call alone is the sequential handler\<close>

text \<open>A call takes two operations for an authorization, five for a redemption and seven for a refresh at most (\<open>operations_left\<close>).\<close>

fun call_run :: "nat \<Rightarrow> grant_call \<Rightarrow> oidc \<Rightarrow> grant_call \<times> oidc" where
  "call_run 0 c s = (c, s)"
| "call_run (Suc n) c s = (case call_step c s of None \<Rightarrow> (c, s) | Some (c', s') \<Rightarrow> call_run n c' s')"

lemma call_run_done [simp]: "call_step c s = None \<Longrightarrow> call_run n c s = (c, s)"
  by (cases n) simp_all

lemma call_run_more: "call_step c s = Some (c', s') \<Longrightarrow> 0 < n \<Longrightarrow> call_run n c s = call_run (n - 1) c' s'"
  by (cases n) simp_all

lemma lone_minting:
  "call_run 4 (RedeemLogged r ar lg) s =
   (let (idt, s1) = redeem_id r ar lg s; (access, s2) = redeem_access r ar lg s1;
        (rt, s3) = refresh_mint (gx_refresh_jti (gi_env r)) (login_callback lg (gi_cb r)) (ar_nonce ar) s2
    in (Redeemed r ar lg (grant_answer r idt access rt), s3))"
  by (simp add: call_run_more split: prod.split)

lemma lone_redeem:
  "map_prod call_result id (call_run 6 (Redeem r) s) =
   map_prod Some id (code_grant (gi_env r) (gi_request r) (gi_iss r) (gi_iss_id r) (gi_cb r) s)"
proof (cases "map_get (os_auth s) (gi_code r)")
  case (Some ar)
  then show ?thesis
    by (cases "verify_pkce (te_crypto (gx_token (gi_env r))) ar (gi_request r)")
      (simp_all add: call_run_more lone_minting code_grant_def oauth_panic_def redeem_id_def redeem_access_def grant_answer_def
        take_login_def Let_def split: prod.split)
qed (simp add: call_run_more code_grant_def oauth_panic_def)

lemma lone_refresh_minting:
  "call_run 3 (RefreshKept r resolved rt) s =
   (let (idt, s1) = mint_id_token (gi_env r) (gi_request r) (gi_iss r) (gi_iss_id r) resolved [] s;
        (access, s2) = mint_access_token (gi_env r) (gi_request r) (gi_iss r) (gi_iss_id r) resolved [] s1
    in (Refreshed r resolved rt (grant_answer r idt access rt), s2))"
  by (simp add: call_run_more split: prod.split)

lemma call_run_add: "call_run (m + n) c s = (case call_run m c s of (c', s') \<Rightarrow> call_run n c' s')"
  by (induction m c s rule: call_run.induct) (auto split: option.split)

lemma lone_rotating:
  "call_run 6 (RefreshResolved r resolved) s =
   (let (rt, s1) = (if os_rotate s then refresh_rotate (gx_refresh_jti (gi_env r)) (gi_refresh r) resolved s else (gi_refresh r, s))
    in call_run 3 (RefreshKept r resolved rt) s1)"
proof -
  have more: "call_run 5 (RefreshKept r resolved rt) s1 = call_run 3 (RefreshKept r resolved rt) s1" for rt s1
    using call_run_add[of 3 2 "RefreshKept r resolved rt" s1] by (simp add: lone_refresh_minting Let_def split: prod.split)
  show ?thesis by (simp add: call_run_more more refresh_rotate_def Let_def split: prod.split)
qed

lemma lone_refresh:
  "map_prod call_result id (call_run 8 (Refresh r) s) =
   map_prod Some id (refresh_grant (gi_env r) (gi_request r) (gi_iss r) (gi_iss_id r) (gi_cb r) s)"
proof -
  obtain enq s1 where q: "queue_poll (gi_iss_id r) s = (enq, s1)" by (rule prod.exhaust)
  show ?thesis
    by (cases enq; cases "refresh_get (gi_refresh r) s")
      (simp_all add: call_run_more lone_rotating lone_refresh_minting q refresh_grant_def oauth_panic_def grant_answer_def Let_def
        split: prod.split)
qed

lemma lone_authorize:
  "(case call_run 2 (Authorize env ar lg) s of
      (Authorized code _ _, s') \<Rightarrow> (Inr code, s') | (AuthorizeRefused e, s') \<Rightarrow> (Inl e, s') | _ \<Rightarrow> undefined) =
   authorization_code_response env ar lg s"
  by (simp add: call_run_more authorization_code_response_def split: option.split)

text \<open>
  Whatever the other calls do to the tables in between, every operation brings a call closer to its end, and only an
  ended call has none left: a call returns within \<open>operations_left\<close> operations of its own.
\<close>

fun operations_left :: "grant_call \<Rightarrow> nat" where
  "operations_left (Authorize _ _ _) = 2"
| "operations_left (AuthorizeStored _ _ _) = 1"
| "operations_left (Redeem _) = 5"
| "operations_left (RedeemTaken _ _) = 4"
| "operations_left (RedeemLogged _ _ _) = 3"
| "operations_left (RedeemId _ _ _ _) = 2"
| "operations_left (RedeemAccess _ _ _ _ _) = 1"
| "operations_left (Refresh _) = 7"
| "operations_left (RefreshRead _ _) = 6"
| "operations_left (RefreshResolved _ _) = 5"
| "operations_left (RefreshRotating _ _) = 4"
| "operations_left (RefreshRemoved _ _ _) = 3"
| "operations_left (RefreshKept _ _ _) = 2"
| "operations_left (RefreshId _ _ _ _) = 1"
| "operations_left (Revoke _) = 1"
| "operations_left _ = 0"

lemma call_step_progress: "call_step c s = Some (c', s') \<Longrightarrow> operations_left c' < operations_left c"
  by (cases c) (auto simp: Let_def split: prod.splits option.splits if_splits)

lemma call_step_ends: "call_step c s = None \<longleftrightarrow> operations_left c = 0"
  by (cases c) (auto simp: Let_def split: prod.split option.split if_split)

lemma call_returns: "operations_left c \<le> n \<Longrightarrow> operations_left (fst (call_run n c s)) = 0"
proof (induction n c s rule: call_run.induct)
  case (2 n c s)
  show ?case
  proof (cases "call_step c s")
    case (Some cs)
    obtain c' s' where "cs = (c', s')" by (rule prod.exhaust)
    then show ?thesis using Some 2 call_step_progress[of c s c' s'] by auto
  next
    case None
    then have "operations_left c = 0" by (simp only: call_step_ends)
    then show ?thesis using None by simp
  qed
qed simp

section \<open>All interleavings\<close>

record race =
  ra_calls :: "nat \<rightharpoonup> grant_call"
  ra_state :: oidc

fun pending_code :: "grant_call \<Rightarrow> string option" where
  "pending_code (Authorize env _ _) = Some (gx_code env)"
| "pending_code (AuthorizeStored code _ _) = Some code"
| "pending_code _ = None"

fun issued_code :: "grant_call \<Rightarrow> string option" where
  "issued_code (Authorized code _ _) = Some code"
| "issued_code c = pending_code c"

fun presented_code :: "grant_call \<Rightarrow> string option" where
  "presented_code (Redeem r) = Some (gi_code r)"
| "presented_code (RedeemTaken r _) = Some (gi_code r)"
| "presented_code (RedeemLogged r _ _) = Some (gi_code r)"
| "presented_code (RedeemId r _ _ _) = Some (gi_code r)"
| "presented_code (RedeemAccess r _ _ _ _) = Some (gi_code r)"
| "presented_code (Redeemed r _ _ _) = Some (gi_code r)"
| "presented_code (RedeemFailed r _) = Some (gi_code r)"
| "presented_code _ = None"

text \<open>
  A new call arrives at its first operation. Codes are random: the one an authorization draws is none that was issued or presented before.
  A client learns a code from the answer of the authorization, so none presents the code of one still running. Everything else the
  server does in between may change the signing keys, the callback queue and the runtime flags at will.
\<close>

inductive race_step :: "race \<Rightarrow> race \<Rightarrow> bool" where
  advance: "ra_calls w i = Some c \<Longrightarrow> call_step c (ra_state w) = Some (c', s') \<Longrightarrow>
     race_step w \<lparr>ra_calls = (ra_calls w)(i \<mapsto> c'), ra_state = s'\<rparr>"
| arrive_authorize: "ra_calls w i = None \<Longrightarrow>
     (\<And>j c. ra_calls w j = Some c \<Longrightarrow> issued_code c \<noteq> Some (gx_code env) \<and> presented_code c \<noteq> Some (gx_code env)) \<Longrightarrow>
     race_step w (w\<lparr>ra_calls := (ra_calls w)(i \<mapsto> Authorize env ar lg)\<rparr>)"
| arrive_redeem: "ra_calls w i = None \<Longrightarrow> (\<And>j c. ra_calls w j = Some c \<Longrightarrow> pending_code c \<noteq> Some (gi_code r)) \<Longrightarrow>
     race_step w (w\<lparr>ra_calls := (ra_calls w)(i \<mapsto> Redeem r)\<rparr>)"
| arrive_refresh: "ra_calls w i = None \<Longrightarrow> race_step w (w\<lparr>ra_calls := (ra_calls w)(i \<mapsto> Refresh r)\<rparr>)"
| arrive_revoke: "ra_calls w i = None \<Longrightarrow> race_step w (w\<lparr>ra_calls := (ra_calls w)(i \<mapsto> Revoke t)\<rparr>)"
| elsewhere: "race_step w (w\<lparr>ra_state := (ra_state w)\<lparr>os_keys := p, os_queue := q, os_interactive := a, os_rotate := b\<rparr>\<rparr>)"

inductive race_reach :: "oidc \<Rightarrow> race \<Rightarrow> bool" for s0 where
  race_init: "race_reach s0 \<lparr>ra_calls = Map.empty, ra_state = s0\<rparr>"
| race_more: "race_reach s0 w \<Longrightarrow> race_step w w' \<Longrightarrow> race_reach s0 w'"

inductive_cases race_stepE: "race_step w w'"

section \<open>The invariant\<close>

text \<open>A redemption that has taken its code out of the table, with the request it got.\<close>

fun took :: "grant_call \<Rightarrow> (string \<times> auth_request) option" where
  "took (RedeemTaken r ar) = Some (gi_code r, ar)"
| "took (RedeemLogged r ar _) = Some (gi_code r, ar)"
| "took (RedeemId r ar _ _) = Some (gi_code r, ar)"
| "took (RedeemAccess r ar _ _ _) = Some (gi_code r, ar)"
| "took (Redeemed r ar _ _) = Some (gi_code r, ar)"
| "took _ = None"

text \<open>A redemption that has taken the login as well.\<close>

fun logged :: "grant_call \<Rightarrow> (string \<times> auth_request \<times> login option) option" where
  "logged (RedeemLogged r ar lg) = Some (gi_code r, ar, lg)"
| "logged (RedeemId r ar lg _) = Some (gi_code r, ar, lg)"
| "logged (RedeemAccess r ar lg _ _) = Some (gi_code r, ar, lg)"
| "logged (Redeemed r ar lg _) = Some (gi_code r, ar, lg)"
| "logged _ = None"

text \<open>The tokens so far are those minted for the request and the login of the call, whatever the state at that moment.\<close>

fun minted_right :: "grant_call \<Rightarrow> bool" where
  "minted_right (RedeemId r ar lg idt) \<longleftrightarrow> (\<exists>s. idt = fst (redeem_id r ar lg s))"
| "minted_right (RedeemAccess r ar lg idt access) \<longleftrightarrow> (\<exists>s. idt = fst (redeem_id r ar lg s)) \<and> (\<exists>s. access = fst (redeem_access r ar lg s))"
| "minted_right (Redeemed r ar lg resp) \<longleftrightarrow>
     (\<exists>s1 s2 s3. resp = grant_answer r (fst (redeem_id r ar lg s1)) (fst (redeem_access r ar lg s2))
        (fst (refresh_mint (gx_refresh_jti (gi_env r)) (login_callback lg (gi_cb r)) (ar_nonce ar) (s3 :: oidc))))"
| "minted_right (RefreshResolved r resolved) \<longleftrightarrow> cb_issuer resolved = gi_iss_id r"
| "minted_right (RefreshRead r stored) \<longleftrightarrow> (case stored of Some c \<Rightarrow> cb_issuer c = gi_iss_id r | None \<Rightarrow> True)"
| "minted_right (RefreshRotating r resolved) \<longleftrightarrow> cb_issuer resolved = gi_iss_id r"
| "minted_right (RefreshRemoved r resolved _) \<longleftrightarrow> cb_issuer resolved = gi_iss_id r"
| "minted_right (RefreshKept r resolved _) \<longleftrightarrow> cb_issuer resolved = gi_iss_id r"
| "minted_right (RefreshId r resolved _ _) \<longleftrightarrow> cb_issuer resolved = gi_iss_id r"
| "minted_right (Refreshed r resolved _ _) \<longleftrightarrow> cb_issuer resolved = gi_iss_id r"
| "minted_right _ \<longleftrightarrow> True"

lemma queue_poll_issuer: "queue_poll iss_id s = (Some c, s') \<Longrightarrow> cb_issuer c = iss_id"
  by (auto simp: queue_poll_def split: list.splits if_splits)

lemma result_fst: "f s = (x, s') \<Longrightarrow> \<exists>s. x = fst (f s)"
  by (metis fst_conv)

lemma minted_right_step: "call_step c s = Some (c', s') \<Longrightarrow> minted_right c \<Longrightarrow> minted_right c'"
proof (cases c)
  case (RedeemAccess r ar lg idt access)
  assume st: "call_step c s = Some (c', s')" and m: "minted_right c"
  then obtain s1 s2 where "idt = fst (redeem_id r ar lg s1)" "access = fst (redeem_access r ar lg s2)" using RedeemAccess by auto
  then show ?thesis using st RedeemAccess by (auto split: prod.splits) (metis fst_conv)
qed (auto simp: Let_def split: prod.splits option.splits if_splits dest: queue_poll_issuer result_fst)

text \<open>What a step of a call does to the code and login tables and to the role of the call.\<close>

lemma call_step_auth: "call_step c s = Some (c', s') \<Longrightarrow> map_get (os_auth s') code =
   (case c of Authorize env ar lg \<Rightarrow> if implies_code_flow ar \<and> gx_code env = code then Some ar else map_get (os_auth s) code
    | Redeem r \<Rightarrow> if gi_code r = code then None else map_get (os_auth s) code
    | _ \<Rightarrow> map_get (os_auth s) code)"
  by (cases c) (auto simp: Let_def redeem_id_def redeem_access_def take_login_def refresh_mint_def refresh_remove_def queue_poll_def mint_keys
      prod_eq_iff split: prod.splits option.splits if_splits list.splits)

lemma call_step_login: "call_step c s = Some (c', s') \<Longrightarrow> map_get (os_login s') code =
   (case c of AuthorizeStored code' ar lg \<Rightarrow> if code' = code \<and> lg \<noteq> None then lg else map_get (os_login s) code
    | RedeemTaken r ar \<Rightarrow> if gi_code r = code then None else map_get (os_login s) code
    | _ \<Rightarrow> map_get (os_login s) code)"
  by (cases c) (auto simp: Let_def redeem_id_def redeem_access_def take_login_def refresh_mint_def refresh_remove_def queue_poll_def mint_keys
      prod_eq_iff split: prod.splits option.splits if_splits list.splits)

lemma call_step_presented: "call_step c s = Some (c', s') \<Longrightarrow> presented_code c' = presented_code c"
  by (cases c) (auto simp: Let_def split: prod.splits option.splits if_splits)

lemma call_step_pending: "call_step c s = Some (c', s') \<Longrightarrow> pending_code c' = Some code \<Longrightarrow> pending_code c = Some code"
  by (cases c) (auto simp: Let_def split: prod.splits option.splits if_splits)

lemma call_step_issued:
  "call_step c s = Some (c', s') \<Longrightarrow> issued_code c' = Some code \<Longrightarrow> issued_code c = Some code"
  "call_step c s = Some (c', s') \<Longrightarrow> issued_code c = Some code \<Longrightarrow> issued_code c' \<noteq> Some code \<Longrightarrow>
     \<exists>env ar lg. c = Authorize env ar lg \<and> \<not> implies_code_flow ar \<and> code = gx_code env"
  by (cases c; auto simp: Let_def split: prod.splits option.splits if_splits)+

lemma call_step_took: "call_step c s = Some (c', s') \<Longrightarrow> took c' = Some (code, ar) \<Longrightarrow>
   took c = Some (code, ar) \<or> (\<exists>r. c = Redeem r \<and> gi_code r = code \<and> map_get (os_auth s) code = Some ar)"
  by (cases c) (auto simp: Let_def split: prod.splits option.splits if_splits)

lemma call_step_logged: "call_step c s = Some (c', s') \<Longrightarrow> logged c' = Some (code, ar, lg) \<Longrightarrow>
   logged c = Some (code, ar, lg) \<or> (\<exists>r. c = RedeemTaken r ar \<and> gi_code r = code \<and> map_get (os_login s) code = lg)"
  by (cases c) (auto simp: Let_def take_login_def split: prod.splits option.splits if_splits)

lemma call_step_authorizing:
  "call_step c s = Some (Authorize env ar lg, s') \<Longrightarrow> False"
  "call_step c s = Some (AuthorizeStored code ar lg, s') \<Longrightarrow> (\<exists>env. c = Authorize env ar lg \<and> gx_code env = code \<and> implies_code_flow ar)"
  "call_step c s = Some (Authorized code ar lg, s') \<Longrightarrow> c = AuthorizeStored code ar lg"
  "call_step c s = Some (RedeemTaken r ar, s') \<Longrightarrow> c = Redeem r \<and> map_get (os_auth s) (gi_code r) = Some ar"
  by (cases c; auto simp: Let_def split: prod.splits option.splits if_splits)+

definition issues_once :: "(nat \<rightharpoonup> grant_call) \<Rightarrow> bool" where
  "issues_once C \<longleftrightarrow> (\<forall>i j c d code. C i = Some c \<longrightarrow> C j = Some d \<longrightarrow> issued_code c = Some code \<longrightarrow> issued_code d = Some code \<longrightarrow> i = j)"

definition pending_secret :: "(nat \<rightharpoonup> grant_call) \<Rightarrow> bool" where
  "pending_secret C \<longleftrightarrow> (\<forall>i j c d code. C i = Some c \<longrightarrow> C j = Some d \<longrightarrow> pending_code c = Some code \<longrightarrow> presented_code d \<noteq> Some code)"

definition takes_once :: "(nat \<rightharpoonup> grant_call) \<Rightarrow> bool" where
  "takes_once C \<longleftrightarrow> (\<forall>i j c d code ar ar'. C i = Some c \<longrightarrow> C j = Some d \<longrightarrow> took c = Some (code, ar) \<longrightarrow> took d = Some (code, ar') \<longrightarrow> i = j)"

definition table_issued :: "(nat \<rightharpoonup> grant_call) \<Rightarrow> oidc \<Rightarrow> bool" where
  "table_issued C s \<longleftrightarrow> (\<forall>code. map_get (os_auth s) code \<noteq> None \<or> map_get (os_login s) code \<noteq> None \<longrightarrow>
     (\<exists>i c. C i = Some c \<and> issued_code c = Some code))"

text \<open>What each call may rely on in the tables.\<close>

fun call_relies :: "(nat \<rightharpoonup> grant_call) \<Rightarrow> oidc \<Rightarrow> grant_call \<Rightarrow> bool" where
  "call_relies C s (Authorize env ar lg) \<longleftrightarrow> map_get (os_auth s) (gx_code env) = None \<and> map_get (os_login s) (gx_code env) = None"
| "call_relies C s (AuthorizeStored code ar lg) \<longleftrightarrow> map_get (os_auth s) code = Some ar \<and> map_get (os_login s) code = None"
| "call_relies C s (Authorized code ar lg) \<longleftrightarrow>
     (case map_get (os_auth s) code of Some ar' \<Rightarrow> ar' = ar \<and> map_get (os_login s) code = lg | None \<Rightarrow> True)"
| "call_relies C s (RedeemTaken r ar) \<longleftrightarrow> map_get (os_auth s) (gi_code r) = None \<and>
     (\<exists>k. C k = Some (Authorized (gi_code r) ar (map_get (os_login s) (gi_code r))))"
| "call_relies C s c \<longleftrightarrow> (case logged c of Some (code, ar, lg) \<Rightarrow> map_get (os_auth s) code = None \<and> (\<exists>k. C k = Some (Authorized code ar lg)) | None \<Rightarrow> True)"

definition race_inv :: "race \<Rightarrow> bool" where
  "race_inv w \<longleftrightarrow> issues_once (ra_calls w) \<and> pending_secret (ra_calls w) \<and> takes_once (ra_calls w) \<and> table_issued (ra_calls w) (ra_state w) \<and>
     (\<forall>i c. ra_calls w i = Some c \<longrightarrow> call_relies (ra_calls w) (ra_state w) c \<and> minted_right c)"

lemma auth_change: "call_step c s = Some (c', s') \<Longrightarrow> map_get (os_auth s') code = map_get (os_auth s) code \<or>
   (\<exists>env ar lg. c = Authorize env ar lg \<and> gx_code env = code) \<or> (\<exists>r. c = Redeem r \<and> gi_code r = code \<and> map_get (os_auth s') code = None)"
  using call_step_auth[of c s c' s' code] by (cases c) (auto split: if_splits)

lemma login_change: "call_step c s = Some (c', s') \<Longrightarrow> map_get (os_login s') code = map_get (os_login s) code \<or>
   (\<exists>ar lg. c = AuthorizeStored code ar lg) \<or> (\<exists>r ar. c = RedeemTaken r ar \<and> gi_code r = code \<and> map_get (os_login s') code = None)"
  using call_step_login[of c s c' s' code] by (cases c) (auto split: if_splits)

lemma relies_took: "call_relies C s d \<Longrightarrow> took d = Some (code, ar) \<Longrightarrow> map_get (os_auth s) code = None \<and> (\<exists>k lg. C k = Some (Authorized code ar lg))"
  by (cases d) auto

lemma took_presented: "took d = Some (code, ar) \<Longrightarrow> presented_code d = Some code"
  by (cases d) auto

lemma authorized_stays: "C i = Some c \<Longrightarrow> call_step c s = Some (c', s') \<Longrightarrow> C k = Some (Authorized code ar lg) \<Longrightarrow>
   (C(i \<mapsto> c')) k = Some (Authorized code ar lg)"
  by auto

lemma race_relies:
  assumes inv: "race_inv \<lparr>ra_calls = C, ra_state = s\<rparr>"
  shows "C j = Some d \<Longrightarrow> call_relies C s d"
  using inv by (simp add: race_inv_def)

lemma race_once:
  assumes inv: "race_inv \<lparr>ra_calls = C, ra_state = s\<rparr>"
  shows "C j = Some d \<Longrightarrow> C k = Some e \<Longrightarrow> issued_code d = Some code \<Longrightarrow> issued_code e = Some code \<Longrightarrow> j = k"
  using inv unfolding race_inv_def issues_once_def race.simps by blast

lemma race_secret:
  assumes inv: "race_inv \<lparr>ra_calls = C, ra_state = s\<rparr>"
  shows "C j = Some d \<Longrightarrow> C k = Some e \<Longrightarrow> pending_code d = Some code \<Longrightarrow> presented_code e = Some code \<Longrightarrow> False"
  using inv unfolding race_inv_def pending_secret_def race.simps by blast

lemma race_taken:
  assumes inv: "race_inv \<lparr>ra_calls = C, ra_state = s\<rparr>"
  shows "C j = Some d \<Longrightarrow> C k = Some e \<Longrightarrow> took d = Some (code, ar) \<Longrightarrow> took e = Some (code, ar') \<Longrightarrow> j = k"
  using inv unfolding race_inv_def takes_once_def race.simps by blast

lemma issues_once_kept:
  assumes inv: "race_inv \<lparr>ra_calls = C, ra_state = s\<rparr>" and at: "C i = Some c" and st: "call_step c s = Some (c', s')"
  shows "issues_once (C(i \<mapsto> c'))"
  unfolding issues_once_def using race_once[OF inv at] race_once[OF inv _ at] race_once[OF inv] call_step_issued(1)[OF st] by (simp split: if_split)

lemma pending_secret_kept:
  assumes inv: "race_inv \<lparr>ra_calls = C, ra_state = s\<rparr>" and at: "C i = Some c" and st: "call_step c s = Some (c', s')"
  shows "pending_secret (C(i \<mapsto> c'))"
  unfolding pending_secret_def using race_secret[OF inv at] race_secret[OF inv _ at] race_secret[OF inv] call_step_pending[OF st] call_step_presented[OF st]
  by (simp split: if_split) (metis at)

lemma takes_once_kept:
  assumes inv: "race_inv \<lparr>ra_calls = C, ra_state = s\<rparr>" and at: "C i = Some c" and st: "call_step c s = Some (c', s')"
  shows "takes_once (C(i \<mapsto> c'))"
proof -
  have other: False if "j \<noteq> i" "C j = Some d" "took d = Some (code, ar)" "took c' = Some (code, ar')" for j d code ar ar'
    using call_step_took[OF st that(4)] relies_took[OF race_relies[OF inv that(2)] that(3)] race_taken[OF inv that(2) at that(3)] that(1) by auto
  show ?thesis
  proof (unfold takes_once_def, intro allI impI)
    fix j k d e code ar ar'
    assume "(C(i \<mapsto> c')) j = Some d" "(C(i \<mapsto> c')) k = Some e" "took d = Some (code, ar)" "took e = Some (code, ar')"
    then show "j = k" using race_taken[OF inv, of j d k e code ar ar'] other[of j d code ar ar'] other[of k e code ar' ar] by (cases "j = i"; cases "k = i") auto
  qed
qed

lemma table_issued_kept:
  assumes inv: "race_inv \<lparr>ra_calls = C, ra_state = s\<rparr>" and at: "C i = Some c" and st: "call_step c s = Some (c', s')"
  shows "table_issued (C(i \<mapsto> c')) s'"
proof (unfold table_issued_def, intro allI impI)
  fix code assume h: "map_get (os_auth s') code \<noteq> None \<or> map_get (os_login s') code \<noteq> None"
  have "\<exists>j d. C j = Some d \<and> issued_code d = Some code"
  proof (cases "map_get (os_auth s) code \<noteq> None \<or> map_get (os_login s) code \<noteq> None")
    case True
    then show ?thesis using inv unfolding race_inv_def table_issued_def race.simps by blast
  next
    case False
    then have "issued_code c = Some code" using h auth_change[OF st, of code] login_change[OF st, of code] by auto
    then show ?thesis using at by blast
  qed
  then obtain j d where d: "C j = Some d" "issued_code d = Some code" by blast
  show "\<exists>j d. (C(i \<mapsto> c')) j = Some d \<and> issued_code d = Some code"
  proof (cases "j = i \<and> issued_code c' \<noteq> Some code")
    case True
    then obtain env ar lg where a: "c = Authorize env ar lg" "\<not> implies_code_flow ar" "code = gx_code env"
      using call_step_issued(2)[OF st] d at by auto
    then show ?thesis using h race_relies[OF inv at] st by auto
  qed (use d in \<open>auto intro: exI[of _ j]\<close>)
qed

lemma still_authorized:
  assumes inv: "race_inv \<lparr>ra_calls = C, ra_state = s\<rparr>" and at: "C i = Some c" and st: "call_step c s = Some (c', s')"
  shows "C k = Some (Authorized code ar lg) \<Longrightarrow> \<exists>k. (C(i \<mapsto> c')) k = Some (Authorized code ar lg)"
  using authorized_stays[of C i c s c' s' k code ar lg] at st by blast

lemma took_frozen:
  assumes inv: "race_inv \<lparr>ra_calls = C, ra_state = s\<rparr>" and at: "C i = Some c" and st: "call_step c s = Some (c', s')"
  shows "j \<noteq> i \<Longrightarrow> C j = Some d \<Longrightarrow> took d = Some (code, ar) \<Longrightarrow> map_get (os_auth s') code = None"
  using auth_change[OF st, of code] relies_took[OF race_relies[OF inv], of j d code ar] race_secret[OF inv at, of j d code] took_presented[of d code ar] by auto

lemma others_rely:
  assumes inv: "race_inv \<lparr>ra_calls = C, ra_state = s\<rparr>" and at: "C i = Some c" and st: "call_step c s = Some (c', s')"
  shows "j \<noteq> i \<Longrightarrow> C j = Some d \<Longrightarrow> call_relies (C(i \<mapsto> c')) s' d"
proof -
  assume j: "j \<noteq> i" and d: "C j = Some d"
  note rel = race_relies[OF inv d] and a = auth_change[OF st] and l = login_change[OF st]
  have ij: "issued_code c = Some code \<Longrightarrow> issued_code d = Some code \<Longrightarrow> False" for code using race_once[OF inv at d] j by blast
  have logged_case: ?thesis if "logged d = Some (code, ar, lg)" for code ar lg
  proof -
    have "took d = Some (code, ar)" using that by (cases d) auto
    then have "map_get (os_auth s') code = None" using took_frozen[OF inv at st j d] by blast
    moreover have "\<exists>k. C k = Some (Authorized code ar lg)" using rel that by (cases d) auto
    ultimately show ?thesis using that still_authorized[OF inv at st, of _ code ar lg] by (cases d) (auto simp del: fun_upd_apply)
  qed
  show ?thesis
  proof (cases d)
    case (Authorize env ar lg)
    then show ?thesis using rel a[of "gx_code env"] l[of "gx_code env"] ij[of "gx_code env"] by auto
  next
    case (AuthorizeStored code ar lg)
    then show ?thesis using rel a[of code] l[of code] ij[of code] race_secret[OF inv d at, of code] by auto
  next
    case (Authorized code ar lg)
    then show ?thesis using rel a[of code] l[of code] ij[of code] race_relies[OF inv at] by (auto split: option.splits)
  next
    case (RedeemTaken r ar)
    then obtain k where k: "C k = Some (Authorized (gi_code r) ar (map_get (os_login s) (gi_code r)))" using rel by auto
    have "\<not> (\<exists>r' ar'. c = RedeemTaken r' ar' \<and> gi_code r' = gi_code r)"
      using race_taken[OF inv at d, of "gi_code r" _ ar] j RedeemTaken by (metis took.simps(1))
    then have "map_get (os_login s') (gi_code r) = map_get (os_login s) (gi_code r)"
      using l[of "gi_code r"] race_secret[OF inv at d, of "gi_code r"] RedeemTaken by auto
    then show ?thesis using still_authorized[OF inv at st k] took_frozen[OF inv at st j d] RedeemTaken by (simp del: fun_upd_apply)
  qed (use logged_case in \<open>auto simp del: fun_upd_apply\<close>)
qed

lemma logged_relies:
  assumes inv: "race_inv \<lparr>ra_calls = C, ra_state = s\<rparr>" and at: "C i = Some c" and st: "call_step c s = Some (c', s')"
  shows "logged c' = Some (code, ar, lg) \<Longrightarrow> map_get (os_auth s') code = None \<and> (\<exists>k. (C(i \<mapsto> c')) k = Some (Authorized code ar lg))"
proof -
  assume "logged c' = Some (code, ar, lg)"
  then consider "logged c = Some (code, ar, lg)" | r where "c = RedeemTaken r ar" "gi_code r = code" "map_get (os_login s) code = lg"
    using call_step_logged[OF st] by blast
  then show ?thesis
  proof cases
    case 1
    then have "map_get (os_auth s') code = map_get (os_auth s) code" using call_step_auth[OF st, of code] by (cases c) auto
    moreover have "map_get (os_auth s) code = None \<and> (\<exists>k. C k = Some (Authorized code ar lg))" using 1 race_relies[OF inv at] by (cases c) auto
    ultimately show ?thesis using still_authorized[OF inv at st, of _ code ar lg] by (auto simp del: fun_upd_apply)
  next
    case 2
    then show ?thesis using race_relies[OF inv at] call_step_auth[OF st, of code] still_authorized[OF inv at st, of _ code ar lg] by (auto simp del: fun_upd_apply)
  qed
qed

lemma self_relies:
  assumes inv: "race_inv \<lparr>ra_calls = C, ra_state = s\<rparr>" and at: "C i = Some c" and st: "call_step c s = Some (c', s')"
  shows "call_relies (C(i \<mapsto> c')) s' c'"
proof (cases c')
  case (Authorize env ar lg)
  then show ?thesis using call_step_authorizing(1) st by blast
next
  case (AuthorizeStored code ar lg)
  then show ?thesis using call_step_authorizing(2)[of c s code ar lg s'] st call_step_auth[OF st, of code] call_step_login[OF st, of code] race_relies[OF inv at]
    by auto
next
  case (Authorized code ar lg)
  then have "c = AuthorizeStored code ar lg" using call_step_authorizing(3) st by blast
  then show ?thesis using Authorized call_step_auth[OF st, of code] call_step_login[OF st, of code] race_relies[OF inv at] by (auto split: if_splits)
next
  case (RedeemTaken r ar)
  then have c: "c = Redeem r" "map_get (os_auth s) (gi_code r) = Some ar" using call_step_authorizing(4) st by blast+
  obtain k d where d: "C k = Some d" "issued_code d = Some (gi_code r)"
    using inv c(2) unfolding race_inv_def table_issued_def race.simps by blast
  have "pending_code d \<noteq> Some (gi_code r)" using race_secret[OF inv d(1) at, of "gi_code r"] c(1) by auto
  then have "\<exists>lg. d = Authorized (gi_code r) ar lg \<and> map_get (os_login s) (gi_code r) = lg"
    using d c(2) race_relies[OF inv d(1)] by (cases d) auto
  then have "C k = Some (Authorized (gi_code r) ar (map_get (os_login s) (gi_code r)))" using d(1) by auto
  from still_authorized[OF inv at st this] show ?thesis
    using RedeemTaken c call_step_auth[OF st, of "gi_code r"] call_step_login[OF st, of "gi_code r"] by (auto simp del: fun_upd_apply)
qed (use logged_relies[OF inv at st] in \<open>auto simp del: fun_upd_apply\<close>)

lemma step_keeps:
  assumes inv: "race_inv \<lparr>ra_calls = C, ra_state = s\<rparr>" and at: "C i = Some c" and st: "call_step c s = Some (c', s')"
  shows "race_inv \<lparr>ra_calls = C(i \<mapsto> c'), ra_state = s'\<rparr>"
proof -
  have m: "C j = Some d \<Longrightarrow> minted_right d" for j d using inv by (simp add: race_inv_def)
  have "call_relies (C(i \<mapsto> c')) s' d \<and> minted_right d" if "(C(i \<mapsto> c')) j = Some d" for j d
    using that self_relies[OF inv at st] others_rely[OF inv at st] m minted_right_step[OF st m[OF at]] by (cases "j = i") auto
  then show ?thesis unfolding race_inv_def race.simps
    using issues_once_kept[OF inv at st] pending_secret_kept[OF inv at st] takes_once_kept[OF inv at st] table_issued_kept[OF inv at st] by blast
qed

lemma arrival_keeps:
  assumes inv: "race_inv \<lparr>ra_calls = C, ra_state = s\<rparr>" and new: "C i = None" and fresh: "took c = None" "logged c = None" "minted_right c"
    and relies: "call_relies (C(i \<mapsto> c)) s c"
    and issue: "\<And>code j d. C j = Some d \<Longrightarrow> issued_code c = Some code \<Longrightarrow> issued_code d \<noteq> Some code \<and> presented_code d \<noteq> Some code"
    and present: "\<And>code j d. C j = Some d \<Longrightarrow> presented_code c = Some code \<Longrightarrow> pending_code d \<noteq> Some code"
    and not_both: "issued_code c = None \<or> presented_code c = None"
  shows "race_inv \<lparr>ra_calls = C(i \<mapsto> c), ra_state = s\<rparr>"
proof -
  have pend: "pending_code d = Some code \<Longrightarrow> issued_code d = Some code" for d code by (cases d) auto
  have stays: "(\<exists>k. C k = Some e) \<Longrightarrow> \<exists>k. (C(i \<mapsto> c)) k = Some e" for e using new by (metis fun_upd_apply option.distinct(1))
  have "call_relies (C(i \<mapsto> c)) s d" if "C j = Some d" for j d
    using race_relies[OF inv that] stays by (cases d) (auto simp del: fun_upd_apply split: option.splits)
  then have "call_relies (C(i \<mapsto> c)) s d \<and> minted_right d" if "(C(i \<mapsto> c)) j = Some d" for j d
    using that relies fresh(3) inv by (cases "j = i") (auto simp: race_inv_def)
  moreover have "issues_once (C(i \<mapsto> c))" unfolding issues_once_def
    using race_once[OF inv] issue by (simp split: if_split) metis
  moreover have "pending_secret (C(i \<mapsto> c))" unfolding pending_secret_def
    using race_secret[OF inv] issue present pend not_both by (simp split: if_split) (metis option.distinct(1))
  moreover have "takes_once (C(i \<mapsto> c))" unfolding takes_once_def
    using race_taken[OF inv] fresh(1) by (simp split: if_split) blast
  moreover have "table_issued (C(i \<mapsto> c)) s" unfolding table_issued_def
  proof (intro allI impI)
    fix code assume "map_get (os_auth s) code \<noteq> None \<or> map_get (os_login s) code \<noteq> None"
    then obtain k d where "C k = Some d" "issued_code d = Some code" using inv unfolding race_inv_def table_issued_def race.simps by blast
    then show "\<exists>k d. (C(i \<mapsto> c)) k = Some d \<and> issued_code d = Some code" using stays[of d] by blast
  qed
  ultimately show ?thesis unfolding race_inv_def race.simps by blast
qed

lemma unissued_code: "race_inv \<lparr>ra_calls = C, ra_state = s\<rparr> \<Longrightarrow> (\<And>j d. C j = Some d \<Longrightarrow> issued_code d \<noteq> Some code) \<Longrightarrow>
  map_get (os_auth s) code = None \<and> map_get (os_login s) code = None"
  unfolding race_inv_def table_issued_def race.simps by blast

lemma race_inv_frame: "race_inv \<lparr>ra_calls = C, ra_state = s\<rparr> \<Longrightarrow> os_auth t = os_auth s \<Longrightarrow> os_login t = os_login s \<Longrightarrow>
  race_inv \<lparr>ra_calls = C, ra_state = t\<rparr>"
proof -
  assume "race_inv \<lparr>ra_calls = C, ra_state = s\<rparr>" and e: "os_auth t = os_auth s" "os_login t = os_login s"
  moreover have "call_relies C t c = call_relies C s c" for c by (cases c) (simp_all add: e split: option.split)
  ultimately show ?thesis by (simp add: race_inv_def table_issued_def)
qed

lemma race_step_inv:
  assumes "race_step w w'" and inv: "race_inv w"
  shows "race_inv w'"
proof -
  obtain C s where w: "w = \<lparr>ra_calls = C, ra_state = s\<rparr>" by (cases w)
  note inv = inv[unfolded w]
  from assms(1) show ?thesis unfolding w
  proof (cases rule: race_step.cases)
    case (advance i c c' s')
    then show ?thesis using step_keeps[OF inv, of i c c' s'] by simp
  next
    case (arrive_authorize i env ar lg)
    then have "map_get (os_auth s) (gx_code env) = None \<and> map_get (os_login s) (gx_code env) = None"
      using unissued_code[OF inv] by auto
    then show ?thesis using arrival_keeps[OF inv, of i "Authorize env ar lg"] arrive_authorize by auto
  next
    case (arrive_redeem i r)
    then show ?thesis using arrival_keeps[OF inv, of i "Redeem r"] by auto
  next
    case (arrive_refresh i r)
    then show ?thesis using arrival_keeps[OF inv, of i "Refresh r"] by auto
  next
    case (arrive_revoke i t)
    then show ?thesis using arrival_keeps[OF inv, of i "Revoke t"] by auto
  next
    case (elsewhere p q a b)
    then show ?thesis using race_inv_frame[OF inv] by simp
  qed
qed

lemma race_reach_inv: "race_reach s0 w \<Longrightarrow> os_auth s0 = [] \<Longrightarrow> os_login s0 = [] \<Longrightarrow> race_inv w"
proof (induction rule: race_reach.induct)
  case race_init
  then show ?case by (simp add: race_inv_def issues_once_def pending_secret_def takes_once_def table_issued_def)
qed (use race_step_inv in blast)

section \<open>Schedules\<close>

definition race_advance :: "nat \<Rightarrow> race \<Rightarrow> race" where
  "race_advance i w =
     (case ra_calls w i of
        None \<Rightarrow> w
      | Some c \<Rightarrow> (case call_step c (ra_state w) of None \<Rightarrow> w | Some (c', s') \<Rightarrow> \<lparr>ra_calls = (ra_calls w)(i \<mapsto> c'), ra_state = s'\<rparr>))"

definition race_run :: "nat list \<Rightarrow> race \<Rightarrow> race" where "race_run is w = fold race_advance is w"

lemma race_run_reach: "race_reach s0 w \<Longrightarrow> race_reach s0 (race_run is w)"
proof (induction "is" arbitrary: w)
  case (Cons i "is")
  have "race_reach s0 (race_advance i w)"
    using Cons.prems race_more[OF Cons.prems advance[of w i]] by (simp add: race_advance_def split: option.split)
  then show ?case using Cons.IH by (simp add: race_run_def)
qed (simp add: race_run_def)

lemmas race_run_simps = race_run_def race_advance_def

text \<open>The steps of a call after it has decided are its own: it mints and returns.\<close>

lemma redeemed_alone:
  "ra_calls w i = Some (RedeemLogged r ar lg) \<Longrightarrow>
   \<exists>resp s'. race_run [i, i, i] w = \<lparr>ra_calls = (ra_calls w)(i \<mapsto> Redeemed r ar lg resp), ra_state = s'\<rparr>"
  by (simp add: race_run_simps prod.case_eq_if) blast

lemma refreshed_alone:
  "ra_calls w i = Some (RefreshKept r resolved rt) \<Longrightarrow>
   \<exists>resp s'. race_run [i, i] w = \<lparr>ra_calls = (ra_calls w)(i \<mapsto> Refreshed r resolved rt resp), ra_state = s'\<rparr> \<and>
     os_refresh s' = os_refresh (ra_state w)"
proof -
  assume c: "ra_calls w i = Some (RefreshKept r resolved rt)"
  let ?id = "mint_id_token (gi_env r) (gi_request r) (gi_iss r) (gi_iss_id r) resolved [] (ra_state w)"
  let ?access = "mint_access_token (gi_env r) (gi_request r) (gi_iss r) (gi_iss_id r) resolved [] (snd ?id)"
  have "race_run [i, i] w = \<lparr>ra_calls = (ra_calls w)(i \<mapsto> Refreshed r resolved rt (grant_answer r (fst ?id) (fst ?access) rt)), ra_state = snd ?access\<rparr>"
    using c by (simp add: race_run_simps prod.case_eq_if)
  then show ?thesis by - (intro exI conjI, assumption, simp add: mint_frame)
qed

lemma race_example:
  fixes env :: grant_env
  assumes "implies_code_flow ar" "gi_code r = gx_code env" "verify_pkce (te_crypto (gx_token (gi_env r))) ar (gi_request r) = None"
    "gi_code r' = gx_code env" "os_login s0 = []"
  shows "\<exists>w resp e. race_reach s0 w \<and> ra_calls w 1 = Some (Redeemed r ar lg resp) \<and> ra_calls w 2 = Some (RedeemFailed r' e)"
proof -
  let ?w0 = "\<lparr>ra_calls = Map.empty, ra_state = s0\<rparr>"
  let ?w1 = "race_run [0, 0] (?w0\<lparr>ra_calls := Map.empty(0 \<mapsto> Authorize env ar lg)\<rparr>)"
  let ?code = "gx_code env"
  have r1: "race_reach s0 ?w1"
    using arrive_authorize[of ?w0 0 env ar lg] by (intro race_run_reach race_more[OF race_init]) simp
  have "ra_calls ?w1 = Map.empty(0 \<mapsto> Authorized ?code ar lg) \<and> map_get (os_auth (ra_state ?w1)) ?code = Some ar \<and>
      map_get (os_login (ra_state ?w1)) ?code = lg"
    using assms(1,5) by (simp add: race_run_simps split: option.split)
  then obtain w1 where r1: "race_reach s0 w1" and w1: "ra_calls w1 = Map.empty(0 \<mapsto> Authorized ?code ar lg)"
    and a1: "map_get (os_auth (ra_state w1)) ?code = Some ar" and l1: "map_get (os_login (ra_state w1)) ?code = lg"
    using r1 by blast
  let ?w2 = "w1\<lparr>ra_calls := (ra_calls w1)(1 \<mapsto> Redeem r)\<rparr>"
  let ?w3 = "?w2\<lparr>ra_calls := (ra_calls ?w2)(2 \<mapsto> Redeem r')\<rparr>"
  have "race_reach s0 ?w2" by (intro race_more[OF r1] arrive_redeem) (auto simp: w1 split: if_splits)
  then have r3: "race_reach s0 ?w3" by (rule race_more) (intro arrive_redeem; auto simp: w1 split: if_splits)
  let ?w4 = "race_run [1, 2, 1] ?w3"
  have w4: "ra_calls ?w4 1 = Some (RedeemLogged r ar lg)" "\<exists>e. ra_calls ?w4 2 = Some (RedeemFailed r' e)"
    using assms(2-4) a1 l1 by (simp_all add: w1 race_run_simps take_login_def)
  obtain resp s' where "race_run [1, 1, 1] ?w4 = \<lparr>ra_calls = (ra_calls ?w4)(1 \<mapsto> Redeemed r ar lg resp), ra_state = s'\<rparr>"
    using redeemed_alone[OF w4(1)] by blast
  moreover have "race_reach s0 (race_run [1, 1, 1] ?w4)" by (intro race_run_reach r3)
  ultimately show ?thesis using w4(2) by auto
qed

section \<open>What holds under every interleaving\<close>

text \<open>C2: redemption_races_safe. However authorizations, redemptions, refreshes and revocations interleave, a code gives tokens to
  one call at most, and to that call for the authorization request and the login the code was issued with, never for those of another user.\<close>

theorem redemption_races_safe:
  assumes "os_auth s0 = []" "os_login s0 = []" "race_reach s0 w" "ra_calls w i = Some (Redeemed r ar lg resp)"
  shows "(\<forall>j r' ar' lg' resp'. ra_calls w j = Some (Redeemed r' ar' lg' resp') \<and> gi_code r' = gi_code r \<longrightarrow> j = i) \<and>
    (\<exists>k. ra_calls w k = Some (Authorized (gi_code r) ar lg)) \<and>
    (\<exists>s1 s2 s3. resp = grant_answer r (fst (redeem_id r ar lg s1)) (fst (redeem_access r ar lg s2))
        (fst (refresh_mint (gx_refresh_jti (gi_env r)) (login_callback lg (gi_cb r)) (ar_nonce ar) (s3 :: oidc))))"
proof -
  have inv: "race_inv w" using race_reach_inv[OF assms(3,1,2)] .
  have "call_relies (ra_calls w) (ra_state w) (Redeemed r ar lg resp)" "minted_right (Redeemed r ar lg resp)"
    using inv assms(4) unfolding race_inv_def by blast+
  moreover have "j = i" if "ra_calls w j = Some (Redeemed r' ar' lg' resp')" "gi_code r' = gi_code r" for j r' ar' lg' resp'
  proof -
    have "took (Redeemed r' ar' lg' resp') = Some (gi_code r, ar')" "took (Redeemed r ar lg resp) = Some (gi_code r, ar)" using that(2) by simp_all
    then show ?thesis using inv that(1) assms(4) unfolding race_inv_def takes_once_def by blast
  qed
  ultimately show ?thesis by simp
qed

definition race_env :: grant_env where
  "race_env = \<lparr>gx_token = sample_env, gx_wall = 0, gx_code = ''abc'', gx_subject = ''u'', gx_id_jti = ''i'', gx_access_jti = ''j'', gx_refresh_jti = ''k''\<rparr>"

definition race_auth :: auth_request where
  "race_auth = \<lparr>ar_response_type = [''code''], ar_client_id = ''app'', ar_redirect_uri = ''http://app.test/cb'', ar_scope = [''openid''],
     ar_state = [], ar_nonce = ''n'', ar_code_challenge = [], ar_code_challenge_method = [], ar_prompt = [], ar_response_mode = []\<rparr>"

definition race_login :: login where "race_login = \<lparr>lg_username = ''alice'', lg_claims = []\<rparr>"

definition race_redeem :: grant_input where
  "race_redeem = \<lparr>gi_env = race_env, gi_request = empty_token_request\<lparr>tr_code := ''abc''\<rparr>, gi_iss = sample_issuer, gi_iss_id = ''default'',
     gi_cb = new_default_callback ''u'' ''default''\<rparr>"

definition race_start :: oidc where
  "race_start = \<lparr>os_keys = pool_provider, os_auth = [], os_login = [], os_refresh = [], os_queue = [], os_interactive = True, os_rotate = True\<rparr>"

theorem redemption_races_safe_witness:
  "\<exists>w resp e. race_reach race_start w \<and> ra_calls w 1 = Some (Redeemed race_redeem race_auth (Some race_login) resp) \<and>
     ra_calls w 2 = Some (RedeemFailed race_redeem e) \<and> (\<exists>k. ra_calls w k = Some (Authorized ''abc'' race_auth (Some race_login)))"
proof -
  have s: "os_auth race_start = []" "os_login race_start = []" "gi_code race_redeem = gx_code race_env" "gi_code race_redeem = ''abc''"
    "implies_code_flow race_auth" "verify_pkce (te_crypto (gx_token (gi_env race_redeem))) race_auth (gi_request race_redeem) = None"
    by (simp_all add: race_start_def race_redeem_def race_env_def race_auth_def implies_code_flow_def verify_pkce_def empty_token_request_def)
  obtain w resp e where w: "race_reach race_start w" "ra_calls w 1 = Some (Redeemed race_redeem race_auth (Some race_login) resp)"
    "ra_calls w 2 = Some (RedeemFailed race_redeem e)"
    using race_example[OF s(5,3,6,3,2)] by blast
  then show ?thesis using redemption_races_safe[OF s(1,2) w(1,2)] s(4) by auto
qed

text \<open>A refresh that returns tokens used a callback of the issuer it was sent to.\<close>

lemma refreshed_for_own_issuer:
  "os_auth s0 = [] \<Longrightarrow> os_login s0 = [] \<Longrightarrow> race_reach s0 w \<Longrightarrow> ra_calls w i = Some (Refreshed r resolved rt resp) \<Longrightarrow>
   cb_issuer resolved = gi_iss_id r"
  using race_reach_inv[of s0 w] unfolding race_inv_def by (metis minted_right.simps(10))

section \<open>What does not\<close>

text \<open>
  Rotation reads the token and takes it out in two separate operations, and the second falls back to what the first
  read. Two refreshes that both read first both succeed, and one token has become two.
\<close>

lemma rotated_twice:
  assumes "map_get (os_refresh s) (gi_refresh r) = Some cb" "gi_refresh r' = gi_refresh r" "cb_issuer cb = gi_iss_id r" "gi_iss_id r' = gi_iss_id r"
    "os_rotate s" "os_queue s = []" "gx_refresh_jti (gi_env r) \<noteq> gx_refresh_jti (gi_env r')" "gx_refresh_jti (gi_env r) \<noteq> gi_refresh r"
  shows "\<exists>resp resp' w. w = race_run [0, 0, 1, 1, 0, 0, 0, 1, 1, 1, 0, 0, 1, 1] \<lparr>ra_calls = Map.empty(0 \<mapsto> Refresh r, 1 \<mapsto> Refresh r'), ra_state = s\<rparr> \<and>
    ra_calls w 0 = Some (Refreshed r cb (gx_refresh_jti (gi_env r)) resp) \<and>
    ra_calls w 1 = Some (Refreshed r' cb (gx_refresh_jti (gi_env r')) resp') \<and>
    map_get (os_refresh (ra_state w)) (gx_refresh_jti (gi_env r)) = Some cb \<and>
    map_get (os_refresh (ra_state w)) (gx_refresh_jti (gi_env r')) = Some cb"
proof -
  have q: "queue_poll x t = (None, t)" if "os_queue t = []" for x and t :: oidc using that by (simp add: queue_poll_def)
  let ?w = "\<lparr>ra_calls = Map.empty(0 \<mapsto> Refresh r, 1 \<mapsto> Refresh r'), ra_state = s\<rparr>"
  let ?w1 = "race_run [0, 0, 1, 1, 0, 0, 0, 1, 1, 1] ?w"
  have w1: "ra_calls ?w1 0 = Some (RefreshKept r cb (gx_refresh_jti (gi_env r)))"
    "ra_calls ?w1 1 = Some (RefreshKept r' cb (gx_refresh_jti (gi_env r')))"
    "map_get (os_refresh (ra_state ?w1)) (gx_refresh_jti (gi_env r)) = Some cb"
    "map_get (os_refresh (ra_state ?w1)) (gx_refresh_jti (gi_env r')) = Some cb"
    using assms by (simp_all add: race_run_simps refresh_get_def q refresh_mint_def refresh_remove_def Let_def)
  obtain resp s2 where w2: "race_run [0, 0] ?w1 = \<lparr>ra_calls = (ra_calls ?w1)(0 \<mapsto> Refreshed r cb (gx_refresh_jti (gi_env r)) resp), ra_state = s2\<rparr>"
    "os_refresh s2 = os_refresh (ra_state ?w1)"
    using refreshed_alone[OF w1(1)] by blast
  have "ra_calls (race_run [0, 0] ?w1) 1 = Some (RefreshKept r' cb (gx_refresh_jti (gi_env r')))" using w1(2) w2(1) by simp
  from refreshed_alone[OF this] obtain resp' s3 where w3: "race_run [1, 1] (race_run [0, 0] ?w1) =
      \<lparr>ra_calls = (ra_calls (race_run [0, 0] ?w1))(1 \<mapsto> Refreshed r' cb (gx_refresh_jti (gi_env r')) resp'), ra_state = s3\<rparr>"
    "os_refresh s3 = os_refresh (ra_state (race_run [0, 0] ?w1))"
    by blast
  have "race_run [0, 0, 1, 1, 0, 0, 0, 1, 1, 1, 0, 0, 1, 1] ?w = race_run [1, 1] (race_run [0, 0] ?w1)" by (simp add: race_run_def)
  then show ?thesis using w1 w2 w3 by simp
qed

text \<open>A token revoked between the two operations is replaced instead of refused: the revocation is lost.\<close>

lemma revocation_lost:
  assumes "map_get (os_refresh s) (gi_refresh r) = Some cb" "cb_issuer cb = gi_iss_id r" "os_rotate s" "os_queue s = []"
  shows "\<exists>resp w. w = race_run [0, 1, 0, 0, 0, 0, 0, 0] \<lparr>ra_calls = Map.empty(0 \<mapsto> Refresh r, 1 \<mapsto> Revoke (gi_refresh r)), ra_state = s\<rparr> \<and>
    ra_calls w 0 = Some (Refreshed r cb (gx_refresh_jti (gi_env r)) resp) \<and> ra_calls w 1 = Some (Revoked (gi_refresh r)) \<and>
    map_get (os_refresh (ra_state w)) (gx_refresh_jti (gi_env r)) = Some cb"
proof -
  have q: "queue_poll x t = (None, t)" if "os_queue t = []" for x and t :: oidc using that by (simp add: queue_poll_def)
  let ?w = "\<lparr>ra_calls = Map.empty(0 \<mapsto> Refresh r, 1 \<mapsto> Revoke (gi_refresh r)), ra_state = s\<rparr>"
  let ?w1 = "race_run [0, 1, 0, 0, 0, 0] ?w"
  have w1: "ra_calls ?w1 0 = Some (RefreshKept r cb (gx_refresh_jti (gi_env r)))" "ra_calls ?w1 1 = Some (Revoked (gi_refresh r))"
    "map_get (os_refresh (ra_state ?w1)) (gx_refresh_jti (gi_env r)) = Some cb"
    using assms by (simp_all add: race_run_simps refresh_get_def q refresh_mint_def refresh_remove_def Let_def)
  have "race_run [0, 1, 0, 0, 0, 0, 0, 0] ?w = race_run [0, 0] ?w1" by (simp add: race_run_def)
  then show ?thesis using w1 refreshed_alone[OF w1(1)] by auto
qed

end
