(* ===== verification/Tls_Setup.thy ===== *)
theory Tls_Setup
  imports Startup
begin

text \<open>
  The TLS setup in full (internal/httpserver/tls.go): what each certificate source of Startup is read into, the self-signed certificate, and the
  pool the program's own clients trust.

  Packages crypto/tls, crypto/x509, crypto/rsa and go-pkcs12, the files and the clock are arguments (\<open>tls_lib\<close>), with an opaque
  private key and parsed certificate. \<open>new_tls_refines\<close> ties the setup to the one Startup uses.
\<close>

section \<open>Data\<close>

datatype key_usage = DigitalSignature | CertSign
datatype ext_key_usage = ServerAuth

text \<open>The template of \<open>x509.CreateCertificate\<close>; instants are nanoseconds since 1970.\<close>

record cert_template =
  ct_serial :: int
  ct_common_name :: string
  ct_not_before :: int
  ct_not_after :: int
  ct_constraints_valid :: bool
  ct_is_ca :: bool
  ct_key_usage :: "key_usage list"
  ct_ext_key_usage :: "ext_key_usage list"
  ct_subject_key_id :: string
  ct_dns_names :: "string list"
  ct_ip_addresses :: "string list"

record ('key, 'cert) tls_lib =
  tl_load_pair :: "string \<Rightarrow> string \<Rightarrow> string + (string list \<times> 'key)"
  tl_parse :: "string \<Rightarrow> string + 'cert"
  tl_raw :: "'cert \<Rightarrow> string"
  tl_read_file :: "string \<Rightarrow> string + string"
  tl_decode_chain :: "string \<Rightarrow> string \<Rightarrow> string + ('key \<times> 'cert \<times> 'cert list)"
  tl_generate :: "nat \<Rightarrow> string + 'key"
  tl_marshal_public :: "'key \<Rightarrow> string + string"
  tl_sha1 :: "string \<Rightarrow> string"
  tl_create :: "cert_template \<Rightarrow> 'key \<Rightarrow> string + string"
  tl_now :: int

text \<open>\<open>tls.Certificate\<close> with the fields the program sets, and the struct \<open>TLS\<close> with its \<open>tls.Config\<close>.\<close>

record 'key tls_certificate =
  tc_der :: "string list"
  tc_key :: 'key

record ('key, 'cert) tls_bundle =
  tb_certificates :: "'key tls_certificate list"
  tb_min_version :: string
  tb_next_protos :: "string list"
  tb_chain :: "'cert list"

section \<open>The self-signed certificate\<close>

definition year_nanos :: int where "year_nanos = 365 * 24 * 3600 * 1000000000"

definition localhost_template :: "int \<Rightarrow> string \<Rightarrow> cert_template" where
  "localhost_template now ski =
     \<lparr>ct_serial = now div 1000000, ct_common_name = ''localhost'', ct_not_before = now, ct_not_after = now + year_nanos,
      ct_constraints_valid = True, ct_is_ca = True, ct_key_usage = [DigitalSignature, CertSign], ct_ext_key_usage = [ServerAuth],
      ct_subject_key_id = ski, ct_dns_names = [''localhost''], ct_ip_addresses = [''127.0.0.1'']\<rparr>"

definition self_signed_certificate :: "('key, 'cert) tls_lib \<Rightarrow> string + 'key tls_certificate" where
  "self_signed_certificate lib =
     ebind (tl_generate lib 2048) (\<lambda>key.
       ebind (tl_marshal_public lib key) (\<lambda>spk.
         ebind (tl_create lib (localhost_template (tl_now lib) (tl_sha1 lib spk)) key) (\<lambda>der.
           Inr \<lparr>tc_der = [der], tc_key = key\<rparr>)))"

section \<open>NewTLS\<close>

text \<open>An error with the text of \<open>fmt.Errorf("...: %w", err)\<close> around it.\<close>

definition wrap_error :: "string \<Rightarrow> string + 'a \<Rightarrow> string + 'a" where
  "wrap_error msg r = (case r of Inl e \<Rightarrow> Inl (msg @ '': '' @ e) | Inr x \<Rightarrow> Inr x)"

fun parse_chain :: "('key, 'cert) tls_lib \<Rightarrow> string list \<Rightarrow> string + 'cert list" where
  "parse_chain lib [] = Inr []"
| "parse_chain lib (der # ders) =
     ebind (wrap_error ''parsing certificate chain'' (tl_parse lib der)) (\<lambda>c. ebind (parse_chain lib ders) (\<lambda>cs. Inr (c # cs)))"

fun read_source :: "('key, 'cert) tls_lib \<Rightarrow> cert_source \<Rightarrow> string + ('key tls_certificate \<times> 'cert list)" where
  "read_source lib (PemPair cert_file key_file) =
     ebind (wrap_error ''loading PEM certificate/key pair'' (tl_load_pair lib cert_file key_file)) (\<lambda>(ders, key).
       ebind (parse_chain lib ders) (\<lambda>chain. Inr (\<lparr>tc_der = ders, tc_key = key\<rparr>, chain)))"
| "read_source lib (Pkcs12 file password) =
     ebind (wrap_error ''reading keystore'' (tl_read_file lib file)) (\<lambda>data.
       ebind (wrap_error ''decoding PKCS12 keystore'' (tl_decode_chain lib data password)) (\<lambda>(priv, leaf, ca_certs).
         let chain = leaf # ca_certs in Inr (\<lparr>tc_der = map (tl_raw lib) chain, tc_key = priv\<rparr>, chain)))"
| "read_source lib (SelfSigned key_password) =
     ebind (self_signed_certificate lib) (\<lambda>generated.
       ebind (tl_parse lib (hd (tc_der generated))) (\<lambda>leaf. Inr (generated, [leaf])))"

definition build_tls :: "('key, 'cert) tls_lib \<Rightarrow> ssl_settings \<Rightarrow> tls_error + ('key, 'cert) tls_bundle" where
  "build_tls lib opts =
     ebind (cert_source_of opts) (\<lambda>src.
       case read_source lib src of
         Inl e \<Rightarrow> Inl (SourceError e)
       | Inr (cert, chain) \<Rightarrow>
           Inr \<lparr>tb_certificates = [cert], tb_min_version = ''1.2'', tb_next_protos = [''http/1.1''], tb_chain = chain\<rparr>)"

text \<open>\<open>TrustPool\<close>: a pool is a set of certificates, here without repetitions in the order of insertion.\<close>

definition trust_pool :: "('key, 'cert) tls_bundle \<Rightarrow> 'cert list" where
  "trust_pool t = fold (\<lambda>c pool. if c \<in> set pool then pool else pool @ [c]) (tb_chain t) []"

section \<open>What a client of the server itself trusts\<close>

lemma parse_chain_raw:
  "(\<And>der c. tl_parse lib der = Inr c \<Longrightarrow> tl_raw lib c = der) \<Longrightarrow> parse_chain lib ders = Inr chain \<Longrightarrow> map (tl_raw lib) chain = ders"
  by (induction ders arbitrary: chain) (auto simp: ebind_def wrap_error_def split: sum.splits)

lemma self_signed_one: "self_signed_certificate lib = Inr c \<Longrightarrow> length (tc_der c) = 1"
  by (auto simp: self_signed_certificate_def ebind_def split: sum.splits)

lemma trust_pool_set: "set (trust_pool t) = set (tb_chain t)"
proof -
  have "set (fold (\<lambda>c pool. if c \<in> set pool then pool else pool @ [c]) cs pool) = set cs \<union> set pool" for cs :: "'a list" and pool
    by (induction cs arbitrary: pool) auto
  then show ?thesis by (simp add: trust_pool_def)
qed

text \<open>
  \<open>x509.ParseCertificate\<close> keeps the encoding it parsed in \<open>Raw\<close>. Then the one certificate the handshake presents is, for every source, the encoding
  of the chain in the trust pool, so a client inside the server trusts exactly what the server shows.
\<close>

lemma presented_chain_trusted:
  assumes raw: "\<And>der c. tl_parse lib der = Inr c \<Longrightarrow> tl_raw lib c = der" and t: "build_tls lib opts = Inr t"
  shows "\<exists>cert. tb_certificates t = [cert] \<and> tc_der cert = map (tl_raw lib) (tb_chain t) \<and> set (tc_der cert) = tl_raw lib ` set (trust_pool t)"
proof -
  obtain src cert chain where s: "read_source lib src = Inr (cert, chain)" and b: "tb_certificates t = [cert]" "tb_chain t = chain"
    using t by (auto simp: build_tls_def ebind_def split: sum.splits)
  have "tc_der cert = map (tl_raw lib) chain"
  proof (cases src)
    case (PemPair cf kf)
    then show ?thesis using s parse_chain_raw[OF raw] by (auto simp: ebind_def wrap_error_def split: sum.splits prod.splits)
  next
    case (Pkcs12 f p)
    then show ?thesis using s by (auto simp: ebind_def wrap_error_def Let_def split: sum.splits prod.splits)
  next
    case (SelfSigned p)
    then obtain leaf where g: "self_signed_certificate lib = Inr cert" "tl_parse lib (hd (tc_der cert)) = Inr leaf" "chain = [leaf]"
      using s by (auto simp: ebind_def split: sum.splits)
    then show ?thesis using raw[OF g(2)] self_signed_one[OF g(1)] by (cases "tc_der cert") auto
  qed
  then show ?thesis using b trust_pool_set[of t] by auto
qed

text \<open>The certificate made for a server without a source is valid at the moment it is made and for a year, for the names a local client uses.\<close>

lemma self_signed_template:
  assumes "self_signed_certificate lib = Inr c"
  shows "\<exists>tpl der. tl_create lib tpl (tc_key c) = Inr der \<and> tc_der c = [der] \<and> ct_not_before tpl \<le> tl_now lib \<and> tl_now lib < ct_not_after tpl \<and>
    ct_not_after tpl - ct_not_before tpl < 2 ^ 63 \<and> ''localhost'' \<in> set (ct_dns_names tpl) \<and> ''127.0.0.1'' \<in> set (ct_ip_addresses tpl) \<and>
    ct_is_ca tpl \<and> CertSign \<in> set (ct_key_usage tpl)"
proof -
  obtain key spk der where k: "tl_generate lib 2048 = Inr key" "tl_marshal_public lib key = Inr spk"
    "tl_create lib (localhost_template (tl_now lib) (tl_sha1 lib spk)) key = Inr der" "c = \<lparr>tc_der = [der], tc_key = key\<rparr>"
    using assms by (auto simp: self_signed_certificate_def ebind_def split: sum.splits)
  let ?t = "localhost_template (tl_now lib) (tl_sha1 lib spk)"
  have t: "ct_not_before ?t = tl_now lib" "ct_not_after ?t = tl_now lib + year_nanos" "ct_dns_names ?t = [''localhost'']"
    "ct_ip_addresses ?t = [''127.0.0.1'']" "ct_is_ca ?t" "CertSign \<in> set (ct_key_usage ?t)" "0 < year_nanos" "year_nanos < 2 ^ 63"
    by (simp_all add: localhost_template_def year_nanos_def)
  show ?thesis by (rule exI[of _ ?t], rule exI[of _ der]) (use k t in simp)
qed

text \<open>Startup keeps of the bundle the chain, by its encodings, and the protocols.\<close>

definition source_reader :: "('key, 'cert) tls_lib \<Rightarrow> cert_source \<Rightarrow> string + string list" where
  "source_reader lib src = ebind (read_source lib src) (\<lambda>(cert, chain). Inr (map (tl_raw lib) chain))"

lemma new_tls_refines:
  "new_tls (source_reader lib) opts =
   ebind (build_tls lib opts) (\<lambda>t. Inr \<lparr>ts_certificates = map (tl_raw lib) (tb_chain t), ts_next_protos = tb_next_protos t\<rparr>)"
  by (auto simp: new_tls_def build_tls_def source_reader_def ebind_def split: sum.split prod.split)

end
