(* ===== verification/Admin_Assets.thy ===== *)
theory Admin_Assets
  imports Admin_Api
begin

text \<open>
  The table of the embedded files that the admin console builds when the program starts (\<open>init\<close> in internal/adminui/adminui.go), and that
  its handler serves from it what \<open>serve_asset\<close> of Admin_Api says. The embedded directory is an argument: its entries in
  order, and the content of a file. A panic of \<open>init\<close>, which ends the program, is an error value.
\<close>

record web_file =
  wf_body :: string
  wf_type :: string

record embedded_entry =
  em_name :: string
  em_dir :: bool

datatype asset_panic = DirUnreadable string | AssetUnreadable string string | IndexMissing

record asset_table =
  at_assets :: "(string, web_file) gomap"
  at_index :: "string option"

text \<open>The type of a file, for the order in which Go happens to range over the table of extensions.\<close>

definition content_type_for :: "(string \<times> string) list \<Rightarrow> string \<Rightarrow> string" where
  "content_type_for order name =
     (case find (\<lambda>(ext, _). length ext \<le> length name \<and> drop (length name - length ext) name = ext) order of
        Some (_, t) \<Rightarrow> t
      | None \<Rightarrow> ''application/octet-stream'')"

fun add_entries :: "(string \<times> string) list \<Rightarrow> (string \<Rightarrow> string + string) \<Rightarrow> embedded_entry list \<Rightarrow> asset_table \<Rightarrow> asset_panic + asset_table" where
  "add_entries order file [] t = Inr t"
| "add_entries order file (e # es) t =
     (if em_dir e then add_entries order file es t
      else (case file (''static/'' @ em_name e) of
              Inl err \<Rightarrow> Inl (AssetUnreadable (em_name e) err)
            | Inr body \<Rightarrow>
                add_entries order file es
                  \<lparr>at_assets = map_put (''/'' @ em_name e) \<lparr>wf_body = body, wf_type = content_type_for order (em_name e)\<rparr> (at_assets t),
                   at_index = (if em_name e = ''index.html'' then Some body else at_index t)\<rparr>))"

definition init_assets :: "(string \<times> string) list \<Rightarrow> string + embedded_entry list \<Rightarrow> (string \<Rightarrow> string + string) \<Rightarrow> asset_panic + asset_table" where
  "init_assets order entries file =
     (case entries of
        Inl err \<Rightarrow> Inl (DirUnreadable err)
      | Inr es \<Rightarrow>
          ebind (add_entries order file es \<lparr>at_assets = [], at_index = None\<rparr>) (\<lambda>t.
            if at_index t = None then Inl IndexMissing else Inr t))"

definition serve_from :: "asset_table \<Rightarrow> string \<Rightarrow> response" where
  "serve_from t name =
     (case map_get (at_assets t) (''/'' @ name) of
        None \<Rightarrow> api_not_found
      | Some f \<Rightarrow>
          (set_header ''X-Frame-Options'' ''DENY'' (set_header ''Content-Security-Policy'' csp
             (set_header ''Cache-Control'' ''no-cache'' (set_header ''Content-Type'' (wf_type f) (new_response 200)))))
            \<lparr>rs_body := wf_body f\<rparr>)"

section \<open>The order of the extensions does not matter\<close>

text \<open>No extension of the table ends another one, so at most one of them fits a name.\<close>

lemma one_extension:
  assumes "(e1, t1) \<in> set asset_types" "(e2, t2) \<in> set asset_types" "has_suffix name e1" "has_suffix name e2"
  shows "e1 = e2 \<and> t1 = t2"
proof -
  obtain a where a: "name = a @ e1" using assms(3) by (auto simp: has_suffix_iff)
  moreover obtain b where "name = b @ e2" using assms(4) by (auto simp: has_suffix_iff)
  ultimately have "has_suffix e1 e2 \<or> has_suffix e2 e1" by (auto simp: has_suffix_iff append_eq_append_conv2)
  moreover have "list_all (\<lambda>x. list_all (\<lambda>y. fst x = fst y \<or> \<not> has_suffix (fst x) (fst y)) asset_types) asset_types" by code_simp
  then have "fst x = fst y \<or> \<not> has_suffix (fst x) (fst y)" if "x \<in> set asset_types" "y \<in> set asset_types" for x y
    using that unfolding list_all_iff by blast
  from this[OF assms(1,2)] this[OF assms(2,1)] have "e1 = e2 \<or> \<not> has_suffix e1 e2 \<and> \<not> has_suffix e2 e1" by auto
  ultimately have "e1 = e2" by blast
  moreover have "distinct (map fst asset_types)" by code_simp
  ultimately show ?thesis using assms(1,2) by (metis eq_key_imp_eq_value)
qed

lemma find_only:
  "(\<And>x y. x \<in> set xs \<Longrightarrow> y \<in> set xs \<Longrightarrow> P x \<Longrightarrow> P y \<Longrightarrow> x = y) \<Longrightarrow> set ys = set xs \<Longrightarrow> find P ys = find P xs"
proof -
  assume one: "\<And>x y. x \<in> set xs \<Longrightarrow> y \<in> set xs \<Longrightarrow> P x \<Longrightarrow> P y \<Longrightarrow> x = y" and s: "set ys = set xs"
  show ?thesis
  proof (cases "find P xs")
    case None
    then have "find P ys = None" using s by (simp add: find_None_iff)
    then show ?thesis using None by simp
  next
    case (Some x)
    then have x: "x \<in> set xs" "P x" by (auto simp: find_Some_iff)
    then obtain y where y: "find P ys = Some y" using s by (cases "find P ys") (auto simp: find_None_iff)
    then have "y \<in> set xs" "P y" using s by (auto simp: find_Some_iff)
    then show ?thesis using one[of x y] x y Some by simp
  qed
qed

lemma suffix_by_slice: "(length ext \<le> length name \<and> drop (length name - length ext) name = ext) \<longleftrightarrow> has_suffix name ext"
  by (auto simp: has_suffix_iff) (metis append_take_drop_id)

lemma content_type_order: "set order = set asset_types \<Longrightarrow> content_type_for order name = asset_type name"
proof -
  assume s: "set order = set asset_types"
  have "find (\<lambda>(ext, _). has_suffix name ext) order = find (\<lambda>(ext, _). has_suffix name ext) asset_types"
    by (rule find_only[OF _ s]) (auto dest: one_extension)
  then show ?thesis by (simp add: content_type_for_def asset_type_def suffix_by_slice)
qed

section \<open>What is served\<close>

definition loaded_files :: "embedded_entry list \<Rightarrow> (string \<Rightarrow> string + string) \<Rightarrow> (string \<times> string) list" where
  "loaded_files es file = map (\<lambda>e. (em_name e, case file (''static/'' @ em_name e) of Inr b \<Rightarrow> b | Inl _ \<Rightarrow> [])) (filter (\<lambda>e. \<not> em_dir e) es)"

lemma add_entries_get:
  "add_entries order file es t = Inr t' \<Longrightarrow>
   map_get (at_assets t') (''/'' @ name) =
     (case map_of (rev (loaded_files es file)) name of
        Some b \<Rightarrow> Some \<lparr>wf_body = b, wf_type = content_type_for order name\<rparr>
      | None \<Rightarrow> map_get (at_assets t) (''/'' @ name))"
  by (induction es arbitrary: t) (auto simp: loaded_files_def map_add_def split: sum.splits if_splits option.splits)

text \<open>
  The names in a directory are distinct. Then the handler serves from the table exactly what the console of the model serves from the files,
  whatever the order of the extensions, and the program does not start without the page \<open>index.html\<close>.
\<close>

lemma served_as_modelled:
  assumes t: "init_assets order (Inr es) file = Inr t" and order: "set order = set asset_types"
    and names: "distinct (map em_name es)" and files: "ax_files env = loaded_files es file"
  shows "serve_from t name = serve_asset env name"
proof -
  have a: "add_entries order file es \<lparr>at_assets = [], at_index = None\<rparr> = Inr t"
    using t by (auto simp: init_assets_def ebind_def split: sum.splits if_splits)
  have "map fst (loaded_files es file) = map em_name (filter (\<lambda>e. \<not> em_dir e) es)" by (simp add: loaded_files_def)
  then have "distinct (map fst (loaded_files es file))" using names by (simp add: distinct_map inj_on_def)
  then have "map_of (rev (loaded_files es file)) name = map_of (loaded_files es file) name"
    by (metis map_of_inject_set distinct_rev rev_map set_rev)
  then show ?thesis using add_entries_get[OF a, of name]
    by (simp add: serve_from_def serve_asset_def files content_type_order[OF order] split: option.splits)
qed

lemma add_entries_index:
  "add_entries order file es t = Inr t' \<Longrightarrow> at_index t' \<noteq> None \<Longrightarrow> at_index t \<noteq> None \<or> (\<exists>b. (''index.html'', b) \<in> set (loaded_files es file))"
  by (induction es arbitrary: t) (fastforce simp: loaded_files_def split: sum.splits if_splits)+

lemma index_present: "init_assets order (Inr es) file = Inr t \<Longrightarrow> \<exists>b. (''index.html'', b) \<in> set (loaded_files es file)"
  by (auto simp: init_assets_def ebind_def split: sum.splits if_splits dest: add_entries_index)

end
