(* ===== verification/Spec2Isabelle.thy ===== *)
theory Spec2Isabelle
  imports Entra_Store_Laws Entra_Rule_Laws Entra_Running Login_Directory Admin_Laws Server_Gate Startup_Laws Token_Random
    Entra_Heap Token_Lock Token_Regex Grant_Races Tls_Setup Admin_Assets
begin

text \<open>
  A model of mock-oidc, a mock OpenID Connect provider with an emulation of Microsoft Entra ID, and the
  theorems that make it correct.

  \<^bold>\<open>The program.\<close> One process serves three surfaces behind one router (internal/routing):
    \<^item> the built-in issuers: any path prefix is an issuer, with discovery, sign-in, the token endpoint, user
      information, introspection, logout, revocation and a client debugger (internal/server, oauth2, grant, token,
      userinfo, introspect, login, debugger);
    \<^item> Entra mode (internal/entra), a front route below one base path: tenants and users of a directory, sign-in
      pages with admin consent, v2 tokens, key rotation, and a part of Microsoft Graph with OData paging and filters;
    \<^item> the admin console (internal/adminui), a front route: a JSON API and an MCP endpoint over the runtime
      settings, the directory of Entra mode and the login directory (internal/directory).
  The standalone program (cmd/mock-oidc) and the library facade (mockoidc.go) load the configuration (internal/config),
  build the server and put it behind a listener that serves TLS and plain HTTP on one port (internal/httpserver).

  \<^bold>\<open>Theories, bottom up.\<close>
    \<^item> Go_Prelude, Go_Net, Go_Url, Server_Paths: the parts of the Go library the program uses (strings, maps, error
      returns, base64, url.Values, url.Parse, path/filepath). Jsonx: internal/jsonx.
    \<^item> Oauth2, Oauth2_Laws, Routing: internal/oauth2, routing and cors. A request is the record \<open>request\<close>; a handler ends with a
      response or a panic (\<open>go_panic\<close>) and the new state; \<open>serve_http\<close> is \<open>Router.ServeHTTP\<close>.
    \<^item> Entra_Types (config.go, uuid.go), Entra_Directory (directory.go), Entra_Rule (rule.go), Entra_Normalize
      (\<open>Config.normalize\<close>), Entra_Store (store.go), Entra_Consent (consent.go), Entra_Keys (keys.go, token/sign.go), Entra_Claims (claims.go),
      Entra_Verify (verify.go), Entra_Authorize (authorize.go), Entra_Token (token.go, appcreds.go, adminconsent.go),
      Entra_Heap (the pointers and slices behind the snapshots of store.go), Entra_Entity, Entra_Filter, Entra_Odata,
      Entra_Graph (graph.go, filter.go, odata.go, userinfo.go), Entra_Handler
      (handler.go, testapi.go), Entra_Admin (admin.go), Entra_Errors (error texts). The handler's state is \<open>entra_state\<close>; \<open>entra_step\<close> is
      one request or administrative operation and \<open>entra_reach\<close> its closure.
    \<^item> Token_Keys, Token_Lock, Token_Jwk (keyprovider.go), Token_Callback, Token_Regex (callback.go), Token_Provider (tokenprovider.go), Token_Random (token/util.go),
      Token_Grants (internal/grant), Grant_Races (its requests interleaved), Token_Endpoints (userinfo, introspect, login). Their state is \<open>oidc\<close>: keys, codes with the requests and
      logins behind them, refresh tokens, the queue of library callbacks and two flags.
    \<^item> Login_Directory (internal/directory), Server_State (the state \<open>server\<close> = \<open>oidc\<close> with the Entra handler, its gate and the login
      directory), Admin_Api, Admin_Assets (adminui.go), Admin_Tools (mcp_tools.go, mcp_schema.go), Admin_Mcp (mcp.go), Debugger (internal/debugger),
      Server (server.go; \<open>serve\<close> is one request through the route table).
    \<^item> Config_Load (internal/config), Listener (dual.go, \<open>FromHTTPRequest\<close>), Startup (main.go, mockoidc.go), Tls_Setup (tls.go).
    \<^item> Theories ending in Laws, and Entra_Panics, Entra_Running, Server_Runs, Server_Codes, Server_Tokens, Server_Gate, hold
      the theorems; Entra_Sample and Server_Sample the concrete inputs the properties are applied at.

  \<^bold>\<open>Interfaces.\<close> \<open>keyed_store\<close> (a store with lookup, insert, delete; interpreted by Go maps), \<open>validated_store\<close> (a normalization whose results
    are valid and stable; interpreted by \<open>normalize\<close>), \<open>deep_copy\<close> (a copy that shares no memory; interpreted by the clone of every struct of
    the configuration), \<open>user_registry\<close> (interpreted by the login directory), \<open>state_kept\<close> (a property every
    change of the admin console keeps) and its extension \<open>run_kept\<close> (kept by every change of a server). The
    last two carry a property through all handlers once; their interpretations are the invariant of the server, the frame of the built-in issuers,
    a spent code, a spent refresh token, the algorithm and the published keys.

  \<^bold>\<open>What the theorems show.\<close>
    \<^item> State: snapshots of the configuration store are valid and a rejected change publishes nothing; a reachable Entra
      handler is well formed; a server's Entra handler moves only by its own steps, and the requests it
      leaves unanswered are known (an account removed before its code is redeemed, a page limit near the end of the 64-bit range); one key per issuer under
      every interleaving of concurrent requests, each of which returns: the mutex of the key pool never deadlocks and keeps
      its critical section atomic; keys fit the configured algorithm.
    \<^item> Codes and tokens: a code is redeemed once, for the client, redirect URI and PKCE challenge it was issued
      for; revoked and rotated refresh tokens stay rejected; a verified token is signed with the published key; a sign-in leads
      through code and token to user information or to Graph, with the account that signed in.
    \<^item> Access: codes only with consent and without an injected error of the authorize endpoint; consent only by a POST of an administrator, for the
      tenant of that administrator and the client of the request; Graph answers depend on
      the caller's tenant alone; the MCP endpoint changes the server only through a tool; the gate of Entra mode; static files
      stay below their root; the debugger redirects to and sends to this server only.
    \<^item> Languages: membership rules and filters parse totally, and printing is inverted; paging visits every item once.
    \<^item> Agreement: user information and introspection, the JSON API and the MCP tools.
    \<^item> Startup: a server started from any accepted configuration is sound in every later state; the listener neither loses nor repeats a byte.

  \<^bold>\<open>Bounds and fuel.\<close> The parsers of membership rules and filters recurse mutually and carry fuel; the entry points supply
  \<open>rule_parse_fuel\<close> and its counterpart for filters, linear in the number of tokens, and the parsers are proved to end
  within it on every token list. Every other recursion is structural or has a termination proof. Integers of the code are \<open>int\<close> with
  the wrap-around written out (\<open>wrap64\<close>) where a value of the outside enters an addition: the skip of a page, durations and the
  numbers of a JWK.

  \<^bold>\<open>Concurrency.\<close> \<open>serve\<close> takes requests one after the other. Where a handler performs several atomic operations on shared tables, a theory of
  its own interleaves them: the key of a new issuer (\<open>kp_step\<close>, and \<open>lk_step\<close> with the mutex
  and the accesses it protects as steps of their own), authorizations, redemptions, refreshes and revocations (\<open>race_step\<close>), the
  expression of a request mapping (\<open>regex_step\<close>). Codes survive this, with the request and login they were issued for;
  refresh-token rotation and the mapping expressions do not (\<open>rotated_twice\<close>, \<open>revocation_lost\<close>, \<open>regex_missed\<close>). The Entra store is copied on
  write under a mutex; in Entra_Heap an edit writes any memory the copy leads to, and since the copy is deep that is never memory of a snapshot a
  reader still holds (a shallow copy would leak, \<open>shallow_copy_leaks\<close>); deletion
  and creation of a user in place do what the functions on values do.

  \<^bold>\<open>Arguments of the model.\<close> Cryptography (hashes, RSA and ECDSA signatures, AES-GCM), JSON decoding, HTML templates, regular expressions
  of request mappings, the clock, random bytes, the order of map iteration, files, certificates and the network. What a theorem needs of
  them is a named hypothesis: signatures verify under the key that made them (\<open>sound_signature\<close>), decoding inverts
  encoding at the value in question, and random identifiers do not repeat.

  \<^bold>\<open>Not modelled.\<close> Logging, signal handling, the start and stop of net/http, the TLS protocol, the encoding of
  certificates, the contents of the embedded HTML and JSON files, non-ASCII case folding, user info and IP literals
  in the validation of \<open>url.Parse\<close>, floating-point JSON numbers, and the demo files.
\<close>

end
